(* ===== verification/Prelude.thy ===== *)
theory Prelude
  imports Complex_Main "HOL-Library.Sublist"
begin

text \<open>
  Shared vocabulary of the development: Python values and the few standard-library
  operations the back end uses (string stripping, case folding, prefix tests, list
  slicing, integer truncation, rounding), and the generic lemmas on lists, maps and sums
  that the component theories rest on.

  A Python \<open>float\<close> is modelled by an exact \<^typ>\<open>real\<close> (IEEE rounding is not modelled), a
  Python \<open>int\<close> by \<^typ>\<open>int\<close> or, where it is a length or a count, by \<^typ>\<open>nat\<close>; a string is a
  list of characters; a raised exception is the left summand of a sum.
\<close>

section \<open>Types\<close>

type_synonym pyfloat = real

type_synonym ident = string

section \<open>Lemma collections\<close>

named_theorems inv_intros \<open>introduction rules for component invariants\<close>
named_theorems frame_simps \<open>fields and entries an operation does not write\<close>

section \<open>Results\<close>

definition bind_result :: "'e + 'a \<Rightarrow> ('a \<Rightarrow> 'e + 'b) \<Rightarrow> 'e + 'b" where
  "bind_result r f = (case r of Inl e \<Rightarrow> Inl e | Inr x \<Rightarrow> f x)"

lemma bind_result_simps [simp]:
  "bind_result (Inl e) f = Inl e"
  "bind_result (Inr x) f = f x"
  by (simp_all add: bind_result_def)

lemma case_unit_const [simp]: "(case u of () \<Rightarrow> x) = x"
  by (rule unit.exhaust[of u]) (simp only: unit.case)

lemma bind_result_Inr_iff:
  "bind_result r f = Inr y \<longleftrightarrow> (\<exists>x. r = Inr x \<and> f x = Inr y)"
  by (cases r) auto

section \<open>Strings\<close>

text \<open>Python's whitespace among the ASCII characters: space, tab to return, and the four
  information separators.\<close>

definition is_space :: "char \<Rightarrow> bool" where
  "is_space c \<longleftrightarrow> (let n = (of_char c :: nat) in n = 32 \<or> (9 \<le> n \<and> n \<le> 13) \<or> (28 \<le> n \<and> n \<le> 31))"

definition lstrip_by :: "('a \<Rightarrow> bool) \<Rightarrow> 'a list \<Rightarrow> 'a list" where
  "lstrip_by p s = dropWhile p s"

definition rstrip_by :: "('a \<Rightarrow> bool) \<Rightarrow> 'a list \<Rightarrow> 'a list" where
  "rstrip_by p s = rev (dropWhile p (rev s))"

definition py_strip :: "string \<Rightarrow> string" where
  "py_strip s = rstrip_by is_space (lstrip_by is_space s)"

definition lower_char :: "char \<Rightarrow> char" where
  "lower_char c = (let n = (of_char c :: nat) in if 65 \<le> n \<and> n \<le> 90 then char_of (n + 32) else c)"

definition py_lower :: "string \<Rightarrow> string" where
  "py_lower s = map lower_char s"

definition py_startswith :: "'a list \<Rightarrow> 'a list \<Rightarrow> bool" where
  "py_startswith s p \<longleftrightarrow> take (length p) s = p"

text \<open>\<open>s.split(c)\<close>: the fields between the separators, at least one.\<close>

fun py_split :: "'a \<Rightarrow> 'a list \<Rightarrow> 'a list list" where
  "py_split c [] = [[]]"
| "py_split c (x # xs) =
     (if x = c then [] # py_split c xs
      else (case py_split c xs of [] \<Rightarrow> [[x]] | f # fs \<Rightarrow> (x # f) # fs))"

text \<open>The text before and after the first occurrence of a substring.\<close>

fun cut_at :: "'a list \<Rightarrow> 'a list \<Rightarrow> ('a list \<times> 'a list) option" where
  "cut_at p [] = (if p = [] then Some ([], []) else None)"
| "cut_at p (x # xs) =
     (if py_startswith (x # xs) p then Some ([], drop (length p) (x # xs))
      else map_option (\<lambda>(a, b). (x # a, b)) (cut_at p xs))"

lemma py_startswith_append [simp]: "py_startswith (p @ s) p"
  by (simp add: py_startswith_def)

lemma cut_at_sound: "cut_at p s = Some (a, b) \<Longrightarrow> s = a @ p @ b"
proof (induction p s arbitrary: a b rule: cut_at.induct)
  case (2 p x xs)
  then show ?case
    by (auto simp: py_startswith_def split: if_splits) (metis append_take_drop_id)
qed (auto split: if_splits)

text \<open>\<open>x or y\<close> on an optional string: an empty string counts as absent.\<close>

definition or_none :: "'a list option \<Rightarrow> 'a list option" where
  "or_none s = (case s of Some [] \<Rightarrow> None | _ \<Rightarrow> s)"

lemma rstrip_by_prefix: "prefix (rstrip_by p s) s"
proof -
  have "suffix (dropWhile p (rev s)) (rev s)" by (rule suffix_dropWhile)
  then show ?thesis by (simp add: rstrip_by_def suffix_to_prefix)
qed

lemma set_rstrip_by_subset: "set (rstrip_by p s) \<subseteq> set s"
  by (rule set_mono_prefix[OF rstrip_by_prefix])

lemma set_lstrip_by_subset: "set (lstrip_by p s) \<subseteq> set s"
  by (auto simp: lstrip_by_def dest: set_dropWhileD)

lemma set_py_strip_subset: "set (py_strip s) \<subseteq> set s"
  unfolding py_strip_def by (rule subset_trans[OF set_rstrip_by_subset set_lstrip_by_subset])

lemma length_rstrip_by: "length (rstrip_by p s) \<le> length s"
  by (rule prefix_length_le[OF rstrip_by_prefix])

lemma length_py_strip: "length (py_strip s) \<le> length s"
  unfolding py_strip_def lstrip_by_def
  by (rule le_trans[OF length_rstrip_by length_dropWhile_le])

lemma length_py_lower [simp]: "length (py_lower s) = length s"
  by (simp add: py_lower_def)

text \<open>Decimal digits: \<open>str(n)\<close> of a natural number and its inverse.\<close>

definition is_digit :: "char \<Rightarrow> bool" where
  "is_digit c \<longleftrightarrow> (let n = (of_char c :: nat) in 48 \<le> n \<and> n \<le> 57)"

definition digit_val :: "char \<Rightarrow> nat" where
  "digit_val c = of_char c - 48"

definition digit_char :: "nat \<Rightarrow> char" where
  "digit_char d = char_of (48 + d)"

fun show_nat :: "nat \<Rightarrow> string" where
  "show_nat n = (if n < 10 then [digit_char n] else show_nat (n div 10) @ [digit_char (n mod 10)])"

declare show_nat.simps [simp del]

definition show_int :: "int \<Rightarrow> string" where
  "show_int i = (if i < 0 then CHR ''-'' # show_nat (nat (- i)) else show_nat (nat i))"

definition read_nat :: "string \<Rightarrow> nat" where
  "read_nat s = foldl (\<lambda>acc c. acc * 10 + digit_val c) 0 s"

lemma digit_char_props:
  assumes "d < 10"
  shows "is_digit (digit_char d)" "digit_val (digit_char d) = d"
proof -
  have "of_char (digit_char d) = (48 + d :: nat)" using assms by (simp add: digit_char_def)
  then show "is_digit (digit_char d)" "digit_val (digit_char d) = d"
    using assms by (simp_all add: is_digit_def digit_val_def Let_def)
qed

lemma show_nat_not_Nil [simp]: "show_nat n \<noteq> []"
  by (subst show_nat.simps) simp

lemma read_show_nat: "read_nat (show_nat n) = n"
proof (induction n rule: show_nat.induct)
  case (1 n)
  show ?case
  proof (cases "n < 10")
    case True
    then show ?thesis by (subst show_nat.simps) (simp add: read_nat_def digit_char_props)
  next
    case False
    then show ?thesis using 1[OF False]
      by (subst show_nat.simps) (simp add: read_nat_def digit_char_props)
  qed
qed

lemma show_nat_digits: "c \<in> set (show_nat n) \<Longrightarrow> is_digit c"
proof (induction n rule: show_nat.induct)
  case (1 n)
  then show ?case
    using show_nat.simps[of n] digit_char_props[of n] digit_char_props[of "n mod 10"]
    by (auto split: if_splits)
qed

section \<open>Lists\<close>

lemma bex_set_map: "(\<exists>y \<in> set (map g xs). p y) \<longleftrightarrow> (\<exists>x \<in> set xs. p (g x))"
  by simp

lemma ball_set_map: "(\<forall>y \<in> set (map g xs). p y) \<longleftrightarrow> (\<forall>x \<in> set xs. p (g x))"
  by simp

section \<open>Numbers\<close>

text \<open>\<open>int(x)\<close> truncates towards zero; \<open>round(x, 3)\<close> rounds to even at three decimals.\<close>

definition py_int :: "pyfloat \<Rightarrow> int" where
  "py_int x = (if 0 \<le> x then \<lfloor>x\<rfloor> else \<lceil>x\<rceil>)"

definition round_half_even :: "pyfloat \<Rightarrow> int" where
  "round_half_even x =
     (let f = \<lfloor>x\<rfloor>; d = x - of_int f
      in if d < 1 / 2 then f else if 1 / 2 < d then f + 1 else if even f then f else f + 1)"

definition round3 :: "pyfloat \<Rightarrow> pyfloat" where
  "round3 x = of_int (round_half_even (x * 1000)) / 1000"

lemma round_half_even_of_int [simp]: "round_half_even (of_int n) = n"
  by (simp add: round_half_even_def)

lemma round_half_even_cases: "round_half_even x = \<lfloor>x\<rfloor> \<or> round_half_even x = \<lfloor>x\<rfloor> + 1"
  by (auto simp: round_half_even_def Let_def)

lemma round_half_even_le: "x \<le> of_int n \<Longrightarrow> round_half_even x \<le> n"
proof -
  assume a: "x \<le> of_int n"
  show ?thesis
  proof (cases "x = of_int n")
    case True then show ?thesis by simp
  next
    case False
    with a have "\<lfloor>x\<rfloor> < n" by linarith
    then show ?thesis using round_half_even_cases[of x] by auto
  qed
qed

lemma round_half_even_ge: "of_int n \<le> x \<Longrightarrow> n \<le> round_half_even x"
  using round_half_even_cases[of x] le_floor_iff[of n x] by linarith

lemma round3_bounds:
  assumes "of_int a / 1000 \<le> x" "x \<le> of_int b / 1000"
  shows "of_int a / 1000 \<le> round3 x \<and> round3 x \<le> of_int b / 1000"
proof -
  have "of_int a \<le> x * 1000" "x * 1000 \<le> of_int b" using assms by simp_all
  then have "a \<le> round_half_even (x * 1000)" "round_half_even (x * 1000) \<le> b"
    by (simp_all add: round_half_even_ge round_half_even_le)
  then show ?thesis by (simp add: round3_def divide_right_mono)
qed

text \<open>\<open>sep.join(xs)\<close>.\<close>

fun join_with :: "string \<Rightarrow> string list \<Rightarrow> string" where
  "join_with sep [] = []"
| "join_with sep [x] = x"
| "join_with sep (x # y # xs) = x @ sep @ join_with sep (y # xs)"

lemma find_append: "List.find p (xs @ ys) = (case List.find p xs of None \<Rightarrow> List.find p ys | Some x \<Rightarrow> Some x)"
  by (induction xs) auto

lemma find_SomeD: "List.find p xs = Some x \<Longrightarrow> x \<in> set xs \<and> p x"
  by (auto simp: find_Some_iff)

lemma find_distinct:
  assumes "distinct (map f xs)" "x \<in> set xs"
  shows "List.find (\<lambda>y. f y = f x) xs = Some x"
  using assms by (induction xs) force+

lemma sort_key_cong_on: "(\<And>x y. x \<in> set xs \<Longrightarrow> y \<in> set xs \<Longrightarrow> f x \<le> f y \<longleftrightarrow> g x \<le> g y) \<Longrightarrow> sort_key f xs = sort_key g xs"
proof (induction xs)
  case (Cons x xs)
  have "insort_key f x ys = insort_key g x ys" if "set ys \<subseteq> set xs" for ys
    using that Cons.prems by (induction ys) auto
  then show ?case using Cons by simp
qed simp

lemma map_sort_key: "map h (sort_key (\<lambda>x. k (h x)) xs) = sort_key k (map h xs)"
proof (induction xs)
  case (Cons x xs)
  have "map h (insort_key (\<lambda>x. k (h x)) x ys) = insort_key k (h x) (map h ys)" for ys by (induction ys) auto
  then show ?case using Cons by simp
qed simp

text \<open>The format \<open>.4f\<close>: four decimals, rounded half to even.\<close>

definition fixed4 :: "pyfloat \<Rightarrow> string" where
  "fixed4 x = (let n = nat \<bar>round_half_even (x * 10000)\<bar>; frac = show_nat (n mod 10000)
     in (if x < 0 then ''-'' else []) @ show_nat (n div 10000) @ ''.'' @ replicate (4 - length frac) CHR ''0'' @ frac)"

end
