(* ===== verification/AuthStore.thy ===== *)
theory AuthStore
  imports Prelude
begin

text \<open>
  The two Postgres tables of the authentication package: \<open>users\<close> (\<open>auth/store.py\<close>) and
  \<open>refresh_tokens\<close> (\<open>auth/refresh_store.py\<close>), with the constraints of \<open>auth/schema.py\<close>
  (primary keys, the unique index on the lower-cased email, the unique token hash, the foreign
  key). A table is the list of its rows; every operation is one SQL statement and so one atomic
  step on the tables. The instant \<open>now()\<close> and the generated UUIDs are arguments.
\<close>

section \<open>Rows and tables\<close>

type_synonym instant = int

record user_record =
  u_id :: ident
  u_email :: string
  u_password_hash :: string
  u_is_active :: bool
  u_created_at :: instant
  u_is_operator :: bool

record refresh_record =
  rt_id :: ident
  rt_user_id :: ident
  rt_token_hash :: string
  rt_issued_at :: instant
  rt_expires_at :: instant
  rt_revoked_at :: "instant option"

record auth_db =
  db_users :: "user_record list"
  db_tokens :: "refresh_record list"

datatype store_error = EmailAlreadyExistsError string | DatabaseError

definition is_revoked :: "refresh_record \<Rightarrow> bool" where
  "is_revoked r \<longleftrightarrow> rt_revoked_at r \<noteq> None"

definition is_expired :: "refresh_record \<Rightarrow> instant \<Rightarrow> bool" where
  "is_expired r now \<longleftrightarrow> rt_expires_at r \<le> now"

section \<open>The user store\<close>

definition get_by_email :: "auth_db \<Rightarrow> string \<Rightarrow> user_record option" where
  "get_by_email db email = List.find (\<lambda>u. py_lower (u_email u) = py_lower email) (db_users db)"

definition get_by_id :: "auth_db \<Rightarrow> ident \<Rightarrow> user_record option" where
  "get_by_id db uid = List.find (\<lambda>u. u_id u = uid) (db_users db)"

definition has_users :: "auth_db \<Rightarrow> bool" where
  "has_users db \<longleftrightarrow> db_users db \<noteq> []"

definition new_user :: "ident \<Rightarrow> string \<Rightarrow> string \<Rightarrow> instant \<Rightarrow> user_record" where
  "new_user uid email pw now =
     \<lparr>u_id = uid, u_email = email, u_password_hash = pw, u_is_active = True,
      u_created_at = now, u_is_operator = False\<rparr>"

text \<open>The \<open>INSERT\<close> itself: the unique index on \<open>lower(email)\<close> and the primary key decide.\<close>

definition insert_user_row :: "auth_db \<Rightarrow> user_record \<Rightarrow> store_error + auth_db" where
  "insert_user_row db u =
     (if \<exists>v \<in> set (db_users db). py_lower (u_email v) = py_lower (u_email u)
      then Inl (EmailAlreadyExistsError (u_email u))
      else if \<exists>v \<in> set (db_users db). u_id v = u_id u then Inl DatabaseError
      else Inr (db\<lparr>db_users := db_users db @ [u]\<rparr>))"

definition create_user :: "auth_db \<Rightarrow> ident \<Rightarrow> string \<Rightarrow> string \<Rightarrow> instant
    \<Rightarrow> store_error + (user_record \<times> auth_db)" where
  "create_user db uid email pw now =
     (case get_by_email db email of
        Some _ \<Rightarrow> Inl (EmailAlreadyExistsError email)
      | None \<Rightarrow>
          (let u = new_user uid email pw now
           in bind_result (insert_user_row db u) (\<lambda>db'. Inr (u, db'))))"

definition create_bootstrap_user :: "auth_db \<Rightarrow> ident \<Rightarrow> string \<Rightarrow> string \<Rightarrow> instant
    \<Rightarrow> user_record option \<times> auth_db" where
  "create_bootstrap_user db uid email pw now =
     (if db_users db = []
      then (let u = new_user uid email pw now in (Some u, db\<lparr>db_users := [u]\<rparr>))
      else (None, db))"

definition set_password :: "auth_db \<Rightarrow> string \<Rightarrow> string \<Rightarrow> user_record option \<times> auth_db" where
  "set_password db email pw =
     (let db' = db\<lparr>db_users := map (\<lambda>u. if py_lower (u_email u) = py_lower email
                                         then u\<lparr>u_password_hash := pw\<rparr> else u) (db_users db)\<rparr>
      in (get_by_email db' email, db'))"

section \<open>The refresh-token store\<close>

definition token_create :: "auth_db \<Rightarrow> ident \<Rightarrow> ident \<Rightarrow> string \<Rightarrow> instant \<Rightarrow> instant
    \<Rightarrow> store_error + (refresh_record \<times> auth_db)" where
  "token_create db tid uid h now expires =
     (if (\<exists>r \<in> set (db_tokens db). rt_token_hash r = h \<or> rt_id r = tid)
          \<or> (\<forall>u \<in> set (db_users db). u_id u \<noteq> uid)
      then Inl DatabaseError
      else (let r = \<lparr>rt_id = tid, rt_user_id = uid, rt_token_hash = h, rt_issued_at = now,
                     rt_expires_at = expires, rt_revoked_at = None\<rparr>
            in Inr (r, db\<lparr>db_tokens := db_tokens db @ [r]\<rparr>)))"

definition token_by_hash :: "auth_db \<Rightarrow> string \<Rightarrow> refresh_record option" where
  "token_by_hash db h = List.find (\<lambda>r. rt_token_hash r = h) (db_tokens db)"

definition revoke_row :: "instant \<Rightarrow> refresh_record \<Rightarrow> refresh_record" where
  "revoke_row now r = (if rt_revoked_at r = None then r\<lparr>rt_revoked_at := Some now\<rparr> else r)"

definition token_revoke :: "auth_db \<Rightarrow> ident \<Rightarrow> instant \<Rightarrow> bool \<times> auth_db" where
  "token_revoke db tid now =
     (length (filter (\<lambda>r. rt_id r = tid \<and> rt_revoked_at r = None) (db_tokens db)) = 1,
      db\<lparr>db_tokens := map (\<lambda>r. if rt_id r = tid then revoke_row now r else r) (db_tokens db)\<rparr>)"

definition revoke_all_for_user :: "auth_db \<Rightarrow> ident \<Rightarrow> instant \<Rightarrow> nat \<times> auth_db" where
  "revoke_all_for_user db uid now =
     (length (filter (\<lambda>r. rt_user_id r = uid \<and> rt_revoked_at r = None) (db_tokens db)),
      db\<lparr>db_tokens := map (\<lambda>r. if rt_user_id r = uid then revoke_row now r else r) (db_tokens db)\<rparr>)"

definition delete_expired :: "auth_db \<Rightarrow> instant \<Rightarrow> nat \<times> auth_db" where
  "delete_expired db now =
     (length (filter (\<lambda>r. rt_expires_at r < now) (db_tokens db)),
      db\<lparr>db_tokens := filter (\<lambda>r. \<not> rt_expires_at r < now) (db_tokens db)\<rparr>)"

section \<open>Table invariants\<close>

definition users_ok :: "auth_db \<Rightarrow> bool" where
  "users_ok db \<longleftrightarrow> distinct (map u_id (db_users db)) \<and>
     distinct (map (py_lower \<circ> u_email) (db_users db))"

definition tokens_ok :: "auth_db \<Rightarrow> bool" where
  "tokens_ok db \<longleftrightarrow> distinct (map rt_id (db_tokens db)) \<and>
     distinct (map rt_token_hash (db_tokens db))"

definition auth_ok :: "auth_db \<Rightarrow> bool" where
  "auth_ok db \<longleftrightarrow> users_ok db \<and> tokens_ok db"

definition token_active :: "auth_db \<Rightarrow> ident \<Rightarrow> bool" where
  "token_active db tid \<longleftrightarrow> (\<exists>r \<in> set (db_tokens db). rt_id r = tid \<and> \<not> is_revoked r)"

definition active_count :: "auth_db \<Rightarrow> ident \<Rightarrow> nat" where
  "active_count db uid = length (filter (\<lambda>r. rt_user_id r = uid \<and> \<not> is_revoked r) (db_tokens db))"

lemma is_revoked_revoke_row [simp]: "is_revoked (revoke_row now r)"
  by (simp add: revoke_row_def is_revoked_def)

lemma revoke_row_frame [frame_simps]:
  "rt_id (revoke_row now r) = rt_id r" "rt_user_id (revoke_row now r) = rt_user_id r"
  "rt_token_hash (revoke_row now r) = rt_token_hash r"
  "rt_expires_at (revoke_row now r) = rt_expires_at r"
  by (simp_all add: revoke_row_def)

lemma map_if_revoke_frame [frame_simps]:
  "map rt_id (map (\<lambda>r. if p r then revoke_row now r else r) rs) = map rt_id rs"
  "map rt_token_hash (map (\<lambda>r. if p r then revoke_row now r else r) rs) = map rt_token_hash rs"
  by (simp_all add: frame_simps)

lemma find_map_key:
  assumes "\<And>x. f (g x) = f x"
  shows "List.find (\<lambda>x. f x = k) (map g xs) = map_option g (List.find (\<lambda>x. f x = k) xs)"
  by (induction xs) (simp_all add: assms)

lemma insert_user_row_ok [inv_intros]:
  "users_ok db \<Longrightarrow> insert_user_row db u = Inr db' \<Longrightarrow> users_ok db'"
  by (auto simp: insert_user_row_def users_ok_def split: if_splits) metis+

lemma create_user_ok [inv_intros]:
  "users_ok db \<Longrightarrow> create_user db uid email pw now = Inr (u, db') \<Longrightarrow> users_ok db'"
  by (auto simp: create_user_def Let_def bind_result_Inr_iff intro: insert_user_row_ok split: option.splits)

lemma create_bootstrap_user_ok [inv_intros]:
  "users_ok db \<Longrightarrow> users_ok (snd (create_bootstrap_user db uid email pw now))"
  by (simp add: create_bootstrap_user_def users_ok_def Let_def)

lemma set_password_ok [inv_intros]:
  assumes "users_ok db" shows "users_ok (snd (set_password db email pw))"
proof -
  let ?us = "db_users (snd (set_password db email pw))"
  have "map u_id ?us = map u_id (db_users db)"
    "map (py_lower \<circ> u_email) ?us = map (py_lower \<circ> u_email) (db_users db)"
    by (simp_all add: set_password_def Let_def)
  then show ?thesis using assms by (simp only: users_ok_def)
qed

lemma token_create_ok [inv_intros]:
  "tokens_ok db \<Longrightarrow> token_create db tid uid h now e = Inr (r, db') \<Longrightarrow> tokens_ok db'"
  by (auto simp: token_create_def tokens_ok_def Let_def split: if_splits)

lemma token_revoke_ok [inv_intros]: "tokens_ok db \<Longrightarrow> tokens_ok (snd (token_revoke db tid now))"
  by (simp add: tokens_ok_def token_revoke_def frame_simps del: map_map)

lemma revoke_all_ok [inv_intros]: "tokens_ok db \<Longrightarrow> tokens_ok (snd (revoke_all_for_user db uid now))"
  by (simp add: tokens_ok_def revoke_all_for_user_def frame_simps del: map_map)

lemma distinct_map_filter_intro: "distinct (map f xs) \<Longrightarrow> distinct (map f (filter p xs))"
  by (induction xs) auto

lemma delete_expired_ok [inv_intros]: "tokens_ok db \<Longrightarrow> tokens_ok (snd (delete_expired db now))"
  by (simp add: tokens_ok_def delete_expired_def distinct_map_filter_intro)

section \<open>Compare-and-set revocation\<close>

text \<open>
  The contract the service relies on: a revocation reports \<open>True\<close> exactly when the token was
  still active, leaves it inactive, and does not touch another token.
\<close>

locale one_shot =
  fixes live :: "'db \<Rightarrow> 'id \<Rightarrow> bool" and inv :: "'db \<Rightarrow> bool"
    and claim :: "'db \<Rightarrow> 'id \<Rightarrow> 'arg \<Rightarrow> bool \<times> 'db"
  assumes claim_wins: "inv db \<Longrightarrow> fst (claim db i a) \<longleftrightarrow> live db i"
    and claim_dead: "inv db \<Longrightarrow> \<not> live (snd (claim db i a)) i"
    and claim_other: "inv db \<Longrightarrow> j \<noteq> i \<Longrightarrow> live (snd (claim db i a)) j = live db j"
    and claim_inv: "inv db \<Longrightarrow> inv (snd (claim db i a))"
begin

fun winners :: "'db \<Rightarrow> ('id \<times> 'arg) list \<Rightarrow> 'id list" where
  "winners db [] = []"
| "winners db ((i, a) # cs) =
     (let (won, db') = claim db i a in (if won then [i] else []) @ winners db' cs)"

lemma dead_never_wins: "inv db \<Longrightarrow> \<not> live db i \<Longrightarrow> i \<notin> set (winners db cs)"
proof (induction db cs rule: winners.induct)
  case (2 db j a cs)
  obtain won db' where c: "claim db j a = (won, db')" by (cases "claim db j a")
  have "inv db'" "\<not> live db' i" "won \<Longrightarrow> j \<noteq> i"
    using claim_inv[OF 2(2), of j a] claim_dead[OF 2(2), of j a] claim_other[OF 2(2), of i j a]
      claim_wins[OF 2(2), of j a] 2(3) c by (cases "i = j"; auto)+
  then show ?case using 2(1)[OF c[symmetric] refl] c by auto
qed simp

lemma winners_distinct: "inv db \<Longrightarrow> distinct (winners db cs)"
proof (induction db cs rule: winners.induct)
  case (2 db j a cs)
  obtain won db' where c: "claim db j a = (won, db')" by (cases "claim db j a")
  have d: "inv db'" "\<not> live db' j" using claim_inv[OF 2(2), of j a] claim_dead[OF 2(2), of j a] c by auto
  show ?case using 2(1)[OF c[symmetric] refl d(1)] dead_never_wins[OF d] c by auto
qed simp

end

lemma filter_key_distinct:
  assumes "distinct (map f xs)"
  shows "length (filter (\<lambda>x. f x = k \<and> p x) xs) = (if \<exists>x \<in> set xs. f x = k \<and> p x then 1 else 0)"
  using assms
proof (induction xs)
  case (Cons y ys)
  then have "filter (\<lambda>x. f x = k \<and> p x) ys = []" if "f y = k"
    using that by (auto simp: filter_empty_conv image_iff)
  with Cons show ?case by (cases "f y = k") (auto simp: filter_empty_conv image_iff split: if_splits)
qed simp

lemma db_tokens_updates:
  "db_tokens (snd (token_revoke db i a)) =
     map (\<lambda>r. if rt_id r = i then revoke_row a r else r) (db_tokens db)"
  "db_tokens (snd (revoke_all_for_user db uid a)) =
     map (\<lambda>r. if rt_user_id r = uid then revoke_row a r else r) (db_tokens db)"
  "db_tokens (snd (delete_expired db a)) = filter (\<lambda>r. \<not> rt_expires_at r < a) (db_tokens db)"
  by (simp_all add: token_revoke_def revoke_all_for_user_def delete_expired_def)

lemma token_active_revoke:
  "token_active (snd (token_revoke db i a)) j \<longleftrightarrow> j \<noteq> i \<and> token_active db j"
proof -
  let ?g = "\<lambda>r. if rt_id r = i then revoke_row a r else r"
  have g: "rt_id (?g r) = j \<and> \<not> is_revoked (?g r) \<longleftrightarrow> j \<noteq> i \<and> (rt_id r = j \<and> \<not> is_revoked r)" for r
    by (auto simp: frame_simps)
  have "token_active (snd (token_revoke db i a)) j \<longleftrightarrow>
        (\<exists>r \<in> set (db_tokens db). rt_id (?g r) = j \<and> \<not> is_revoked (?g r))"
    unfolding token_active_def db_tokens_updates by (rule bex_set_map)
  also have "\<dots> \<longleftrightarrow> j \<noteq> i \<and> token_active db j"
    unfolding g token_active_def by (rule bex_simps(2))
  finally show ?thesis .
qed

interpretation rev: one_shot token_active tokens_ok token_revoke
proof unfold_locales
  fix db i j and a :: instant assume inv: "tokens_ok db"
  show "fst (token_revoke db i a) \<longleftrightarrow> token_active db i"
    using filter_key_distinct[of rt_id "db_tokens db" i "\<lambda>r. rt_revoked_at r = None"] inv
    by (simp add: token_revoke_def token_active_def tokens_ok_def is_revoked_def)
qed (auto simp: token_active_revoke token_revoke_ok)

end
