(* ===== verification/AuthService.thy ===== *)
theory AuthService
  imports AuthStore
begin

text \<open>
  \<open>AuthService\<close> of \<open>auth/service.py\<close> and the access tokens of \<open>auth/tokens.py\<close>: registration,
  login, refresh-token rotation with reuse detection, logout. An operation returns its result
  (an exception is a left value) together with the tables it leaves, since several of its
  error paths have already written. bcrypt, PyJWT and SHA-256 are the functions of the record
  \<open>crypto\<close>; the clock and the values drawn from \<open>uuid\<close> and \<open>secrets\<close> are the record \<open>draw\<close>.
\<close>

section \<open>Parameters\<close>

record jwt_claims =
  cl_sub :: "ident option"
  cl_email :: string
  cl_iss :: string
  cl_iat :: int
  cl_exp :: int
  cl_jti :: string

datatype jwt_result = JwtExpired | JwtInvalid | JwtClaims jwt_claims

record crypto =
  c_hash_pw :: "string \<Rightarrow> string"
  c_check_pw :: "string \<Rightarrow> string \<Rightarrow> bool"
  c_sha256 :: "string \<Rightarrow> string"
  c_sign :: "jwt_claims \<Rightarrow> string \<Rightarrow> string option"
  c_decode :: "string \<Rightarrow> string \<Rightarrow> string \<Rightarrow> jwt_result"

record auth_settings =
  as_enabled :: bool
  as_allow_registration :: bool
  as_jwt_secret :: "string option"
  as_jwt_issuer :: string
  as_access_ttl_minutes :: int
  as_refresh_ttl_days :: int
  as_operator_emails :: string
  as_cors_origins :: string
  as_rate_limit_per_minute :: int

record draw =
  dr_now :: instant
  dr_uuid :: ident
  dr_jti :: string
  dr_opaque :: string

section \<open>Access tokens\<close>

datatype auth_error =
    InvalidCredentialsError | InactiveUserError | InvalidRefreshTokenError string
  | RegistrationClosedError | EmailExistsError | TokenError string | AuthDatabaseError

record access_token =
  at_token :: string
  at_token_type :: string
  at_expires_in :: int

definition require_jwt_secret :: "auth_settings \<Rightarrow> auth_error + string" where
  "require_jwt_secret st =
     (case or_none (as_jwt_secret st) of
        None \<Rightarrow> Inl (TokenError ''Authentication is enabled but RAG_JWT_SECRET_KEY is not set.'')
      | Some secret \<Rightarrow> Inr secret)"

definition create_access_token :: "crypto \<Rightarrow> auth_settings \<Rightarrow> draw \<Rightarrow> ident \<Rightarrow> string
    \<Rightarrow> auth_error + access_token" where
  "create_access_token c st d subject email =
     (case require_jwt_secret st of
        Inl e \<Rightarrow> Inl e
      | Inr secret \<Rightarrow>
          (let ttl = as_access_ttl_minutes st * 60;
               claims = \<lparr>cl_sub = Some subject, cl_email = email, cl_iss = as_jwt_issuer st,
                         cl_iat = dr_now d, cl_exp = dr_now d + ttl, cl_jti = dr_jti d\<rparr>
           in case c_sign c claims secret of
                None \<Rightarrow> Inl (TokenError ''sign'')
              | Some tok \<Rightarrow> Inr \<lparr>at_token = tok, at_token_type = ''bearer'', at_expires_in = ttl\<rparr>))"

definition decode_token :: "crypto \<Rightarrow> auth_settings \<Rightarrow> string \<Rightarrow> auth_error + jwt_claims" where
  "decode_token c st tok =
     (case require_jwt_secret st of
        Inl e \<Rightarrow> Inl e
      | Inr secret \<Rightarrow>
          (case c_decode c tok secret (as_jwt_issuer st) of
             JwtExpired \<Rightarrow> Inl (TokenError ''Token has expired.'')
           | JwtInvalid \<Rightarrow> Inl (TokenError ''Invalid authentication token.'')
           | JwtClaims cl \<Rightarrow> Inr cl))"

definition hash_refresh_token :: "crypto \<Rightarrow> string \<Rightarrow> string" where
  "hash_refresh_token c tok = c_sha256 c tok"

section \<open>The service\<close>

record token_response =
  tr_access_token :: string
  tr_refresh_token :: string
  tr_token_type :: string
  tr_expires_in :: int

definition register :: "crypto \<Rightarrow> auth_settings \<Rightarrow> draw \<Rightarrow> auth_db \<Rightarrow> string \<Rightarrow> string
    \<Rightarrow> (auth_error + user_record) \<times> auth_db" where
  "register c st d db email password =
     (if \<not> as_allow_registration st
      then (case create_bootstrap_user db (dr_uuid d) email (c_hash_pw c password) (dr_now d) of
              (None, db') \<Rightarrow> (Inl RegistrationClosedError, db')
            | (Some u, db') \<Rightarrow> (Inr u, db'))
      else (case create_user db (dr_uuid d) email (c_hash_pw c password) (dr_now d) of
              Inl (EmailAlreadyExistsError _) \<Rightarrow> (Inl EmailExistsError, db)
            | Inl DatabaseError \<Rightarrow> (Inl AuthDatabaseError, db)
            | Inr (u, db') \<Rightarrow> (Inr u, db')))"

definition dummy_hash :: "crypto \<Rightarrow> string" where
  "dummy_hash c = c_hash_pw c ''dummy-password-for-constant-time-comparison''"

definition authenticate :: "crypto \<Rightarrow> auth_db \<Rightarrow> string \<Rightarrow> string \<Rightarrow> auth_error + user_record" where
  "authenticate c db email password =
     (let user = get_by_email db email;
          stored = (case user of Some u \<Rightarrow> u_password_hash u | None \<Rightarrow> dummy_hash c);
          ok = c_check_pw c password stored
      in case user of
           None \<Rightarrow> Inl InvalidCredentialsError
         | Some u \<Rightarrow> if \<not> ok then Inl InvalidCredentialsError
                     else if \<not> u_is_active u then Inl InactiveUserError else Inr u)"

definition issue_token_pair :: "crypto \<Rightarrow> auth_settings \<Rightarrow> draw \<Rightarrow> auth_db \<Rightarrow> user_record
    \<Rightarrow> (auth_error + token_response) \<times> auth_db" where
  "issue_token_pair c st d db u =
     (case create_access_token c st d (u_id u) (u_email u) of
        Inl e \<Rightarrow> (Inl e, db)
      | Inr a \<Rightarrow>
          (let expires = dr_now d + as_refresh_ttl_days st * 86400
           in case token_create db (dr_uuid d) (u_id u) (hash_refresh_token c (dr_opaque d))
                     (dr_now d) expires of
                Inl _ \<Rightarrow> (Inl AuthDatabaseError, db)
              | Inr (_, db') \<Rightarrow>
                  (Inr \<lparr>tr_access_token = at_token a, tr_refresh_token = dr_opaque d,
                        tr_token_type = at_token_type a, tr_expires_in = at_expires_in a\<rparr>, db')))"

definition login :: "crypto \<Rightarrow> auth_settings \<Rightarrow> draw \<Rightarrow> auth_db \<Rightarrow> string \<Rightarrow> string
    \<Rightarrow> (auth_error + token_response) \<times> auth_db" where
  "login c st d db email password =
     (case authenticate c db email password of
        Inl e \<Rightarrow> (Inl e, db)
      | Inr u \<Rightarrow> issue_token_pair c st d db u)"

definition refresh :: "crypto \<Rightarrow> auth_settings \<Rightarrow> draw \<Rightarrow> auth_db \<Rightarrow> string
    \<Rightarrow> (auth_error + token_response) \<times> auth_db" where
  "refresh c st d db tok =
     (case token_by_hash db (hash_refresh_token c tok) of
        None \<Rightarrow> (Inl (InvalidRefreshTokenError ''Invalid refresh token.''), db)
      | Some r \<Rightarrow>
          if is_revoked r
          then (Inl (InvalidRefreshTokenError ''Refresh token has been revoked.''),
                snd (revoke_all_for_user db (rt_user_id r) (dr_now d)))
          else if is_expired r (dr_now d)
          then (Inl (InvalidRefreshTokenError ''Refresh token has expired.''), db)
          else (case get_by_id db (rt_user_id r) of
                  None \<Rightarrow> (Inl (InvalidRefreshTokenError ''Account is unavailable.''), db)
                | Some u \<Rightarrow>
                    if \<not> u_is_active u
                    then (Inl (InvalidRefreshTokenError ''Account is unavailable.''), db)
                    else (case token_revoke db (rt_id r) (dr_now d) of
                            (False, db') \<Rightarrow>
                              (Inl (InvalidRefreshTokenError ''Refresh token has been revoked.''), db')
                          | (True, db') \<Rightarrow> issue_token_pair c st d db' u)))"

definition logout :: "crypto \<Rightarrow> draw \<Rightarrow> auth_db \<Rightarrow> string \<Rightarrow> auth_db" where
  "logout c d db tok =
     (case token_by_hash db (hash_refresh_token c tok) of
        None \<Rightarrow> db
      | Some r \<Rightarrow> if \<not> is_revoked r then snd (token_revoke db (rt_id r) (dr_now d)) else db)"

definition get_user :: "auth_db \<Rightarrow> ident \<Rightarrow> user_record option" where
  "get_user db uid = get_by_id db uid"

section \<open>Sequential properties of the tables\<close>

lemma token_by_hash_Some:
  "tokens_ok db \<Longrightarrow> token_by_hash db h = Some r \<longleftrightarrow> r \<in> set (db_tokens db) \<and> rt_token_hash r = h"
  unfolding token_by_hash_def tokens_ok_def using find_distinct[of rt_token_hash "db_tokens db" r]
  by (auto dest: find_SomeD)

lemma token_revoke_result:
  assumes "tokens_ok db" "r \<in> set (db_tokens db)"
  shows "fst (token_revoke db (rt_id r) now) \<longleftrightarrow> \<not> is_revoked r"
proof -
  have "s = r" if "s \<in> set (db_tokens db)" "rt_id s = rt_id r" for s
    using assms that by (auto simp: tokens_ok_def distinct_map inj_on_def)
  then show ?thesis using rev.claim_wins[OF assms(1)] assms(2) by (auto simp: token_active_def)
qed

lemma active_count_map_revoke:
  assumes "\<And>r. r \<in> set rs \<Longrightarrow> p r \<Longrightarrow> rt_user_id r = uid"
  shows "length (filter (\<lambda>r. rt_user_id r = u \<and> \<not> is_revoked r)
           (map (\<lambda>r. if p r then revoke_row now r else r) rs)) =
         length (filter (\<lambda>r. rt_user_id r = u \<and> \<not> is_revoked r \<and> \<not> p r) rs)"
  by (induction rs) (auto simp: frame_simps)

lemma active_count_revoke_list:
  assumes "distinct (map rt_id rs)" "r \<in> set rs" "\<not> is_revoked r"
  shows "Suc (length (filter (\<lambda>s. rt_user_id s = rt_user_id r \<and> \<not> is_revoked s)
           (map (\<lambda>s. if rt_id s = rt_id r then revoke_row now s else s) rs))) =
         length (filter (\<lambda>s. rt_user_id s = rt_user_id r \<and> \<not> is_revoked s) rs)"
  using assms
proof (induction rs)
  case (Cons y ys)
  show ?case
  proof (cases "y = r")
    case True
    have "map (\<lambda>s. if rt_id s = rt_id r then revoke_row now s else s) ys = ys"
      using Cons.prems(1) True by (intro map_idI) (auto simp: image_iff)
    with True Cons.prems(3) show ?thesis by simp
  next
    case False
    with Cons.prems have "rt_id y \<noteq> rt_id r" "r \<in> set ys" "distinct (map rt_id ys)" by force+
    with Cons.IH Cons.prems(3) show ?thesis by auto
  qed
qed simp

lemma active_count_revoke:
  assumes "tokens_ok db" "r \<in> set (db_tokens db)" "\<not> is_revoked r"
  shows "Suc (active_count (snd (token_revoke db (rt_id r) now)) (rt_user_id r)) =
         active_count db (rt_user_id r)"
  unfolding active_count_def db_tokens_updates
  using assms by (intro active_count_revoke_list) (simp_all add: tokens_ok_def)

lemma active_count_revoke_all:
  "active_count (snd (revoke_all_for_user db uid now)) v = (if v = uid then 0 else active_count db v)"
proof -
  have "filter (\<lambda>r. rt_user_id r = v \<and> \<not> is_revoked r \<and> rt_user_id r \<noteq> uid) rs =
        (if v = uid then [] else filter (\<lambda>r. rt_user_id r = v \<and> \<not> is_revoked r) rs)" for rs
    by (auto simp: filter_empty_conv intro!: filter_cong)
  then show ?thesis
    using active_count_map_revoke[of "db_tokens db" "\<lambda>r. rt_user_id r = uid" uid v now]
    by (simp add: active_count_def db_tokens_updates)
qed

lemma token_create_result:
  assumes "token_create db tid uid h now e = Inr (r, db')"
  shows "db_tokens db' = db_tokens db @ [r]" "rt_id r = tid" "rt_user_id r = uid" "rt_token_hash r = h"
    "rt_expires_at r = e" "\<not> is_revoked r" "db_users db' = db_users db"
    "active_count db' v = active_count db v + (if v = uid then 1 else 0)"
  using assms
  by (auto simp: token_create_def Let_def is_revoked_def active_count_def split: if_splits)

lemma issue_token_pair_result:
  assumes "issue_token_pair c st d db u = (Inr p, db')"
  obtains r where "token_create db (dr_uuid d) (u_id u) (c_sha256 c (dr_opaque d)) (dr_now d)
      (dr_now d + as_refresh_ttl_days st * 86400) = Inr (r, db')" "tr_refresh_token p = dr_opaque d"
  using assms
  by (auto simp: issue_token_pair_def Let_def hash_refresh_token_def split: sum.splits prod.splits)

lemma refresh_Inr:
  assumes "refresh c st d db tok = (Inr p, db')"
  obtains r u where "token_by_hash db (c_sha256 c tok) = Some r" "\<not> is_revoked r"
    "\<not> is_expired r (dr_now d)" "get_by_id db (rt_user_id r) = Some u" "u_is_active u"
    "issue_token_pair c st d (snd (token_revoke db (rt_id r) (dr_now d))) u = (Inr p, db')"
  using assms
  by (auto simp: refresh_def hash_refresh_token_def split: option.splits if_splits prod.splits bool.splits)

lemma get_by_id_Some: "get_by_id db uid = Some u \<Longrightarrow> u_id u = uid"
  by (auto simp: get_by_id_def dest: find_SomeD)

lemma token_by_hash_revoke:
  "token_by_hash (snd (token_revoke db i now)) h =
     map_option (\<lambda>r. if rt_id r = i then revoke_row now r else r) (token_by_hash db h)"
  unfolding token_by_hash_def db_tokens_updates
  by (rule find_map_key) (simp add: frame_simps)

lemma issue_token_pair_lookup:
  assumes "issue_token_pair c st d db u = (Inr p, db')"
  shows "\<exists>r. token_by_hash db' (c_sha256 c (tr_refresh_token p)) = Some r \<and> \<not> is_revoked r \<and>
           rt_user_id r = u_id u \<and> rt_expires_at r = dr_now d + as_refresh_ttl_days st * 86400"
    and "token_by_hash db h = Some r0 \<Longrightarrow> token_by_hash db' h = Some r0"
    and "active_count db' v = active_count db v + (if v = u_id u then 1 else 0)"
    and "db_users db' = db_users db"
    and "tokens_ok db \<Longrightarrow> tokens_ok db'"
proof -
  obtain r where cr: "token_create db (dr_uuid d) (u_id u) (c_sha256 c (dr_opaque d)) (dr_now d)
      (dr_now d + as_refresh_ttl_days st * 86400) = Inr (r, db')" and p: "tr_refresh_token p = dr_opaque d"
    using assms by (rule issue_token_pair_result)
  note t = token_create_result[OF cr]
  have none: "token_by_hash db (c_sha256 c (dr_opaque d)) = None"
    using cr by (auto simp: token_create_def token_by_hash_def find_None_iff split: if_splits)
  show "\<exists>r. token_by_hash db' (c_sha256 c (tr_refresh_token p)) = Some r \<and> \<not> is_revoked r \<and>
           rt_user_id r = u_id u \<and> rt_expires_at r = dr_now d + as_refresh_ttl_days st * 86400"
    using t none p by (auto simp: token_by_hash_def find_append)
  show "token_by_hash db h = Some r0 \<Longrightarrow> token_by_hash db' h = Some r0"
    using t by (simp add: token_by_hash_def find_append)
  show "active_count db' v = active_count db v + (if v = u_id u then 1 else 0)" by (rule t(8))
  show "db_users db' = db_users db" by (rule t(7))
  show "tokens_ok db \<Longrightarrow> tokens_ok db'" using cr by (rule token_create_ok[rotated])
qed

section \<open>Rotation and reuse detection\<close>

lemma refresh_effect:
  assumes "tokens_ok db" "refresh c st d db tok = (Inr p, db')"
  shows "\<exists>r u r' s. token_by_hash db (c_sha256 c tok) = Some r \<and> \<not> is_revoked r \<and>
           \<not> is_expired r (dr_now d) \<and> get_by_id db (rt_user_id r) = Some u \<and> u_is_active u \<and>
           token_by_hash db' (c_sha256 c tok) = Some r' \<and> r' = revoke_row (dr_now d) r \<and>
           token_by_hash db' (c_sha256 c (tr_refresh_token p)) = Some s \<and> \<not> is_revoked s \<and>
           rt_user_id s = rt_user_id r \<and>
           rt_expires_at s = dr_now d + as_refresh_ttl_days st * 86400 \<and>
           (\<forall>v. active_count db' v = active_count db v)"
proof -
  obtain r u where r: "token_by_hash db (c_sha256 c tok) = Some r" "\<not> is_revoked r"
      "\<not> is_expired r (dr_now d)" and u: "get_by_id db (rt_user_id r) = Some u" "u_is_active u"
    and iss: "issue_token_pair c st d (snd (token_revoke db (rt_id r) (dr_now d))) u = (Inr p, db')"
    using assms(2) by (rule refresh_Inr)
  let ?db1 = "snd (token_revoke db (rt_id r) (dr_now d))"
  note l = issue_token_pair_lookup[OF iss]
  have old: "token_by_hash db' (c_sha256 c tok) = Some (revoke_row (dr_now d) r)"
    using l(2)[of "c_sha256 c tok"] r(1) by (simp add: token_by_hash_revoke)
  have mem: "r \<in> set (db_tokens db)" using r(1) assms(1) by (simp add: token_by_hash_Some)
  have other: "active_count ?db1 v = active_count db v" if "v \<noteq> rt_user_id r" for v
  proof -
    have "s \<in> set (db_tokens db) \<Longrightarrow> rt_id s = rt_id r \<Longrightarrow> rt_user_id s = rt_user_id r" for s
      using mem assms(1) by (auto simp: tokens_ok_def distinct_map inj_on_def)
    then show ?thesis
      using active_count_map_revoke[of "db_tokens db" "\<lambda>s. rt_id s = rt_id r" "rt_user_id r" v "dr_now d"] that
      by (auto simp: active_count_def db_tokens_updates intro!: arg_cong[where f = length] filter_cong)
  qed
  have cnt: "active_count db' v = active_count db v" for v
    using l(3)[of v] other[of v] active_count_revoke[OF assms(1) mem r(2), of "dr_now d"]
      get_by_id_Some[OF u(1)] by (cases "v = rt_user_id r") auto
  show ?thesis
    using r u old l(1) cnt get_by_id_Some[OF u(1)] by (auto simp: frame_simps)
qed

text \<open>Rotation: a successful refresh was given an active, unexpired token of an active
  account; it leaves that token revoked, stores the new token for the same user with the
  configured lifetime, and leaves the number of active tokens of every user as it was.\<close>

theorem refresh_rotates:
  assumes "tokens_ok db" "refresh c st d db tok = (Inr p, db')"
  shows "\<exists>r u r' s. token_by_hash db (c_sha256 c tok) = Some r \<and> \<not> is_revoked r \<and>
           \<not> is_expired r (dr_now d) \<and> get_by_id db (rt_user_id r) = Some u \<and> u_is_active u \<and>
           token_by_hash db' (c_sha256 c tok) = Some r' \<and> is_revoked r' \<and> rt_id r' = rt_id r \<and>
           token_by_hash db' (c_sha256 c (tr_refresh_token p)) = Some s \<and> \<not> is_revoked s \<and>
           rt_user_id s = rt_user_id r \<and>
           rt_expires_at s = dr_now d + as_refresh_ttl_days st * 86400 \<and>
           (\<forall>v. active_count db' v = active_count db v)"
proof -
  from refresh_effect[OF assms] obtain r u r' s where
    "token_by_hash db (c_sha256 c tok) = Some r \<and> \<not> is_revoked r \<and>
     \<not> is_expired r (dr_now d) \<and> get_by_id db (rt_user_id r) = Some u \<and> u_is_active u \<and>
     token_by_hash db' (c_sha256 c tok) = Some r' \<and> r' = revoke_row (dr_now d) r \<and>
     token_by_hash db' (c_sha256 c (tr_refresh_token p)) = Some s \<and> \<not> is_revoked s \<and>
     rt_user_id s = rt_user_id r \<and>
     rt_expires_at s = dr_now d + as_refresh_ttl_days st * 86400 \<and>
     (\<forall>v. active_count db' v = active_count db v)" by blast
  then show ?thesis by (auto simp: frame_simps)
qed

abbreviation demo_crypto :: crypto where
  "demo_crypto \<equiv> \<lparr>c_hash_pw = (\<lambda>s. s), c_check_pw = (=), c_sha256 = (\<lambda>s. s),
     c_sign = (\<lambda>cl secret. Some (secret @ (case cl_sub cl of Some s \<Rightarrow> s | None \<Rightarrow> []))),
     c_decode = (\<lambda>t secret iss. if take (length secret) t = secret
       then JwtClaims \<lparr>cl_sub = Some (drop (length secret) t), cl_email = [], cl_iss = iss,
                       cl_iat = 0, cl_exp = 0, cl_jti = []\<rparr> else JwtInvalid)\<rparr>"

abbreviation demo_settings :: auth_settings where
  "demo_settings \<equiv> \<lparr>as_enabled = True, as_allow_registration = False, as_jwt_secret = Some ''k'',
     as_jwt_issuer = ''i'', as_access_ttl_minutes = 15, as_refresh_ttl_days = 7,
     as_operator_emails = [], as_cors_origins = [],
     as_rate_limit_per_minute = 10\<rparr>"

abbreviation demo_draw :: draw where
  "demo_draw \<equiv> \<lparr>dr_now = 10, dr_uuid = ''t2'', dr_jti = ''j'', dr_opaque = ''new''\<rparr>"

abbreviation demo_row :: refresh_record where
  "demo_row \<equiv> \<lparr>rt_id = ''t1'', rt_user_id = ''u'', rt_token_hash = ''old'', rt_issued_at = 0,
     rt_expires_at = 100, rt_revoked_at = None\<rparr>"

abbreviation demo_db :: auth_db where
  "demo_db \<equiv> \<lparr>db_users = [new_user ''u'' ''a@b.c'' ''pw'' 0], db_tokens = [demo_row]\<rparr>"

lemmas auth_eval =
  refresh_def hash_refresh_token_def token_by_hash_def is_revoked_def is_expired_def get_by_id_def
  new_user_def token_revoke_def revoke_row_def issue_token_pair_def create_access_token_def
  require_jwt_secret_def or_none_def token_create_def revoke_all_for_user_def delete_expired_def
  Let_def

abbreviation demo_db2 :: auth_db where
  "demo_db2 \<equiv> \<lparr>db_users = [new_user ''u'' ''a@b.c'' ''pw'' 0],
     db_tokens = [demo_row\<lparr>rt_revoked_at := Some 10\<rparr>,
       \<lparr>rt_id = ''t2'', rt_user_id = ''u'', rt_token_hash = ''new'', rt_issued_at = 10,
        rt_expires_at = 604810, rt_revoked_at = None\<rparr>]\<rparr>"

abbreviation demo_pair :: token_response where
  "demo_pair \<equiv> \<lparr>tr_access_token = ''ku'', tr_refresh_token = ''new'', tr_token_type = ''bearer'',
     tr_expires_in = 900\<rparr>"

lemma demo_tokens_ok: "tokens_ok demo_db" "tokens_ok demo_db2"
  by (simp_all add: tokens_ok_def)

lemma demo_refresh: "refresh demo_crypto demo_settings demo_draw demo_db ''old'' = (Inr demo_pair, demo_db2)"
  by (simp add: auth_eval)

theorem refresh_rotates_witness:
  "active_count demo_db2 ''u'' = active_count demo_db ''u''"
  using refresh_rotates[OF demo_tokens_ok(1) demo_refresh] by blast

text \<open>Reuse detection: presenting a token that has been revoked fails, leaves its owner
  without a single active token, and touches nobody else's.\<close>

theorem refresh_reuse_revokes_family:
  assumes "token_by_hash db (c_sha256 c tok) = Some r" "is_revoked r"
  shows "fst (refresh c st d db tok) = Inl (InvalidRefreshTokenError ''Refresh token has been revoked.'') \<and>
         active_count (snd (refresh c st d db tok)) (rt_user_id r) = 0 \<and>
         (\<forall>v. v \<noteq> rt_user_id r \<longrightarrow>
              active_count (snd (refresh c st d db tok)) v = active_count db v)"
  using assms by (auto simp: refresh_def hash_refresh_token_def active_count_revoke_all)

theorem refresh_reuse_revokes_family_witness:
  "active_count (snd (refresh demo_crypto demo_settings demo_draw demo_db2 ''old'')) ''u'' = 0"
proof -
  have l: "token_by_hash demo_db2 (c_sha256 demo_crypto ''old'') = Some (demo_row\<lparr>rt_revoked_at := Some 10\<rparr>)"
    by (simp add: token_by_hash_def)
  have r: "is_revoked (demo_row\<lparr>rt_revoked_at := Some 10\<rparr>)" by (simp add: is_revoked_def)
  show ?thesis using refresh_reuse_revokes_family[OF l r] by simp
qed

lemma active_count_zero_revoked:
  assumes "active_count db uid = 0" "token_by_hash db h = Some r" "rt_user_id r = uid"
  shows "is_revoked r"
  using assms by (auto simp: active_count_def token_by_hash_def filter_empty_conv dest!: find_SomeD)

lemma token_by_hash_revoke_all:
  "token_by_hash (snd (revoke_all_for_user db uid now)) h =
     map_option (\<lambda>r. if rt_user_id r = uid then revoke_row now r else r) (token_by_hash db h)"
  unfolding token_by_hash_def db_tokens_updates
  by (rule find_map_key) (simp add: frame_simps)

text \<open>A stolen token cannot outlive its detection: after a rotation, replaying the rotated
  token fails, and from then on the successor that the rotation had issued is refused as well.\<close>

theorem replay_kills_successor:
  assumes "tokens_ok db" "refresh c st d db tok = (Inr p, db1)" "refresh c st d1 db1 tok = (res1, db2)"
  shows "res1 = Inl (InvalidRefreshTokenError ''Refresh token has been revoked.'') \<and>
         fst (refresh c st d2 db2 (tr_refresh_token p)) =
           Inl (InvalidRefreshTokenError ''Refresh token has been revoked.'')"
proof -
  obtain r s where r': "token_by_hash db1 (c_sha256 c tok) = Some (revoke_row (dr_now d) r)"
    and s: "token_by_hash db1 (c_sha256 c (tr_refresh_token p)) = Some s" "rt_user_id s = rt_user_id r"
    using refresh_effect[OF assms(1,2)] by blast
  have res: "res1 = Inl (InvalidRefreshTokenError ''Refresh token has been revoked.'')"
    "db2 = snd (revoke_all_for_user db1 (rt_user_id r) (dr_now d1))"
    using assms(3) r' by (auto simp: refresh_def hash_refresh_token_def frame_simps)
  have "token_by_hash db2 (c_sha256 c (tr_refresh_token p)) = Some (revoke_row (dr_now d1) s)"
    using s res(2) by (simp add: token_by_hash_revoke_all)
  then show ?thesis using res(1) by (simp add: refresh_def hash_refresh_token_def)
qed

theorem replay_kills_successor_witness:
  "fst (refresh demo_crypto demo_settings demo_draw
      (snd (refresh demo_crypto demo_settings demo_draw demo_db2 ''old'')) ''new'') =
   Inl (InvalidRefreshTokenError ''Refresh token has been revoked.'')"
  using replay_kills_successor[OF demo_tokens_ok(1) demo_refresh prod.collapse[symmetric], of demo_draw demo_draw]
  by simp

section \<open>Cleanup\<close>

definition fresh_draw :: "crypto \<Rightarrow> draw \<Rightarrow> auth_db \<Rightarrow> bool" where
  "fresh_draw c d db \<longleftrightarrow>
     (\<forall>r \<in> set (db_tokens db). rt_id r \<noteq> dr_uuid d \<and> rt_token_hash r \<noteq> c_sha256 c (dr_opaque d))"

lemma token_by_hash_cleanup:
  assumes "tokens_ok db"
  shows "token_by_hash (snd (delete_expired db now)) h =
    (case token_by_hash db h of None \<Rightarrow> None | Some r \<Rightarrow> if rt_expires_at r < now then None else Some r)"
proof -
  have ok: "tokens_ok (snd (delete_expired db now))" by (rule delete_expired_ok[OF assms])
  show ?thesis
  proof (cases "token_by_hash (snd (delete_expired db now)) h")
    case (Some r)
    with token_by_hash_Some[OF ok, of h r] token_by_hash_Some[OF assms, of h r]
    show ?thesis by (auto simp: db_tokens_updates)
  next
    case None
    have "rt_expires_at r < now" if "token_by_hash db h = Some r" for r
      using that None token_by_hash_Some[OF assms, of h r] token_by_hash_Some[OF ok, of h r]
      by (auto simp: db_tokens_updates)
    with None show ?thesis by (auto split: option.splits)
  qed
qed

lemma issue_token_pair_fresh:
  assumes "fresh_draw c d db" "u \<in> set (db_users db)"
  shows "fst (issue_token_pair c st d db u) =
    (case create_access_token c st d (u_id u) (u_email u) of Inl e \<Rightarrow> Inl e
     | Inr a \<Rightarrow> Inr \<lparr>tr_access_token = at_token a, tr_refresh_token = dr_opaque d,
                      tr_token_type = at_token_type a, tr_expires_in = at_expires_in a\<rparr>)"
  using assms
  by (auto simp: issue_token_pair_def token_create_def fresh_draw_def hash_refresh_token_def Let_def
      split: sum.splits)

lemma fresh_draw_frame:
  "fresh_draw c d db \<Longrightarrow> fresh_draw c d (snd (token_revoke db i now))"
  "fresh_draw c d db \<Longrightarrow> fresh_draw c d (snd (delete_expired db now))"
  by (auto simp: fresh_draw_def db_tokens_updates frame_simps)

lemma db_users_updates [simp]:
  "db_users (snd (token_revoke db i now)) = db_users db"
  "db_users (snd (delete_expired db now)) = db_users db"
  "db_users (snd (revoke_all_for_user db uid now)) = db_users db"
  by (simp_all add: token_revoke_def delete_expired_def revoke_all_for_user_def)

lemma refresh_fst:
  assumes "tokens_ok db" "fresh_draw c d db"
  shows "fst (refresh c st d db tok) =
    (case token_by_hash db (c_sha256 c tok) of
       None \<Rightarrow> Inl (InvalidRefreshTokenError ''Invalid refresh token.'')
     | Some r \<Rightarrow>
         if is_revoked r then Inl (InvalidRefreshTokenError ''Refresh token has been revoked.'')
         else if is_expired r (dr_now d) then Inl (InvalidRefreshTokenError ''Refresh token has expired.'')
         else (case get_by_id db (rt_user_id r) of
             None \<Rightarrow> Inl (InvalidRefreshTokenError ''Account is unavailable.'')
           | Some u \<Rightarrow> if \<not> u_is_active u then Inl (InvalidRefreshTokenError ''Account is unavailable.'')
               else (case create_access_token c st d (u_id u) (u_email u) of Inl e \<Rightarrow> Inl e
                 | Inr a \<Rightarrow> Inr \<lparr>tr_access_token = at_token a, tr_refresh_token = dr_opaque d,
                      tr_token_type = at_token_type a, tr_expires_in = at_expires_in a\<rparr>)))"
proof (cases "token_by_hash db (c_sha256 c tok)")
  case (Some r)
  have mem: "get_by_id db uid = Some u \<Longrightarrow> u \<in> set (db_users db)" for uid u
    by (auto simp: get_by_id_def dest: find_SomeD)
  show ?thesis
  proof (cases "is_revoked r")
    case True
    with Some show ?thesis by (simp add: refresh_def hash_refresh_token_def)
  next
    case False
    obtain db1 where won: "token_revoke db (rt_id r) (dr_now d) = (True, db1)"
      using token_revoke_result[OF assms(1), of r "dr_now d"] Some assms(1) False
      by (cases "token_revoke db (rt_id r) (dr_now d)") (simp add: token_by_hash_Some)
    then have db1: "db1 = snd (token_revoke db (rt_id r) (dr_now d))" by simp
    have "fst (issue_token_pair c st d db1 u) =
      (case create_access_token c st d (u_id u) (u_email u) of Inl e \<Rightarrow> Inl e
       | Inr a \<Rightarrow> Inr \<lparr>tr_access_token = at_token a, tr_refresh_token = dr_opaque d,
                        tr_token_type = at_token_type a, tr_expires_in = at_expires_in a\<rparr>)"
      if "u \<in> set (db_users db)" for u
      using issue_token_pair_fresh[OF fresh_draw_frame(1)[OF assms(2)], of u] that
      unfolding db1 by simp
    with Some False won mem show ?thesis
      by (auto simp: refresh_def hash_refresh_token_def split: option.splits)
  qed
qed (simp add: refresh_def hash_refresh_token_def)

text \<open>The periodic cleanup is invisible to clients: whether a refresh succeeds, and with
  which pair, is the same whether or not the expired rows were deleted before it.\<close>

theorem cleanup_preserves_refresh:
  assumes "tokens_ok db" "fresh_draw c d db" "now \<le> dr_now d"
  shows "fst (refresh c st d (snd (delete_expired db now)) tok) = Inr p \<longleftrightarrow>
         fst (refresh c st d db tok) = Inr p"
proof (cases "token_by_hash db (c_sha256 c tok)")
  case (Some r)
  have g: "get_by_id (snd (delete_expired db now)) uid = get_by_id db uid" for uid
    by (simp add: get_by_id_def)
  show ?thesis
    unfolding refresh_fst[OF assms(1,2)] refresh_fst[OF delete_expired_ok[OF assms(1)] fresh_draw_frame(2)[OF assms(2)]]
      token_by_hash_cleanup[OF assms(1)] g
    using Some assms(3) by (auto simp: is_expired_def)
next
  case None
  then show ?thesis
    by (simp add: refresh_fst[OF assms(1,2)] token_by_hash_cleanup[OF assms(1)]
        refresh_fst[OF delete_expired_ok[OF assms(1)] fresh_draw_frame(2)[OF assms(2)]])
qed

theorem cleanup_preserves_refresh_witness:
  "fst (refresh demo_crypto demo_settings demo_draw (snd (delete_expired demo_db 5)) ''old'') = Inr demo_pair"
proof -
  have f: "fresh_draw demo_crypto demo_draw demo_db" by (simp add: fresh_draw_def)
  have n: "(5 :: instant) \<le> dr_now demo_draw" by simp
  show ?thesis using cleanup_preserves_refresh[OF demo_tokens_ok(1) f n, of demo_settings "''old''" demo_pair]
      demo_refresh by simp
qed

section \<open>Bootstrap registration\<close>

fun register_all :: "crypto \<Rightarrow> auth_settings \<Rightarrow> auth_db \<Rightarrow> (draw \<times> string \<times> string) list
    \<Rightarrow> (auth_error + user_record) list \<times> auth_db" where
  "register_all c st db [] = ([], db)"
| "register_all c st db ((d, email, pw) # rs) =
     (let (r, db') = register c st d db email pw; (res, db'') = register_all c st db' rs
      in (r # res, db''))"

lemma register_closed_nonempty:
  assumes "\<not> as_allow_registration st" "db_users db \<noteq> []"
  shows "register_all c st db rs = (replicate (length rs) (Inl RegistrationClosedError), db)"
  using assms(2)
  by (induction rs) (auto simp: register_def create_bootstrap_user_def assms(1))

text \<open>With self-service registration off, any sequence of registrations on an empty user
  table creates exactly one account: the first call wins and every later one is refused.\<close>

theorem bootstrap_creates_one:
  assumes "\<not> as_allow_registration st" "db_users db = []"
  shows "register_all c st db ((d, email, pw) # rs) =
    (Inr (new_user (dr_uuid d) email (c_hash_pw c pw) (dr_now d)) #
       replicate (length rs) (Inl RegistrationClosedError),
     db\<lparr>db_users := [new_user (dr_uuid d) email (c_hash_pw c pw) (dr_now d)]\<rparr>)"
  using assms by (simp add: register_def create_bootstrap_user_def Let_def register_closed_nonempty)

theorem bootstrap_creates_one_witness:
  "register_all demo_crypto demo_settings \<lparr>db_users = [], db_tokens = []\<rparr>
     [(demo_draw, ''a@b.c'', ''pw''), (demo_draw, ''x@y.z'', ''pw'')] =
   ([Inr (new_user ''t2'' ''a@b.c'' ''pw'' 10), Inl RegistrationClosedError],
    \<lparr>db_users = [new_user ''t2'' ''a@b.c'' ''pw'' 10], db_tokens = []\<rparr>)"
  using bootstrap_creates_one[of demo_settings "\<lparr>db_users = [], db_tokens = []\<rparr>" demo_crypto demo_draw
      "''a@b.c''" "''pw''" "[(demo_draw, ''x@y.z'', ''pw'')]"] by simp

section \<open>A signing failure during a refresh\<close>

text \<open>If no access token can be signed, a refresh of a good token answers with the signing
  error after it has already revoked the token; the client's retry with the same token is
  then taken for theft, and every token of the account is revoked.\<close>

theorem failed_signing_burns_token:
  assumes "tokens_ok db" "token_by_hash db (c_sha256 c tok) = Some r" "\<not> is_revoked r"
    "\<not> is_expired r (dr_now d)" "get_by_id db (rt_user_id r) = Some u" "u_is_active u"
    "create_access_token c st d (u_id u) (u_email u) = Inl e"
  shows "\<exists>db1. refresh c st d db tok = (Inl e, db1) \<and>
           fst (refresh c st d1 db1 tok) = Inl (InvalidRefreshTokenError ''Refresh token has been revoked.'') \<and>
           active_count (snd (refresh c st d1 db1 tok)) (rt_user_id r) = 0"
proof -
  obtain db1 where won: "token_revoke db (rt_id r) (dr_now d) = (True, db1)"
    using token_revoke_result[OF assms(1), of r "dr_now d"] assms(1-3)
    by (cases "token_revoke db (rt_id r) (dr_now d)") (simp add: token_by_hash_Some)
  have "refresh c st d db tok = (Inl e, db1)"
    using assms(2-7) won by (simp add: refresh_def hash_refresh_token_def issue_token_pair_def)
  moreover have "token_by_hash db1 (c_sha256 c tok) = Some (revoke_row (dr_now d) r)"
    using token_by_hash_revoke[of db "rt_id r" "dr_now d" "c_sha256 c tok"] assms(2) won by simp
  ultimately show ?thesis
    by (auto simp: refresh_def hash_refresh_token_def frame_simps active_count_revoke_all)
qed

abbreviation no_secret :: auth_settings where
  "no_secret \<equiv> demo_settings\<lparr>as_jwt_secret := None\<rparr>"

theorem failed_signing_burns_token_witness:
  "\<exists>db1. refresh demo_crypto no_secret demo_draw demo_db ''old'' =
     (Inl (TokenError ''Authentication is enabled but RAG_JWT_SECRET_KEY is not set.''), db1) \<and>
     active_count (snd (refresh demo_crypto no_secret demo_draw db1 ''old'')) (rt_user_id demo_row) = 0"
proof -
  have l: "token_by_hash demo_db (c_sha256 demo_crypto ''old'') = Some demo_row" by (simp add: token_by_hash_def)
  have r: "\<not> is_revoked demo_row" "\<not> is_expired demo_row (dr_now demo_draw)"
    by (simp_all add: is_revoked_def is_expired_def)
  have u: "get_by_id demo_db (rt_user_id demo_row) = Some (new_user ''u'' ''a@b.c'' ''pw'' 0)"
    "u_is_active (new_user ''u'' ''a@b.c'' ''pw'' 0)" by (simp_all add: get_by_id_def new_user_def)
  have s: "create_access_token demo_crypto no_secret demo_draw
      (u_id (new_user ''u'' ''a@b.c'' ''pw'' 0)) (u_email (new_user ''u'' ''a@b.c'' ''pw'' 0)) =
      Inl (TokenError ''Authentication is enabled but RAG_JWT_SECRET_KEY is not set.'')"
    by (simp add: create_access_token_def require_jwt_secret_def or_none_def)
  show ?thesis
    using failed_signing_burns_token[OF demo_tokens_ok(1) l r u s, of demo_draw] by blast
qed

end
