(* ===== verification/RateLimit.thy ===== *)
theory RateLimit
  imports Prelude
begin

text \<open>
  The sliding-window rate limiter of \<open>rate_limit.py\<close>: the state of
  \<open>SlidingWindowRateLimiter\<close>, its sweep \<open>_prune\<close> and its operation \<open>check\<close>, the key of a
  request (\<open>_client_key\<close>) and the dependency \<open>rate_limit\<close> builds. The monotonic clock is an
  argument of every operation; the lock makes each \<open>check\<close> one atomic step, so a concurrent
  execution is a sequence of \<open>check\<close> steps with non-decreasing times.
\<close>

section \<open>State and operations\<close>

record limiter =
  rl_limit :: nat
  rl_window :: pyfloat
  rl_hits :: "ident \<rightharpoonup> pyfloat list"
  rl_last_prune :: pyfloat

datatype rl_error = RateLimitValueError

definition limiter_init :: "int \<Rightarrow> pyfloat \<Rightarrow> pyfloat \<Rightarrow> rl_error + limiter" where
  "limiter_init limit window now =
     (if limit < 1 then Inl RateLimitValueError
      else Inr \<lparr>rl_limit = nat limit, rl_window = window, rl_hits = Map.empty,
                rl_last_prune = now\<rparr>)"

definition bucket_stale :: "pyfloat \<Rightarrow> pyfloat list \<Rightarrow> bool" where
  "bucket_stale cutoff b \<longleftrightarrow> b = [] \<or> last b \<le> cutoff"

definition prune_hits :: "pyfloat \<Rightarrow> (ident \<rightharpoonup> pyfloat list) \<Rightarrow> (ident \<rightharpoonup> pyfloat list)" where
  "prune_hits cutoff h =
     (\<lambda>k. case h k of None \<Rightarrow> None | Some b \<Rightarrow> if bucket_stale cutoff b then None else Some b)"

definition sweep :: "pyfloat \<Rightarrow> limiter \<Rightarrow> limiter" where
  "sweep now s =
     (if rl_window s \<le> now - rl_last_prune s
      then s\<lparr>rl_hits := prune_hits (now - rl_window s) (rl_hits s), rl_last_prune := now\<rparr>
      else s)"

definition drop_aged :: "pyfloat \<Rightarrow> pyfloat list \<Rightarrow> pyfloat list" where
  "drop_aged cutoff b = dropWhile (\<lambda>ts. ts \<le> cutoff) b"

definition retry_after :: "pyfloat \<Rightarrow> pyfloat \<Rightarrow> pyfloat \<Rightarrow> int" where
  "retry_after window now oldest = max 1 (py_int (window - (now - oldest) + 999 / 1000))"

definition check_rate :: "limiter \<Rightarrow> ident \<Rightarrow> pyfloat \<Rightarrow> (bool \<times> int) \<times> limiter" where
  "check_rate s0 key now =
     (let s = sweep now s0;
          bucket = drop_aged (now - rl_window s) (case rl_hits s key of None \<Rightarrow> [] | Some b \<Rightarrow> b)
      in if rl_limit s \<le> length bucket
         then ((False, retry_after (rl_window s) now (hd bucket)),
               s\<lparr>rl_hits := (rl_hits s)(key \<mapsto> bucket)\<rparr>)
         else ((True, 0), s\<lparr>rl_hits := (rl_hits s)(key \<mapsto> bucket @ [now])\<rparr>))"

text \<open>The request's key: the left-most forwarded address, the peer, or \<open>unknown\<close>.\<close>

record request =
  req_forwarded :: "string option"
  req_client :: "string option"

definition client_key :: "request \<Rightarrow> string" where
  "client_key r =
     (case req_forwarded r of
        Some f \<Rightarrow>
          if f \<noteq> [] then py_strip (takeWhile (\<lambda>c. c \<noteq> CHR '','') f)
          else (case req_client r of Some h \<Rightarrow> h | None \<Rightarrow> ''unknown'')
      | None \<Rightarrow> (case req_client r of Some h \<Rightarrow> h | None \<Rightarrow> ''unknown''))"

datatype http_error = HttpError nat string

datatype rl_outcome = Admitted | Throttled http_error int

definition rate_limit_dep :: "limiter \<Rightarrow> string \<Rightarrow> request \<Rightarrow> pyfloat \<Rightarrow> rl_outcome \<times> limiter" where
  "rate_limit_dep s scope r now =
     (case check_rate s (scope @ '':'' @ client_key r) now of
        ((True, _), s') \<Rightarrow> (Admitted, s')
      | ((False, ra), s') \<Rightarrow>
          (Throttled (HttpError 429
             ''Too many requests. Please slow down and try again shortly.'') ra, s'))"

text \<open>A run of the limiter: the times and keys of the calls, and what each returned.\<close>

fun run_checks :: "limiter \<Rightarrow> (ident \<times> pyfloat) list \<Rightarrow> (ident \<times> pyfloat \<times> bool) list \<times> limiter" where
  "run_checks s [] = ([], s)"
| "run_checks s ((k, t) # cs) =
     (let ((ok, _), s') = check_rate s k t; (lg, s'') = run_checks s' cs
      in ((k, t, ok) # lg, s''))"

text \<open>
  The specification: a reference limiter that keeps every admitted time of every key for
  ever, never sweeps, and admits a call when fewer than \<open>cap\<close> admitted times lie in the
  window that ends at the call.
\<close>

definition in_window :: "pyfloat \<Rightarrow> pyfloat \<Rightarrow> pyfloat list \<Rightarrow> pyfloat list" where
  "in_window w t h = filter (\<lambda>x. t - w < x \<and> x \<le> t) h"

fun spec_run :: "nat \<Rightarrow> pyfloat \<Rightarrow> (ident \<Rightarrow> pyfloat list) \<Rightarrow> (ident \<times> pyfloat) list
    \<Rightarrow> (ident \<times> pyfloat \<times> bool) list" where
  "spec_run cap w h [] = []"
| "spec_run cap w h ((k, t) # cs) =
     (let ok = length (in_window w t (h k)) < cap
      in (k, t, ok) # spec_run cap w (if ok then h(k := h k @ [t]) else h) cs)"

definition admitted_times :: "(ident \<times> pyfloat \<times> bool) list \<Rightarrow> ident \<Rightarrow> pyfloat list" where
  "admitted_times lg k = map (\<lambda>(_, t, _). t) (filter (\<lambda>(k', _, ok). k' = k \<and> ok) lg)"

section \<open>Bucket invariant\<close>

definition bucket_ok :: "nat \<Rightarrow> pyfloat \<Rightarrow> pyfloat list \<Rightarrow> bool" where
  "bucket_ok cap now b \<longleftrightarrow> sorted b \<and> length b \<le> cap \<and> b \<noteq> [] \<and> last b \<le> now"

definition limiter_inv :: "pyfloat \<Rightarrow> limiter \<Rightarrow> bool" where
  "limiter_inv now s \<longleftrightarrow>
     0 < rl_limit s \<and> rl_last_prune s \<le> now \<and>
     (\<forall>k b. rl_hits s k = Some b \<longrightarrow> bucket_ok (rl_limit s) now b)"

lemma sorted_le_last: "sorted b \<Longrightarrow> x \<in> set b \<Longrightarrow> x \<le> last (b :: pyfloat list)"
  by (induction b) auto

lemma drop_aged_filter: "sorted b \<Longrightarrow> drop_aged c b = filter (\<lambda>t. c < t) b"
  unfolding drop_aged_def by (induction b) (auto simp: not_le intro!: filter_True[symmetric])

lemma sorted_drop_aged: "sorted b \<Longrightarrow> sorted (drop_aged c b)"
  by (simp add: drop_aged_filter sorted_filter[of id, simplified])

lemma length_drop_aged: "length (drop_aged c b) \<le> length b"
  by (simp add: drop_aged_def length_dropWhile_le)

lemma set_drop_aged: "set (drop_aged c b) \<subseteq> set b"
  by (auto simp: drop_aged_def dest: set_dropWhileD)

lemma hd_drop_aged: "drop_aged c b \<noteq> [] \<Longrightarrow> c < hd (drop_aged c b)"
  using hd_dropWhile[of "\<lambda>ts. ts \<le> c" b] by (auto simp: drop_aged_def not_le)

lemma sweep_frame [frame_simps]:
  "rl_limit (sweep now s) = rl_limit s"
  "rl_window (sweep now s) = rl_window s"
  by (simp_all add: sweep_def)

lemma check_rate_frame [frame_simps]:
  "rl_limit (snd (check_rate s k now)) = rl_limit s"
  "rl_window (snd (check_rate s k now)) = rl_window s"
  by (simp_all add: check_rate_def Let_def frame_simps)

lemma prune_hits_Some:
  "prune_hits c h k = Some b \<longleftrightarrow> h k = Some b \<and> b \<noteq> [] \<and> c < last b"
  by (auto simp: prune_hits_def bucket_stale_def not_le split: option.splits if_splits)

lemma bucket_ok_later: "bucket_ok l now b \<Longrightarrow> now \<le> now' \<Longrightarrow> bucket_ok l now' b"
  by (auto simp: bucket_ok_def)

lemma limiter_inv_later: "limiter_inv now s \<Longrightarrow> now \<le> now' \<Longrightarrow> limiter_inv now' s"
  unfolding limiter_inv_def by (meson bucket_ok_later order_trans)

lemma sweep_inv:
  assumes "limiter_inv t s" "t \<le> now" shows "limiter_inv now (sweep now s)"
  using limiter_inv_later[OF assms]
  by (auto simp: limiter_inv_def sweep_def prune_hits_Some)

definition bucket_of :: "limiter \<Rightarrow> ident \<Rightarrow> pyfloat list" where
  "bucket_of s k = (case rl_hits s k of None \<Rightarrow> [] | Some b \<Rightarrow> b)"

lemma bucket_of_sorted: "limiter_inv now s \<Longrightarrow> sorted (bucket_of s k)"
  by (auto simp: limiter_inv_def bucket_of_def bucket_ok_def split: option.splits)

lemma bucket_of_le: "limiter_inv now s \<Longrightarrow> x \<in> set (bucket_of s k) \<Longrightarrow> x \<le> now"
  using sorted_le_last[of "bucket_of s k" x]
  by (force simp: limiter_inv_def bucket_of_def bucket_ok_def split: option.splits)

lemma bucket_of_length: "limiter_inv now s \<Longrightarrow> length (bucket_of s k) \<le> rl_limit s"
  by (auto simp: limiter_inv_def bucket_of_def bucket_ok_def split: option.splits)

text \<open>One call, in terms of the bucket it leaves behind.\<close>

lemma check_rate_eq:
  "check_rate s k now =
     (let s1 = sweep now s; b = drop_aged (now - rl_window s) (bucket_of s1 k)
      in if rl_limit s \<le> length b
         then ((False, retry_after (rl_window s) now (hd b)), s1\<lparr>rl_hits := (rl_hits s1)(k \<mapsto> b)\<rparr>)
         else ((True, 0), s1\<lparr>rl_hits := (rl_hits s1)(k \<mapsto> b @ [now])\<rparr>))"
  by (simp add: check_rate_def bucket_of_def Let_def frame_simps)

lemma check_rate_inv [inv_intros]:
  assumes "limiter_inv t s" "t \<le> now"
  shows "limiter_inv now (snd (check_rate s k now))"
proof -
  let ?s1 = "sweep now s"
  let ?b = "drop_aged (now - rl_window s) (bucket_of ?s1 k)"
  have inv: "limiter_inv now ?s1" by (rule sweep_inv[OF assms])
  have le: "x \<le> now" if "x \<in> set ?b" for x
    using that set_drop_aged bucket_of_le[OF inv] by blast
  have b: "sorted ?b" "length ?b \<le> rl_limit s"
    using sorted_drop_aged[OF bucket_of_sorted[OF inv]]
      order_trans[OF length_drop_aged bucket_of_length[OF inv, of k]] by (auto simp: frame_simps)
  have denied: "bucket_ok (rl_limit s) now ?b" if "rl_limit s \<le> length ?b"
    using that b le inv by (auto simp: bucket_ok_def limiter_inv_def frame_simps)
  have admitted: "bucket_ok (rl_limit s) now (?b @ [now])" if "\<not> rl_limit s \<le> length ?b"
    using that b le by (auto simp: bucket_ok_def sorted_append)
  show ?thesis
    using inv denied admitted by (auto simp: check_rate_eq Let_def limiter_inv_def frame_simps)
qed

section \<open>Refinement of the reference limiter\<close>

text \<open>
  The bucket of a key holds exactly the admitted times that are still in the window, as
  the reference's history does once it is cut to the window.
\<close>

definition hist_rel :: "pyfloat \<Rightarrow> limiter \<Rightarrow> (ident \<Rightarrow> pyfloat list) \<Rightarrow> bool" where
  "hist_rel now s h \<longleftrightarrow>
     (\<forall>k. (\<forall>x \<in> set (h k). x \<le> now) \<and>
          filter (\<lambda>x. now - rl_window s < x) (bucket_of s k) =
          filter (\<lambda>x. now - rl_window s < x) (h k))"

lemma filter_later:
  assumes "filter (\<lambda>x. a < x) xs = filter (\<lambda>x. a < x) ys" "a \<le> (b :: pyfloat)"
  shows "filter (\<lambda>x. b < x) xs = filter (\<lambda>x. b < x) ys"
proof -
  have "filter (\<lambda>x. b < x) zs = filter (\<lambda>x. b < x) (filter (\<lambda>x. a < x) zs)" for zs
    using assms(2) by (auto intro!: filter_cong)
  then show ?thesis using assms(1) by metis
qed

lemma hist_rel_later: "hist_rel now s h \<Longrightarrow> now \<le> now' \<Longrightarrow> hist_rel now' s h"
  unfolding hist_rel_def by (meson diff_right_mono filter_later order_trans)

lemma bucket_of_sweep:
  assumes "limiter_inv t s" 
  shows "filter (\<lambda>x. now - rl_window s < x) (bucket_of (sweep now s) k) =
         filter (\<lambda>x. now - rl_window s < x) (bucket_of s k)"
proof -
  have "filter (\<lambda>x. c < x) b = []" if "rl_hits s k = Some b" "last b \<le> c" for b c
    using that assms sorted_le_last[of b] by (force simp: limiter_inv_def bucket_ok_def filter_empty_conv)
  then show ?thesis
    by (auto simp: sweep_def bucket_of_def prune_hits_def bucket_stale_def split: option.splits)
qed

lemma hist_bucket:
  assumes "limiter_inv t s" "hist_rel t s h" "t \<le> now"
  shows "drop_aged (now - rl_window s) (bucket_of (sweep now s) k) = in_window (rl_window s) now (h k)"
proof -
  have h: "hist_rel now s h" using hist_rel_later assms(2,3) by blast
  have "drop_aged (now - rl_window s) (bucket_of (sweep now s) k) =
        filter (\<lambda>x. now - rl_window s < x) (h k)"
    using h bucket_of_sweep[OF assms(1)] bucket_of_sorted[OF sweep_inv[OF assms(1,3)]]
    by (simp add: drop_aged_filter hist_rel_def)
  also have "\<dots> = in_window (rl_window s) now (h k)"
    using h by (auto simp: in_window_def hist_rel_def intro!: filter_cong)
  finally show ?thesis .
qed

lemma check_rate_admits_iff:
  assumes "limiter_inv t s" "hist_rel t s h" "t \<le> now"
  shows "fst (fst (check_rate s k now)) \<longleftrightarrow> length (in_window (rl_window s) now (h k)) < rl_limit s"
  by (simp add: check_rate_eq hist_bucket[OF assms] Let_def)

lemma check_rate_hist:
  assumes "limiter_inv t s" "hist_rel t s h" "t \<le> now"
  shows "hist_rel now (snd (check_rate s k now))
           (if fst (fst (check_rate s k now)) then h(k := h k @ [now]) else h)"
proof -
  let ?w = "rl_window s"
  let ?s1 = "sweep now s"
  have h: "hist_rel now s h" using hist_rel_later assms(2,3) by blast
  have f: "filter (\<lambda>x. now - ?w < x) (in_window ?w now (h k)) = filter (\<lambda>x. now - ?w < x) (h k)"
    using h by (auto simp: in_window_def hist_rel_def intro!: filter_cong)
  have hb: "drop_aged (now - ?w) (bucket_of ?s1 k) = in_window ?w now (h k)"
    by (rule hist_bucket[OF assms])
  have upd: "bucket_of (s'\<lparr>rl_hits := (rl_hits s')(k \<mapsto> b)\<rparr>) k' = (if k' = k then b else bucket_of s' k')"
    for s' b k' by (simp add: bucket_of_def)
  have other: "filter (\<lambda>x. now - ?w < x) (bucket_of ?s1 k') = filter (\<lambda>x. now - ?w < x) (h k')" for k'
    using h bucket_of_sweep[OF assms(1)] by (simp add: hist_rel_def)
  show ?thesis
    using h other f
    by (auto simp: check_rate_eq hb Let_def hist_rel_def frame_simps upd)
qed

lemma run_checks_refines:
  assumes "limiter_inv t s" "hist_rel t s h" "sorted (t # map snd calls)"
  shows "fst (run_checks s calls) = spec_run (rl_limit s) (rl_window s) h calls"
  using assms
proof (induction s calls arbitrary: t h rule: run_checks.induct)
  case (1 s)
  then show ?case by simp
next
  case (2 s k now cs)
  obtain ok ra s' where step: "check_rate s k now = ((ok, ra), s')" by (metis prod.collapse)
  have t: "t \<le> now" "sorted (now # map snd cs)" using 2(4) by auto
  have inv: "limiter_inv now s'" and hist: "hist_rel now s' (if ok then h(k := h k @ [now]) else h)"
    using check_rate_inv[OF 2(2) t(1), of k] check_rate_hist[OF 2(2,3) t(1), of k] step by simp_all
  have fr: "rl_limit s' = rl_limit s" "rl_window s' = rl_window s"
    using check_rate_frame[of s k now] step by simp_all
  have ok: "ok \<longleftrightarrow> length (in_window (rl_window s) now (h k)) < rl_limit s"
    using check_rate_admits_iff[OF 2(2,3) t(1), of k] step by simp
  have IH: "fst (run_checks s' cs) =
      spec_run (rl_limit s) (rl_window s) (if ok then h(k := h k @ [now]) else h) cs"
    using 2(1)[OF step[symmetric] refl refl inv hist t(2)] fr by simp
  show ?case by (simp add: step IH case_prod_beta Let_def flip: ok)
qed

section \<open>The window bound\<close>

definition window_bound :: "nat \<Rightarrow> pyfloat \<Rightarrow> pyfloat list \<Rightarrow> bool" where
  "window_bound cap w h \<longleftrightarrow> (\<forall>t. length (in_window w t h) \<le> cap)"

lemma in_window_snoc:
  "in_window w t (h @ [x]) = in_window w t h @ (if t - w < x \<and> x \<le> t then [x] else [])"
  by (simp add: in_window_def)

lemma in_window_earlier:
  assumes "\<forall>x \<in> set h. x \<le> now" "now \<le> t"
  shows "length (in_window w t h) \<le> length (in_window w now h)"
proof -
  have "in_window w t h = filter (\<lambda>x. t - w < x) (in_window w now h)"
    using assms by (auto simp: in_window_def intro!: filter_cong)
  then show ?thesis by simp
qed

lemma window_bound_snoc:
  assumes "window_bound cap w h" "length (in_window w now h) < cap" "\<forall>x \<in> set h. x \<le> now"
  shows "window_bound cap w (h @ [now])"
proof -
  have "length (in_window w t (h @ [now])) \<le> cap" for t
    using assms in_window_earlier[OF assms(3), of t w]
    by (cases "now \<le> t") (auto simp: in_window_snoc window_bound_def)
  then show ?thesis by (simp add: window_bound_def)
qed

lemma admitted_times_Cons:
  "admitted_times ((k', t, ok) # lg) k = (if k' = k \<and> ok then [t] else []) @ admitted_times lg k"
  by (simp add: admitted_times_def)

lemma spec_run_bound:
  assumes "\<forall>k. window_bound cap w (h k) \<and> (\<forall>x \<in> set (h k). x \<le> t)" "sorted (t # map snd calls)"
  shows "window_bound cap w (h k @ admitted_times (spec_run cap w h calls) k)"
  using assms
proof (induction cap w h calls arbitrary: t rule: spec_run.induct)
  case (1 cap w h)
  then show ?case by (simp add: admitted_times_def)
next
  case (2 cap w h k1 now cs)
  let ?ok = "length (in_window w now (h k1)) < cap"
  let ?h = "if ?ok then h(k1 := h k1 @ [now]) else h"
  have t: "t \<le> now" "sorted (now # map snd cs)" using 2(3) by auto
  have le: "\<forall>k. \<forall>x \<in> set (h k). x \<le> now" using 2(2) t(1) order_trans by blast
  have "\<forall>k. window_bound cap w (?h k) \<and> (\<forall>x \<in> set (?h k). x \<le> now)"
    using 2(2) le window_bound_snoc[of cap w "h k1" now] by auto
  from 2(1)[OF refl this t(2)] show ?case
    by (auto simp: Let_def admitted_times_Cons split: if_splits)
qed

lemma limiter_init_rel:
  assumes "limiter_init limit w t0 = Inr s"
  shows "limiter_inv t0 s" "hist_rel t0 s (\<lambda>_. [])" "rl_limit s = nat limit" "rl_window s = w" "0 < limit"
  using assms by (auto simp: limiter_init_def limiter_inv_def hist_rel_def bucket_of_def split: if_splits)

section \<open>Retry hints and memory\<close>

lemma check_rate_denied:
  assumes "limiter_inv t s" "t \<le> now" "check_rate s k now = ((False, ra), s')"
  shows "bucket_of s' k \<noteq> [] \<and> length (bucket_of s' k) = rl_limit s \<and>
         now - rl_window s < hd (bucket_of s' k) \<and> hd (bucket_of s' k) \<le> now \<and>
         ra = retry_after (rl_window s) now (hd (bucket_of s' k))"
proof -
  let ?b = "drop_aged (now - rl_window s) (bucket_of (sweep now s) k)"
  have b: "bucket_of s' k = ?b" "rl_limit s \<le> length ?b" "ra = retry_after (rl_window s) now (hd ?b)"
    using assms(3) by (auto simp: check_rate_eq Let_def frame_simps bucket_of_def split: if_splits)
  have inv: "limiter_inv now s'" using check_rate_inv[OF assms(1,2), of k] assms(3) by simp
  have fr: "rl_limit s' = rl_limit s" using check_rate_frame(1)[of s k now] assms(3) by simp
  have "0 < rl_limit s" using assms(1) by (simp add: limiter_inv_def)
  then have ne: "?b \<noteq> []" using b(2) by auto
  show ?thesis
    using b ne hd_drop_aged[OF ne] bucket_of_length[OF inv, of k] bucket_of_le[OF inv, of "hd ?b" k] fr
    by auto
qed

lemma retry_after_bounds:
  assumes "0 \<le> now - oldest" "now - oldest < w"
  shows "1 \<le> retry_after w now oldest" "w - (now - oldest) - 1 / 1000 < of_int (retry_after w now oldest)"
    "of_int (retry_after w now oldest) < max 1 (w - (now - oldest)) + 1"
proof -
  show "1 \<le> retry_after w now oldest" by (simp add: retry_after_def)
  have r: "py_int (w - (now - oldest) + 999 / 1000) = \<lfloor>w - (now - oldest) + 999 / 1000\<rfloor>"
    using assms by (simp add: py_int_def)
  show "w - (now - oldest) - 1 / 1000 < of_int (retry_after w now oldest)"
    "of_int (retry_after w now oldest) < max 1 (w - (now - oldest)) + 1"
    unfolding retry_after_def r by linarith+
qed

lemma check_rate_after_oldest:
  assumes "limiter_inv now s" "now \<le> now'" "bucket_of s k \<noteq> []"
    "hd (bucket_of s k) \<le> now' - rl_window s"
  shows "fst (fst (check_rate s k now'))"
proof -
  let ?d = "\<lambda>b. drop_aged (now' - rl_window s) b"
  obtain x xs where x: "bucket_of s k = x # xs" using assms(3) by (cases "bucket_of s k") auto
  have "length (?d (bucket_of (sweep now' s) k)) \<le> length (?d (bucket_of s k))"
    by (auto simp: sweep_def bucket_of_def prune_hits_def drop_aged_def split: option.splits)
  also have "\<dots> \<le> length xs" using assms(4) x length_drop_aged[of _ xs] by (simp add: drop_aged_def)
  also have "\<dots> < rl_limit s" using bucket_of_length[OF assms(1), of k] x by simp
  finally show ?thesis by (simp add: check_rate_eq Let_def)
qed

definition recent_keys :: "limiter \<Rightarrow> bool" where
  "recent_keys s \<longleftrightarrow> (\<forall>k b. rl_hits s k = Some b \<longrightarrow> rl_last_prune s - rl_window s < last b)"

lemma check_rate_recent:
  assumes "limiter_inv t s" "t \<le> now" "recent_keys s" "0 < rl_window s"
  shows "recent_keys (snd (check_rate s k now)) \<and>
         now - rl_window s < rl_last_prune (snd (check_rate s k now))"
proof -
  let ?s1 = "sweep now s"
  have s1: "recent_keys ?s1" "now - rl_window s < rl_last_prune ?s1" "rl_last_prune ?s1 \<le> now"
    using assms by (auto simp: sweep_def recent_keys_def prune_hits_Some limiter_inv_def)
  let ?b = "drop_aged (now - rl_window s) (bucket_of ?s1 k)"
  have inv: "limiter_inv now ?s1" by (rule sweep_inv[OF assms(1,2)])
  have l: "rl_last_prune ?s1 - rl_window s < last ?b" if "?b \<noteq> []"
  proof -
    have "hd ?b \<le> last ?b"
      using that sorted_le_last[OF sorted_drop_aged[OF bucket_of_sorted[OF inv]]] by simp
    then show ?thesis using hd_drop_aged[OF that] s1(3) by simp
  qed
  have "0 < rl_limit s" using assms(1) by (simp add: limiter_inv_def)
  then have ne: "?b \<noteq> []" if "rl_limit s \<le> length ?b" using that by auto
  show ?thesis
    using s1 l ne assms(4) by (auto simp: check_rate_eq Let_def recent_keys_def frame_simps)
qed

section \<open>Properties\<close>

text \<open>C1. The limiter refines its specification: on any sequence of calls with
  non-decreasing times, its decisions (with per-key buckets trimmed in place and whole keys
  swept away at most once per window) are those of the reference limiter that never forgets
  an admitted time.\<close>

theorem limiter_refines_reference:
  assumes "limiter_init limit w t0 = Inr s" "sorted (t0 # map snd calls)"
  shows "fst (run_checks s calls) = spec_run (nat limit) w (\<lambda>_. []) calls"
  using run_checks_refines[OF limiter_init_rel(1,2)[OF assms(1)] assms(2)] limiter_init_rel(3,4)[OF assms(1)]
  by simp

theorem limiter_refines_reference_witness:
  "fst (run_checks \<lparr>rl_limit = 1, rl_window = 10, rl_hits = Map.empty, rl_last_prune = 0\<rparr>
      [(''a'', 1), (''a'', 2), (''a'', 12)])
   = spec_run 1 10 (\<lambda>_. []) [(''a'', 1), (''a'', 2), (''a'', 12)] \<and>
   spec_run 1 10 (\<lambda>_. []) [(''a'', 1), (''a'', 2), (''a'', 12)]
   = [(''a'', 1, True), (''a'', 2, False), (''a'', 12, True)]"
proof -
  have i: "limiter_init 1 10 0 = Inr \<lparr>rl_limit = 1, rl_window = 10, rl_hits = Map.empty, rl_last_prune = 0\<rparr>"
    by (simp add: limiter_init_def)
  have s: "sorted ((0::real) # map snd [(''a'', 1), (''a'', 2), (''a'', 12)])" by simp
  show ?thesis using limiter_refines_reference[OF i s] by (simp add: in_window_def)
qed



text \<open>A throttled caller that waits the \<open>Retry-After\<close> it was given plus one millisecond,
  with no other call in between, is admitted; the hint is at least one second and overshoots
  the true wait by less than a second.\<close>

theorem retry_after_admits:
  assumes "limiter_inv t s" "t \<le> now" "check_rate s k now = ((False, ra), s')"
    "now + of_int ra + 1 / 1000 \<le> now'"
  shows "fst (fst (check_rate s' k now')) \<and> 1 \<le> ra \<and>
         of_int ra < max 1 (rl_window s - (now - hd (bucket_of s' k))) + 1"
proof -
  note d = check_rate_denied[OF assms(1-3)]
  let ?o = "hd (bucket_of s' k)"
  have b: "0 \<le> now - ?o" "now - ?o < rl_window s" using d by linarith+
  note r = retry_after_bounds[OF b]
  have inv: "limiter_inv now s'" and w: "rl_window s' = rl_window s"
    using check_rate_inv[OF assms(1,2), of k] check_rate_frame(2)[of s k now] assms(3) by simp_all
  have "now \<le> now'" "?o \<le> now' - rl_window s'" using r d w assms(4) by auto
  then show ?thesis using check_rate_after_oldest[OF inv] d r by auto
qed

abbreviation busy_limiter :: limiter where
  "busy_limiter \<equiv> \<lparr>rl_limit = 1, rl_window = 10, rl_hits = [''a'' \<mapsto> [1]], rl_last_prune = 0\<rparr>"

lemma busy_limiter_inv: "limiter_inv 2 busy_limiter"
  by (simp add: limiter_inv_def bucket_ok_def)

lemma busy_limiter_denies: "check_rate busy_limiter ''a'' 2 = ((False, 9), busy_limiter)"
  by (simp add: check_rate_def sweep_def drop_aged_def retry_after_def py_int_def)

theorem retry_after_admits_witness:
  "fst (fst (check_rate busy_limiter ''a'' 12))"
proof -
  have "2 + of_int 9 + 1 / 1000 \<le> (12 :: real)" by simp
  from retry_after_admits[OF busy_limiter_inv order_refl busy_limiter_denies this] show ?thesis by simp
qed

text \<open>Memory follows the traffic of two windows: after every call, each key still stored
  has an admitted event less than two windows old, so keys that were seen once and never
  again do not accumulate.\<close>

theorem limiter_memory_recent:
  assumes "limiter_inv t s" "t \<le> now" "recent_keys s" "0 < rl_window s"
    "rl_hits (snd (check_rate s k now)) key = Some b"
  shows "b \<noteq> [] \<and> now - 2 * rl_window s < last b"
proof -
  have "bucket_ok (rl_limit s) now b"
    using check_rate_inv[OF assms(1,2), of k] assms(5) by (auto simp: limiter_inv_def frame_simps)
  then show ?thesis
    using check_rate_recent[OF assms(1-4), of k] assms(5)
    by (fastforce simp: recent_keys_def bucket_ok_def frame_simps)
qed

theorem limiter_memory_recent_witness: "2 - 2 * 10 < (last [1] :: real)"
proof -
  have r: "recent_keys busy_limiter" by (simp add: recent_keys_def)
  have w: "0 < rl_window busy_limiter" by simp
  have h: "rl_hits (snd (check_rate busy_limiter ''a'' 2)) ''a'' = Some [1]"
    by (subst busy_limiter_denies) simp
  show ?thesis using limiter_memory_recent[OF busy_limiter_inv order_refl r w h] by simp
qed

end
