(* ===== verification/AuthHttp.thy ===== *)
theory AuthHttp
  imports AuthService RateLimit
begin

text \<open>
  The HTTP side of authentication: the request models of \<open>auth/models.py\<close>, the dependencies of
  \<open>auth/dependencies.py\<close> (bearer token to user, operator gate) and the endpoints of
  \<open>auth/router.py\<close> with their status codes, cookies and the cross-site request guard. An
  endpoint returns its response or the raised \<open>HTTPException\<close>, the tables, and what it did to
  the cookie of the injected response object.
\<close>

section \<open>Request models\<close>

text \<open>The e-mail pattern: one at-sign, no whitespace, an inner dot in the domain.\<close>

definition email_matches :: "string \<Rightarrow> bool" where
  "email_matches s \<longleftrightarrow>
     (case py_split CHR ''@'' s of
        [a, b] \<Rightarrow> a \<noteq> [] \<and> list_all (\<lambda>x. \<not> is_space x) (a @ b) \<and>
                  list_ex (\<lambda>i. b ! i = CHR ''.'') [1..<length b - 1]
      | _ \<Rightarrow> False)"

definition normalize_email :: "string \<Rightarrow> string option" where
  "normalize_email v =
     (let s = py_strip v in if email_matches s then Some (py_lower s) else None)"

definition register_request :: "string \<Rightarrow> string \<Rightarrow> (string \<times> string) option" where
  "register_request email password =
     (if 3 \<le> length email \<and> length email \<le> 320 \<and> 8 \<le> length password \<and> length password \<le> 256
      then map_option (\<lambda>e. (e, password)) (normalize_email email) else None)"

definition login_request :: "string \<Rightarrow> string \<Rightarrow> (string \<times> string) option" where
  "login_request email password =
     (if 3 \<le> length email \<and> length email \<le> 320 \<and> 1 \<le> length password \<and> length password \<le> 256
      then Some (py_lower (py_strip email), password) else None)"

section \<open>Dependencies\<close>

record user_public =
  up_id :: ident
  up_email :: string
  up_is_active :: bool
  up_created_at :: instant
  up_is_operator :: bool

definition to_public :: "user_record \<Rightarrow> user_public" where
  "to_public u = \<lparr>up_id = u_id u, up_email = u_email u, up_is_active = u_is_active u,
                  up_created_at = u_created_at u, up_is_operator = u_is_operator u\<rparr>"

definition anonymous :: user_public where
  "anonymous = \<lparr>up_id = ''anonymous'', up_email = ''anonymous@localhost'', up_is_active = True,
                up_created_at = 0, up_is_operator = False\<rparr>"

definition operator_emails_set :: "auth_settings \<Rightarrow> string set" where
  "operator_emails_set st =
     set (map (\<lambda>e. py_lower (py_strip e)) (filter (\<lambda>e. py_strip e \<noteq> []) (py_split CHR '','' (as_operator_emails st))))"

definition unauthorized :: "string \<Rightarrow> http_error" where
  "unauthorized detail = HttpError 401 detail"

definition get_current_user :: "crypto \<Rightarrow> auth_settings \<Rightarrow> auth_db \<Rightarrow> string option
    \<Rightarrow> http_error + user_public" where
  "get_current_user c st db credentials =
     (if \<not> as_enabled st then Inr anonymous
      else case or_none credentials of
        None \<Rightarrow> Inl (unauthorized ''Not authenticated.'')
      | Some tok \<Rightarrow>
          (case decode_token c st tok of
             Inl (TokenError msg) \<Rightarrow> Inl (unauthorized msg)
           | Inl _ \<Rightarrow> Inl (unauthorized ''Invalid authentication token.'')
           | Inr claims \<Rightarrow>
               (case or_none (cl_sub claims) of
                  None \<Rightarrow> Inl (unauthorized ''Invalid authentication token.'')
                | Some uid \<Rightarrow>
                    (case get_user db uid of
                       None \<Rightarrow> Inl (unauthorized ''User no longer exists.'')
                     | Some u \<Rightarrow>
                         if \<not> u_is_active u then Inl (unauthorized ''This account is disabled.'')
                         else Inr (to_public u)))))"

definition resolve_is_operator :: "user_public \<Rightarrow> auth_settings \<Rightarrow> bool" where
  "resolve_is_operator u st \<longleftrightarrow>
     (if up_is_operator u then True else py_lower (py_strip (up_email u)) \<in> operator_emails_set st)"

definition require_operator :: "auth_settings \<Rightarrow> user_public \<Rightarrow> http_error + user_public" where
  "require_operator st u =
     (if \<not> as_enabled st then Inr u
      else if \<not> resolve_is_operator u st then Inl (HttpError 403 ''operator_required'')
      else if up_is_operator u then Inr u
      else Inr (u\<lparr>up_is_operator := True\<rparr>))"

definition me :: "auth_settings \<Rightarrow> user_public \<Rightarrow> user_public" where
  "me st u = (if \<not> up_is_operator u \<and> resolve_is_operator u st
              then u\<lparr>up_is_operator := True\<rparr> else u)"

section \<open>The cross-site guard\<close>

text \<open>\<open>urllib.parse.urlsplit\<close> as far as the guard reads it: the scheme and the network
  location; \<open>None\<close> is its \<open>ValueError\<close> on unbalanced brackets.\<close>

definition is_scheme_char :: "char \<Rightarrow> bool" where
  "is_scheme_char ch \<longleftrightarrow>
     (let n = (of_char ch :: nat)
      in (48 \<le> n \<and> n \<le> 57) \<or> (65 \<le> n \<and> n \<le> 90) \<or> (97 \<le> n \<and> n \<le> 122) \<or> ch \<in> set ''+-.'')"

definition is_alpha :: "char \<Rightarrow> bool" where
  "is_alpha ch \<longleftrightarrow> (let n = (of_char ch :: nat) in (65 \<le> n \<and> n \<le> 90) \<or> (97 \<le> n \<and> n \<le> 122))"

definition urlsplit :: "string \<Rightarrow> (string \<times> string) option" where
  "urlsplit url0 =
     (let clean = filter (\<lambda>ch. ch \<notin> {CHR 0x09, CHR 0x0A, CHR 0x0D})
                    (dropWhile (\<lambda>ch. (of_char ch :: nat) \<le> 32) url0);
          pre = takeWhile (\<lambda>ch. ch \<noteq> CHR '':'') clean;
          has_scheme = length pre < length clean \<and> pre \<noteq> [] \<and> is_alpha (hd pre) \<and>
                       list_all is_scheme_char pre;
          scheme = (if has_scheme then py_lower pre else []);
          rest = (if has_scheme then drop (length pre + 1) clean else clean);
          netloc = (if py_startswith rest ''//''
                    then takeWhile (\<lambda>ch. ch \<notin> set ''/?#'') (drop 2 rest) else [])
      in if (CHR ''['' \<in> set netloc) \<noteq> (CHR '']'' \<in> set netloc) then None
         else Some (scheme, netloc))"

definition origin_from_referer :: "string option \<Rightarrow> string option option" where
  "origin_from_referer referer =
     (case or_none referer of
        None \<Rightarrow> Some None
      | Some r \<Rightarrow>
          (case urlsplit r of
             None \<Rightarrow> None
           | Some (scheme, netloc) \<Rightarrow>
               if scheme \<noteq> [] \<and> netloc \<noteq> [] then Some (Some (scheme @ ''://'' @ netloc))
               else Some None))"

definition strip_slash :: "string \<Rightarrow> string" where
  "strip_slash s = rstrip_by (\<lambda>ch. ch = CHR ''/'') s"

fun add_origins :: "string list \<Rightarrow> string list \<Rightarrow> string list" where
  "add_origins seen [] = seen"
| "add_origins seen (o0 # os) =
     (let og = strip_slash (py_strip o0)
      in add_origins (if og \<noteq> [] \<and> og \<notin> set seen then seen @ [og] else seen) os)"

definition cors_allow_origins_list :: "auth_settings \<Rightarrow> string list" where
  "cors_allow_origins_list st = add_origins [] (py_split CHR '','' (as_cors_origins st))"

record origin_request =
  or_origin :: "string option"
  or_referer :: "string option"
  or_netloc :: string

datatype guard_result = GuardPass | GuardReject http_error | GuardCrash

definition verify_trusted_origin :: "auth_settings \<Rightarrow> origin_request \<Rightarrow> guard_result" where
  "verify_trusted_origin st r =
     (case (case or_none (or_origin r) of
              Some og \<Rightarrow> Some (Some og) | None \<Rightarrow> origin_from_referer (or_referer r)) of
        None \<Rightarrow> GuardCrash
      | Some None \<Rightarrow> GuardPass
      | Some (Some og) \<Rightarrow>
          if py_lower (strip_slash og) \<in> set (map (\<lambda>a. py_lower (strip_slash a)) (cors_allow_origins_list st))
          then GuardPass
          else (case urlsplit og of
                  None \<Rightarrow> GuardCrash
                | Some (_, netloc) \<Rightarrow>
                    if netloc \<noteq> [] \<and> py_lower netloc = py_lower (or_netloc r) then GuardPass
                    else GuardReject (HttpError 403 ''cross-origin request rejected'')))"

section \<open>Endpoints\<close>

record access_body =
  ab_access_token :: string
  ab_token_type :: string
  ab_expires_in :: int

datatype cookie_op = NoCookie | SetCookie string int | ClearCookie

definition access_body_of :: "token_response \<Rightarrow> access_body" where
  "access_body_of p = \<lparr>ab_access_token = tr_access_token p, ab_token_type = tr_token_type p,
                       ab_expires_in = tr_expires_in p\<rparr>"

definition set_refresh_cookie :: "auth_settings \<Rightarrow> string \<Rightarrow> cookie_op" where
  "set_refresh_cookie st tok = SetCookie tok (as_refresh_ttl_days st * 24 * 60 * 60)"

definition register_endpoint :: "crypto \<Rightarrow> auth_settings \<Rightarrow> draw \<Rightarrow> auth_db \<Rightarrow> string \<Rightarrow> string
    \<Rightarrow> (http_error + user_public) \<times> auth_db" where
  "register_endpoint c st d db email password =
     (case register c st d db email password of
        (Inr u, db') \<Rightarrow> (Inr (to_public u), db')
      | (Inl RegistrationClosedError, db') \<Rightarrow>
          (Inl (HttpError 403 ''Self-service registration is disabled.''), db')
      | (Inl EmailExistsError, db') \<Rightarrow>
          (Inl (HttpError 409 ''An account with this email already exists.''), db')
      | (Inl _, db') \<Rightarrow> (Inl (HttpError 500 ''Internal Server Error''), db'))"

definition login_endpoint :: "crypto \<Rightarrow> auth_settings \<Rightarrow> draw \<Rightarrow> auth_db \<Rightarrow> string \<Rightarrow> string
    \<Rightarrow> (http_error + access_body) \<times> cookie_op \<times> auth_db" where
  "login_endpoint c st d db email password =
     (case login c st d db email password of
        (Inr p, db') \<Rightarrow> (Inr (access_body_of p), set_refresh_cookie st (tr_refresh_token p), db')
      | (Inl InvalidCredentialsError, db') \<Rightarrow> (Inl (HttpError 401 ''Incorrect email or password.''), NoCookie, db')
      | (Inl InactiveUserError, db') \<Rightarrow> (Inl (HttpError 401 ''Incorrect email or password.''), NoCookie, db')
      | (Inl (TokenError msg), db') \<Rightarrow> (Inl (HttpError 503 msg), NoCookie, db')
      | (Inl _, db') \<Rightarrow> (Inl (HttpError 500 ''Internal Server Error''), NoCookie, db'))"

definition refresh_endpoint :: "crypto \<Rightarrow> auth_settings \<Rightarrow> draw \<Rightarrow> auth_db \<Rightarrow> string option
    \<Rightarrow> string option \<Rightarrow> (http_error + access_body) \<times> cookie_op \<times> auth_db" where
  "refresh_endpoint c st d db cookie body =
     (case or_none (case or_none cookie of Some t \<Rightarrow> Some t | None \<Rightarrow> body) of
        None \<Rightarrow> (Inl (HttpError 401 ''Missing refresh token.''), NoCookie, db)
      | Some tok \<Rightarrow>
          (case refresh c st d db tok of
             (Inr p, db') \<Rightarrow> (Inr (access_body_of p), set_refresh_cookie st (tr_refresh_token p), db')
           | (Inl (InvalidRefreshTokenError _), db') \<Rightarrow>
               (Inl (HttpError 401 ''Invalid or expired refresh token.''), ClearCookie, db')
           | (Inl (TokenError msg), db') \<Rightarrow> (Inl (HttpError 503 msg), NoCookie, db')
           | (Inl _, db') \<Rightarrow> (Inl (HttpError 500 ''Internal Server Error''), NoCookie, db')))"

definition logout_endpoint :: "crypto \<Rightarrow> draw \<Rightarrow> auth_db \<Rightarrow> string option \<Rightarrow> string option
    \<Rightarrow> nat \<times> cookie_op \<times> auth_db" where
  "logout_endpoint c d db cookie body =
     (case or_none (case or_none cookie of Some t \<Rightarrow> Some t | None \<Rightarrow> body) of
        None \<Rightarrow> (204, ClearCookie, db)
      | Some tok \<Rightarrow> (204, ClearCookie, logout c d db tok))"

text \<open>The refresh route: throttling, then the cross-site guard, then the handler.\<close>

type_synonym limiters = "int \<rightharpoonup> limiter option"

definition get_auth_limiter :: "auth_settings \<Rightarrow> limiters \<Rightarrow> pyfloat \<Rightarrow> limiter option \<times> limiters" where
  "get_auth_limiter st ls now =
     (let rpm = as_rate_limit_per_minute st
      in case ls rpm of
           Some l \<Rightarrow> (l, ls)
         | None \<Rightarrow>
             (let l = (if 0 < rpm then (case limiter_init rpm 60 now of Inr s \<Rightarrow> Some s | Inl _ \<Rightarrow> None)
                       else None)
              in (l, ls(rpm \<mapsto> l))))"

definition auth_rate_limit :: "auth_settings \<Rightarrow> string \<Rightarrow> request \<Rightarrow> pyfloat \<Rightarrow> limiters
    \<Rightarrow> rl_outcome \<times> limiters" where
  "auth_rate_limit st scope r now ls =
     (case get_auth_limiter st ls now of
        (None, ls') \<Rightarrow> (Admitted, ls')
      | (Some l, ls') \<Rightarrow>
          (case rate_limit_dep l scope r now of
             (out, l') \<Rightarrow> (out, ls'(as_rate_limit_per_minute st \<mapsto> Some l'))))"

definition refresh_route :: "crypto \<Rightarrow> auth_settings \<Rightarrow> draw \<Rightarrow> pyfloat \<Rightarrow> request \<Rightarrow> origin_request
    \<Rightarrow> string option \<Rightarrow> string option \<Rightarrow> limiters \<times> auth_db
    \<Rightarrow> (http_error + access_body) \<times> cookie_op \<times> limiters \<times> auth_db" where
  "refresh_route c st d t rq oq cookie body s =
     (case s of (ls, db) \<Rightarrow>
       (case auth_rate_limit st ''refresh'' rq t ls of
          (Throttled e _, ls') \<Rightarrow> (Inl e, NoCookie, ls', db)
        | (Admitted, ls') \<Rightarrow>
            (case verify_trusted_origin st oq of
               GuardReject e \<Rightarrow> (Inl e, NoCookie, ls', db)
             | GuardCrash \<Rightarrow> (Inl (HttpError 500 ''Internal Server Error''), NoCookie, ls', db)
             | GuardPass \<Rightarrow>
                 (case refresh_endpoint c st d db cookie body of
                    (res, ck, db') \<Rightarrow> (res, ck, ls', db')))))"

section \<open>Properties\<close>

text \<open>What the code relies on from PyJWT: a token it signed decodes to its claims while it is
  valid, under the same secret and issuer, and is not empty.\<close>

definition jwt_ok :: "crypto \<Rightarrow> bool" where
  "jwt_ok c \<longleftrightarrow> (\<forall>cl secret tok. c_sign c cl secret = Some tok \<longrightarrow>
     tok \<noteq> [] \<and> c_decode c tok secret (cl_iss cl) = JwtClaims cl)"

lemma or_none_Some: "or_none s = Some x \<longleftrightarrow> s = Some x \<and> x \<noteq> []"
  by (cases s) (auto simp: or_none_def split: list.splits)

lemma create_access_token_Inr:
  assumes "create_access_token c st d uid email = Inr a" "jwt_ok c"
  shows "at_token a \<noteq> [] \<and> (\<exists>cl. decode_token c st (at_token a) = Inr cl \<and> cl_sub cl = Some uid)"
proof -
  let ?cl = "\<lparr>cl_sub = Some uid, cl_email = email, cl_iss = as_jwt_issuer st, cl_iat = dr_now d,
              cl_exp = dr_now d + as_access_ttl_minutes st * 60, cl_jti = dr_jti d\<rparr>"
  obtain secret where s: "require_jwt_secret st = Inr secret" "c_sign c ?cl secret = Some (at_token a)"
    using assms(1) by (auto simp: create_access_token_def Let_def split: sum.splits option.splits)
  then have "at_token a \<noteq> []" "c_decode c (at_token a) secret (as_jwt_issuer st) = JwtClaims ?cl"
    using assms(2) by (force simp: jwt_ok_def)+
  with s(1) show ?thesis by (simp add: decode_token_def)
qed

lemma get_by_id_member:
  assumes "users_ok db" "u \<in> set (db_users db)" shows "get_by_id db (u_id u) = Some u"
  unfolding get_by_id_def by (rule find_distinct) (use assms in \<open>simp_all add: users_ok_def\<close>)

text \<open>Session round trip: the access token that a login returns is accepted as the bearer
  credential of the account that logged in, which is stored, active and had the password
  checked; with it come the refresh cookie with the configured lifetime and an active stored
  refresh token.\<close>

theorem login_session_roundtrip:
  assumes "login_endpoint c st d db email password = (Inr body, ck, db')" "users_ok db" "jwt_ok c"
    "as_enabled st" "\<forall>v \<in> set (db_users db). u_id v \<noteq> []"
  shows "\<exists>u. get_by_email db email = Some u \<and> u_is_active u \<and> c_check_pw c password (u_password_hash u) \<and>
    get_current_user c st db' (Some (ab_access_token body)) = Inr (to_public u) \<and>
    ck = SetCookie (dr_opaque d) (as_refresh_ttl_days st * 86400) \<and>
    (\<exists>r. token_by_hash db' (c_sha256 c (dr_opaque d)) = Some r \<and> \<not> is_revoked r \<and> rt_user_id r = u_id u)"
proof -
  obtain p where p: "login c st d db email password = (Inr p, db')" "body = access_body_of p"
      "ck = set_refresh_cookie st (tr_refresh_token p)"
    using assms(1) by (auto simp: login_endpoint_def split: prod.splits sum.splits auth_error.splits)
  obtain u where auth: "authenticate c db email password = Inr u"
    and iss: "issue_token_pair c st d db u = (Inr p, db')"
    using p(1) by (auto simp: login_def split: sum.splits)
  have u: "get_by_email db email = Some u" "u_is_active u" "c_check_pw c password (u_password_hash u)"
    using auth by (auto simp: authenticate_def Let_def split: option.splits if_splits)
  then have mem: "u \<in> set (db_users db)" by (auto simp: get_by_email_def dest: find_SomeD)
  obtain a where a: "create_access_token c st d (u_id u) (u_email u) = Inr a"
    and pa: "tr_access_token p = at_token a" "tr_refresh_token p = dr_opaque d"
    using iss by (auto simp: issue_token_pair_def Let_def split: sum.splits prod.splits)
  note l = issue_token_pair_lookup[OF iss]
  have get: "get_user db' (u_id u) = Some u"
    using get_by_id_member[OF assms(2) mem] l(4) by (simp add: get_user_def get_by_id_def)
  have "get_current_user c st db' (Some (ab_access_token body)) = Inr (to_public u)"
    using create_access_token_Inr[OF a assms(3)] get u(2) assms(4,5) mem p(2) pa
    by (auto simp: get_current_user_def access_body_of_def or_none_def split: list.splits)
  then show ?thesis using u l(1) p(3) pa by (auto simp: set_refresh_cookie_def)
qed

lemma lower_demo: "py_lower ''A@b.c'' = ''a@b.c''" "py_lower ''a@b.c'' = ''a@b.c''"
  "py_strip ''a@b.c'' = ''a@b.c''"
  by code_simp+

abbreviation exact_crypto :: crypto where
  "exact_crypto \<equiv> \<lparr>c_hash_pw = (\<lambda>s. s), c_check_pw = (=), c_sha256 = (\<lambda>s. s),
     c_sign = (\<lambda>cl secret. if cl = \<lparr>cl_sub = Some ''u'', cl_email = ''a@b.c'', cl_iss = ''i'', cl_iat = 5,
                  cl_exp = 905, cl_jti = ''j''\<rparr> then Some ''tok'' else None),
     c_decode = (\<lambda>t secret iss. JwtClaims \<lparr>cl_sub = Some ''u'', cl_email = ''a@b.c'', cl_iss = ''i'', cl_iat = 5,
                  cl_exp = 905, cl_jti = ''j''\<rparr>)\<rparr>"

theorem login_session_roundtrip_witness:
  "\<exists>body ck db'. login_endpoint exact_crypto demo_settings (demo_draw\<lparr>dr_now := 5\<rparr>) demo_db ''A@b.c'' ''pw'' =
     (Inr body, ck, db') \<and>
   (\<exists>u. get_current_user exact_crypto demo_settings db' (Some (ab_access_token body)) = Inr (to_public u))"
proof -
  obtain body ck db' where l:
    "login_endpoint exact_crypto demo_settings (demo_draw\<lparr>dr_now := 5\<rparr>) demo_db ''A@b.c'' ''pw'' = (Inr body, ck, db')"
    by (simp add: login_endpoint_def login_def authenticate_def get_by_email_def auth_eval
      access_body_of_def set_refresh_cookie_def lower_demo)
  have u: "users_ok demo_db" by (simp add: users_ok_def)
  have j: "jwt_ok exact_crypto" by (auto simp: jwt_ok_def)
  have e: "as_enabled demo_settings" by simp
  have n: "\<forall>v \<in> set (db_users demo_db). u_id v \<noteq> []" by (simp add: new_user_def)
  show ?thesis using login_session_roundtrip[OF l u j e n] l by blast
qed

text \<open>With authentication on, a request passes the bearer dependency only as a stored,
  active account named by the subject of a token that decodes; deleted and deactivated
  accounts are refused even with a valid token, and every refusal is a 401.\<close>

theorem current_user_sound:
  assumes "as_enabled st"
  shows "case get_current_user c st db cred of
      Inr p \<Rightarrow> \<exists>tok cl u. cred = Some tok \<and> decode_token c st tok = Inr cl \<and> cl_sub cl = Some (u_id u) \<and>
                 u \<in> set (db_users db) \<and> u_is_active u \<and> p = to_public u
    | Inl (HttpError code _) \<Rightarrow> code = 401"
  using assms
  by (auto simp: get_current_user_def get_user_def get_by_id_def unauthorized_def or_none_Some
      split: option.splits sum.splits auth_error.splits if_splits dest!: find_SomeD)

theorem current_user_sound_witness:
  "get_current_user demo_crypto demo_settings demo_db (Some ''ku'') = Inr (to_public (new_user ''u'' ''a@b.c'' ''pw'' 0))
   \<and> (\<exists>cl. decode_token demo_crypto demo_settings ''ku'' = Inr cl)"
proof -
  have e: "as_enabled demo_settings" by simp
  have g: "get_current_user demo_crypto demo_settings demo_db (Some ''ku'') =
      Inr (to_public (new_user ''u'' ''a@b.c'' ''pw'' 0))"
    by (simp add: get_current_user_def or_none_def decode_token_def require_jwt_secret_def get_user_def
        get_by_id_def new_user_def)
  show ?thesis using current_user_sound[OF e, where c = demo_crypto and db = demo_db and cred = "Some ''ku''"] g by auto
qed

text \<open>The flag the client is shown and the gate the server enforces agree: with
  authentication on, \<open>/auth/me\<close> reports a user as operator exactly when the operator
  dependency lets the user through, and the dependency then hands the same profile on.\<close>

theorem me_agrees_with_operator_gate:
  assumes "as_enabled st"
  shows "require_operator st u =
    (if up_is_operator (me st u) then Inr (me st u) else Inl (HttpError 403 ''operator_required''))"
  using assms by (auto simp: require_operator_def me_def resolve_is_operator_def)

theorem me_agrees_with_operator_gate_witness:
  "require_operator (demo_settings\<lparr>as_operator_emails := ''Ops@x.y, a@B.c''\<rparr>)
     (to_public (new_user ''u'' ''a@b.c'' ''pw'' 0)) =
   Inr ((to_public (new_user ''u'' ''a@b.c'' ''pw'' 0))\<lparr>up_is_operator := True\<rparr>)"
proof -
  let ?st = "demo_settings\<lparr>as_operator_emails := ''Ops@x.y, a@B.c''\<rparr>"
  let ?u = "to_public (new_user ''u'' ''a@b.c'' ''pw'' 0)"
  have e: "as_enabled ?st" by simp
  have "''a@b.c'' \<in> operator_emails_set ?st" by code_simp
  then have "me ?st ?u = ?u\<lparr>up_is_operator := True\<rparr>"
    by (simp add: me_def resolve_is_operator_def to_public_def new_user_def lower_demo)
  then show ?thesis using me_agrees_with_operator_gate[OF e, of ?u] by simp
qed

text \<open>The refresh route is guarded: if a call of it changes the token tables or hands out an
  access token, then the caller was within its rate, its origin was trusted, and a refresh
  token was presented.\<close>

theorem refresh_route_guarded:
  assumes "refresh_route c st d t rq oq cookie body (ls, db) = (res, ck, ls', db')"
    "db' \<noteq> db \<or> (\<exists>a. res = Inr a)"
  shows "fst (auth_rate_limit st ''refresh'' rq t ls) = Admitted \<and> verify_trusted_origin st oq = GuardPass \<and>
         (or_none cookie \<noteq> None \<or> or_none body \<noteq> None)"
  using assms
  by (auto simp: refresh_route_def refresh_endpoint_def
      split: prod.splits rl_outcome.splits guard_result.splits option.splits)

theorem refresh_route_guarded_witness:
  "verify_trusted_origin demo_settings \<lparr>or_origin = Some ''https://a.b'', or_referer = None, or_netloc = ''A.b''\<rparr>
   = GuardPass"
proof -
  let ?oq = "\<lparr>or_origin = Some ''https://a.b'', or_referer = None, or_netloc = ''A.b''\<rparr>"
  let ?rq = "\<lparr>req_forwarded = None, req_client = None\<rparr>"
  have v: "verify_trusted_origin demo_settings ?oq = GuardPass" by code_simp
  have "fst (auth_rate_limit demo_settings ''refresh'' ?rq 0 Map.empty) = Admitted"
    by (simp add: auth_rate_limit_def get_auth_limiter_def limiter_init_def rate_limit_dep_def
        check_rate_def sweep_def drop_aged_def client_key_def Let_def)
  then obtain l where r: "auth_rate_limit demo_settings ''refresh'' ?rq 0 Map.empty = (Admitted, l)"
    by (metis prod.collapse)
  have x: "refresh_route demo_crypto demo_settings demo_draw 0 ?rq ?oq (Some ''old'') None (Map.empty, demo_db) =
      (Inr (access_body_of demo_pair), set_refresh_cookie demo_settings ''new'', l, demo_db2)"
    using v r demo_refresh by (simp add: refresh_route_def refresh_endpoint_def or_none_def)
  show ?thesis using refresh_route_guarded[OF x] by blast
qed

end
