(* ===== verification/AuthConcurrent.thy ===== *)
theory AuthConcurrent
  imports AuthService
begin

text \<open>
  Concurrent refreshes. \<open>AuthService.refresh\<close> is not one transaction: it is a look-up, a user
  look-up, a conditional \<open>UPDATE\<close> and an \<open>INSERT\<close>, each atomic on its own, and any number of
  request threads (of any number of processes) interleave between them. Each thread is a
  program counter carrying the values it has read; the steps are the statements of
  \<open>auth/service.py\<close>, plus the other writers of the tables (logout, family revocation, login,
  cleanup, account changes).
\<close>

section \<open>Threads\<close>

datatype pc =
    Presented string
  | Fetched refresh_record
  | Verified refresh_record user_record
  | Claimed ident user_record
  | Issued ident token_response
  | Failed

text \<open>
  A configuration is the tables, the threads and the set of every token id ever drawn (a UUID
  is never drawn twice).
\<close>

type_synonym sys = "auth_db \<times> (nat \<rightharpoonup> pc) \<times> ident set"

inductive sys_step :: "crypto \<Rightarrow> auth_settings \<Rightarrow> sys \<Rightarrow> sys \<Rightarrow> bool" for c st where
  arrive: "pcs t = None \<Longrightarrow> sys_step c st (db, pcs, used) (db, pcs(t \<mapsto> Presented tok), used)"
| fetch: "pcs t = Some (Presented tok) \<Longrightarrow> token_by_hash db (hash_refresh_token c tok) = Some r \<Longrightarrow>
    \<not> is_revoked r \<Longrightarrow> \<not> is_expired r now \<Longrightarrow>
    sys_step c st (db, pcs, used) (db, pcs(t \<mapsto> Fetched r), used)"
| fetch_reuse: "pcs t = Some (Presented tok) \<Longrightarrow>
    token_by_hash db (hash_refresh_token c tok) = Some r \<Longrightarrow> is_revoked r \<Longrightarrow>
    sys_step c st (db, pcs, used)
      (snd (revoke_all_for_user db (rt_user_id r) now), pcs(t \<mapsto> Failed), used)"
| verify: "pcs t = Some (Fetched r) \<Longrightarrow> get_by_id db (rt_user_id r) = Some u \<Longrightarrow> u_is_active u \<Longrightarrow>
    sys_step c st (db, pcs, used) (db, pcs(t \<mapsto> Verified r u), used)"
| claim_won: "pcs t = Some (Verified r u) \<Longrightarrow> token_revoke db (rt_id r) now = (True, db') \<Longrightarrow>
    sys_step c st (db, pcs, used) (db', pcs(t \<mapsto> Claimed (rt_id r) u), used)"
| claim_lost: "pcs t = Some (Verified r u) \<Longrightarrow> token_revoke db (rt_id r) now = (False, db') \<Longrightarrow>
    sys_step c st (db, pcs, used) (db', pcs(t \<mapsto> Failed), used)"
| issue: "pcs t = Some (Claimed i u) \<Longrightarrow> dr_uuid d \<notin> used \<Longrightarrow>
    issue_token_pair c st d db u = (Inr p, db') \<Longrightarrow>
    sys_step c st (db, pcs, used) (db', pcs(t \<mapsto> Issued i p), insert (dr_uuid d) used)"
| fail: "pcs t = Some p \<Longrightarrow> sys_step c st (db, pcs, used) (db, pcs(t \<mapsto> Failed), used)"
| login_step: "dr_uuid d \<notin> used \<Longrightarrow> issue_token_pair c st d db u = (Inr p, db') \<Longrightarrow>
    sys_step c st (db, pcs, used) (db', pcs, insert (dr_uuid d) used)"
| logout_step: "sys_step c st (db, pcs, used) (snd (token_revoke db i now), pcs, used)"
| revoke_all_step: "sys_step c st (db, pcs, used) (snd (revoke_all_for_user db uid now), pcs, used)"
| cleanup_step: "sys_step c st (db, pcs, used) (snd (delete_expired db now), pcs, used)"
| users_step: "sys_step c st (db, pcs, used) (db\<lparr>db_users := us\<rparr>, pcs, used)"

definition init_sys :: "auth_db \<Rightarrow> sys" where
  "init_sys db = (db, Map.empty, rt_id ` set (db_tokens db))"

inductive sys_reach :: "crypto \<Rightarrow> auth_settings \<Rightarrow> auth_db \<Rightarrow> sys \<Rightarrow> bool" for c st db where
  reach_init: "sys_reach c st db (init_sys db)"
| reach_step: "sys_reach c st db s \<Longrightarrow> sys_step c st s s' \<Longrightarrow> sys_reach c st db s'"

section \<open>The invariant\<close>

text \<open>A thread holds a token id from the moment it has won the conditional update.\<close>

fun pc_holds :: "pc option \<Rightarrow> ident \<Rightarrow> bool" where
  "pc_holds (Some (Claimed i _)) j = (i = j)"
| "pc_holds (Some (Issued i _)) j = (i = j)"
| "pc_holds _ j = False"

fun pc_row :: "pc option \<Rightarrow> refresh_record option" where
  "pc_row (Some (Fetched r)) = Some r"
| "pc_row (Some (Verified r _)) = Some r"
| "pc_row _ = None"

definition tok_inv :: "auth_db \<Rightarrow> (nat \<rightharpoonup> pc) \<Rightarrow> ident set \<Rightarrow> bool" where
  "tok_inv db pcs used \<longleftrightarrow> tokens_ok db \<and> rt_id ` set (db_tokens db) \<subseteq> used \<and>
     (\<forall>t r. pc_row (pcs t) = Some r \<longrightarrow> rt_id r \<in> used) \<and>
     (\<forall>t i. pc_holds (pcs t) i \<longrightarrow> i \<in> used \<and> \<not> token_active db i) \<and>
     (\<forall>t t' i. pc_holds (pcs t) i \<longrightarrow> pc_holds (pcs t') i \<longrightarrow> t = t')"

lemma tok_invI:
  assumes "tokens_ok db" "rt_id ` set (db_tokens db) \<subseteq> used"
    "\<And>t r. pc_row (pcs t) = Some r \<Longrightarrow> rt_id r \<in> used"
    "\<And>t i. pc_holds (pcs t) i \<Longrightarrow> i \<in> used"
    "\<And>t i. pc_holds (pcs t) i \<Longrightarrow> \<not> token_active db i"
    "\<And>t t' i. pc_holds (pcs t) i \<Longrightarrow> pc_holds (pcs t') i \<Longrightarrow> t = t'"
  shows "tok_inv db pcs used"
  unfolding tok_inv_def
proof (intro conjI allI impI)
  show "t = t'" if "pc_holds (pcs t) i" "pc_holds (pcs t') i" for t t' i using assms(6) that .
qed (use assms(1-5) in auto)

lemma tok_invD:
  assumes "tok_inv db pcs used"
  shows "tokens_ok db" "rt_id ` set (db_tokens db) \<subseteq> used"
    "pc_row (pcs t) = Some r \<Longrightarrow> rt_id r \<in> used"
    "pc_holds (pcs t) i \<Longrightarrow> i \<in> used"
    "pc_holds (pcs t) i \<Longrightarrow> \<not> token_active db i"
    "pc_holds (pcs t) i \<Longrightarrow> pc_holds (pcs t') i \<Longrightarrow> t = t'"
  using assms unfolding tok_inv_def by blast+

text \<open>
  A step that gives no thread a token it did not hold, and activates no id in use, keeps the
  invariant: every step but the won conditional update is of this kind.
\<close>

lemma tok_inv_frame:
  assumes "tok_inv db pcs used" "tokens_ok db'" "rt_id ` set (db_tokens db') \<subseteq> used'" "used \<subseteq> used'"
    "\<And>i. i \<in> used \<Longrightarrow> token_active db' i \<Longrightarrow> token_active db i"
    "\<And>t r. pc_row (pcs' t) = Some r \<Longrightarrow> pc_row (pcs t) = Some r \<or> rt_id r \<in> used'"
    "\<And>t i. pc_holds (pcs' t) i \<Longrightarrow> pc_holds (pcs t) i"
  shows "tok_inv db' pcs' used'"
proof (rule tok_invI)
  show "rt_id r \<in> used'" if "pc_row (pcs' t) = Some r" for t r
    using assms(6)[OF that] tok_invD(3)[OF assms(1), of t r] assms(4) by auto
  show "i \<in> used'" "\<not> token_active db' i" if "pc_holds (pcs' t) i" for t i
    using tok_invD(4,5)[OF assms(1) assms(7)[OF that]] assms(4,5) by auto
  show "t = t'" if "pc_holds (pcs' t) i" "pc_holds (pcs' t') i" for t t' i
    by (rule tok_invD(6)[OF assms(1) assms(7)[OF that(1)] assms(7)[OF that(2)]])
qed (rule assms(2,3))+

lemma token_active_revoke_all:
  "token_active (snd (revoke_all_for_user db uid a)) j \<Longrightarrow> token_active db j"
  unfolding token_active_def db_tokens_updates bex_set_map
  by (metis is_revoked_revoke_row)

lemma token_active_delete:
  "token_active (snd (delete_expired db a)) j \<Longrightarrow> token_active db j"
  by (auto simp: token_active_def db_tokens_updates)

lemma ids_updates:
  "rt_id ` set (db_tokens (snd (token_revoke db i a))) = rt_id ` set (db_tokens db)"
  "rt_id ` set (db_tokens (snd (revoke_all_for_user db uid a))) = rt_id ` set (db_tokens db)"
  "rt_id ` set (db_tokens (snd (delete_expired db a))) \<subseteq> rt_id ` set (db_tokens db)"
  unfolding db_tokens_updates set_map[symmetric] frame_simps by auto

lemma issue_frame:
  assumes "issue_token_pair c st d db u = (Inr p, db')"
  shows "rt_id ` set (db_tokens db') = insert (dr_uuid d) (rt_id ` set (db_tokens db))"
    "i \<noteq> dr_uuid d \<Longrightarrow> token_active db' i = token_active db i"
proof -
  obtain r where "token_create db (dr_uuid d) (u_id u) (c_sha256 c (dr_opaque d)) (dr_now d)
      (dr_now d + as_refresh_ttl_days st * 86400) = Inr (r, db')"
    using assms by (rule issue_token_pair_result)
  note t = token_create_result[OF this]
  show "rt_id ` set (db_tokens db') = insert (dr_uuid d) (rt_id ` set (db_tokens db))"
    using t by simp
  show "i \<noteq> dr_uuid d \<Longrightarrow> token_active db' i = token_active db i"
    using t by (auto simp: token_active_def)
qed

lemma claim_won_inv:
  assumes inv: "tok_inv db pcs used" and pc: "pcs t = Some (Verified r u)"
    and won: "token_revoke db (rt_id r) now = (True, db')"
  shows "tok_inv db' (pcs(t \<mapsto> Claimed (rt_id r) u)) used"
proof -
  have db': "db' = snd (token_revoke db (rt_id r) now)" using won by simp
  have act: "token_active db (rt_id r)"
    using rev.claim_wins[OF tok_invD(1)[OF inv], of "rt_id r" now] won by simp
  have used: "rt_id r \<in> used" using tok_invD(3)[OF inv, of t r] pc by simp
  have nobody: "\<not> pc_holds (pcs t') (rt_id r)" for t' using tok_invD(5)[OF inv, of t'] act by blast
  have active: "token_active db' i \<longleftrightarrow> i \<noteq> rt_id r \<and> token_active db i" for i
    unfolding db' by (rule token_active_revoke)
  have h: "pc_holds ((pcs(t \<mapsto> Claimed (rt_id r) u)) t') i \<longleftrightarrow>
      (if t' = t then i = rt_id r else pc_holds (pcs t') i)" for t' i by auto
  show ?thesis
  proof (rule tok_invI)
    show "tokens_ok db'" unfolding db' by (rule token_revoke_ok[OF tok_invD(1)[OF inv]])
    show "rt_id ` set (db_tokens db') \<subseteq> used"
      unfolding db' ids_updates by (rule tok_invD(2)[OF inv])
    show "rt_id r' \<in> used" if "pc_row ((pcs(t \<mapsto> Claimed (rt_id r) u)) t') = Some r'" for t' r'
      using that tok_invD(3)[OF inv, of t' r'] by (auto split: if_splits)
    show "i \<in> used" "\<not> token_active db' i" if "pc_holds ((pcs(t \<mapsto> Claimed (rt_id r) u)) t') i" for t' i
      using that used active tok_invD(4,5)[OF inv, of t' i] unfolding h by (auto split: if_splits)
    show "t' = t''" if "pc_holds ((pcs(t \<mapsto> Claimed (rt_id r) u)) t') i"
      "pc_holds ((pcs(t \<mapsto> Claimed (rt_id r) u)) t'') i" for t' t'' i
      using that nobody tok_invD(6)[OF inv, of t' i t''] unfolding h by (auto split: if_splits)
  qed
qed

lemma issue_inv:
  assumes inv: "tok_inv db pcs used" and iss: "issue_token_pair c st d db u = (Inr p, db')"
    and new: "dr_uuid d \<notin> used"
    and row: "\<And>t r. pc_row (pcs' t) = Some r \<Longrightarrow> pc_row (pcs t) = Some r"
    and holds: "\<And>t i. pc_holds (pcs' t) i \<Longrightarrow> pc_holds (pcs t) i"
  shows "tok_inv db' pcs' (insert (dr_uuid d) used)"
proof (rule tok_inv_frame[OF inv])
  show "tokens_ok db'" by (rule issue_token_pair_lookup(5)[OF iss tok_invD(1)[OF inv]])
  show "rt_id ` set (db_tokens db') \<subseteq> insert (dr_uuid d) used"
    using issue_frame(1)[OF iss] tok_invD(2)[OF inv] by auto
  show "token_active db i" if "i \<in> used" "token_active db' i" for i
    using issue_frame(2)[OF iss, of i] that new by auto
qed (use row holds in auto)

abbreviation sys_inv :: "sys \<Rightarrow> bool" where
  "sys_inv s \<equiv> (case s of (db, pcs, used) \<Rightarrow> tok_inv db pcs used)"

lemma tok_inv_update:
  assumes "tok_inv db pcs used" "tokens_ok db'" "rt_id ` set (db_tokens db') \<subseteq> rt_id ` set (db_tokens db)"
    "\<And>i. token_active db' i \<Longrightarrow> token_active db i"
    "\<And>t i. pc_holds (pcs' t) i \<Longrightarrow> pc_holds (pcs t) i"
    "\<And>t r. pc_row (pcs' t) = Some r \<Longrightarrow> pc_row (pcs t) = Some r"
  shows "tok_inv db' pcs' used"
proof (rule tok_inv_frame[OF assms(1,2)])
  show "rt_id ` set (db_tokens db') \<subseteq> used" using assms(3) tok_invD(2)[OF assms(1)] by (rule subset_trans)
qed (use assms(4-6) in auto)

lemma tok_inv_revoke:
  assumes inv: "tok_inv db pcs used"
    and h: "\<And>t i. pc_holds (pcs' t) i \<Longrightarrow> pc_holds (pcs t) i"
    and r: "\<And>t r. pc_row (pcs' t) = Some r \<Longrightarrow> pc_row (pcs t) = Some r"
  shows "tok_inv (snd (token_revoke db i now)) pcs' used"
    "tok_inv (snd (revoke_all_for_user db uid now)) pcs' used"
    "tok_inv (snd (delete_expired db now)) pcs' used"
    "tok_inv (db\<lparr>db_users := us\<rparr>) pcs' used"
proof -
  note ok = tok_invD(1)[OF inv]
  show "tok_inv (snd (token_revoke db i now)) pcs' used"
    by (rule tok_inv_update[OF inv token_revoke_ok[OF ok] eq_refl[OF ids_updates(1)] _ h r])
      (auto simp: token_active_revoke)
  show "tok_inv (snd (revoke_all_for_user db uid now)) pcs' used"
    by (rule tok_inv_update[OF inv revoke_all_ok[OF ok] eq_refl[OF ids_updates(2)] token_active_revoke_all h r])
  show "tok_inv (snd (delete_expired db now)) pcs' used"
    by (rule tok_inv_update[OF inv delete_expired_ok[OF ok] ids_updates(3) token_active_delete h r])
  show "tok_inv (db\<lparr>db_users := us\<rparr>) pcs' used"
    by (rule tok_inv_update[OF inv _ _ _ h r]) (use ok in \<open>auto simp: tokens_ok_def token_active_def\<close>)
qed

lemma sys_step_inv:
  assumes "sys_step c st s s'" "sys_inv s"
  shows "sys_inv s'"
  using assms
proof (induction rule: sys_step.induct)
  case (claim_won pcs t r u db now db' used)
  then show ?case by (simp add: claim_won_inv)
next
  case (issue pcs t i u d used db p db')
  show ?case
    unfolding prod.case
    by (rule issue_inv[OF issue(4)[unfolded prod.case] issue(3,2)])
      (use issue(1) in \<open>auto split: if_splits\<close>)
next
  case (login_step d used db u p db' pcs)
  show ?case
    unfolding prod.case by (rule issue_inv[OF login_step(3)[unfolded prod.case] login_step(2,1)])
next
  case (fetch pcs t tok db r now used)
  have "rt_id r \<in> used"
    using fetch(2,5) by (auto simp: tok_inv_def token_by_hash_def dest!: find_SomeD)
  then show ?case
    unfolding prod.case
    by (intro tok_inv_frame[OF fetch(5)[unfolded prod.case]])
      (use tok_invD(1,2)[OF fetch(5)[unfolded prod.case]] in \<open>auto split: if_splits\<close>)
next
  case (verify pcs t r db u used)
  then show ?case
    unfolding prod.case
    by (intro tok_inv_frame[OF verify(4)[unfolded prod.case]])
      (use tok_invD(1,2)[OF verify(4)[unfolded prod.case]] in \<open>auto split: if_splits\<close>)
next
  case (fetch_reuse pcs t tok db r now used)
  then show ?case by (auto intro!: tok_inv_revoke(2) split: if_splits)
next
  case (claim_lost pcs t r u db now db' used)
  have "tok_inv (snd (token_revoke db (rt_id r) now)) (pcs(t \<mapsto> Failed)) used"
    using claim_lost(3) by (auto intro!: tok_inv_revoke(1) split: if_splits)
  with claim_lost(2) show ?case by simp
next
  case (arrive pcs t db used tok)
  show ?case
    unfolding prod.case
    by (intro tok_inv_frame[OF arrive(2)[unfolded prod.case]])
      (use tok_invD(1,2)[OF arrive(2)[unfolded prod.case]] in \<open>auto split: if_splits\<close>)
next
  case (fail pcs t p db used)
  show ?case
    unfolding prod.case
    by (intro tok_inv_frame[OF fail(2)[unfolded prod.case]])
      (use tok_invD(1,2)[OF fail(2)[unfolded prod.case]] in \<open>auto split: if_splits\<close>)
qed (auto intro: tok_inv_revoke)

lemma sys_reach_inv: "sys_reach c st db s \<Longrightarrow> tokens_ok db \<Longrightarrow> sys_inv s"
proof (induction rule: sys_reach.induct)
  case reach_init
  then show ?case by (auto simp: init_sys_def intro!: tok_invI)
next
  case (reach_step s s')
  then show ?case using sys_step_inv[OF reach_step(2)] by simp
qed

section \<open>The sequential service is a run of the steps\<close>

lemma sys_reach_star: "(sys_step c st)\<^sup>*\<^sup>* s s' \<Longrightarrow> sys_reach c st db s \<Longrightarrow> sys_reach c st db s'"
  by (induction rule: rtranclp_induct) (auto intro: reach_step)

lemma refresh_run:
  assumes "pcs t = Some (Presented tok)" "refresh c st d db tok = (Inr p, db')"
    "dr_uuid d \<notin> used" "tokens_ok db"
  shows "\<exists>r. token_by_hash db (c_sha256 c tok) = Some r \<and>
    (sys_step c st)\<^sup>*\<^sup>* (db, pcs, used) (db', pcs(t \<mapsto> Issued (rt_id r) p), insert (dr_uuid d) used)"
proof -
  obtain r u where r: "token_by_hash db (hash_refresh_token c tok) = Some r" "\<not> is_revoked r"
      "\<not> is_expired r (dr_now d)" and u: "get_by_id db (rt_user_id r) = Some u" "u_is_active u"
    and iss: "issue_token_pair c st d (snd (token_revoke db (rt_id r) (dr_now d))) u = (Inr p, db')"
    using assms(2) unfolding hash_refresh_token_def by (rule refresh_Inr)
  let ?db1 = "snd (token_revoke db (rt_id r) (dr_now d))"
  have won: "fst (token_revoke db (rt_id r) (dr_now d))"
    using token_revoke_result[OF assms(4)] r(1,2) assms(4)
    by (simp add: token_by_hash_Some hash_refresh_token_def)
  have s1: "sys_step c st (db, pcs, used) (db, pcs(t \<mapsto> Fetched r), used)"
    by (rule sys_step.fetch[of pcs t tok db c r "dr_now d"]) (use assms(1) r in auto)
  have s2: "sys_step c st (db, pcs(t \<mapsto> Fetched r), used) (db, pcs(t \<mapsto> Verified r u), used)"
    using sys_step.verify[of "pcs(t \<mapsto> Fetched r)" t r db u c st used] u by simp
  have s3: "sys_step c st (db, pcs(t \<mapsto> Verified r u), used) (?db1, pcs(t \<mapsto> Claimed (rt_id r) u), used)"
    using sys_step.claim_won[of "pcs(t \<mapsto> Verified r u)" t r u db "dr_now d" ?db1 c st used] won
    by (simp add: prod_eq_iff)
  have s4: "sys_step c st (?db1, pcs(t \<mapsto> Claimed (rt_id r) u), used)
      (db', pcs(t \<mapsto> Issued (rt_id r) p), insert (dr_uuid d) used)"
    using sys_step.issue[of "pcs(t \<mapsto> Claimed (rt_id r) u)" t "rt_id r" u d used c st ?db1 p db'] iss assms(3)
    by simp
  have "(sys_step c st)\<^sup>*\<^sup>* (db, pcs, used) (db', pcs(t \<mapsto> Issued (rt_id r) p), insert (dr_uuid d) used)"
    using s1 s2 s3 s4 by (meson converse_rtranclp_into_rtranclp rtranclp.rtrancl_refl)
  with r(1) show ?thesis by (auto simp: hash_refresh_token_def)
qed

text \<open>C3. At most one successor: however concurrent refreshes, logins, logouts, family
  revocations and cleanups interleave, two threads that were both issued a token pair for the
  same presented refresh token are the same thread.\<close>

theorem one_successor_per_token:
  assumes "sys_reach c st db (db', pcs, used)" "tokens_ok db"
    "pcs t1 = Some (Issued i p1)" "pcs t2 = Some (Issued i p2)"
  shows "t1 = t2 \<and> p1 = p2 \<and> \<not> token_active db' i"
proof -
  have inv: "tok_inv db' pcs used" using sys_reach_inv[OF assms(1,2)] by simp
  have "t1 = t2" using tok_invD(6)[OF inv, of t1 i t2] assms(3,4) by simp
  then show ?thesis using tok_invD(5)[OF inv, of t1 i] assms(3,4) by simp
qed

theorem one_successor_per_token_witness:
  "\<exists>pcs used. sys_reach demo_crypto demo_settings demo_db (demo_db2, pcs, used) \<and>
     pcs 0 = Some (Issued ''t1'' demo_pair) \<and> \<not> token_active demo_db2 ''t1''"
proof -
  let ?used = "rt_id ` set (db_tokens demo_db)"
  let ?p0 = "Map.empty(0 \<mapsto> Presented ''old'') :: nat \<rightharpoonup> pc"
  have a: "sys_reach demo_crypto demo_settings demo_db (demo_db, ?p0, ?used)"
    using reach_step[OF reach_init] sys_step.arrive[of Map.empty 0 demo_crypto demo_settings demo_db ?used "''old''"]
    by (simp add: init_sys_def)
  obtain r where r: "token_by_hash demo_db (c_sha256 demo_crypto ''old'') = Some r"
    and run: "(sys_step demo_crypto demo_settings)\<^sup>*\<^sup>* (demo_db, ?p0, ?used)
      (demo_db2, ?p0(0 \<mapsto> Issued (rt_id r) demo_pair), insert (dr_uuid demo_draw) ?used)"
    using refresh_run[of ?p0 0 "''old''" demo_crypto demo_settings demo_draw demo_db demo_pair demo_db2 ?used]
      demo_refresh demo_tokens_ok(1) by auto
  have "rt_id r = ''t1''" using r by (auto simp: token_by_hash_def)
  note b = sys_reach_star[OF run a, unfolded this]
  have i: "(?p0(0 \<mapsto> Issued ''t1'' demo_pair)) 0 = Some (Issued ''t1'' demo_pair)" by simp
  show ?thesis using one_successor_per_token[OF b demo_tokens_ok(1) i i] b i by blast
qed

end
