(* ===== verification/Json.thy ===== *)
theory Json
  imports Prelude
begin

text \<open>
  JSON values as \<open>json.loads\<close> yields them (a number with an exponent too large for a double, or the
  word \<open>Infinity\<close>, becomes an infinite float, here with its sign: \<open>True\<close> is negative), the accessors the back end applies to a model's
  answer, and the fenced-block extraction that four components share. \<open>json.loads\<close> itself is an
  argument: the text to value function of the standard library.
\<close>

datatype json =
    JNull | JBool bool | JInt int | JFloat pyfloat | JNan | JInfinite bool | JStr string
  | JArr "json list" | JObj "(string \<times> json) list"

type_synonym json_loads = "string \<Rightarrow> json option"

definition j_get :: "string \<Rightarrow> (string \<times> json) list \<Rightarrow> json option" where
  "j_get k kvs = map_of (rev kvs) k"

fun j_str :: "json option \<Rightarrow> string option" where
  "j_str (Some (JStr s)) = Some s"
| "j_str _ = None"

fun j_list :: "json option \<Rightarrow> json list option" where
  "j_list (Some (JArr xs)) = Some xs"
| "j_list _ = None"

text \<open>The truth value of a Python object.\<close>

fun j_truthy :: "json \<Rightarrow> bool" where
  "j_truthy JNull = False"
| "j_truthy (JBool b) = b"
| "j_truthy (JInt i) = (i \<noteq> 0)"
| "j_truthy (JFloat x) = (x \<noteq> 0)"
| "j_truthy JNan = True"
| "j_truthy (JInfinite _) = True"
| "j_truthy (JStr s) = (s \<noteq> [])"
| "j_truthy (JArr xs) = (xs \<noteq> [])"
| "j_truthy (JObj kvs) = (kvs \<noteq> [])"

section \<open>Fenced blocks\<close>

definition fence :: string where
  "fence = [CHR 0x60, CHR 0x60, CHR 0x60]"

text \<open>The content of the first fenced block, after an optional language tag and white space.\<close>

definition fenced_block :: "string \<Rightarrow> string \<Rightarrow> string option" where
  "fenced_block tag s =
     (case cut_at fence s of
        None \<Rightarrow> None
      | Some (_, rest) \<Rightarrow>
          (let body = (if py_lower (take (length tag) rest) = tag then drop (length tag) rest else rest)
           in map_option (\<lambda>(content, _). py_strip content) (cut_at fence (lstrip_by is_space body))))"

definition unfence :: "string \<Rightarrow> string \<Rightarrow> string" where
  "unfence tag text0 =
     (let stripped = py_strip text0
      in case fenced_block tag stripped of None \<Rightarrow> stripped | Some c \<Rightarrow> c)"

definition parse_json_object :: "json_loads \<Rightarrow> string \<Rightarrow> (string \<times> json) list option" where
  "parse_json_object loads text0 =
     (case loads (unfence ''json'' text0) of
        Some (JObj kvs) \<Rightarrow> Some kvs
      | _ \<Rightarrow> None)"

lemma unfence_example:
  "unfence ''json'' ([CHR 0x0A] @ fence @ ''json'' @ [CHR 0x0A] @ ''{}'' @ [CHR 0x0A] @ fence) = ''{}''"
  by code_simp

text \<open>The greedy match of a brace, anything, a closing brace.\<close>

definition brace_object :: "string \<Rightarrow> string option" where
  "brace_object s =
     (let u = rstrip_by (\<lambda>c. c \<noteq> CHR ''}'') (dropWhile (\<lambda>c. c \<noteq> CHR ''{'') s)
      in if u = [] then None else Some u)"

text \<open>The JSON in a model's answer: a fenced block, else the braced part, else the whole text.\<close>

definition extract_json :: "string \<Rightarrow> string" where
  "extract_json text0 =
     (let stripped = py_strip text0
      in case fenced_block ''json'' stripped of
           Some c \<Rightarrow> c
         | None \<Rightarrow> (case brace_object stripped of Some u \<Rightarrow> py_strip u | None \<Rightarrow> stripped))"

lemma extract_json_example: "extract_json ''so: {a{}b} ok'' = ''{a{}b}''"
  by code_simp

end
