(* ===== verification/Claims.thy ===== *)
theory Claims
  imports Json "HOL-Library.Multiset"
begin

text \<open>
  Claim-level evidence: the data of \<open>models.py\<close> (evidence items, spans, claims), the status
  classification and the claim mapper of \<open>claims.py\<close>, and the conflict predicate of
  \<open>abstention.py\<close> the mapper uses. The language model is two functions (decomposition,
  entailment; \<open>None\<close> is a raised error). The verification futures complete in an arbitrary order,
  which is an argument.
\<close>

section \<open>Data\<close>

datatype verification_result = Entails | DoesNotEntail | Undetermined
datatype evidence_coverage = CoverFull | CoverPartial | CoverNone
datatype evidence_status = Supported | PartiallySupported | Unsupported | VerificationUnavailable

record answer_span =
  sp_start :: int
  sp_end :: int

record evidence_item =
  ev_result :: verification_result
  ev_coverage :: evidence_coverage
  ev_subclaims :: "int list"
  ev_quote :: "string option"
  ev_source :: "(int \<times> int) option"
  ev_document_id :: "ident option"
  ev_document_version :: "string option"

record claim =
  cm_id :: string
  cm_text :: string
  cm_span :: answer_span
  cm_evidence :: "evidence_item list"
  cm_status :: evidence_status

record chunk =
  ck_id :: ident
  ck_document_id :: ident
  ck_version :: string
  ck_text :: string

record hit =
  h_chunk :: chunk
  h_score :: pyfloat
  h_source :: string

section \<open>Classification\<close>

record verdict_flags =
  vf_full :: bool
  vf_partial :: bool
  vf_entails :: bool
  vf_refutes :: bool
  vf_undetermined :: bool

definition note_item :: "evidence_item \<Rightarrow> verdict_flags \<Rightarrow> verdict_flags" where
  "note_item it f =
     (case ev_result it of
        Entails \<Rightarrow>
          (case ev_coverage it of
             CoverFull \<Rightarrow> f\<lparr>vf_entails := True, vf_full := True\<rparr>
           | CoverPartial \<Rightarrow> f\<lparr>vf_entails := True, vf_partial := True\<rparr>
           | CoverNone \<Rightarrow> f\<lparr>vf_entails := True\<rparr>)
      | DoesNotEntail \<Rightarrow> f\<lparr>vf_refutes := True\<rparr>
      | Undetermined \<Rightarrow> f\<lparr>vf_undetermined := True\<rparr>)"

definition classify_evidence_status :: "evidence_item list \<Rightarrow> evidence_status" where
  "classify_evidence_status items =
     (if items = [] then Unsupported
      else let f = fold note_item items
             \<lparr>vf_full = False, vf_partial = False, vf_entails = False, vf_refutes = False,
              vf_undetermined = False\<rparr>
           in if vf_full f then Supported
              else if vf_partial f then PartiallySupported
              else if vf_undetermined f \<and> \<not> vf_entails f \<and> \<not> vf_refutes f then VerificationUnavailable
              else if vf_refutes f \<and> \<not> vf_entails f \<and> \<not> vf_undetermined f then Unsupported
              else Unsupported)"

definition has_conflicting_evidence :: "claim \<Rightarrow> bool" where
  "has_conflicting_evidence c =
     (let entails = map ev_document_id (filter (\<lambda>i. ev_result i = Entails) (cm_evidence c));
          refutes = map ev_document_id (filter (\<lambda>i. ev_result i = DoesNotEntail) (cm_evidence c))
      in if entails = [] \<or> refutes = [] then False
         else list_ex (\<lambda>e. list_ex (\<lambda>r. e \<noteq> r) refutes) entails)"

section \<open>Model output\<close>

text \<open>An offset as the model wrote it; \<open>int()\<close> of it may fail with a \<open>TypeError\<close> or \<open>ValueError\<close>
  (\<open>IntBad\<close>) or, on an infinite float, with an \<open>OverflowError\<close>.\<close>

datatype int_result = IntOk int | IntBad | IntOverflow

fun trim_digits :: "nat option \<Rightarrow> string \<Rightarrow> nat option" where
  "trim_digits acc [] = acc"
| "trim_digits acc (c # cs) =
     (if is_digit c
      then trim_digits (Some (case acc of None \<Rightarrow> digit_val c | Some a \<Rightarrow> a * 10 + digit_val c)) cs
      else None)"

text \<open>\<open>int(s)\<close> on a string: white space, a sign, digits.\<close>

definition int_of_string :: "string \<Rightarrow> int option" where
  "int_of_string s0 =
     (let s = py_strip s0
      in case s of
           [] \<Rightarrow> None
         | c # cs \<Rightarrow>
             if c = CHR ''-'' then map_option (\<lambda>n. - int n) (trim_digits None cs)
             else if c = CHR ''+'' then map_option int (trim_digits None cs)
             else map_option int (trim_digits None s))"

fun int_of_json :: "json \<Rightarrow> int_result" where
  "int_of_json (JInt i) = IntOk i"
| "int_of_json (JFloat x) = IntOk (py_int x)"
| "int_of_json (JBool b) = IntOk (if b then 1 else 0)"
| "int_of_json (JStr s) = (case int_of_string s of None \<Rightarrow> IntBad | Some i \<Rightarrow> IntOk i)"
| "int_of_json JNan = IntBad"
| "int_of_json (JInfinite _) = IntOverflow"
| "int_of_json _ = IntBad"

text \<open>\<open>_clamp_span\<close>; \<open>None\<close> is the escaping \<open>OverflowError\<close>.\<close>

definition clamp_span :: "json \<Rightarrow> json \<Rightarrow> int \<Rightarrow> answer_span option" where
  "clamp_span s e len =
     (if int_of_json s = IntOverflow \<or> int_of_json e = IntOverflow then None
      else let s0 = (case int_of_json s of IntOk i \<Rightarrow> i | _ \<Rightarrow> 0);
               e0 = (case int_of_json e of IntOk i \<Rightarrow> i | _ \<Rightarrow> len);
               s1 = max 0 (min s0 len);
               e1 = max 0 (min e0 len);
               e2 = (if e1 < s1 then s1 else e1)
           in Some \<lparr>sp_start = s1, sp_end = e2\<rparr>)"

record decomposed =
  dc_text :: string
  dc_start :: json
  dc_end :: json

fun decomposed_claims :: "json list \<Rightarrow> decomposed list option" where
  "decomposed_claims [] = Some []"
| "decomposed_claims (JObj kvs # es) =
     (case decomposed_claims es of
        None \<Rightarrow> None
      | Some ds \<Rightarrow>
          (case j_str (j_get ''text'' kvs) of
             None \<Rightarrow> Some ds
           | Some t \<Rightarrow>
               if py_strip t = [] then Some ds
               else Some (\<lparr>dc_text = py_strip t,
                           dc_start = (case j_get ''start'' kvs of None \<Rightarrow> JInt 0 | Some v \<Rightarrow> v),
                           dc_end = (case j_get ''end'' kvs of None \<Rightarrow> JInt 0 | Some v \<Rightarrow> v)\<rparr> # ds)))"
| "decomposed_claims (_ # es) = None"

definition parse_decomposition :: "json_loads \<Rightarrow> string \<Rightarrow> decomposed list option" where
  "parse_decomposition loads text0 =
     (case parse_json_object loads text0 of
        None \<Rightarrow> None
      | Some kvs \<Rightarrow>
          (case j_list (j_get ''claims'' kvs) of
             None \<Rightarrow> None
           | Some es \<Rightarrow> decomposed_claims es))"

record verification_outcome =
  vo_result :: verification_result
  vo_coverage :: evidence_coverage
  vo_subclaims :: "int list"

definition undetermined_outcome :: verification_outcome where
  "undetermined_outcome = \<lparr>vo_result = Undetermined, vo_coverage = CoverNone, vo_subclaims = []\<rparr>"

definition read_result :: "json option \<Rightarrow> verification_result option" where
  "read_result v =
     (if j_str v = Some ''entails'' then Some Entails
      else if j_str v = Some ''does_not_entail'' then Some DoesNotEntail
      else if j_str v = Some ''undetermined'' then Some Undetermined else None)"

definition read_coverage :: "json option \<Rightarrow> evidence_coverage option" where
  "read_coverage v =
     (if j_str v = Some ''full'' then Some CoverFull
      else if j_str v = Some ''partial'' then Some CoverPartial
      else if j_str v = Some ''none'' then Some CoverNone else None)"

fun json_ints :: "json list \<Rightarrow> int list" where
  "json_ints [] = []"
| "json_ints (JInt i # xs) = i # json_ints xs"
| "json_ints (_ # xs) = json_ints xs"

definition parse_verification :: "json_loads \<Rightarrow> string \<Rightarrow> verification_outcome option" where
  "parse_verification loads text0 =
     (case parse_json_object loads text0 of
        None \<Rightarrow> None
      | Some kvs \<Rightarrow>
          (case (read_result (j_get ''verification_result'' kvs), read_coverage (j_get ''coverage'' kvs)) of
             (Some r, Some c) \<Rightarrow>
               Some \<lparr>vo_result = r, vo_coverage = c,
                     vo_subclaims = (case j_list (j_get ''covered_subclaims'' kvs) of
                                       None \<Rightarrow> [] | Some xs \<Rightarrow> json_ints xs)\<rparr>
           | _ \<Rightarrow> None))"

section \<open>The claim mapper\<close>

record claim_llm =
  cl_loads :: json_loads
  cl_decompose :: "string \<Rightarrow> string option"
  cl_entail :: "string \<Rightarrow> string \<Rightarrow> string option"
  cl_sha256_hex :: "string \<Rightarrow> string"

record claim_mapping =
  mp_claims :: "claim list"
  mp_failed :: bool
  mp_conflicting :: "string set"

definition derive_claim_id :: "claim_llm \<Rightarrow> string \<Rightarrow> nat \<Rightarrow> string" where
  "derive_claim_id m trace_id i = ''claim-'' @ take 16 (cl_sha256_hex m (trace_id @ '':'' @ show_nat i))"

definition decompose :: "claim_llm \<Rightarrow> string \<Rightarrow> decomposed list \<times> bool" where
  "decompose m answer =
     (case cl_decompose m answer of
        None \<Rightarrow> ([], True)
      | Some raw \<Rightarrow>
          (case parse_decomposition (cl_loads m) raw of None \<Rightarrow> ([], True) | Some ds \<Rightarrow> (ds, False)))"

definition verify_pair :: "claim_llm \<Rightarrow> string \<Rightarrow> hit \<Rightarrow> verification_outcome" where
  "verify_pair m text0 h =
     (case cl_entail m text0 (ck_text (h_chunk h)) of
        None \<Rightarrow> undetermined_outcome
      | Some raw \<Rightarrow>
          (case parse_verification (cl_loads m) raw of None \<Rightarrow> undetermined_outcome | Some v \<Rightarrow> v))"

definition verify_hit :: "claim_llm \<Rightarrow> string \<Rightarrow> hit \<Rightarrow> evidence_item" where
  "verify_hit m text0 h =
     (let v = verify_pair m text0 h; q = ck_text (h_chunk h)
      in \<lparr>ev_result = vo_result v, ev_coverage = vo_coverage v, ev_subclaims = vo_subclaims v,
          ev_quote = Some q, ev_source = Some (0, int (length q)),
          ev_document_id = Some (ck_document_id (h_chunk h)),
          ev_document_version = Some (ck_version (h_chunk h))\<rparr>)"

definition claim_tasks :: "decomposed list \<Rightarrow> hit list \<Rightarrow> (nat \<times> nat) list" where
  "claim_tasks ds hs = concat (map (\<lambda>i. map (Pair i) [0..<length hs]) [0..<length ds])"

text \<open>The dict filled as the futures complete.\<close>

definition collect_verified :: "claim_llm \<Rightarrow> decomposed list \<Rightarrow> hit list \<Rightarrow> (nat \<times> nat) list
    \<Rightarrow> (nat \<times> nat \<rightharpoonup> evidence_item)" where
  "collect_verified m ds hs completed =
     fold (\<lambda>(i, j) acc. acc((i, j) \<mapsto> verify_hit m (dc_text (ds ! i)) (hs ! j))) completed Map.empty"

definition build_claim :: "claim_llm \<Rightarrow> string \<Rightarrow> string \<Rightarrow> decomposed list \<Rightarrow> hit list
    \<Rightarrow> (nat \<times> nat \<rightharpoonup> evidence_item) \<Rightarrow> nat \<Rightarrow> claim option" where
  "build_claim m answer trace_id ds hs verified i =
     (let d = ds ! i; items = map (\<lambda>j. the (verified (i, j))) [0..<length hs]
      in map_option (\<lambda>span. \<lparr>cm_id = derive_claim_id m trace_id i, cm_text = dc_text d, cm_span = span,
                             cm_evidence = items, cm_status = classify_evidence_status items\<rparr>)
           (clamp_span (dc_start d) (dc_end d) (int (length answer))))"

fun all_some :: "'a option list \<Rightarrow> 'a list option" where
  "all_some [] = Some []"
| "all_some (None # xs) = None"
| "all_some (Some x # xs) = map_option ((#) x) (all_some xs)"

text \<open>\<open>map_claims\<close>; \<open>None\<close> is an exception that escapes it.\<close>

definition map_claims :: "claim_llm \<Rightarrow> ((nat \<times> nat) list \<Rightarrow> (nat \<times> nat) list) \<Rightarrow> string \<Rightarrow> hit list
    \<Rightarrow> string \<Rightarrow> claim_mapping option" where
  "map_claims m schedule answer hits trace_id =
     (case decompose m answer of
        (_, True) \<Rightarrow> Some \<lparr>mp_claims = [], mp_failed = True, mp_conflicting = {}\<rparr>
      | (ds0, False) \<Rightarrow>
          (let ds = take 100 ds0; hs = take 100 hits;
               verified = collect_verified m ds hs (schedule (claim_tasks ds hs))
           in map_option (\<lambda>cs. \<lparr>mp_claims = cs, mp_failed = False,
                               mp_conflicting = set (map cm_id (filter has_conflicting_evidence cs))\<rparr>)
                (all_some (map (build_claim m answer trace_id ds hs verified) [0..<length ds]))))"

section \<open>Lemmas\<close>

lemma fold_note_item:
  "fold note_item items f =
   \<lparr>vf_full = vf_full f \<or> (\<exists>i \<in> set items. ev_result i = Entails \<and> ev_coverage i = CoverFull),
    vf_partial = vf_partial f \<or> (\<exists>i \<in> set items. ev_result i = Entails \<and> ev_coverage i = CoverPartial),
    vf_entails = vf_entails f \<or> (\<exists>i \<in> set items. ev_result i = Entails),
    vf_refutes = vf_refutes f \<or> (\<exists>i \<in> set items. ev_result i = DoesNotEntail),
    vf_undetermined = vf_undetermined f \<or> (\<exists>i \<in> set items. ev_result i = Undetermined)\<rparr>"
proof (induction items arbitrary: f)
  case (Cons it items)
  have n: "note_item it f =
     f\<lparr>vf_full := vf_full f \<or> (ev_result it = Entails \<and> ev_coverage it = CoverFull),
       vf_partial := vf_partial f \<or> (ev_result it = Entails \<and> ev_coverage it = CoverPartial),
       vf_entails := vf_entails f \<or> ev_result it = Entails,
       vf_refutes := vf_refutes f \<or> ev_result it = DoesNotEntail,
       vf_undetermined := vf_undetermined f \<or> ev_result it = Undetermined\<rparr>"
    by (simp add: note_item_def split: verification_result.splits evidence_coverage.splits)
  show ?case unfolding fold_simps Cons n by auto
qed simp

definition status_spec :: "evidence_item list \<Rightarrow> evidence_status" where
  "status_spec items =
     (if \<exists>i \<in> set items. ev_result i = Entails \<and> ev_coverage i = CoverFull then Supported
      else if \<exists>i \<in> set items. ev_result i = Entails \<and> ev_coverage i = CoverPartial then PartiallySupported
      else if items \<noteq> [] \<and> (\<forall>i \<in> set items. ev_result i = Undetermined) then VerificationUnavailable
      else Unsupported)"

lemma classify_spec: "classify_evidence_status items = status_spec items"
proof (cases "items = []")
  case False
  then obtain i where i: "i \<in> set items" by (cases items) auto
  have a: "(\<forall>i \<in> set items. ev_result i = Undetermined) \<longleftrightarrow>
      (\<exists>i \<in> set items. ev_result i = Undetermined) \<and> \<not> (\<exists>i \<in> set items. ev_result i = Entails) \<and>
      \<not> (\<exists>i \<in> set items. ev_result i = DoesNotEntail)"
    using i verification_result.exhaust by (metis verification_result.distinct(3,5))
  show ?thesis
    unfolding status_spec_def a using False
    by (simp add: classify_evidence_status_def fold_note_item Let_def)
qed (simp add: classify_evidence_status_def status_spec_def)

lemma collect_verified_lookup:
  "collect_verified m ds hs ks (i, j) =
   (if (i, j) \<in> set ks then Some (verify_hit m (dc_text (ds ! i)) (hs ! j)) else None)"
proof -
  have "fold (\<lambda>(i, j) acc. acc((i, j) \<mapsto> verify_hit m (dc_text (ds ! i)) (hs ! j))) ks acc (i, j) =
      (if (i, j) \<in> set ks then Some (verify_hit m (dc_text (ds ! i)) (hs ! j)) else acc (i, j))" for acc
    by (induction ks arbitrary: acc) (simp_all add: case_prod_beta prod_eq_iff)
  then show ?thesis by (simp add: collect_verified_def)
qed

lemma set_claim_tasks: "set (claim_tasks ds hs) = {(i, j). i < length ds \<and> j < length hs}"
  by (auto simp: claim_tasks_def)

lemma verified_items:
  assumes "mset ks = mset (claim_tasks ds hs)" "i < length ds"
  shows "map (\<lambda>j. the (collect_verified m ds hs ks (i, j))) [0..<length hs] = map (verify_hit m (dc_text (ds ! i))) hs"
proof -
  have k: "set ks = set (claim_tasks ds hs)" using assms(1) by (rule mset_eq_setD)
  have "the (collect_verified m ds hs ks (i, j)) = verify_hit m (dc_text (ds ! i)) (hs ! j)" if "j < length hs" for j
    using that assms(2) by (simp add: collect_verified_lookup k set_claim_tasks)
  then show ?thesis by (intro nth_equalityI) simp_all
qed

lemma all_some_Some: "all_some xs = Some ys \<longleftrightarrow> xs = map Some ys"
  by (induction xs arbitrary: ys rule: all_some.induct) auto

lemma all_some_None: "all_some xs = None \<longleftrightarrow> None \<in> set xs"
  by (induction xs rule: all_some.induct) auto

lemma clamp_span_bounds:
  "clamp_span s e len = Some sp \<Longrightarrow> 0 \<le> len \<Longrightarrow>
   0 \<le> sp_start sp \<and> sp_start sp \<le> sp_end sp \<and> sp_end sp \<le> len"
  by (auto simp: clamp_span_def Let_def split: if_splits)

definition reference_claim :: "claim_llm \<Rightarrow> string \<Rightarrow> string \<Rightarrow> hit list \<Rightarrow> nat \<Rightarrow> decomposed \<Rightarrow> claim option" where
  "reference_claim m answer trace_id hs i d =
     (let items = map (verify_hit m (dc_text d)) hs
      in map_option (\<lambda>span. \<lparr>cm_id = derive_claim_id m trace_id i, cm_text = dc_text d, cm_span = span,
                             cm_evidence = items, cm_status = status_spec items\<rparr>)
           (clamp_span (dc_start d) (dc_end d) (int (length answer))))"

lemma build_claim_reference:
  assumes "mset ks = mset (claim_tasks ds hs)" "i < length ds"
  shows "build_claim m answer trace_id ds hs (collect_verified m ds hs ks) i =
    reference_claim m answer trace_id hs i (ds ! i)"
  using verified_items[OF assms] by (simp add: build_claim_def reference_claim_def Let_def classify_spec)

definition fair_schedule :: "((nat \<times> nat) list \<Rightarrow> (nat \<times> nat) list) \<Rightarrow> bool" where
  "fair_schedule schedule \<longleftrightarrow> (\<forall>ts. mset (schedule ts) = mset ts)"

lemma map_claims_reference:
  assumes "fair_schedule schedule"
  shows "map_claims m schedule answer hits trace_id =
    (case decompose m answer of
       (_, True) \<Rightarrow> Some \<lparr>mp_claims = [], mp_failed = True, mp_conflicting = {}\<rparr>
     | (ds, False) \<Rightarrow>
         map_option (\<lambda>cs. \<lparr>mp_claims = cs, mp_failed = False,
                          mp_conflicting = set (map cm_id (filter has_conflicting_evidence cs))\<rparr>)
           (all_some (map (\<lambda>i. reference_claim m answer trace_id (take 100 hits) i (take 100 ds ! i))
                        [0..<length (take 100 ds)])))"
proof -
  have "map (build_claim m answer trace_id ds hs (collect_verified m ds hs (schedule (claim_tasks ds hs)))) [0..<length ds] =
      map (\<lambda>i. reference_claim m answer trace_id hs i (ds ! i)) [0..<length ds]" for ds hs
    using assms build_claim_reference by (auto simp: fair_schedule_def)
  note e = this
  obtain ds b where d: "decompose m answer = (ds, b)" by (cases "decompose m answer")
  show ?thesis unfolding map_claims_def d Let_def e by (cases b) simp_all
qed

lemma map_claims_None:
  "map_claims m schedule answer hits trace_id = None \<longleftrightarrow>
   (\<exists>ds. decompose m answer = (ds, False) \<and>
      (\<exists>d \<in> set (take 100 ds). int_of_json (dc_start d) = IntOverflow \<or> int_of_json (dc_end d) = IntOverflow))"
proof -
  have c: "clamp_span s e len = None \<longleftrightarrow> int_of_json s = IntOverflow \<or> int_of_json e = IntOverflow" for s e len
    by (simp add: clamp_span_def Let_def)
  have "None \<in> set (map (build_claim m answer trace_id ds hs v) [0..<length ds]) \<longleftrightarrow>
      (\<exists>d \<in> set ds. int_of_json (dc_start d) = IntOverflow \<or> int_of_json (dc_end d) = IntOverflow)" for ds hs v
  proof -
    have "(None \<in> set (map (build_claim m answer trace_id ds hs v) [0..<length ds])) =
       (\<exists>i < length ds. int_of_json (dc_start (ds ! i)) = IntOverflow \<or> int_of_json (dc_end (ds ! i)) = IntOverflow)"
      by (auto simp: build_claim_def Let_def c image_iff eq_commute[of None])
    then show ?thesis by (metis in_set_conv_nth)
  qed
  note n = this
  obtain ds b where d: "decompose m answer = (ds, b)" by (cases "decompose m answer")
  show ?thesis
    using n[of "take 100 ds"] by (cases b) (simp_all add: map_claims_def d Let_def all_some_None)
qed

section \<open>Properties\<close>

text \<open>The status of a claim is a function of its evidence alone: supported iff some item entails
  all of it, partially supported iff none does but one entails a part, unavailable iff there are
  items and all are undetermined, and unsupported otherwise.\<close>

theorem classification_exact:
  "classify_evidence_status items = status_spec items"
  by (rule classify_spec)

text \<open>C9. Mapping an answer to claims does not depend on the order in which the concurrent
  verifications finish; it yields at most 100 claims, each with the verdicts of the first 100
  hits in hit order, a status that follows from them, a span inside the answer, and the claims
  with contradictory evidence flagged.\<close>

theorem claim_mapping_sound:
  assumes "fair_schedule schedule" "map_claims m schedule answer hits trace_id = Some r"
  shows "map_claims m id answer hits trace_id = Some r \<and> length (mp_claims r) \<le> 100 \<and>
    (\<forall>c \<in> set (mp_claims r).
       cm_evidence c = map (verify_hit m (cm_text c)) (take 100 hits) \<and>
       cm_status c = status_spec (cm_evidence c) \<and>
       0 \<le> sp_start (cm_span c) \<and> sp_start (cm_span c) \<le> sp_end (cm_span c) \<and>
       sp_end (cm_span c) \<le> int (length answer) \<and>
       (has_conflicting_evidence c \<longrightarrow> cm_id c \<in> mp_conflicting r))"
proof -
  have i: "fair_schedule id" by (simp add: fair_schedule_def)
  have same: "map_claims m id answer hits trace_id = Some r"
    using assms unfolding map_claims_reference[OF assms(1)] map_claims_reference[OF i] by simp
  obtain ds b where d: "decompose m answer = (ds, b)" by (cases "decompose m answer")
  show ?thesis
  proof (cases b)
    case True
    then show ?thesis using same assms(2) unfolding map_claims_reference[OF assms(1)] d by auto
  next
    case False
    let ?f = "\<lambda>i. reference_claim m answer trace_id (take 100 hits) i (take 100 ds ! i)"
    obtain cs where cs: "map ?f [0..<length (take 100 ds)] = map Some cs"
      and r: "r = \<lparr>mp_claims = cs, mp_failed = False, mp_conflicting = set (map cm_id (filter has_conflicting_evidence cs))\<rparr>"
      using assms(2) False unfolding map_claims_reference[OF assms(1)] d by (auto simp: all_some_Some)
    have l: "length cs \<le> 100" using arg_cong[OF cs, of length] by simp
    have "\<exists>i d. Some c = reference_claim m answer trace_id (take 100 hits) i d" if "c \<in> set cs" for c
    proof -
      have "Some c \<in> set (map ?f [0..<length (take 100 ds)])" unfolding cs using that by simp
      then show ?thesis by auto
    qed
    then have "cm_evidence c = map (verify_hit m (cm_text c)) (take 100 hits) \<and>
       cm_status c = status_spec (cm_evidence c) \<and>
       0 \<le> sp_start (cm_span c) \<and> sp_start (cm_span c) \<le> sp_end (cm_span c) \<and>
       sp_end (cm_span c) \<le> int (length answer)" if "c \<in> set cs" for c
      using that clamp_span_bounds[where len = "int (length answer)"]
      by (fastforce simp: reference_claim_def Let_def eq_commute[of "Some c"])
    then show ?thesis using same l r by auto
  qed
qed

definition demo_llm :: claim_llm where
  "demo_llm =
     \<lparr>cl_loads = (\<lambda>s. if s = ''d'' then Some (JObj [(''claims'', JArr [JObj [(''text'', JStr '' x ''), (''end'', JInt 9)]])])
                      else if s = ''v'' then Some (JObj [(''verification_result'', JStr ''entails''), (''coverage'', JStr ''full'')])
                      else None),
      cl_decompose = (\<lambda>_. Some ''d''), cl_entail = (\<lambda>_ t. if t = ''yes'' then Some ''v'' else None),
      cl_sha256_hex = (\<lambda>s. s)\<rparr>"

definition demo_hit :: "string \<Rightarrow> hit" where
  "demo_hit t = \<lparr>h_chunk = \<lparr>ck_id = ''c'', ck_document_id = ''d'', ck_version = ''v1'', ck_text = t\<rparr>,
                 h_score = 0, h_source = ''s''\<rparr>"

definition demo_claim :: claim where
  "demo_claim = \<lparr>cm_id = ''claim-t:0'', cm_text = ''x'', cm_span = \<lparr>sp_start = 0, sp_end = 3\<rparr>,
     cm_evidence = map (verify_hit demo_llm ''x'') [demo_hit ''yes'', demo_hit ''no''], cm_status = Supported\<rparr>"

lemma demo_mapping: "map_claims demo_llm rev ''abc'' [demo_hit ''yes'', demo_hit ''no''] ''t'' =
    Some \<lparr>mp_claims = [demo_claim], mp_failed = False, mp_conflicting = {}\<rparr>"
  by code_simp

theorem claim_mapping_sound_witness:
  "cm_evidence demo_claim = map (verify_hit demo_llm (cm_text demo_claim)) [demo_hit ''yes'', demo_hit ''no''] \<and>
   cm_status demo_claim = status_spec (cm_evidence demo_claim)"
proof -
  have "fair_schedule rev" by (simp add: fair_schedule_def)
  from claim_mapping_sound[OF this demo_mapping] show ?thesis by simp
qed

text \<open>The mapper fails closed on every model error but one: it raises exactly when one of the first
  100 claims carries an infinite offset, since \<open>int()\<close> of it is an \<open>OverflowError\<close>.\<close>

theorem map_claims_raises_iff:
  "map_claims m schedule answer hits trace_id = None \<longleftrightarrow>
   (\<exists>ds. decompose m answer = (ds, False) \<and>
      (\<exists>d \<in> set (take 100 ds). int_of_json (dc_start d) = IntOverflow \<or> int_of_json (dc_end d) = IntOverflow))"
  by (rule map_claims_None)

end
