(* ===== verification/Abstention.thy ===== *)
theory Abstention
  imports Claims
begin

text \<open>
  Evidence-based abstention, \<open>abstention.py\<close>: the six triggers in their fixed precedence, the
  bounded description, and how the gate agrees with the flags the claim mapper computed.
\<close>

section \<open>The gate\<close>

datatype reason_code =
  LowConfidence | NoEvidence | UnsupportedClaims | ConflictingEvidence | SqlNoRows | RetrievalBelowThreshold

record abstention_response =
  ab_reason :: reason_code
  ab_missing :: string
  ab_trace_id :: string

record abstention_input =
  ai_trace_id :: string
  ai_route :: string
  ai_scores :: "pyfloat list option"
  ai_threshold :: pyfloat
  ai_confidence :: "pyfloat option"
  ai_min_confidence :: pyfloat
  ai_claims :: "claim list"
  ai_conflicting :: "string set option"
  ai_row_count :: "nat option"
  ai_material :: "claim \<Rightarrow> bool"
  ai_overrides :: "(reason_code \<rightharpoonup> string)"

fun default_missing :: "reason_code \<Rightarrow> string" where
  "default_missing LowConfidence = ''The system was not confident enough in its answer for this question. There was not enough reliable supporting evidence to respond with confidence.''"
| "default_missing NoEvidence = ''No supporting evidence was retrieved for this question, so the system cannot provide a grounded answer.''"
| "default_missing UnsupportedClaims = ''One or more parts of the answer could not be supported by the retrieved evidence, so the system is withholding the answer rather than presenting unsupported claims.''"
| "default_missing ConflictingEvidence = ''The retrieved evidence contains conflicting information from different sources, so the system cannot determine a single well-supported answer.''"
| "default_missing SqlNoRows = ''The database query for this question returned no matching rows, so there is no data available to answer it.''"
| "default_missing RetrievalBelowThreshold = ''The retrieved passages were all below the relevance threshold, so none were strong enough to ground an answer.''"

definition generic_missing :: string where
  "generic_missing = ''The system lacks sufficient supporting evidence to answer this question.''"

definition resolve_missing_information :: "reason_code \<Rightarrow> (reason_code \<rightharpoonup> string) \<Rightarrow> string" where
  "resolve_missing_information rc overrides =
     (let d = (case overrides rc of Some x \<Rightarrow> x | None \<Rightarrow> default_missing rc)
      in take 1000 (if d = [] \<or> py_strip d = [] then generic_missing else d))"

definition select_reason_code :: "abstention_input \<Rightarrow> reason_code option" where
  "select_reason_code a =
     (if ai_scores a = Some [] then Some NoEvidence
      else if (case ai_scores a of None \<Rightarrow> False | Some xs \<Rightarrow> list_all (\<lambda>s. s < ai_threshold a) xs)
      then Some RetrievalBelowThreshold
      else if (case ai_confidence a of None \<Rightarrow> False | Some c \<Rightarrow> c < ai_min_confidence a)
      then Some LowConfidence
      else if list_ex (\<lambda>c. cm_status c = Unsupported \<and> ai_material a c) (ai_claims a)
      then Some UnsupportedClaims
      else if (case ai_conflicting a of
                 Some ids \<Rightarrow> ids \<noteq> {}
               | None \<Rightarrow> list_ex has_conflicting_evidence (ai_claims a))
      then Some ConflictingEvidence
      else if ai_route a = ''database'' \<and> ai_row_count a = Some 0
      then Some SqlNoRows
      else None)"

definition evaluate_abstention :: "abstention_input \<Rightarrow> abstention_response option" where
  "evaluate_abstention a =
     map_option (\<lambda>rc. \<lparr>ab_reason = rc, ab_missing = resolve_missing_information rc (ai_overrides a),
                       ab_trace_id = ai_trace_id a\<rparr>) (select_reason_code a)"

section \<open>The specification\<close>

text \<open>When each trigger holds, independently of the others, and the order they are ranked in.\<close>

fun trigger :: "abstention_input \<Rightarrow> reason_code \<Rightarrow> bool" where
  "trigger a NoEvidence = (ai_scores a = Some [])"
| "trigger a RetrievalBelowThreshold = (\<exists>xs. ai_scores a = Some xs \<and> (\<forall>s \<in> set xs. s < ai_threshold a))"
| "trigger a LowConfidence = (\<exists>c. ai_confidence a = Some c \<and> c < ai_min_confidence a)"
| "trigger a UnsupportedClaims = (\<exists>c \<in> set (ai_claims a). cm_status c = Unsupported \<and> ai_material a c)"
| "trigger a ConflictingEvidence =
     (case ai_conflicting a of Some ids \<Rightarrow> ids \<noteq> {} | None \<Rightarrow> \<exists>c \<in> set (ai_claims a). has_conflicting_evidence c)"
| "trigger a SqlNoRows = (ai_route a = ''database'' \<and> ai_row_count a = Some 0)"

fun precedence :: "reason_code \<Rightarrow> nat" where
  "precedence NoEvidence = 1"
| "precedence RetrievalBelowThreshold = 2"
| "precedence LowConfidence = 3"
| "precedence UnsupportedClaims = 4"
| "precedence ConflictingEvidence = 5"
| "precedence SqlNoRows = 6"

lemma reason_all: "(\<forall>rc. P rc) \<longleftrightarrow> P NoEvidence \<and> P RetrievalBelowThreshold \<and> P LowConfidence \<and>
    P UnsupportedClaims \<and> P ConflictingEvidence \<and> P SqlNoRows"
  using reason_code.exhaust by metis

lemma trigger_exec:
  "trigger a RetrievalBelowThreshold \<longleftrightarrow>
     (case ai_scores a of None \<Rightarrow> False | Some xs \<Rightarrow> list_all (\<lambda>s. s < ai_threshold a) xs)"
  "trigger a LowConfidence \<longleftrightarrow>
     (case ai_confidence a of None \<Rightarrow> False | Some c \<Rightarrow> c < ai_min_confidence a)"
  "trigger a UnsupportedClaims \<longleftrightarrow> list_ex (\<lambda>c. cm_status c = Unsupported \<and> ai_material a c) (ai_claims a)"
  "trigger a ConflictingEvidence \<longleftrightarrow>
     (case ai_conflicting a of Some ids \<Rightarrow> ids \<noteq> {}
      | None \<Rightarrow> list_ex has_conflicting_evidence (ai_claims a))"
  by (auto simp: list_all_iff list_ex_iff split: option.splits)

lemma select_reason_code_triggers:
  "select_reason_code a =
     (if trigger a NoEvidence then Some NoEvidence
      else if trigger a RetrievalBelowThreshold then Some RetrievalBelowThreshold
      else if trigger a LowConfidence then Some LowConfidence
      else if trigger a UnsupportedClaims then Some UnsupportedClaims
      else if trigger a ConflictingEvidence then Some ConflictingEvidence
      else if trigger a SqlNoRows then Some SqlNoRows else None)"
  unfolding select_reason_code_def trigger_exec by simp

lemma select_reason_code_iff:
  "select_reason_code a = Some rc \<longleftrightarrow>
   trigger a rc \<and> (\<forall>rc'. precedence rc' < precedence rc \<longrightarrow> \<not> trigger a rc')"
  unfolding select_reason_code_triggers reason_all
  by (cases rc) (simp_all del: trigger.simps)

lemma select_reason_code_None: "select_reason_code a = None \<longleftrightarrow> (\<forall>rc. \<not> trigger a rc)"
  unfolding select_reason_code_triggers reason_all by (simp del: trigger.simps)

lemma missing_information_bounds:
  "1 \<le> length (resolve_missing_information rc ov) \<and> length (resolve_missing_information rc ov) \<le> 1000"
proof -
  have g: "generic_missing \<noteq> []" by (simp add: generic_missing_def)
  have "take 1000 d \<noteq> [] \<and> length (take 1000 d) \<le> 1000" if "d \<noteq> []" for d :: string
    using that by simp
  then show ?thesis
    using g by (auto simp: resolve_missing_information_def Let_def Suc_le_eq)
qed

section \<open>Properties\<close>

text \<open>The gate abstains exactly when a trigger holds, with one reason: the first in the fixed
  precedence whose trigger holds, whatever the later ones say; its description has 1 to 1000
  characters for every override.\<close>

theorem abstention_exact:
  "(evaluate_abstention a = None \<longleftrightarrow> (\<forall>rc. \<not> trigger a rc)) \<and>
   (evaluate_abstention a = Some r \<longleftrightarrow>
      trigger a (ab_reason r) \<and> (\<forall>rc. precedence rc < precedence (ab_reason r) \<longrightarrow> \<not> trigger a rc) \<and>
      r = \<lparr>ab_reason = ab_reason r, ab_missing = resolve_missing_information (ab_reason r) (ai_overrides a),
           ab_trace_id = ai_trace_id a\<rparr>) \<and>
   1 \<le> length (resolve_missing_information rc' ov) \<and> length (resolve_missing_information rc' ov) \<le> 1000"
proof (intro conjI)
  show "evaluate_abstention a = None \<longleftrightarrow> (\<forall>rc. \<not> trigger a rc)"
    unfolding evaluate_abstention_def option.map_disc_iff by (rule select_reason_code_None)
  show "evaluate_abstention a = Some r \<longleftrightarrow>
      trigger a (ab_reason r) \<and> (\<forall>rc. precedence rc < precedence (ab_reason r) \<longrightarrow> \<not> trigger a rc) \<and>
      r = \<lparr>ab_reason = ab_reason r, ab_missing = resolve_missing_information (ab_reason r) (ai_overrides a),
           ab_trace_id = ai_trace_id a\<rparr>"
  proof -
    have e: "evaluate_abstention a = Some r \<longleftrightarrow> select_reason_code a = Some (ab_reason r) \<and>
       r = \<lparr>ab_reason = ab_reason r, ab_missing = resolve_missing_information (ab_reason r) (ai_overrides a),
            ab_trace_id = ai_trace_id a\<rparr>"
      by (cases "select_reason_code a"; cases r) (auto simp: evaluate_abstention_def)
    show ?thesis unfolding e select_reason_code_iff by (rule conj_assoc)
  qed
  show "1 \<le> length (resolve_missing_information rc' ov)" "length (resolve_missing_information rc' ov) \<le> 1000"
    using missing_information_bounds by blast+
qed

theorem abstention_exact_witness:
  "\<exists>r. evaluate_abstention \<lparr>ai_trace_id = ''t'', ai_route = ''database'', ai_scores = Some [1/4, 1/8], ai_threshold = 1/2,
      ai_confidence = Some (9/10), ai_min_confidence = 1/2, ai_claims = [], ai_conflicting = None,
      ai_row_count = Some 0, ai_material = (\<lambda>_. True), ai_overrides = Map.empty\<rparr> = Some r \<and>
     ab_reason r = RetrievalBelowThreshold"
  (is "\<exists>r. evaluate_abstention ?a = Some r \<and> _")
proof -
  obtain r where r: "evaluate_abstention ?a = Some r"
    by (simp add: evaluate_abstention_def select_reason_code_def)
  have "trigger ?a (ab_reason r) \<and> (\<forall>rc. precedence rc < precedence (ab_reason r) \<longrightarrow> \<not> trigger ?a rc)"
    using abstention_exact[of ?a r NoEvidence Map.empty] r by blast
  moreover have "trigger ?a RetrievalBelowThreshold" "\<not> trigger ?a NoEvidence" by simp_all
  ultimately have "ab_reason r = RetrievalBelowThreshold"
    by (cases "ab_reason r") (auto dest: spec[of _ RetrievalBelowThreshold])
  then show ?thesis using r by blast
qed

text \<open>The conflict flags the claim mapper hands over and the conflicts the gate would derive itself
  from the mapped claims lead to the same decision.\<close>

theorem mapper_flags_agree:
  assumes "map_claims m schedule answer hits trace_id = Some r" "ai_claims a = mp_claims r"
  shows "evaluate_abstention (a\<lparr>ai_conflicting := Some (mp_conflicting r)\<rparr>) =
         evaluate_abstention (a\<lparr>ai_conflicting := None\<rparr>)"
proof -
  have "mp_conflicting r = set (map cm_id (filter has_conflicting_evidence (mp_claims r)))"
    using assms(1) by (auto simp: map_claims_def Let_def split: prod.splits bool.splits)
  then have "mp_conflicting r \<noteq> {} \<longleftrightarrow> list_ex has_conflicting_evidence (ai_claims a)"
    using assms(2) by (auto simp: list_ex_iff filter_empty_conv)
  then show ?thesis by (cases a) (simp add: evaluate_abstention_def select_reason_code_def cong: option.case_cong)
qed

theorem mapper_flags_agree_witness:
  "evaluate_abstention \<lparr>ai_trace_id = ''t'', ai_route = ''rag'', ai_scores = None, ai_threshold = 0,
      ai_confidence = None, ai_min_confidence = 0, ai_claims = [demo_claim], ai_conflicting = Some {},
      ai_row_count = None, ai_material = (\<lambda>_. True), ai_overrides = Map.empty\<rparr> =
   evaluate_abstention \<lparr>ai_trace_id = ''t'', ai_route = ''rag'', ai_scores = None, ai_threshold = 0,
      ai_confidence = None, ai_min_confidence = 0, ai_claims = [demo_claim], ai_conflicting = None,
      ai_row_count = None, ai_material = (\<lambda>_. True), ai_overrides = Map.empty\<rparr>"
  using mapper_flags_agree[OF demo_mapping, of "\<lparr>ai_trace_id = ''t'', ai_route = ''rag'', ai_scores = None, ai_threshold = 0,
      ai_confidence = None, ai_min_confidence = 0, ai_claims = [demo_claim], ai_conflicting = None,
      ai_row_count = None, ai_material = (\<lambda>_. True), ai_overrides = Map.empty\<rparr>"] by simp

end
