(* ===== verification/SqlText.thy ===== *)
theory SqlText
  imports Prelude
begin

text \<open>
  Comment stripping for both SQL guards: the scanner \<open>_strip_sql_comments\<close> of \<open>copilot.py\<close> and
  the normalisation \<open>strip().rstrip(";").strip()\<close> that follows it. The source walks an index over
  the text; the model recurses on the remaining text, one clause per branch of the source. A
  reference lexer cuts the text into items, against which the scanner is specified.
\<close>

section \<open>The scanner\<close>

text \<open>The inner loop over a quoted string or identifier: what it copies, and the text after it.\<close>

fun copy_quoted :: "char \<Rightarrow> string \<Rightarrow> string \<times> string" where
  "copy_quoted q [] = ([], [])"
| "copy_quoted q [c] = ([c], [])"
| "copy_quoted q (c # d # cs) =
     (if c = q
      then (if d = q then (let (a, r) = copy_quoted q cs in (c # d # a, r)) else ([c], d # cs))
      else (let (a, r) = copy_quoted q (d # cs) in (c # a, r)))"

definition skip_line :: "string \<Rightarrow> string" where
  "skip_line cs = dropWhile (\<lambda>c. c \<noteq> CHR 0x0A) cs"

fun skip_block :: "nat \<Rightarrow> string \<Rightarrow> string" where
  "skip_block 0 cs = cs"
| "skip_block (Suc n) [] = []"
| "skip_block (Suc n) [c] = []"
| "skip_block (Suc n) (c # d # cs) =
     (if c = CHR ''/'' \<and> d = CHR ''*'' then skip_block (Suc (Suc n)) cs
      else if c = CHR ''*'' \<and> d = CHR ''/'' then skip_block n cs
      else skip_block (Suc n) (d # cs))"

lemma copy_quoted_split: "fst (copy_quoted q cs) @ snd (copy_quoted q cs) = cs"
  by (induction q cs rule: copy_quoted.induct) (auto simp: case_prod_beta Let_def)

lemma copy_quoted_shrinks: "length (snd (copy_quoted q cs)) \<le> length cs"
  by (induction q cs rule: copy_quoted.induct) (auto simp: case_prod_beta Let_def)

lemma skip_line_shrinks: "length (skip_line cs) \<le> length cs"
  by (simp add: skip_line_def length_dropWhile_le)

lemma skip_block_shrinks: "length (skip_block n cs) \<le> length cs"
  by (induction n cs rule: skip_block.induct) auto

definition is_quote :: "char \<Rightarrow> bool" where
  "is_quote c \<longleftrightarrow> c = CHR 0x27 \<or> c = CHR 0x22"

function strip_sql_comments :: "string \<Rightarrow> string" where
  "strip_sql_comments [] = []"
| "strip_sql_comments (c # cs) =
     (if is_quote c
      then c # fst (copy_quoted c cs) @ strip_sql_comments (snd (copy_quoted c cs))
      else if c = CHR ''-'' \<and> py_startswith cs ''-''
      then CHR '' '' # strip_sql_comments (skip_line (tl cs))
      else if c = CHR ''/'' \<and> py_startswith cs ''*''
      then CHR '' '' # strip_sql_comments (skip_block 1 (tl cs))
      else c # strip_sql_comments cs)"
  by pat_completeness auto
termination
proof (relation "measure length", goal_cases)
  case 1 show ?case by simp
next
  case (2 c cs) show ?case using copy_quoted_shrinks[of c cs] by simp
next
  case (3 c cs) show ?case using skip_line_shrinks[of "tl cs"] by simp
next
  case (4 c cs) show ?case using skip_block_shrinks[of 1 "tl cs"] by simp
next
  case (5 c cs) show ?case by simp
qed

definition normalize_sql :: "string \<Rightarrow> string" where
  "normalize_sql sql = py_strip (rstrip_by (\<lambda>c. c = CHR '';'') (py_strip (strip_sql_comments sql)))"

section \<open>The reference lexer\<close>

text \<open>
  The items of a text: a quoted piece (with its opening quote), a comment, or one other
  character. \<open>source_of\<close> is the text an item came from and \<open>kept_of\<close> what the scanner leaves of
  it.
\<close>

datatype sql_item = Quoted string | LineComment string | BlockComment string | Plain char

fun source_of :: "sql_item \<Rightarrow> string" where
  "source_of (Quoted s) = s"
| "source_of (LineComment s) = s"
| "source_of (BlockComment s) = s"
| "source_of (Plain c) = [c]"

fun kept_of :: "sql_item \<Rightarrow> string" where
  "kept_of (Quoted s) = s"
| "kept_of (LineComment s) = '' ''"
| "kept_of (BlockComment s) = '' ''"
| "kept_of (Plain c) = [c]"

definition consumed :: "'a list \<Rightarrow> 'a list \<Rightarrow> 'a list" where
  "consumed cs rest = take (length cs - length rest) cs"

function sql_items :: "string \<Rightarrow> sql_item list" where
  "sql_items [] = []"
| "sql_items (c # cs) =
     (if is_quote c
      then Quoted (c # fst (copy_quoted c cs)) # sql_items (snd (copy_quoted c cs))
      else if c = CHR ''-'' \<and> py_startswith cs ''-''
      then LineComment (consumed (c # cs) (skip_line (tl cs))) # sql_items (skip_line (tl cs))
      else if c = CHR ''/'' \<and> py_startswith cs ''*''
      then BlockComment (consumed (c # cs) (skip_block 1 (tl cs))) # sql_items (skip_block 1 (tl cs))
      else Plain c # sql_items cs)"
  by pat_completeness auto
termination
proof (relation "measure length", goal_cases)
  case 1 show ?case by simp
next
  case (2 c cs) show ?case using copy_quoted_shrinks[of c cs] by simp
next
  case (3 c cs) show ?case using skip_line_shrinks[of "tl cs"] by simp
next
  case (4 c cs) show ?case using skip_block_shrinks[of 1 "tl cs"] by simp
next
  case (5 c cs) show ?case by simp
qed

lemma suffix_skip_line: "suffix (skip_line cs) cs"
  by (simp add: skip_line_def suffix_dropWhile)

lemma suffix_skip_block: "suffix (skip_block n cs) cs"
  by (induction n cs rule: skip_block.induct) (auto intro: suffix_ConsI)

lemma consumed_suffix: "suffix rest cs \<Longrightarrow> consumed cs rest @ rest = cs"
  by (auto simp: consumed_def suffix_def)

lemma sql_items_source: "concat (map source_of (sql_items s)) = s"
proof (induction s rule: sql_items.induct)
  case (2 c cs)
  have l: "suffix (skip_line (tl cs)) (c # cs)"
    using suffix_skip_line[of "tl cs"] by (meson suffix_ConsI suffix_order.trans suffix_tl)
  have b: "suffix (skip_block 1 (tl cs)) (c # cs)"
    using suffix_skip_block[of 1 "tl cs"] by (meson suffix_ConsI suffix_order.trans suffix_tl)
  show ?case using 2 copy_quoted_split[of c cs] consumed_suffix[OF l] consumed_suffix[OF b] by auto
qed simp

lemma strip_is_kept: "strip_sql_comments s = concat (map kept_of (sql_items s))"
  by (induction s rule: sql_items.induct) auto

section \<open>Comment-free texts\<close>

text \<open>A text has no comment if lexing it yields none.\<close>

definition is_comment :: "sql_item \<Rightarrow> bool" where
  "is_comment it \<longleftrightarrow> (\<exists>s. it = LineComment s \<or> it = BlockComment s)"

lemma is_comment_simps [simp]:
  "\<not> is_comment (Quoted s)" "\<not> is_comment (Plain c)"
  "is_comment (LineComment s)" "is_comment (BlockComment s)"
  by (simp_all add: is_comment_def)

definition comment_free :: "string \<Rightarrow> bool" where
  "comment_free s \<longleftrightarrow> (\<forall>it \<in> set (sql_items s). \<not> is_comment it)"

lemma comment_free_strip: "comment_free s \<Longrightarrow> strip_sql_comments s = s"
proof -
  assume a: "comment_free s"
  have "kept_of it = source_of it" if "\<not> is_comment it" for it using that by (cases it) auto
  then have "map kept_of (sql_items s) = map source_of (sql_items s)"
    using a by (simp add: comment_free_def)
  then have "concat (map kept_of (sql_items s)) = concat (map source_of (sql_items s))" by (rule arg_cong)
  then show ?thesis by (simp only: strip_is_kept sql_items_source)
qed

text \<open>Copying a quoted piece again stops at the same place, unless what follows now starts
  with the quote.\<close>

lemma copy_quoted_step:
  "c \<noteq> q \<Longrightarrow> copy_quoted q (c # cs) = (c # fst (copy_quoted q cs), snd (copy_quoted q cs))"
  by (cases cs) (auto simp: case_prod_beta Let_def)

lemma copy_quoted_escaped:
  "copy_quoted q (q # q # cs) = (q # q # fst (copy_quoted q cs), snd (copy_quoted q cs))"
  by (simp add: case_prod_beta Let_def)

lemma copy_quoted_closed: "r = [] \<or> hd r \<noteq> q \<Longrightarrow> copy_quoted q (q # r) = ([q], r)"
  by (cases r) auto

lemma copy_quoted_again:
  assumes "snd (copy_quoted q cs) \<noteq> []" "r = [] \<or> hd r \<noteq> q"
  shows "copy_quoted q (fst (copy_quoted q cs) @ r) = (fst (copy_quoted q cs), r)"
  using assms
proof (induction q cs rule: copy_quoted.induct)
  case (3 q c d cs)
  show ?case
  proof (cases "c = q")
    case True
    show ?thesis
    proof (cases "d = q")
      case d: True
      then show ?thesis using 3 True by (simp add: copy_quoted_escaped del: copy_quoted.simps)
    next
      case False
      then show ?thesis using 3 True by (simp add: copy_quoted_closed)
    qed
  next
    case False
    then show ?thesis using 3 by (simp add: copy_quoted_step del: copy_quoted.simps)
  qed
qed simp_all

lemma copy_quoted_rest_hd: "snd (copy_quoted q cs) \<noteq> [] \<Longrightarrow> hd (snd (copy_quoted q cs)) \<noteq> q"
  by (induction q cs rule: copy_quoted.induct) (auto simp: case_prod_beta Let_def)

lemma copy_quoted_whole: "snd (copy_quoted q cs) = [] \<Longrightarrow> fst (copy_quoted q cs) = cs"
  using copy_quoted_split[of q cs] by simp

lemma strip_hd: "strip_sql_comments s \<noteq> [] \<Longrightarrow>
    hd (strip_sql_comments s) = CHR '' '' \<or> hd (strip_sql_comments s) = hd s"
  by (cases s) auto

lemma strip_Nil_iff [simp]: "strip_sql_comments s = [] \<longleftrightarrow> s = []"
  by (cases s) auto

lemma is_quote_not_space: "is_quote q \<Longrightarrow> q \<noteq> CHR '' ''"
  by (auto simp: is_quote_def)

lemma sql_items_plain:
  assumes "\<not> is_quote c" "\<not> (c = CHR ''-'' \<and> py_startswith cs ''-'')"
    "\<not> (c = CHR ''/'' \<and> py_startswith cs ''*'')"
  shows "sql_items (c # cs) = Plain c # sql_items cs"
  using assms by simp

lemma startswith_one: "py_startswith cs [x] \<longleftrightarrow> cs \<noteq> [] \<and> hd cs = x"
  by (cases cs) (auto simp: py_startswith_def)

lemma sql_items_quoted:
  "is_quote c \<Longrightarrow> sql_items (c # cs) = Quoted (c # fst (copy_quoted c cs)) # sql_items (snd (copy_quoted c cs))"
  by simp

lemma strip_comment_free: "comment_free (strip_sql_comments s)"
proof (induction s rule: strip_sql_comments.induct)
  case 1
  show ?case by (simp add: comment_free_def)
next
  case (2 c cs)
  let ?a = "fst (copy_quoted c cs)" and ?r = "snd (copy_quoted c cs)"
  have sp: "comment_free (CHR '' '' # t) \<longleftrightarrow> comment_free t" for t
    by (simp add: comment_free_def is_quote_def)
  consider (q) "is_quote c" | (l) "\<not> is_quote c" "c = CHR ''-'' \<and> py_startswith cs ''-''"
    | (b) "\<not> is_quote c" "c = CHR ''/'' \<and> py_startswith cs ''*''"
    | (p) "\<not> is_quote c" "\<not> (c = CHR ''-'' \<and> py_startswith cs ''-'')"
        "\<not> (c = CHR ''/'' \<and> py_startswith cs ''*'')"
    by blast
  then show ?case
  proof cases
    case q
    let ?t = "strip_sql_comments ?r"
    have e: "copy_quoted c (?a @ ?t) = (?a, ?t)"
    proof (cases "?r = []")
      case True
      then show ?thesis using copy_quoted_whole[OF True] by (metis append_Nil2 prod.collapse strip_sql_comments.simps(1))
    next
      case False
      have "?t = [] \<or> hd ?t \<noteq> c"
        using strip_hd[of ?r] copy_quoted_rest_hd[OF False] is_quote_not_space[OF q] by metis
      then show ?thesis by (rule copy_quoted_again[OF False])
    qed
    have "comment_free (c # ?a @ ?t) \<longleftrightarrow> comment_free ?t"
      unfolding comment_free_def sql_items_quoted[OF q] e by simp
    then show ?thesis using 2(1)[OF q] q by simp
  next
    case l then show ?thesis using 2(2) sp by simp
  next
    case b then show ?thesis using 2(3) sp by simp
  next
    case p
    let ?t = "strip_sql_comments cs"
    have h: "?t \<noteq> [] \<Longrightarrow> hd ?t = CHR '' '' \<or> hd ?t = hd cs" using strip_hd by blast
    have "sql_items (c # ?t) = Plain c # sql_items ?t"
      by (rule sql_items_plain) (use p h in \<open>auto simp: startswith_one\<close>)
    then have k: "comment_free (c # ?t) \<longleftrightarrow> comment_free ?t" by (simp only: comment_free_def) simp
    have st: "strip_sql_comments (c # cs) = c # ?t" using p by (auto simp del: de_Morgan_conj)
    show ?thesis unfolding st k by (rule 2(4)[OF p])
  qed
qed

section \<open>Properties\<close>

text \<open>Comment stripping is complete and stable: what it leaves has no comment outside quotes,
  so a second pass changes nothing; and it leaves every quoted string and identifier and every
  other character of the source in place, putting one space for each comment.\<close>

theorem strip_removes_comments:
  "comment_free (strip_sql_comments s) \<and>
   strip_sql_comments (strip_sql_comments s) = strip_sql_comments s \<and>
   strip_sql_comments s = concat (map kept_of (sql_items s)) \<and> s = concat (map source_of (sql_items s))"
  using comment_free_strip[OF strip_comment_free, of s] strip_comment_free
  by (simp add: strip_is_kept[symmetric] sql_items_source)

text \<open>A dollar-quoted string is not a quoted piece for the scanner, so comment markers inside one
  are taken for a comment.\<close>

lemma strip_dollar_quoted:
  "normalize_sql (''SELECT $$--$$; DELETE FROM t; SELECT $$'' @ [CHR 0x0A] @ ''$$'') =
   ''SELECT $$ '' @ [CHR 0x0A] @ ''$$''"
  by code_simp

end
