(* ===== verification/SqlAst.thy ===== *)
theory SqlAst
  imports Prelude
begin

text \<open>
  The syntax trees the SQL guards inspect and the traversals they use. sqlglot itself is not in
  the repository: a tree is data of the model, with the attributes the guards read (class,
  argument key, name, alias, qualifier, children), and the parser is an argument of the guards.
  \<open>walk\<close> is \<open>find_all\<close>'s breadth-first order; the specifications are stated over \<open>subnodes\<close>, and
  the two reach the same nodes. \<open>find_denied_function\<close> is the denylist of \<open>copilot.py\<close> that both
  guards share.
\<close>

section \<open>Trees\<close>

datatype sql_class =
    CSelect | CInsert | CUpdate | CDelete | CMerge | CTruncate | CCreate | CAlter | CDrop
  | CGrant | CRevoke | CCopy | CSet | CCommand "string option" | CWindow | CWith | CSubquery
  | CUnion | CAnonymous | CAggFunc string | CStar | CColumn | CTable | CAlias | CLiteral bool
  | COther string

datatype sql_node =
  SqlNode (n_key: string) (n_class: sql_class) (n_name: string) (n_alias: string)
    (n_table: string) (n_children: "sql_node list")

fun subnodes :: "sql_node \<Rightarrow> sql_node list" where
  "subnodes (SqlNode k c n a q cs) = SqlNode k c n a q cs # concat (map subnodes cs)"

fun node_count :: "sql_node \<Rightarrow> nat" where
  "node_count (SqlNode k c n a q cs) = Suc (sum_list (map node_count cs))"

function walk :: "sql_node list \<Rightarrow> sql_node list" where
  "walk [] = []"
| "walk (n # ns) = n # walk (ns @ n_children n)"
  by pat_completeness auto
termination
proof (relation "measure (\<lambda>ns. sum_list (map node_count ns))", goal_cases)
  case (2 n ns)
  show ?case by (cases n) simp
qed simp

definition find_all :: "(sql_class \<Rightarrow> bool) \<Rightarrow> sql_node \<Rightarrow> sql_node list" where
  "find_all p st = filter (\<lambda>n. p (n_class n)) (walk [st])"

definition arg_nodes :: "string \<Rightarrow> sql_node \<Rightarrow> sql_node list" where
  "arg_nodes k n = filter (\<lambda>ch. n_key ch = k) (n_children n)"

definition first_opt :: "'a list \<Rightarrow> 'a option" where
  "first_opt xs = (case xs of [] \<Rightarrow> None | x # _ \<Rightarrow> Some x)"

definition arg_node :: "string \<Rightarrow> sql_node \<Rightarrow> sql_node option" where
  "arg_node k n = first_opt (arg_nodes k n)"

lemma first_opt_None [simp]: "first_opt xs = None \<longleftrightarrow> xs = []"
  by (cases xs) (auto simp: first_opt_def)

lemma first_opt_simps [simp]: "first_opt [] = None" "first_opt (x # xs) = Some x"
  by (simp_all add: first_opt_def)

lemma first_opt_Some: "first_opt xs = Some x \<longleftrightarrow> xs \<noteq> [] \<and> hd xs = x"
  by (cases xs) (auto simp: first_opt_def)

lemma set_walk: "set (walk ns) = (\<Union>n \<in> set ns. set (subnodes n))"
proof (induction ns rule: walk.induct)
  case (2 n ns)
  have "set (subnodes n) = insert n (\<Union>x \<in> set (n_children n). set (subnodes x))" by (cases n) auto
  then show ?case using 2 by auto
qed simp

lemma length_walk: "length (walk ns) = sum_list (map node_count ns)"
proof (induction ns rule: walk.induct)
  case (2 n ns)
  then show ?case by (cases n) simp
qed simp

lemma set_walk_single: "set (walk [st]) = set (subnodes st)"
  by (simp add: set_walk del: walk.simps)

lemma set_find_all: "set (find_all p st) = {n \<in> set (subnodes st). p (n_class n)}"
  by (simp only: find_all_def set_filter set_walk_single)

lemma find_all_Nil: "find_all p st = [] \<longleftrightarrow> (\<forall>n \<in> set (subnodes st). \<not> p (n_class n))"
  by (simp only: find_all_def filter_empty_conv set_walk_single)

lemma subnodes_self [simp]: "n \<in> set (subnodes n)"
  by (cases n) simp

section \<open>Denied functions\<close>

definition denied_functions :: "string list" where
  "denied_functions =
     [''pg_sleep'', ''pg_sleep_for'', ''pg_sleep_until'', ''current_setting'', ''set_config'',
      ''pg_read_file'', ''pg_read_binary_file'', ''pg_ls_dir'', ''pg_stat_file'',
      ''query_to_xml'', ''dblink'', ''dblink_exec'']"

definition denied_prefixes :: "string list" where
  "denied_prefixes = [''lo_'', ''dblink'', ''pg_read'', ''pg_ls'', ''pg_logical'']"

definition denied_name :: "string \<Rightarrow> bool" where
  "denied_name nm \<longleftrightarrow> nm \<noteq> [] \<and>
     (nm \<in> set denied_functions \<or> list_ex (py_startswith nm) denied_prefixes)"

definition find_denied_function :: "sql_node \<Rightarrow> string option" where
  "find_denied_function st =
     first_opt (filter denied_name (map (\<lambda>f. py_lower (n_name f)) (find_all (\<lambda>c. c = CAnonymous) st)))"

lemma find_denied_function_None:
  "find_denied_function st = None \<longleftrightarrow>
   (\<forall>n \<in> set (subnodes st). n_class n = CAnonymous \<longrightarrow> \<not> denied_name (py_lower (n_name n)))"
  by (auto simp: find_denied_function_def filter_empty_conv set_find_all)

section \<open>The parser's answer\<close>

text \<open>\<open>sqlglot.parse\<close>: an error with its message, or the statements, where an empty statement is
  \<open>None\<close>.\<close>

type_synonym sql_parser = "string \<Rightarrow> string + sql_node option list"

definition statements_of :: "sql_node option list \<Rightarrow> sql_node list" where
  "statements_of xs = map the (filter (\<lambda>s. s \<noteq> None) xs)"

lemma statements_of_single: "statements_of [Some st] = [st]"
  by (simp add: statements_of_def)

end
