(* ===== verification/SqlLabGuard.thy ===== *)
theory SqlLabGuard
  imports SqlText SqlAst "HOL-Library.List_Lexorder" "HOL-Library.Char_ord"
begin

text \<open>
  \<open>SqlLabGuard\<close> of \<open>sql_lab/guard.py\<close>: the fail-closed pipeline that accepts a single read-only
  \<open>SELECT\<close>. A rejection carries the reason the source names. The specification
  \<open>read_only_select\<close> speaks of all nodes of the tree, and the pipeline accepts exactly the texts
  that meet it.
\<close>

section \<open>The guard\<close>

datatype lab_rejection =
    LabEmpty | LabParse string | LabMultiple | LabNotSelect string | LabDataModifying string
  | LabForbidden string | LabWith | LabFunction string | LabSensitive "string list"

record lab_guard =
  lg_sensitive :: "string set"
  lg_allow_cte :: bool

definition lab_guard_init :: "string list \<Rightarrow> bool \<Rightarrow> lab_guard" where
  "lab_guard_init tables cte =
     \<lparr>lg_sensitive = set (map (\<lambda>n. py_lower (py_strip n)) (filter (\<lambda>n. py_strip n \<noteq> []) tables)),
      lg_allow_cte = cte\<rparr>"

fun forbidden_name :: "sql_class \<Rightarrow> string option" where
  "forbidden_name CInsert = Some ''INSERT''"
| "forbidden_name CUpdate = Some ''UPDATE''"
| "forbidden_name CDelete = Some ''DELETE''"
| "forbidden_name CMerge = Some ''MERGE''"
| "forbidden_name CTruncate = Some ''TRUNCATE''"
| "forbidden_name CCreate = Some ''CREATE''"
| "forbidden_name CAlter = Some ''ALTER''"
| "forbidden_name CDrop = Some ''DROP''"
| "forbidden_name CGrant = Some ''GRANT''"
| "forbidden_name CRevoke = Some ''REVOKE''"
| "forbidden_name CCopy = Some ''COPY''"
| "forbidden_name CSet = Some ''SET''"
| "forbidden_name _ = None"

fun is_command :: "sql_class \<Rightarrow> bool" where
  "is_command (CCommand _) = True"
| "is_command _ = False"

definition forbidden_type :: "sql_class \<Rightarrow> bool" where
  "forbidden_type c \<longleftrightarrow> forbidden_name c \<noteq> None \<or> is_command c"

definition data_modifying :: "sql_class \<Rightarrow> bool" where
  "data_modifying c \<longleftrightarrow> c \<in> {CInsert, CUpdate, CDelete, CMerge, CTruncate}"

text \<open>\<open>_operation_name\<close>; \<open>class_label\<close> is the class name of a root that is not on the list.\<close>

definition upper_char :: "char \<Rightarrow> char" where
  "upper_char c = (let n = (of_char c :: nat) in if 97 \<le> n \<and> n \<le> 122 then char_of (n - 32) else c)"

fun class_label :: "sql_class \<Rightarrow> string" where
  "class_label (COther s) = s"
| "class_label (CAggFunc s) = s"
| "class_label CSelect = ''Select''"
| "class_label CUnion = ''Union''"
| "class_label CSubquery = ''Subquery''"
| "class_label CWindow = ''Window''"
| "class_label CWith = ''With''"
| "class_label CAnonymous = ''Anonymous''"
| "class_label CStar = ''Star''"
| "class_label CColumn = ''Column''"
| "class_label CTable = ''Table''"
| "class_label CAlias = ''Alias''"
| "class_label (CLiteral _) = ''Literal''"
| "class_label _ = []"

definition operation_name :: "sql_class \<Rightarrow> string" where
  "operation_name c =
     (case forbidden_name c of
        Some nm \<Rightarrow> nm
      | None \<Rightarrow>
          (case c of
             CCommand (Some kw) \<Rightarrow>
               if py_strip kw \<noteq> [] then map upper_char (py_strip kw) else ''administrative command''
           | CCommand None \<Rightarrow> ''administrative command''
           | _ \<Rightarrow> map upper_char (class_label c)))"

definition referenced_sensitive :: "string set \<Rightarrow> sql_node \<Rightarrow> string list" where
  "referenced_sensitive sens st =
     (if sens = {} then []
      else remdups
        (filter (\<lambda>nm. nm \<in> sens) (map (\<lambda>t. py_lower (n_name t)) (find_all (\<lambda>c. c = CTable) st)) @
         filter (\<lambda>q. q \<noteq> [] \<and> q \<in> sens)
           (map (\<lambda>c. py_lower (n_table c)) (find_all (\<lambda>c. c = CColumn) st))))"

definition lab_validate :: "lab_guard \<Rightarrow> sql_parser \<Rightarrow> string \<Rightarrow> lab_rejection + string" where
  "lab_validate g parse sql =
     (let normalized = normalize_sql sql in
      if normalized = [] then Inl LabEmpty
      else case parse normalized of
        Inl msg \<Rightarrow> Inl (LabParse msg)
      | Inr xs \<Rightarrow>
          (case statements_of xs of
             [st] \<Rightarrow>
               if n_class st \<noteq> CSelect then Inl (LabNotSelect (operation_name (n_class st)))
               else (case first_opt (find_all forbidden_type st) of
                  Some bad \<Rightarrow>
                    if data_modifying (n_class bad)
                    then Inl (LabDataModifying (operation_name (n_class bad)))
                    else Inl (LabForbidden (operation_name (n_class bad)))
                | None \<Rightarrow>
                    if \<not> lg_allow_cte g \<and> find_all (\<lambda>c. c = CWith) st \<noteq> [] then Inl LabWith
                    else (case find_denied_function st of
                       Some f \<Rightarrow> Inl (LabFunction f)
                     | None \<Rightarrow>
                         (case referenced_sensitive (lg_sensitive g) st of
                            [] \<Rightarrow> Inr normalized
                          | names \<Rightarrow> Inl (LabSensitive (sort names)))))
           | _ \<Rightarrow> Inl LabMultiple))"

section \<open>The specification\<close>

definition read_only_select :: "lab_guard \<Rightarrow> sql_node \<Rightarrow> bool" where
  "read_only_select g st \<longleftrightarrow>
     n_class st = CSelect \<and>
     (\<forall>n \<in> set (subnodes st).
        \<not> forbidden_type (n_class n) \<and>
        (n_class n = CWith \<longrightarrow> lg_allow_cte g) \<and>
        (n_class n = CAnonymous \<longrightarrow> \<not> denied_name (py_lower (n_name n))) \<and>
        (n_class n = CTable \<longrightarrow> py_lower (n_name n) \<notin> lg_sensitive g) \<and>
        (n_class n = CColumn \<longrightarrow> py_lower (n_table n) = [] \<or> py_lower (n_table n) \<notin> lg_sensitive g))"

lemma referenced_sensitive_Nil:
  "referenced_sensitive sens st = [] \<longleftrightarrow>
   (\<forall>n \<in> set (subnodes st).
      (n_class n = CTable \<longrightarrow> py_lower (n_name n) \<notin> sens) \<and>
      (n_class n = CColumn \<longrightarrow> py_lower (n_table n) = [] \<or> py_lower (n_table n) \<notin> sens))"
  by (auto simp: referenced_sensitive_def filter_empty_conv set_find_all)

lemma lab_tree_ok:
  "read_only_select g st \<longleftrightarrow>
   n_class st = CSelect \<and> find_all forbidden_type st = [] \<and>
   (lg_allow_cte g \<or> find_all (\<lambda>c. c = CWith) st = []) \<and> find_denied_function st = None \<and>
   referenced_sensitive (lg_sensitive g) st = []"
  unfolding read_only_select_def find_all_Nil find_denied_function_None referenced_sensitive_Nil
  by blast

lemma lab_validate_Inr:
  "lab_validate g parse sql = Inr t \<longleftrightarrow>
   t = normalize_sql sql \<and> t \<noteq> [] \<and>
   (\<exists>xs st. parse t = Inr xs \<and> statements_of xs = [st] \<and> read_only_select g st)"
  unfolding lab_tree_ok lab_validate_def
  by (auto simp: Let_def split: sum.splits list.splits option.splits if_splits)

section \<open>Properties\<close>

text \<open>C4. The SQL Lab guard accepts a statement exactly when the text left after comment removal
  parses to one statement whose root is a \<open>SELECT\<close> and none of whose nodes, at any depth, is a
  write, DDL or administrative command, a disallowed \<open>WITH\<close>, a denied function, a sensitive table
  or a column qualified by one; what it returns is that text.\<close>

theorem lab_guard_exact:
  "lab_validate g parse sql = Inr t \<longleftrightarrow>
   t = normalize_sql sql \<and> t \<noteq> [] \<and>
   (\<exists>xs st. parse t = Inr xs \<and> statements_of xs = [st] \<and> read_only_select g st)"
  by (rule lab_validate_Inr)

text \<open>A rejection for data modification names an operation the tree contains.\<close>

lemma lab_data_modifying_reason:
  assumes "lab_validate g parse sql = Inl (LabDataModifying nm)"
  shows "\<exists>xs st. parse (normalize_sql sql) = Inr xs \<and> statements_of xs = [st] \<and>
     (\<exists>n \<in> set (subnodes st). data_modifying (n_class n) \<and> operation_name (n_class n) = nm)"
proof -
  from assms obtain xs st bad where p: "parse (normalize_sql sql) = Inr xs" "statements_of xs = [st]"
    and b: "first_opt (find_all forbidden_type st) = Some bad" "data_modifying (n_class bad)"
      "operation_name (n_class bad) = nm"
    by (auto simp: lab_validate_def Let_def split: sum.splits list.splits option.splits if_splits)
  from b(1) have "bad \<in> set (find_all forbidden_type st)" by (auto simp: first_opt_Some)
  then have "bad \<in> set (subnodes st)" by (simp add: set_find_all)
  then show ?thesis using p b by blast
qed

end
