(* ===== verification/CopilotGuard.thy ===== *)
theory CopilotGuard
  imports SqlLabGuard
begin

text \<open>
  \<open>CopilotSqlGuard\<close> of \<open>copilot.py\<close>: the schema catalog, the allow-list pipeline over the parsed
  tree (no write, sub-query, CTE, set operation or window; an aggregate; approved tables and
  columns only) and the row-limit rewriting. \<open>approved_query\<close> is the specification over all nodes
  of the tree.
\<close>

section \<open>Catalog\<close>

record catalog_column =
  cc_name :: string
  cc_type :: "string option"

record catalog_table =
  ct_name :: string
  ct_columns :: "catalog_column list"

type_synonym catalog = "catalog_table list"

definition table_names :: "catalog \<Rightarrow> string list" where
  "table_names cat = map (\<lambda>t. py_lower (ct_name t)) cat"

definition column_names_for :: "catalog \<Rightarrow> string \<Rightarrow> string list" where
  "column_names_for cat tab =
     (case find (\<lambda>t. py_lower (ct_name t) = py_lower tab) cat of
        None \<Rightarrow> []
      | Some t \<Rightarrow> remdups (map (\<lambda>c. py_lower (cc_name c)) (ct_columns t)))"

section \<open>The guard\<close>

datatype copilot_rejection =
    CgEmpty | CgParse string | CgMultiple | CgNotSelect | CgForbidden | CgFunction string | CgStar
  | CgNoAggregate | CgNoTable | CgTables "string list" | CgQualifier string
  | CgColumn string string

fun cg_forbidden :: "sql_class \<Rightarrow> bool" where
  "cg_forbidden (CCommand _) = True"
| "cg_forbidden c = (c \<in> {CInsert, CUpdate, CDelete, CDrop, CCreate, CMerge, CWindow, CWith,
                          CSubquery, CUnion})"

fun is_agg :: "sql_class \<Rightarrow> bool" where
  "is_agg (CAggFunc _) = True"
| "is_agg _ = False"

definition copilot_parse :: "sql_parser \<Rightarrow> string \<Rightarrow> copilot_rejection + sql_node" where
  "copilot_parse parse sql =
     (case parse sql of
        Inl msg \<Rightarrow> Inl (CgParse msg)
      | Inr xs \<Rightarrow>
          (case statements_of xs of
             [st] \<Rightarrow> if n_class st \<noteq> CSelect then Inl CgNotSelect else Inr st
           | _ \<Rightarrow> Inl CgMultiple))"

text \<open>\<open>_reject_star\<close>: a projection, or what it aliases, is a star or a column whose name is one.\<close>

definition projection_target :: "sql_node \<Rightarrow> sql_node option" where
  "projection_target pr = (if n_class pr = CAlias then arg_node ''this'' pr else Some pr)"

definition star_projection :: "sql_node \<Rightarrow> bool" where
  "star_projection pr \<longleftrightarrow>
     (case projection_target pr of
        None \<Rightarrow> False
      | Some t \<Rightarrow> n_class t = CStar \<or>
          n_class t = CColumn \<and>
            (case arg_node ''this'' t of None \<Rightarrow> False | Some x \<Rightarrow> n_class x = CStar))"

definition has_star :: "sql_node \<Rightarrow> bool" where
  "has_star st \<longleftrightarrow>
     list_ex (\<lambda>s. list_ex star_projection (arg_nodes ''expressions'' s)) (find_all (\<lambda>c. c = CSelect) st)"

definition table_alias :: "sql_node \<Rightarrow> string" where
  "table_alias t = py_lower (if n_alias t \<noteq> [] then n_alias t else n_name t)"

definition resolve_tables :: "sql_node \<Rightarrow> (string \<times> string) list \<times> string list" where
  "resolve_tables st =
     (let ts = find_all (\<lambda>c. c = CTable) st
      in (map (\<lambda>t. (table_alias t, py_lower (n_name t))) ts,
          remdups (map (\<lambda>t. py_lower (n_name t)) ts)))"

text \<open>A later table with the same alias overwrites the earlier entry of the dict.\<close>

definition alias_lookup :: "(string \<times> string) list \<Rightarrow> string \<Rightarrow> string option" where
  "alias_lookup al q = map_of (rev al) q"

definition output_aliases :: "sql_node \<Rightarrow> string list" where
  "output_aliases st =
     map py_lower (filter (\<lambda>a. a \<noteq> []) (map n_alias (find_all (\<lambda>c. c = CAlias) st)))"

definition check_column :: "catalog \<Rightarrow> (string \<times> string) list \<Rightarrow> string list \<Rightarrow> string list \<Rightarrow> sql_node
    \<Rightarrow> copilot_rejection option" where
  "check_column cat al referenced aliases col =
     (let nm = py_lower (n_name col); q = py_lower (n_table col)
      in if q \<noteq> []
         then (case alias_lookup al q of
                 None \<Rightarrow> Some (CgQualifier (n_table col))
               | Some tab \<Rightarrow>
                   if nm \<notin> set (column_names_for cat tab)
                   then Some (CgColumn (n_table col) (n_name col)) else None)
         else if nm \<in> set aliases then None
         else if \<not> list_ex (\<lambda>t. nm \<in> set (column_names_for cat t)) referenced
              then Some (CgColumn [] (n_name col)) else None)"

definition validate_columns :: "catalog \<Rightarrow> (string \<times> string) list \<Rightarrow> string list \<Rightarrow> sql_node
    \<Rightarrow> copilot_rejection option" where
  "validate_columns cat al referenced st =
     first_opt (map the (filter (\<lambda>e. e \<noteq> None)
       (map (check_column cat al referenced (output_aliases st)) (find_all (\<lambda>c. c = CColumn) st))))"

section \<open>Row limits\<close>

text \<open>\<open>int(text)\<close> on the text of a number literal: digits, with single underscores between them.\<close>

fun digits_value :: "nat \<Rightarrow> string \<Rightarrow> nat option" where
  "digits_value acc [] = None"
| "digits_value acc [c] = (if is_digit c then Some (acc * 10 + digit_val c) else None)"
| "digits_value acc (c # d # cs) =
     (if is_digit c
      then (if d = CHR ''_'' then digits_value (acc * 10 + digit_val c) cs
            else digits_value (acc * 10 + digit_val c) (d # cs))
      else None)"

definition limit_value :: "sql_node \<Rightarrow> nat option" where
  "limit_value lim_node =
     (case arg_node ''expression'' lim_node of
        None \<Rightarrow> None
      | Some e \<Rightarrow> (if n_class e = CLiteral True then digits_value 0 (n_name e) else None))"

definition limit_clause :: "nat \<Rightarrow> string" where
  "limit_clause n = [CHR 0x0A] @ ''LIMIT '' @ show_nat n"

definition apply_limit :: "nat \<Rightarrow> (sql_node \<Rightarrow> nat \<Rightarrow> string) \<Rightarrow> string \<Rightarrow> sql_node \<Rightarrow> string" where
  "apply_limit max_rows render sql st =
     (case arg_node ''limit'' st of
        Some l \<Rightarrow>
          (case limit_value l of
             Some v \<Rightarrow> if v \<le> max_rows then sql else render st max_rows
           | None \<Rightarrow> render st max_rows)
      | None \<Rightarrow> if arg_node ''group'' st \<noteq> None then sql @ limit_clause max_rows else sql)"

definition copilot_validate :: "catalog \<Rightarrow> nat \<Rightarrow> sql_parser \<Rightarrow> (sql_node \<Rightarrow> nat \<Rightarrow> string) \<Rightarrow> string
    \<Rightarrow> copilot_rejection + string" where
  "copilot_validate cat max_rows parse render sql0 =
     (let sql = normalize_sql sql0
      in if sql = [] then Inl CgEmpty
         else case copilot_parse parse sql of
           Inl e \<Rightarrow> Inl e
         | Inr st \<Rightarrow>
             if find_all cg_forbidden st \<noteq> [] then Inl CgForbidden
             else (case find_denied_function st of
               Some f \<Rightarrow> Inl (CgFunction f)
             | None \<Rightarrow>
                 if has_star st then Inl CgStar
                 else if find_all is_agg st = [] then Inl CgNoAggregate
                 else (case resolve_tables st of (al, referenced) \<Rightarrow>
                   if referenced = [] then Inl CgNoTable
                   else let unknown = filter (\<lambda>t. t \<notin> set (table_names cat)) referenced
                        in if unknown \<noteq> [] then Inl (CgTables (sort unknown))
                           else (case validate_columns cat al referenced st of
                              Some e \<Rightarrow> Inl e
                            | None \<Rightarrow> Inr (apply_limit max_rows render sql st)))))"

text \<open>\<open>data_sources\<close>: the approved columns of the tables of an accepted statement.\<close>

definition extract_table_names :: "sql_parser \<Rightarrow> string \<Rightarrow> string list" where
  "extract_table_names parse sql =
     (case copilot_parse parse sql of Inl _ \<Rightarrow> [] | Inr st \<Rightarrow> snd (resolve_tables st))"

definition data_sources :: "catalog \<Rightarrow> sql_parser \<Rightarrow> string \<Rightarrow> (string \<times> string list) list" where
  "data_sources cat parse sql =
     map (\<lambda>t. (t, sort (column_names_for cat t))) (sort (extract_table_names parse sql))"

section \<open>The specification\<close>

definition no_star :: "sql_node \<Rightarrow> bool" where
  "no_star st \<longleftrightarrow> (\<forall>s \<in> set (subnodes st). n_class s = CSelect \<longrightarrow>
     (\<forall>pr \<in> set (arg_nodes ''expressions'' s). \<not> star_projection pr))"

definition column_approved :: "catalog \<Rightarrow> sql_node \<Rightarrow> sql_node \<Rightarrow> bool" where
  "column_approved cat st col \<longleftrightarrow>
     (let nm = py_lower (n_name col); q = py_lower (n_table col)
      in if q \<noteq> []
         then (\<exists>tab. alias_lookup (fst (resolve_tables st)) q = Some tab \<and>
                      nm \<in> set (column_names_for cat tab))
         else nm \<in> set (output_aliases st) \<or>
              (\<exists>t \<in> set (snd (resolve_tables st)). nm \<in> set (column_names_for cat t)))"

definition approved_query :: "catalog \<Rightarrow> sql_node \<Rightarrow> bool" where
  "approved_query cat st \<longleftrightarrow>
     n_class st = CSelect \<and>
     (\<forall>n \<in> set (subnodes st).
        \<not> cg_forbidden (n_class n) \<and>
        (n_class n = CAnonymous \<longrightarrow> \<not> denied_name (py_lower (n_name n))) \<and>
        (n_class n = CTable \<longrightarrow> py_lower (n_name n) \<in> set (table_names cat)) \<and>
        (n_class n = CColumn \<longrightarrow> column_approved cat st n)) \<and>
     no_star st \<and>
     (\<exists>n \<in> set (subnodes st). is_agg (n_class n)) \<and> (\<exists>n \<in> set (subnodes st). n_class n = CTable)"

lemma has_star_iff: "has_star st \<longleftrightarrow> \<not> no_star st"
  by (auto simp: has_star_def no_star_def list_ex_iff set_find_all)

lemma first_error_None:
  "first_opt (map the (filter (\<lambda>e. e \<noteq> None) xs)) = None \<longleftrightarrow> (\<forall>e \<in> set xs. e = None)"
  by (auto simp: filter_empty_conv)

lemma check_column_None:
  "check_column cat (fst (resolve_tables st)) (snd (resolve_tables st)) (output_aliases st) col = None
   \<longleftrightarrow> column_approved cat st col"
  by (auto simp: check_column_def column_approved_def Let_def list_ex_iff split: option.splits)

lemma validate_columns_None:
  "validate_columns cat (fst (resolve_tables st)) (snd (resolve_tables st)) st = None \<longleftrightarrow>
   (\<forall>n \<in> set (subnodes st). n_class n = CColumn \<longrightarrow> column_approved cat st n)"
  unfolding validate_columns_def first_error_None
  by (auto simp: set_find_all check_column_None)

lemma set_referenced:
  "set (snd (resolve_tables st)) = {py_lower (n_name n) | n. n \<in> set (subnodes st) \<and> n_class n = CTable}"
  by (auto simp: resolve_tables_def Let_def set_find_all)

lemma referenced_Nil: "snd (resolve_tables st) = [] \<longleftrightarrow> (\<forall>n \<in> set (subnodes st). n_class n \<noteq> CTable)"
  by (auto simp: resolve_tables_def Let_def find_all_Nil)

lemma unknown_Nil:
  "filter (\<lambda>t. t \<notin> set (table_names cat)) (snd (resolve_tables st)) = [] \<longleftrightarrow>
   (\<forall>n \<in> set (subnodes st). n_class n = CTable \<longrightarrow> py_lower (n_name n) \<in> set (table_names cat))"
  unfolding filter_empty_conv set_referenced by blast

lemma copilot_parse_Inr:
  "copilot_parse parse sql = Inr st \<longleftrightarrow>
   (\<exists>xs. parse sql = Inr xs \<and> statements_of xs = [st]) \<and> n_class st = CSelect"
  by (auto simp: copilot_parse_def split: sum.splits list.splits)

lemma approved_split:
  "approved_query cat st \<longleftrightarrow>
   n_class st = CSelect \<and> find_all cg_forbidden st = [] \<and> find_denied_function st = None \<and>
   \<not> has_star st \<and> find_all is_agg st \<noteq> [] \<and> snd (resolve_tables st) \<noteq> [] \<and>
   filter (\<lambda>t. t \<notin> set (table_names cat)) (snd (resolve_tables st)) = [] \<and>
   validate_columns cat (fst (resolve_tables st)) (snd (resolve_tables st)) st = None"
  unfolding approved_query_def find_all_Nil find_denied_function_None has_star_iff referenced_Nil
    unknown_Nil validate_columns_None by blast

lemma copilot_validate_Inr:
  "copilot_validate cat max_rows parse render sql0 = Inr t \<longleftrightarrow>
   normalize_sql sql0 \<noteq> [] \<and>
   (\<exists>st xs. parse (normalize_sql sql0) = Inr xs \<and> statements_of xs = [st] \<and> approved_query cat st \<and>
            t = apply_limit max_rows render (normalize_sql sql0) st)"
proof -
  have v: "copilot_validate cat max_rows parse render sql0 = Inr t \<longleftrightarrow>
     normalize_sql sql0 \<noteq> [] \<and> (\<exists>st. copilot_parse parse (normalize_sql sql0) = Inr st \<and>
       find_all cg_forbidden st = [] \<and> find_denied_function st = None \<and>
       \<not> has_star st \<and> find_all is_agg st \<noteq> [] \<and> snd (resolve_tables st) \<noteq> [] \<and>
       filter (\<lambda>t. t \<notin> set (table_names cat)) (snd (resolve_tables st)) = [] \<and>
       validate_columns cat (fst (resolve_tables st)) (snd (resolve_tables st)) st = None \<and>
       t = apply_limit max_rows render (normalize_sql sql0) st)"
    unfolding copilot_validate_def Let_def case_prod_beta
    by (auto split: sum.splits option.splits if_splits)
  show ?thesis unfolding v copilot_parse_Inr approved_split by blast
qed

section \<open>Properties\<close>


text \<open>Every accepted statement is row-bounded: it keeps a literal limit of at most the cap, or it
  is re-rendered with the cap, or it ends in a limit clause that reads back as the cap, or it has
  neither limit nor grouping and so yields a single aggregate row.\<close>

theorem copilot_rows_bounded:
  assumes "copilot_validate cat max_rows parse render sql0 = Inr t"
  shows "\<exists>st xs. parse (normalize_sql sql0) = Inr xs \<and> statements_of xs = [st] \<and>
     ((\<exists>l v. arg_node ''limit'' st = Some l \<and> limit_value l = Some v \<and> v \<le> max_rows \<and> t = normalize_sql sql0) \<or>
      (arg_node ''limit'' st \<noteq> None \<and> t = render st max_rows) \<or>
      (\<exists>digits. t = normalize_sql sql0 @ [CHR 0x0A] @ ''LIMIT '' @ digits \<and> read_nat digits = max_rows) \<or>
      (arg_node ''limit'' st = None \<and> arg_node ''group'' st = None \<and> t = normalize_sql sql0))"
proof -
  from assms obtain st xs where p: "parse (normalize_sql sql0) = Inr xs" "statements_of xs = [st]"
    "t = apply_limit max_rows render (normalize_sql sql0) st"
    unfolding copilot_validate_Inr by blast
  show ?thesis
  proof (intro exI conjI, rule p(1), rule p(2))
    show "(\<exists>l v. arg_node ''limit'' st = Some l \<and> limit_value l = Some v \<and> v \<le> max_rows \<and> t = normalize_sql sql0) \<or>
      (arg_node ''limit'' st \<noteq> None \<and> t = render st max_rows) \<or>
      (\<exists>digits. t = normalize_sql sql0 @ [CHR 0x0A] @ ''LIMIT '' @ digits \<and> read_nat digits = max_rows) \<or>
      (arg_node ''limit'' st = None \<and> arg_node ''group'' st = None \<and> t = normalize_sql sql0)"
      using p(3) read_show_nat[of max_rows]
      by (auto simp: apply_limit_def limit_clause_def split: option.splits if_splits)
  qed
qed

text \<open>The statement \<open>SELECT MAX(col) AS col FROM tab\<close>.\<close>

definition leak_query :: "string \<Rightarrow> string \<Rightarrow> sql_node" where
  "leak_query tab col =
     SqlNode [] CSelect [] [] []
       [SqlNode ''expressions'' CAlias [] col []
          [SqlNode ''this'' (CAggFunc ''Max'') [] [] []
             [SqlNode ''this'' CColumn col [] []
                [SqlNode ''this'' (COther ''Identifier'') col [] [] []]]],
        SqlNode ''from'' (COther ''From'') [] [] []
          [SqlNode ''this'' CTable tab [] []
             [SqlNode ''this'' (COther ''Identifier'') tab [] [] []]]]"

lemma leak_query_approved:
  assumes "py_lower tab \<in> set (table_names cat)" "col \<noteq> []"
  shows "approved_query cat (leak_query tab col)"
proof -
  have a: "output_aliases (leak_query tab col) = [py_lower col]"
    using assms(2) by (simp add: output_aliases_def find_all_def leak_query_def)
  have c: "column_approved cat (leak_query tab col) (SqlNode k CColumn col al [] ch)" for k al ch
    by (simp add: column_approved_def a py_lower_def)
  have s: "no_star (leak_query tab col)"
    by (auto simp: no_star_def leak_query_def star_projection_def projection_target_def arg_nodes_def arg_node_def)
  have f: "\<not> denied_name (py_lower (n_name n))" if "n \<in> set (subnodes (leak_query tab col))" "n_class n = CAnonymous" for n
    using that by (auto simp: leak_query_def)
  show ?thesis
    unfolding approved_query_def using s f assms(1) c by (auto simp: leak_query_def)
qed

text \<open>The column allow-list can be bypassed: a projection alias with the same name excuses a
  bare column, so \<open>SELECT MAX(col) AS col FROM tab\<close> is accepted, unchanged, for every column of an
  approved table, whether or not the catalog approves that column.\<close>

theorem alias_hides_column:
  assumes "parse (normalize_sql sql) = Inr [Some (leak_query tab col)]" "normalize_sql sql \<noteq> []"
    "py_lower tab \<in> set (table_names cat)" "col \<noteq> []"
  shows "copilot_validate cat max_rows parse render sql = Inr (normalize_sql sql)"
proof -
  have "apply_limit max_rows render (normalize_sql sql) (leak_query tab col) = normalize_sql sql"
    by (simp add: apply_limit_def leak_query_def arg_node_def arg_nodes_def)
  then show ?thesis
    using assms leak_query_approved[OF assms(3,4)]
    by (auto simp: copilot_validate_Inr statements_of_single)
qed

abbreviation demo_catalog :: catalog where
  "demo_catalog \<equiv> [\<lparr>ct_name = ''customer'', ct_columns = [\<lparr>cc_name = ''city'', cc_type = None\<rparr>]\<rparr>]"

abbreviation leak_sql :: string where
  "leak_sql \<equiv> ''SELECT MAX(password_hash) AS password_hash FROM customer''"

lemma normalize_leak: "normalize_sql leak_sql = leak_sql"
  by code_simp

abbreviation leak_parser :: sql_parser where
  "leak_parser \<equiv> (\<lambda>t. Inr [Some (leak_query ''customer'' ''password_hash'')])"

theorem alias_hides_column_witness:
  "copilot_validate demo_catalog 100 leak_parser (\<lambda>_ _. []) leak_sql = Inr leak_sql \<and>
   ''password_hash'' \<notin> set (column_names_for demo_catalog ''customer'')"
proof -
  have t: "py_lower ''customer'' \<in> set (table_names demo_catalog)" by code_simp
  have c: "''password_hash'' \<notin> set (column_names_for demo_catalog ''customer'')" by code_simp
  have p: "leak_parser (normalize_sql leak_sql) = Inr [Some (leak_query ''customer'' ''password_hash'')]" by simp
  have n: "normalize_sql leak_sql \<noteq> []" unfolding normalize_leak by simp
  have e: "''password_hash'' \<noteq> []" by simp
  show ?thesis using alias_hides_column[where parse = leak_parser and max_rows = 100 and render = "\<lambda>_ _. []", OF p n t e] c
    unfolding normalize_leak by blast
qed

theorem copilot_rows_bounded_witness:
  "\<exists>st. statements_of [Some (leak_query ''customer'' ''password_hash'')] = [st] \<and>
     arg_node ''limit'' st = None \<and> arg_node ''group'' st = None"
proof -
  have t: "py_lower ''customer'' \<in> set (table_names demo_catalog)" by code_simp
  have "copilot_validate demo_catalog 100 leak_parser (\<lambda>_ _. []) leak_sql = Inr leak_sql"
    using leak_query_approved[OF t, of "''password_hash''"]
    by (auto simp: copilot_validate_Inr statements_of_single normalize_leak apply_limit_def leak_query_def
        arg_node_def arg_nodes_def)
  from copilot_rows_bounded[OF this] show ?thesis
    by (auto simp: statements_of_def leak_query_def arg_node_def arg_nodes_def)
qed

end
