(* ===== verification/Confidence.thy ===== *)
theory Confidence
  imports Prelude
begin

text \<open>
  The confidence scores of \<open>confidence.py\<close>: the weighted average of the signals that are
  available, the scores of the document and database routes, the blend of a hybrid answer and
  the coarse band. Constants are written as fractions; \<open>exp\<close> is the real exponential.
\<close>

section \<open>Scores\<close>

definition min_score :: pyfloat where "min_score = 5 / 100"
definition max_score :: pyfloat where "max_score = 99 / 100"

definition clamp :: "pyfloat \<Rightarrow> pyfloat \<Rightarrow> pyfloat \<Rightarrow> pyfloat" where
  "clamp value lo hi = max lo (min hi value)"

definition present_pairs :: "(pyfloat option \<times> pyfloat) list \<Rightarrow> (pyfloat \<times> pyfloat) list" where
  "present_pairs cs = map (\<lambda>(s, w). (the s, w)) (filter (\<lambda>(s, w). s \<noteq> None \<and> 0 < w) cs)"

definition weighted_average :: "(pyfloat option \<times> pyfloat) list \<Rightarrow> pyfloat option" where
  "weighted_average cs =
     (let present = present_pairs cs
      in if present = [] then None
         else Some (sum_list (map (\<lambda>(s, w). s * w) present) / sum_list (map snd present)))"

definition evidence_component :: "string option \<Rightarrow> pyfloat" where
  "evidence_component status =
     (let s = py_lower (py_strip (case status of None \<Rightarrow> [] | Some x \<Rightarrow> x))
      in if s = ''grounded'' then 85 / 100
         else if s = ''partially_grounded'' then 6 / 10
         else if s = ''no_rows'' then 3 / 10
         else if s = ''insufficient_evidence'' then 15 / 100
         else 4 / 10)"

definition label_component :: "string option \<Rightarrow> pyfloat option" where
  "label_component label =
     (case or_none label of
        None \<Rightarrow> None
      | Some l \<Rightarrow>
          (let s = py_lower (py_strip l)
           in if s = ''high'' then Some (9 / 10) else if s = ''medium'' then Some (6 / 10)
              else if s = ''low'' then Some (3 / 10) else None))"

definition mean :: "pyfloat list \<Rightarrow> pyfloat" where
  "mean xs = (if xs = [] then 0 else sum_list xs / of_nat (length xs))"

definition retrieval_component :: "pyfloat list option \<Rightarrow> nat \<Rightarrow> nat \<Rightarrow> pyfloat option" where
  "retrieval_component scores citations hits =
     (if hits = 0 then None
      else let normalised = map (\<lambda>s. clamp s 0 1) (case scores of None \<Rightarrow> [] | Some xs \<Rightarrow> xs);
               ratio = clamp (of_nat citations / of_nat hits) 0 1
           in Some (5 / 10 * mean normalised + 5 / 10 * ratio))"

definition logprob_component :: "pyfloat option \<Rightarrow> pyfloat option" where
  "logprob_component lp = map_option (\<lambda>x. clamp (exp x) 0 1) lp"

record rag_signals =
  rs_evidence :: "string option"
  rs_label :: "string option"
  rs_scores :: "pyfloat list option"
  rs_citations :: nat
  rs_hits :: nat
  rs_insufficient :: bool
  rs_logprob :: "pyfloat option"

definition rag_components :: "rag_signals \<Rightarrow> (pyfloat option \<times> pyfloat) list" where
  "rag_components r =
     [(Some (evidence_component (rs_evidence r)), 40 / 100),
      (label_component (rs_label r), 20 / 100),
      (retrieval_component (rs_scores r) (rs_citations r) (rs_hits r), 25 / 100),
      (logprob_component (rs_logprob r), 15 / 100)]"

definition rag_confidence_score :: "rag_signals \<Rightarrow> pyfloat" where
  "rag_confidence_score r =
     (let score = (case weighted_average (rag_components r) of None \<Rightarrow> 4 / 10 | Some s \<Rightarrow> s);
          capped = (if rs_insufficient r then min score (35 / 100) else score)
      in round3 (clamp capped min_score max_score))"

definition database_confidence_score :: "string option \<Rightarrow> nat \<Rightarrow> bool \<Rightarrow> pyfloat option \<Rightarrow> pyfloat" where
  "database_confidence_score status rows validated lp =
     (if \<not> validated then min_score
      else let evidence = evidence_component status;
               rows_component =
                 (if py_lower (py_strip (case status of None \<Rightarrow> [] | Some x \<Rightarrow> x)) = ''grounded''
                  then Some (if rows \<noteq> 0 then 9 / 10 else 6 / 10) else None);
               score = (case weighted_average
                          [(Some evidence, 60 / 100), (rows_component, 25 / 100),
                           (logprob_component lp, 15 / 100)] of None \<Rightarrow> evidence | Some s \<Rightarrow> s)
           in round3 (clamp score min_score max_score))"

definition some_values :: "'a option list \<Rightarrow> 'a list" where
  "some_values xs = concat (map (\<lambda>x. case x of None \<Rightarrow> [] | Some y \<Rightarrow> [y]) xs)"

definition combine_confidence_scores :: "pyfloat option list \<Rightarrow> pyfloat option" where
  "combine_confidence_scores scores =
     (let present = some_values scores
      in if present = [] then None
         else Some (round3 (clamp (6 / 10 * mean present + 4 / 10 * Min (set present))
                              min_score max_score)))"

datatype band = BandHigh | BandMedium | BandLow

definition confidence_band :: "pyfloat option \<Rightarrow> band option" where
  "confidence_band score =
     map_option (\<lambda>s. if 7 / 10 \<le> s then BandHigh else if 4 / 10 \<le> s then BandMedium else BandLow) score"

section \<open>Bounds and order\<close>

lemma clamp_bounds: "lo \<le> hi \<Longrightarrow> lo \<le> clamp x lo hi \<and> clamp x lo hi \<le> hi"
  by (simp add: clamp_def)

lemma clamp_mono: "x \<le> y \<Longrightarrow> clamp x lo hi \<le> clamp y lo hi"
  by (simp add: clamp_def max_def min_def)

lemma clamp_id: "lo \<le> x \<Longrightarrow> x \<le> hi \<Longrightarrow> clamp x lo hi = x"
  by (simp add: clamp_def)

lemma round_half_even_mono: "x \<le> y \<Longrightarrow> round_half_even x \<le> round_half_even y"
proof -
  assume le: "x \<le> y"
  then have fl: "\<lfloor>x\<rfloor> \<le> \<lfloor>y\<rfloor>" by (rule floor_mono)
  show ?thesis
  proof (cases "\<lfloor>x\<rfloor> = \<lfloor>y\<rfloor>")
    case True
    then show ?thesis using le unfolding round_half_even_def Let_def by auto
  next
    case False
    then have "\<lfloor>x\<rfloor> + 1 \<le> \<lfloor>y\<rfloor>" using fl by simp
    then show ?thesis using round_half_even_cases[of x] round_half_even_cases[of y] by auto
  qed
qed

lemma round3_mono: "x \<le> y \<Longrightarrow> round3 x \<le> round3 y"
  by (simp add: round3_def divide_right_mono round_half_even_mono)

lemma round_half_even_close: "\<bar>of_int (round_half_even y) - y\<bar> \<le> 1 / 2"
  using floor_correct[of y] unfolding round_half_even_def Let_def by (auto simp: abs_le_iff)

lemma round3_close: "\<bar>round3 x - x\<bar> \<le> 5 / 10000"
proof -
  define n where "n = (of_int (round_half_even (x * 1000)) :: real)"
  have "\<bar>n - x * 1000\<bar> \<le> 1 / 2" using round_half_even_close[of "x * 1000"] by (simp add: n_def)
  then have "\<bar>n / 1000 - x\<bar> \<le> 5 / 10000" unfolding abs_le_iff by linarith
  then show ?thesis by (simp add: round3_def n_def)
qed

lemma round3_clamped:
  "min_score \<le> round3 (clamp x min_score max_score) \<and> round3 (clamp x min_score max_score) \<le> max_score"
proof -
  have "of_int 50 / 1000 \<le> clamp x min_score max_score" "clamp x min_score max_score \<le> of_int 990 / 1000"
    by (simp_all add: clamp_def min_score_def max_score_def)
  from round3_bounds[OF this] show ?thesis by (simp add: min_score_def max_score_def)
qed

text \<open>Raising a signal without adding or removing one raises the average.\<close>

definition signal_le :: "pyfloat option \<times> pyfloat \<Rightarrow> pyfloat option \<times> pyfloat \<Rightarrow> bool" where
  "signal_le a b \<longleftrightarrow> snd a = snd b \<and> rel_option (\<le>) (fst a) (fst b)"

lemma present_pairs_mono:
  "list_all2 signal_le cs ds \<Longrightarrow>
   list_all2 (\<lambda>a b. snd a = snd b \<and> 0 < snd a \<and> fst a \<le> fst b) (present_pairs cs) (present_pairs ds)"
  by (induction rule: list_all2_induct)
    (auto simp: present_pairs_def signal_le_def option_rel_Some1 option_rel_Some2 split: option.splits)

lemma weighted_sums_mono:
  "list_all2 (\<lambda>a b. snd a = snd b \<and> 0 < snd a \<and> fst a \<le> fst b) ps qs \<Longrightarrow>
   sum_list (map snd ps) = sum_list (map snd qs) \<and> 0 \<le> sum_list (map snd ps) \<and>
   sum_list (map (\<lambda>(s, w). s * w) ps) \<le> sum_list (map (\<lambda>(s, w). s * w) (qs :: (pyfloat \<times> pyfloat) list))"
proof (induction rule: list_all2_induct)
  case (Cons p ps q qs)
  have "fst p * snd q \<le> fst q * snd q" using Cons by (intro mult_right_mono) auto
  then show ?case using Cons add_mono[of "fst p * snd q" "fst q * snd q"] by (simp add: case_prod_beta del: mult_le_cancel_right)
qed simp

lemma weighted_average_mono:
  assumes "list_all2 signal_le cs ds"
  shows "rel_option (\<le>) (weighted_average cs) (weighted_average ds)"
proof -
  note p = present_pairs_mono[OF assms]
  have e: "present_pairs cs = [] \<longleftrightarrow> present_pairs ds = []" using list_all2_lengthD[OF p] by auto
  note w = weighted_sums_mono[OF p]
  show ?thesis
  proof (cases "present_pairs cs = []")
    case True
    then show ?thesis using e by (simp add: weighted_average_def)
  next
    case False
    have "sum_list (map (\<lambda>(s, w). s * w) (present_pairs cs)) / sum_list (map snd (present_pairs cs)) \<le>
        sum_list (map (\<lambda>(s, w). s * w) (present_pairs ds)) / sum_list (map snd (present_pairs cs))"
      by (rule divide_right_mono) (use w in auto)
    then show ?thesis using False e w by (simp add: weighted_average_def Let_def)
  qed
qed

lemma mean_mono: "list_all2 (\<le>) xs ys \<Longrightarrow> mean xs \<le> mean ys"
proof -
  assume a: "list_all2 (\<le>) xs ys"
  then have "sum_list xs \<le> sum_list ys" by (induction rule: list_all2_induct) auto
  moreover have "length xs = length ys" using a by (rule list_all2_lengthD)
  ultimately show ?thesis by (auto simp: mean_def divide_right_mono)
qed

lemma mean_ge: "xs \<noteq> [] \<Longrightarrow> \<forall>x \<in> set xs. m \<le> x \<Longrightarrow> m \<le> mean xs"
proof -
  assume a: "xs \<noteq> []" "\<forall>x \<in> set xs. m \<le> x"
  have "\<forall>x \<in> set xs. m \<le> x \<Longrightarrow> of_nat (length xs) * m \<le> sum_list xs"
    by (induction xs) (auto simp: algebra_simps)
  then show ?thesis using a by (simp add: mean_def le_divide_eq mult.commute)
qed

lemma sum_list_uminus: "sum_list (map uminus xs) = - sum_list (xs :: pyfloat list)"
  by (induction xs) auto

text \<open>Two answers compared signal by signal: the same signals are present, none is weaker.\<close>

definition stronger :: "rag_signals \<Rightarrow> rag_signals \<Rightarrow> bool" where
  "stronger r q \<longleftrightarrow>
     evidence_component (rs_evidence r) \<le> evidence_component (rs_evidence q) \<and>
     rel_option (\<le>) (label_component (rs_label r)) (label_component (rs_label q)) \<and>
     rel_option (list_all2 (\<le>)) (rs_scores r) (rs_scores q) \<and>
     rs_citations r \<le> rs_citations q \<and> rs_hits r = rs_hits q \<and>
     (rs_insufficient q \<longrightarrow> rs_insufficient r) \<and>
     rel_option (\<le>) (rs_logprob r) (rs_logprob q)"

lemma retrieval_component_mono:
  assumes "rel_option (list_all2 (\<le>)) s s'" "c \<le> c'"
  shows "rel_option (\<le>) (retrieval_component s c h) (retrieval_component s' c' h)"
proof -
  let ?n = "\<lambda>s. map (\<lambda>s. clamp s 0 1) (case s of None \<Rightarrow> [] | Some xs \<Rightarrow> xs)"
  have "list_all2 (\<le>) (?n s) (?n s')"
    using assms(1) by (auto simp: list_all2_conv_all_nth clamp_mono elim!: option.rel_cases)
  then have m: "mean (?n s) \<le> mean (?n s')" by (rule mean_mono)
  have "clamp (of_nat c / of_nat h) 0 1 \<le> clamp (of_nat c' / of_nat h) 0 1"
    using assms(2) by (intro clamp_mono divide_right_mono) auto
  then show ?thesis using m by (simp add: retrieval_component_def Let_def)
qed

lemma logprob_component_mono:
  "rel_option (\<le>) l l' \<Longrightarrow> rel_option (\<le>) (logprob_component l) (logprob_component l')"
  by (auto simp: logprob_component_def clamp_mono elim!: option.rel_cases)

lemma rag_components_mono: "stronger r q \<Longrightarrow> list_all2 signal_le (rag_components r) (rag_components q)"
  by (auto simp: stronger_def rag_components_def signal_le_def
      intro: retrieval_component_mono logprob_component_mono)

section \<open>Properties\<close>

text \<open>Every score lies between 0.05 and 0.99, whatever the signals; a document answer flagged as
  insufficient scores at most 0.35 and SQL that failed validation exactly the floor.\<close>

theorem scores_in_range:
  "min_score \<le> rag_confidence_score r \<and> rag_confidence_score r \<le> max_score \<and>
   rag_confidence_score (r\<lparr>rs_insufficient := True\<rparr>) \<le> 35 / 100 \<and>
   min_score \<le> database_confidence_score status n v lp \<and>
   database_confidence_score status n v lp \<le> max_score \<and>
   database_confidence_score status n False lp = min_score \<and>
   pred_option (\<lambda>s. min_score \<le> s \<and> s \<le> max_score) (combine_confidence_scores ss)"
proof -
  have "round3 (clamp (min x (35 / 100)) min_score max_score) \<le> of_int 350 / 1000" for x
    using round3_bounds[of 0 "clamp (min x (35 / 100)) min_score max_score" 350]
    by (auto simp: clamp_def min_score_def max_score_def)
  then have "rag_confidence_score (r\<lparr>rs_insufficient := True\<rparr>) \<le> 35 / 100"
    by (simp add: rag_confidence_score_def Let_def)
  moreover have "min_score \<le> max_score" by (simp add: min_score_def max_score_def)
  ultimately show ?thesis
    using round3_clamped
    by (simp add: rag_confidence_score_def database_confidence_score_def combine_confidence_scores_def Let_def)
qed

text \<open>The document score is monotone: with the same signals present, a stronger evidence status or
  label, higher retrieval scores, more citations, a higher token probability, or an insufficiency
  flag that is lifted never lower it.\<close>

theorem rag_score_monotone:
  assumes "stronger r q"
  shows "rag_confidence_score r \<le> rag_confidence_score q"
proof -
  have w: "rel_option (\<le>) (weighted_average (rag_components r)) (weighted_average (rag_components q))"
    by (rule weighted_average_mono[OF rag_components_mono[OF assms]])
  have i: "rs_insufficient q \<longrightarrow> rs_insufficient r" using assms by (simp add: stronger_def)
  show ?thesis
    unfolding rag_confidence_score_def Let_def
    by (rule round3_mono, rule clamp_mono) (use w i in \<open>auto elim!: option.rel_cases\<close>)
qed

theorem rag_score_monotone_witness:
  "rag_confidence_score \<lparr>rs_evidence = Some ''grounded'', rs_label = None, rs_scores = Some [1/2],
      rs_citations = 1, rs_hits = 2, rs_insufficient = False, rs_logprob = None\<rparr> \<le>
   rag_confidence_score \<lparr>rs_evidence = Some ''grounded'', rs_label = None, rs_scores = Some [3/4],
      rs_citations = 2, rs_hits = 2, rs_insufficient = False, rs_logprob = None\<rparr>"
  by (rule rag_score_monotone) (simp add: stronger_def label_component_def or_none_def)

text \<open>A hybrid answer is scored conservatively: for branch scores within the range, the blend is at
  least the weakest branch and at most the mean of the branches, up to rounding.\<close>

theorem combined_score_conservative:
  assumes "some_values ss \<noteq> []" "\<forall>s \<in> set (some_values ss). min_score \<le> s \<and> s \<le> max_score"
    "combine_confidence_scores ss = Some c"
  shows "Min (set (some_values ss)) - 5 / 10000 \<le> c \<and> c \<le> mean (some_values ss) + 5 / 10000"
proof -
  let ?p = "some_values ss" let ?x = "6 / 10 * mean ?p + 4 / 10 * Min (set ?p)"
  have m: "Min (set ?p) \<le> mean ?p" by (rule mean_ge[OF assms(1)]) simp
  have mm: "Min (set ?p) \<in> set ?p" using assms(1) by (intro Min_in) auto
  have "of_nat (length ?p) * mean ?p = sum_list ?p" using assms(1) by (simp add: mean_def)
  have "- max_score \<le> mean (map uminus ?p)"
    by (rule mean_ge) (use assms(1,2) in auto)
  moreover have "mean (map uminus ?p) = - mean ?p"
    using assms(1) by (simp add: mean_def sum_list_uminus)
  ultimately have "mean ?p \<le> max_score" by simp
  then have "min_score \<le> ?x" "?x \<le> max_score" using m mm assms(2) by force+
  then have "c = round3 ?x" using assms by (simp add: combine_confidence_scores_def Let_def clamp_id)
  then show ?thesis using round3_close[of ?x] m unfolding abs_le_iff by linarith
qed

theorem combined_score_conservative_witness: "Min {9/10, 6/10} - 5 / 10000 \<le> (69 / 100 :: real)"
proof -
  let ?ss = "[Some (9/10), None, Some (6/10)] :: real option list"
  have p: "some_values ?ss = [9/10, 6/10]" by (simp add: some_values_def)
  have c1: "clamp (6 / 10 * mean [9/10, 6/10] + 4 / 10 * Min (set [9/10, 6/10])) min_score max_score = 69 / 100"
    by (simp add: mean_def clamp_def min_score_def max_score_def)
  have c2: "round3 (69 / 100) = 69 / 100" by (simp add: round3_def round_half_even_def)
  have c: "combine_confidence_scores ?ss = Some (69 / 100)"
    unfolding combine_confidence_scores_def p Let_def c1 c2 by simp
  have r: "\<forall>s \<in> set (some_values ?ss). min_score \<le> s \<and> s \<le> max_score"
    unfolding p by (simp add: min_score_def max_score_def)
  have n: "some_values ?ss \<noteq> []" unfolding p by simp
  show ?thesis using combined_score_conservative[OF n r c] unfolding p by simp
qed

end
