(* ===== verification/CopilotService.thy ===== *)
theory CopilotService
  imports CopilotGuard Confidence Json
begin

text \<open>
  The database copilot of \<open>copilot.py\<close>: the SQL executor, the answer formatting and
  \<open>DatabaseCopilotService.query\<close> with its streaming twin \<open>query_stream\<close>. The language model, the
  SQL parser and renderer, the database and the JSON functions of the standard library are the
  record \<open>copilot_env\<close>; a raised exception is a left value, and for the stream the events emitted
  before it.
\<close>

section \<open>Environment\<close>

type_synonym db_row = "(string \<times> json) list"

datatype copilot_error =
    CopilotRejected copilot_rejection | CopilotModelError | CopilotMissingSettings "string list"
  | CopilotDbError string | CopilotTypeError

record copilot_settings =
  co_host :: "string option"
  co_name :: "string option"
  co_user :: "string option"
  co_password :: "string option"
  co_max_rows :: nat

record copilot_env =
  ce_generate_sql :: "string \<Rightarrow> string option"
  ce_answer :: "string \<Rightarrow> string \<Rightarrow> db_row list \<Rightarrow> string option"
  ce_answer_stream :: "string \<Rightarrow> string \<Rightarrow> db_row list \<Rightarrow> string list \<times> bool"
  ce_parse :: sql_parser
  ce_render :: "sql_node \<Rightarrow> nat \<Rightarrow> string"
  ce_db :: "string \<Rightarrow> string + db_row list"
  ce_loads :: json_loads
  ce_str :: "json \<Rightarrow> string"
  ce_dumps :: "db_row list \<Rightarrow> string"

section \<open>Executor\<close>

definition missing_db_settings :: "copilot_settings \<Rightarrow> string list" where
  "missing_db_settings st =
     map fst (filter (\<lambda>(_, v). or_none v = None)
       [(''COPILOT_DB_HOST'', co_host st), (''COPILOT_DB_NAME'', co_name st),
        (''COPILOT_DB_USER'', co_user st), (''COPILOT_DB_PASSWORD'', co_password st)])"

definition copilot_execute :: "copilot_env \<Rightarrow> copilot_settings \<Rightarrow> string \<Rightarrow> string list
    \<Rightarrow> (copilot_error + db_row list) \<times> string list" where
  "copilot_execute env st sql executed =
     (if missing_db_settings st \<noteq> [] then (Inl (CopilotMissingSettings (missing_db_settings st)), executed)
      else (case ce_db env sql of
              Inl msg \<Rightarrow> (Inl (CopilotDbError msg), executed @ [sql])
            | Inr rows \<Rightarrow> (Inr (take (co_max_rows st) rows), executed @ [sql])))"

text \<open>\<open>validate_ready\<close>: the catalog loads and the settings are present.\<close>

definition validate_ready :: "catalog option \<Rightarrow> copilot_settings \<Rightarrow> bool" where
  "validate_ready cat st \<longleftrightarrow> cat \<noteq> None \<and> missing_db_settings st = []"

section \<open>Answers\<close>

definition extract_sql :: "string \<Rightarrow> string" where
  "extract_sql text0 = unfence ''sql'' text0"

definition is_line_break :: "char \<Rightarrow> bool" where
  "is_line_break c \<longleftrightarrow> (let n = (of_char c :: nat) in (10 \<le> n \<and> n \<le> 13) \<or> (28 \<le> n \<and> n \<le> 30))"

text \<open>\<open>splitlines()\<close> up to empty lines, which its caller drops.\<close>

fun splitlines :: "string \<Rightarrow> string list" where
  "splitlines [] = [[]]"
| "splitlines (x # xs) =
     (if is_line_break x then [] # splitlines xs
      else (case splitlines xs of [] \<Rightarrow> [[x]] | f # fs \<Rightarrow> (x # f) # fs))"

definition parse_answer_payload :: "json_loads \<Rightarrow> string \<Rightarrow> (string \<times> json) list" where
  "parse_answer_payload loads text0 =
     (case loads (unfence ''json'' text0) of
        None \<Rightarrow>
          (let lines = filter (\<lambda>l. l \<noteq> []) (map py_strip (splitlines text0))
           in [(''summary'', JArr (map JStr (take 3 lines))),
               (''conclusion'', JStr (if lines \<noteq> [] then last lines else []))])
      | Some (JObj kvs) \<Rightarrow> kvs
      | Some _ \<Rightarrow> [])"

text \<open>\<open>payload.get(k) or default\<close>.\<close>

definition get_or :: "string \<Rightarrow> json \<Rightarrow> (string \<times> json) list \<Rightarrow> json" where
  "get_or k d kvs = (case j_get k kvs of Some v \<Rightarrow> if j_truthy v then v else d | None \<Rightarrow> d)"

text \<open>\<open>summary_lines[:3]\<close> of the value the model put there: a list is sliced, a string too (its
  characters become the lines), anything else raises.\<close>

fun first_three :: "json \<Rightarrow> json list option" where
  "first_three (JArr xs) = Some (take 3 xs)"
| "first_three (JStr s) = Some (map (\<lambda>c. JStr [c]) (take 3 s))"
| "first_three _ = None"

definition nl :: string where "nl = [CHR 0x0A]"

definition format_database_answer :: "copilot_env \<Rightarrow> string \<Rightarrow> db_row list \<Rightarrow> string option" where
  "format_database_answer env llm_text rows =
     (let payload = parse_answer_payload (ce_loads env) llm_text;
          summary_lines = get_or ''summary'' (JArr [JStr ''No matching rows were found.'']) payload;
          conclusion = get_or ''conclusion'' (JStr ''Conclusion is limited to the SQL result shown above.'') payload;
          result_json = (if rows = [] then ''No matching rows found.'' else ce_dumps env rows)
      in map_option (\<lambda>ls.
           let summary = join_with nl (filter (\<lambda>l. l \<noteq> []) (map (\<lambda>l. py_strip (ce_str env l)) ls))
           in py_strip (join_with (nl @ nl)
                [''Summary:'' @ nl @ summary, ''Results:'' @ nl @ result_json,
                 ''Conclusion:'' @ nl @ py_strip (ce_str env conclusion)]))
           (first_three summary_lines))"

definition copilot_answer :: "copilot_env \<Rightarrow> string \<Rightarrow> string \<Rightarrow> db_row list \<Rightarrow> copilot_error + string" where
  "copilot_answer env q sql rows =
     (case ce_answer env q sql rows of
        None \<Rightarrow> Inl CopilotModelError
      | Some raw \<Rightarrow> (case format_database_answer env raw rows of None \<Rightarrow> Inl CopilotTypeError | Some a \<Rightarrow> Inr a))"

section \<open>The service\<close>

record copilot_response =
  cr_answer :: string
  cr_evidence_status :: string
  cr_confidence :: pyfloat
  cr_sql :: string
  cr_rows :: "db_row list"
  cr_sources :: "(string \<times> string list) list"

definition generate_sql :: "copilot_env \<Rightarrow> string \<Rightarrow> copilot_error + string" where
  "generate_sql env q = (case ce_generate_sql env q of None \<Rightarrow> Inl CopilotModelError | Some t \<Rightarrow> Inr (extract_sql t))"

definition guard_sql :: "copilot_env \<Rightarrow> copilot_settings \<Rightarrow> catalog \<Rightarrow> string \<Rightarrow> copilot_error + string" where
  "guard_sql env st cat sql =
     (case copilot_validate cat (co_max_rows st) (ce_parse env) (ce_render env) sql of
        Inl e \<Rightarrow> Inl (CopilotRejected e) | Inr t \<Rightarrow> Inr t)"

definition copilot_respond :: "copilot_env \<Rightarrow> catalog \<Rightarrow> string \<Rightarrow> string \<Rightarrow> db_row list \<Rightarrow> copilot_response" where
  "copilot_respond env cat answer sql rows =
     (let status = (if rows \<noteq> [] then ''grounded'' else ''no_rows'')
      in \<lparr>cr_answer = answer, cr_evidence_status = status,
          cr_confidence = database_confidence_score (Some status) (length rows) True None,
          cr_sql = sql, cr_rows = rows, cr_sources = data_sources cat (ce_parse env) sql\<rparr>)"

definition copilot_query :: "copilot_env \<Rightarrow> copilot_settings \<Rightarrow> catalog \<Rightarrow> string \<Rightarrow> string list
    \<Rightarrow> (copilot_error + copilot_response) \<times> string list" where
  "copilot_query env st cat q executed =
     (case generate_sql env q of
        Inl e \<Rightarrow> (Inl e, executed)
      | Inr sql0 \<Rightarrow>
          (case guard_sql env st cat sql0 of
             Inl e \<Rightarrow> (Inl e, executed)
           | Inr sql \<Rightarrow>
               (case copilot_execute env st sql executed of
                  (Inl e, ex) \<Rightarrow> (Inl e, ex)
                | (Inr rows, ex) \<Rightarrow>
                    (case copilot_answer env q sql rows of
                       Inl e \<Rightarrow> (Inl e, ex)
                     | Inr answer \<Rightarrow> (Inr (copilot_respond env cat answer sql rows), ex)))))"

datatype copilot_event =
  StatusEvent string | DeltaEvent string | FinalEvent copilot_response | RaisedError copilot_error

definition copilot_query_stream :: "copilot_env \<Rightarrow> copilot_settings \<Rightarrow> catalog \<Rightarrow> string \<Rightarrow> string list
    \<Rightarrow> copilot_event list \<times> string list" where
  "copilot_query_stream env st cat q executed =
     (case generate_sql env q of
        Inl e \<Rightarrow> ([StatusEvent ''generating_sql'', RaisedError e], executed)
      | Inr sql0 \<Rightarrow>
          (case guard_sql env st cat sql0 of
             Inl e \<Rightarrow> ([StatusEvent ''generating_sql'', RaisedError e], executed)
           | Inr sql \<Rightarrow>
               (case copilot_execute env st sql executed of
                  (Inl e, ex) \<Rightarrow>
                    ([StatusEvent ''generating_sql'', StatusEvent ''running_sql'', RaisedError e], ex)
                | (Inr rows, ex) \<Rightarrow>
                    (case ce_answer_stream env q sql rows of
                       (pieces, completed) \<Rightarrow>
                         ([StatusEvent ''generating_sql'', StatusEvent ''running_sql'', StatusEvent ''generating''] @
                          map DeltaEvent pieces @
                          [if completed
                           then FinalEvent (copilot_respond env cat (py_strip (concat pieces)) sql rows)
                           else RaisedError CopilotModelError], ex)))))"

section \<open>Lemmas\<close>

lemma guard_sql_Inr: "guard_sql env st cat sql = Inr t \<longleftrightarrow>
    copilot_validate cat (co_max_rows st) (ce_parse env) (ce_render env) sql = Inr t"
  by (simp add: guard_sql_def split: sum.splits)

lemma copilot_execute_cases:
  "copilot_execute env st sql executed = (r, ex) \<Longrightarrow>
   (ex = executed \<or> ex = executed @ [sql]) \<and>
   (\<forall>rows. r = Inr rows \<longrightarrow> length rows \<le> co_max_rows st \<and> ex = executed @ [sql] \<and>
      (\<exists>all. ce_db env sql = Inr all \<and> rows = take (co_max_rows st) all))"
  by (auto simp: copilot_execute_def split: if_splits sum.splits)

lemma copilot_query_executed:
  assumes "copilot_query env st cat q executed = (r, ex)"
  shows "ex = executed \<or> (\<exists>sql0 sql. ex = executed @ [sql] \<and> generate_sql env q = Inr sql0 \<and>
      copilot_validate cat (co_max_rows st) (ce_parse env) (ce_render env) sql0 = Inr sql)"
  using assms copilot_execute_cases[of env st _ executed]
  by (auto simp: copilot_query_def guard_sql_Inr split: sum.splits prod.splits)

lemma copilot_query_Inr:
  "copilot_query env st cat q executed = (Inr a, ex) \<longleftrightarrow>
   (\<exists>sql0 sql rows answer. generate_sql env q = Inr sql0 \<and> guard_sql env st cat sql0 = Inr sql \<and>
      copilot_execute env st sql executed = (Inr rows, ex) \<and> copilot_answer env q sql rows = Inr answer \<and>
      a = copilot_respond env cat answer sql rows)"
  by (auto simp: copilot_query_def split: sum.splits prod.splits)

section \<open>Properties\<close>

text \<open>C8. The database sees only guarded text: a copilot query sends it at most one statement, the very
  text the guard returned for the model's SQL, and an answer reports that text, at most the
  configured number of rows, the first the query produced, and a status and score to match.\<close>

theorem copilot_query_guarded:
  assumes "copilot_query env st cat q executed = (r, ex)"
  shows "(ex = executed \<or> (\<exists>sql0 sql. ex = executed @ [sql] \<and> generate_sql env q = Inr sql0 \<and>
      copilot_validate cat (co_max_rows st) (ce_parse env) (ce_render env) sql0 = Inr sql)) \<and>
    (case r of Inl _ \<Rightarrow> True
     | Inr a \<Rightarrow> ex = executed @ [cr_sql a] \<and> length (cr_rows a) \<le> co_max_rows st \<and>
         (\<exists>all. ce_db env (cr_sql a) = Inr all \<and> cr_rows a = take (co_max_rows st) all) \<and>
         (cr_evidence_status a = ''grounded'' \<longleftrightarrow> cr_rows a \<noteq> []) \<and>
         min_score \<le> cr_confidence a \<and> cr_confidence a \<le> max_score)"
proof (cases r)
  case (Inl e)
  then show ?thesis using copilot_query_executed[OF assms] by simp
next
  case (Inr a)
  obtain sql0 sql rows answer where q: "copilot_execute env st sql executed = (Inr rows, ex)"
    "a = copilot_respond env cat answer sql rows"
    using assms Inr by (auto simp: copilot_query_Inr)
  have b: "min_score \<le> cr_confidence a \<and> cr_confidence a \<le> max_score"
    using round3_clamped q(2) by (simp add: copilot_respond_def Let_def database_confidence_score_def)
  show ?thesis
    using copilot_query_executed[OF assms] copilot_execute_cases[OF q(1)] q(2) b Inr
    by (auto simp: copilot_respond_def Let_def)
qed

definition demo_copilot :: copilot_env where
  "demo_copilot =
     \<lparr>ce_generate_sql = (\<lambda>_. Some ''SELECT MAX(city) AS city FROM customer''),
      ce_answer = (\<lambda>_ _ _. Some ''ok''), ce_answer_stream = (\<lambda>_ _ _. ([''o'', ''k''], True)),
      ce_parse = (\<lambda>_. Inr [Some (leak_query ''customer'' ''city'')]), ce_render = (\<lambda>_ _. []),
      ce_db = (\<lambda>_. Inr [[(''city'', JStr ''Oslo'')]]), ce_loads = (\<lambda>_. None),
      ce_str = (\<lambda>v. case v of JStr s \<Rightarrow> s | _ \<Rightarrow> []), ce_dumps = (\<lambda>_. ''rows'')\<rparr>"

definition demo_copilot_settings :: copilot_settings where
  "demo_copilot_settings = \<lparr>co_host = Some ''h'', co_name = Some ''n'', co_user = Some ''u'',
                           co_password = Some ''p'', co_max_rows = 50\<rparr>"

lemma demo_copilot_execute:
  "copilot_execute demo_copilot demo_copilot_settings sql [] = (Inr [[(''city'', JStr ''Oslo'')]], [sql])"
  by (simp add: copilot_execute_def missing_db_settings_def demo_copilot_settings_def demo_copilot_def or_none_def)

lemma demo_generate: "generate_sql demo_copilot q = Inr ''SELECT MAX(city) AS city FROM customer''"
  unfolding generate_sql_def demo_copilot_def by code_simp

lemma demo_guarded: "guard_sql demo_copilot demo_copilot_settings demo_catalog ''SELECT MAX(city) AS city FROM customer'' =
    Inr ''SELECT MAX(city) AS city FROM customer''"
  by code_simp

lemma demo_copilot_answer:
  "\<exists>a. copilot_answer demo_copilot q sql [[(''city'', JStr ''Oslo'')]] = Inr a"
proof -
  have "case copilot_answer demo_copilot q sql [[(''city'', JStr ''Oslo'')]] of Inr _ \<Rightarrow> True | Inl _ \<Rightarrow> False"
    by code_simp
  then show ?thesis by (simp split: sum.splits)
qed

theorem copilot_query_guarded_witness:
  "\<exists>a ex. copilot_query demo_copilot demo_copilot_settings demo_catalog ''q'' [] = (Inr a, ex) \<and>
     ex = [cr_sql a] \<and> length (cr_rows a) \<le> 50 \<and> cr_evidence_status a = ''grounded''"
proof -
  obtain a where a: "copilot_answer demo_copilot ''q'' ''SELECT MAX(city) AS city FROM customer'' [[(''city'', JStr ''Oslo'')]] = Inr a"
    using demo_copilot_answer by blast
  let ?r = "copilot_respond demo_copilot demo_catalog a ''SELECT MAX(city) AS city FROM customer'' [[(''city'', JStr ''Oslo'')]]"
  have q: "copilot_query demo_copilot demo_copilot_settings demo_catalog ''q'' [] =
     (Inr ?r, [''SELECT MAX(city) AS city FROM customer''])"
    unfolding copilot_query_Inr using demo_generate demo_guarded demo_copilot_execute a by blast
  have "cr_rows ?r \<noteq> []" "co_max_rows demo_copilot_settings = 50"
    by (simp_all add: copilot_respond_def demo_copilot_settings_def Let_def)
  then show ?thesis using copilot_query_guarded[OF q] q by auto
qed

text \<open>Streaming and plain queries agree: they send the same statements to the database; the plain
  query answers only if the stream of the same question reaches its final event or fails while
  the prose is generated, and that final event carries the same statement, rows, status, score
  and sources, with the concatenated deltas, stripped, as its answer.\<close>

theorem stream_agrees_with_query:
  "snd (copilot_query_stream env st cat q executed) = snd (copilot_query env st cat q executed) \<and>
   (\<forall>a f. fst (copilot_query env st cat q executed) = Inr a \<and>
          FinalEvent f \<in> set (fst (copilot_query_stream env st cat q executed)) \<longrightarrow>
      f\<lparr>cr_answer := cr_answer a\<rparr> = a \<and>
      (\<exists>pieces. fst (copilot_query_stream env st cat q executed) =
         [StatusEvent ''generating_sql'', StatusEvent ''running_sql'', StatusEvent ''generating''] @
         map DeltaEvent pieces @ [FinalEvent f] \<and> cr_answer f = py_strip (concat pieces)))"
proof (cases "generate_sql env q")
  case (Inl e)
  then show ?thesis by (simp add: copilot_query_stream_def copilot_query_def)
next
  case g: (Inr sql0)
  show ?thesis
  proof (cases "guard_sql env st cat sql0")
    case (Inl e)
    then show ?thesis using g by (simp add: copilot_query_stream_def copilot_query_def)
  next
    case v: (Inr sql)
    obtain r ex where x: "copilot_execute env st sql executed = (r, ex)" by (cases "copilot_execute env st sql executed")
    show ?thesis
    proof (cases r)
      case (Inl e)
      then show ?thesis using g v x by (simp add: copilot_query_stream_def copilot_query_def)
    next
      case (Inr rows)
      obtain pieces ok where p: "ce_answer_stream env q sql rows = (pieces, ok)" by (metis surj_pair)
      show ?thesis using g v x p Inr
        by (cases "copilot_answer env q sql rows")
          (auto simp: copilot_query_stream_def copilot_query_def copilot_respond_def Let_def)
    qed
  qed
qed

theorem stream_agrees_with_query_witness:
  "\<exists>a f. fst (copilot_query demo_copilot demo_copilot_settings demo_catalog ''q'' []) = Inr a \<and>
     f\<lparr>cr_answer := cr_answer a\<rparr> = a \<and> cr_answer f = ''ok''"
proof -
  obtain a where a: "copilot_answer demo_copilot ''q'' ''SELECT MAX(city) AS city FROM customer'' [[(''city'', JStr ''Oslo'')]] = Inr a"
    using demo_copilot_answer by blast
  let ?sql = "''SELECT MAX(city) AS city FROM customer''" and ?rows = "[[(''city'', JStr ''Oslo'')]]"
  let ?r = "copilot_respond demo_copilot demo_catalog a ?sql ?rows"
  let ?f = "copilot_respond demo_copilot demo_catalog (py_strip ''ok'') ?sql ?rows"
  have q: "fst (copilot_query demo_copilot demo_copilot_settings demo_catalog ''q'' []) = Inr ?r"
    using demo_generate demo_guarded demo_copilot_execute a by (simp add: copilot_query_def)
  have s: "ce_answer_stream demo_copilot ''q'' ?sql ?rows = ([''o'', ''k''], True)" by (simp add: demo_copilot_def)
  have f: "FinalEvent ?f \<in> set (fst (copilot_query_stream demo_copilot demo_copilot_settings demo_catalog ''q'' []))"
    using demo_generate demo_guarded demo_copilot_execute s by (simp add: copilot_query_stream_def)
  have k: "py_strip ''ok'' = ''ok''" by code_simp
  have "?f\<lparr>cr_answer := cr_answer ?r\<rparr> = ?r"
    using stream_agrees_with_query[of demo_copilot demo_copilot_settings demo_catalog "''q''" "[]"] q f by blast
  then show ?thesis using q k by (intro exI[of _ ?r] exI[of _ ?f]) (simp add: copilot_respond_def Let_def)
qed

end
