(* ===== verification/SqlLabService.thy ===== *)
theory SqlLabService
  imports SqlLabGuard AuthHttp
begin

text \<open>
  The SQL Lab service: the viewer-role executor (\<open>sql_lab/executor.py\<close>), the audit records
  (\<open>sql_lab/audit_store.py\<close>), the orchestration \<open>SqlLabService.run\<close> (\<open>sql_lab/service.py\<close>) and
  the route \<open>POST /sql/run\<close> (\<open>sql_lab/router.py\<close>). The database and the clock are the record
  \<open>lab_env\<close>; the state is the audit table and the list of statements sent to the database.
\<close>

section \<open>Executor\<close>

type_synonym 'v row = "(string \<times> 'v) list"

datatype 'v query_result = QCanceled | QError string | QCursor "string list option" "'v row list"

datatype lab_error =
    LabValidationError lab_rejection | LabConfigError "string list" | LabConnectionError
  | LabTimeoutError int | LabExecutionError string | LabAuditError | LabUncaught string

record lab_settings =
  ls_viewer_user :: "string option"
  ls_viewer_password :: "string option"
  ls_row_limit :: nat
  ls_timeout_ms :: int

record 'v viewer_db =
  vd_reachable :: bool
  vd_setup_error :: "string option"
  vd_query :: "string \<Rightarrow> 'v query_result"

record 'v exec_result =
  ex_columns :: "string list"
  ex_rows :: "'v row list"
  ex_row_count :: nat
  ex_duration_ms :: int
  ex_truncated :: bool

definition require_sql_viewer_credentials :: "lab_settings \<Rightarrow> lab_error + string \<times> string" where
  "require_sql_viewer_credentials st =
     (let missing = (if or_none (ls_viewer_user st) = None then [''SQL_VIEWER_DB_USER''] else []) @
                    (if or_none (ls_viewer_password st) = None then [''SQL_VIEWER_DB_PASSWORD''] else [])
      in case (or_none (ls_viewer_user st), or_none (ls_viewer_password st)) of
           (Some u, Some p) \<Rightarrow> Inr (u, p)
         | _ \<Rightarrow> Inl (LabConfigError missing))"

definition extract_columns :: "string list option \<Rightarrow> 'v row list \<Rightarrow> string list" where
  "extract_columns description rows =
     (case or_none description of
        Some d \<Rightarrow> d
      | None \<Rightarrow> (case rows of [] \<Rightarrow> [] | r # _ \<Rightarrow> map fst r))"

definition lab_execute :: "lab_settings \<Rightarrow> 'v viewer_db \<Rightarrow> int \<Rightarrow> string \<Rightarrow> lab_error + 'v exec_result" where
  "lab_execute st db ms sql =
     (case require_sql_viewer_credentials st of
        Inl e \<Rightarrow> Inl e
      | Inr _ \<Rightarrow>
          if \<not> vd_reachable db then Inl LabConnectionError
          else (case vd_setup_error db of
             Some msg \<Rightarrow> Inl (LabUncaught msg)
           | None \<Rightarrow>
               (case vd_query db sql of
                  QCanceled \<Rightarrow> Inl (LabTimeoutError (ls_timeout_ms st))
                | QError msg \<Rightarrow> Inl (LabExecutionError msg)
                | QCursor description result \<Rightarrow>
                    (let rows = take (ls_row_limit st + 1) result
                     in Inr \<lparr>ex_columns = extract_columns description rows, ex_rows = rows,
                             ex_row_count = length rows, ex_duration_ms = ms,
                             ex_truncated = ls_row_limit st < length rows\<rparr>))))"

section \<open>Audit records\<close>

datatype audit_outcome = AuditSuccess | AuditError | AuditRejected

record audit_record =
  ar_id :: ident
  ar_user :: string
  ar_sql :: string
  ar_created_at :: instant
  ar_outcome :: audit_outcome
  ar_duration_ms :: "int option"
  ar_row_count :: "nat option"
  ar_error_detail :: "lab_error option"

definition audit_create :: "ident \<Rightarrow> instant \<Rightarrow> string \<Rightarrow> string \<Rightarrow> audit_outcome \<Rightarrow> int option
    \<Rightarrow> nat option \<Rightarrow> lab_error option \<Rightarrow> audit_record" where
  "audit_create i now user sql out ms n detail =
     \<lparr>ar_id = i, ar_user = user, ar_sql = take 10000 sql, ar_created_at = now, ar_outcome = out,
      ar_duration_ms = ms, ar_row_count = n, ar_error_detail = detail\<rparr>"

section \<open>The service\<close>

record 'v lab_env =
  le_db :: "'v viewer_db"
  le_persist :: "audit_record \<Rightarrow> bool"
  le_uuid :: ident
  le_now :: instant
  le_exec_ms :: int
  le_elapsed_ms :: int

record lab_world =
  lw_audit :: "audit_record list"
  lw_executed :: "string list"

definition audit_persist :: "'v lab_env \<Rightarrow> audit_record \<Rightarrow> lab_world \<Rightarrow> lab_error option \<times> lab_world" where
  "audit_persist env r w =
     (if le_persist env r then (None, w\<lparr>lw_audit := lw_audit w @ [r]\<rparr>) else (Some LabAuditError, w))"

record 'v run_result =
  rr_columns :: "string list"
  rr_rows :: "'v row list"
  rr_row_count :: nat
  rr_duration_ms :: int
  rr_sql :: string
  rr_truncated :: bool

definition lab_record :: "'v lab_env \<Rightarrow> string \<Rightarrow> string \<Rightarrow> audit_outcome \<Rightarrow> int option \<Rightarrow> nat option
    \<Rightarrow> lab_error option \<Rightarrow> lab_world \<Rightarrow> lab_error option \<times> lab_world" where
  "lab_record env user sql out ms n detail w =
     audit_persist env (audit_create (le_uuid env) (le_now env) user sql out ms n detail) w"

definition send_to_db :: "lab_settings \<Rightarrow> 'v lab_env \<Rightarrow> string \<Rightarrow> lab_world \<Rightarrow> lab_world" where
  "send_to_db st env sql w =
     (case require_sql_viewer_credentials st of
        Inl _ \<Rightarrow> w
      | Inr _ \<Rightarrow> if vd_reachable (le_db env) \<and> vd_setup_error (le_db env) = None
                 then w\<lparr>lw_executed := lw_executed w @ [sql]\<rparr> else w)"

definition shape_result :: "lab_settings \<Rightarrow> string \<Rightarrow> 'v exec_result \<Rightarrow> 'v run_result" where
  "shape_result st sql r =
     (let trimmed = take (ls_row_limit st) (ex_rows r)
      in \<lparr>rr_columns = ex_columns r, rr_rows = trimmed, rr_row_count = length trimmed,
          rr_duration_ms = ex_duration_ms r, rr_sql = sql,
          rr_truncated = ls_row_limit st < length (ex_rows r)\<rparr>)"

definition lab_run :: "lab_guard \<Rightarrow> sql_parser \<Rightarrow> lab_settings \<Rightarrow> 'v lab_env \<Rightarrow> string \<Rightarrow> string
    \<Rightarrow> lab_world \<Rightarrow> (lab_error + 'v run_result) \<times> lab_world" where
  "lab_run g parse st env sql user w =
     (case lab_validate g parse sql of
        Inl why \<Rightarrow>
          (case lab_record env user sql AuditRejected None None (Some (LabValidationError why)) w of
             (Some e, w') \<Rightarrow> (Inl e, w')
           | (None, w') \<Rightarrow> (Inl (LabValidationError why), w'))
      | Inr _ \<Rightarrow>
          (let w1 = send_to_db st env sql w
           in case lab_execute st (le_db env) (le_exec_ms env) sql of
                Inl (LabUncaught msg) \<Rightarrow> (Inl (LabUncaught msg), w1)
              | Inl err \<Rightarrow>
                  (case lab_record env user sql AuditError (Some (le_elapsed_ms env)) None (Some err) w1 of
                     (Some e, w') \<Rightarrow> (Inl e, w')
                   | (None, w') \<Rightarrow> (Inl err, w'))
              | Inr r \<Rightarrow>
                  (let res = shape_result st sql r
                   in case lab_record env user sql AuditSuccess (Some (ex_duration_ms r))
                             (Some (rr_row_count res)) None w1 of
                        (Some e, w') \<Rightarrow> (Inl e, w')
                      | (None, w') \<Rightarrow> (Inr res, w'))))"


section \<open>The route\<close>

definition run_sql_endpoint :: "lab_guard \<Rightarrow> sql_parser \<Rightarrow> lab_settings \<Rightarrow> 'v lab_env \<Rightarrow> string
    \<Rightarrow> user_public \<Rightarrow> lab_world \<Rightarrow> (nat + 'v run_result) \<times> lab_world" where
  "run_sql_endpoint g parse st env sql operator w =
     (if py_strip sql = [] then (Inl 400, w)
      else if 10000 < length sql then (Inl 400, w)
      else let identity = (if up_email operator \<noteq> [] then up_email operator else up_id operator)
           in case lab_run g parse st env sql identity w of
                (Inr r, w') \<Rightarrow> (Inr r, w')
              | (Inl (LabValidationError _), w') \<Rightarrow> (Inl 400, w')
              | (Inl (LabConfigError _), w') \<Rightarrow> (Inl 400, w')
              | (Inl LabConnectionError, w') \<Rightarrow> (Inl 400, w')
              | (Inl (LabTimeoutError _), w') \<Rightarrow> (Inl 504, w')
              | (Inl (LabExecutionError _), w') \<Rightarrow> (Inl 400, w')
              | (Inl LabAuditError, w') \<Rightarrow> (Inl 500, w')
              | (Inl (LabUncaught _), w') \<Rightarrow> (Inl 500, w'))"

text \<open>\<open>Depends(require_operator)\<close> in front of the handler.\<close>

definition run_sql_route :: "crypto \<Rightarrow> auth_settings \<Rightarrow> auth_db \<Rightarrow> string option \<Rightarrow> lab_guard \<Rightarrow> sql_parser
    \<Rightarrow> lab_settings \<Rightarrow> 'v lab_env \<Rightarrow> string \<Rightarrow> lab_world \<Rightarrow> (nat + 'v run_result) \<times> lab_world" where
  "run_sql_route c ast adb credentials g parse st env sql w =
     (case get_current_user c ast adb credentials of
        Inl (HttpError code _) \<Rightarrow> (Inl code, w)
      | Inr u \<Rightarrow>
          (case require_operator ast u of
             Inl (HttpError code _) \<Rightarrow> (Inl code, w)
           | Inr operator \<Rightarrow> run_sql_endpoint g parse st env sql operator w))"

section \<open>Audited services\<close>

text \<open>
  What the audit trail promises: a request adds at most one record, and one that is answered
  adds exactly one, which covers the answer.
\<close>

locale audited =
  fixes trail :: "'w \<Rightarrow> 'rec list"
    and serve :: "'q \<Rightarrow> 'w \<Rightarrow> ('e + 'a) \<times> 'w"
    and covers :: "'q \<Rightarrow> 'a \<Rightarrow> 'rec \<Rightarrow> bool"
  assumes at_most_one: "\<exists>rs. trail (snd (serve q w)) = trail w @ rs \<and> length rs \<le> 1"
    and answered: "serve q w = (Inr a, w') \<Longrightarrow> \<exists>r. trail w' = trail w @ [r] \<and> covers q a r"
begin

fun serve_all :: "'q list \<Rightarrow> 'w \<Rightarrow> ('q \<times> 'a) list \<times> 'w" where
  "serve_all [] w = ([], w)"
| "serve_all (q # qs) w =
     (let (r, w1) = serve q w; (as, w2) = serve_all qs w1
      in (case r of Inl _ \<Rightarrow> as | Inr a \<Rightarrow> (q, a) # as, w2))"

lemma all_covered:
  "\<exists>rs sub. trail (snd (serve_all qs w)) = trail w @ rs \<and> length rs \<le> length qs \<and> subseq sub rs \<and>
     list_all2 (\<lambda>qa r. covers (fst qa) (snd qa) r) (fst (serve_all qs w)) sub"
proof (induction qs arbitrary: w)
  case (Cons q qs)
  obtain r w1 where s: "serve q w = (r, w1)" by (cases "serve q w")
  obtain rs sub where IH: "trail (snd (serve_all qs w1)) = trail w1 @ rs" "length rs \<le> length qs"
    "subseq sub rs" "list_all2 (\<lambda>qa r. covers (fst qa) (snd qa) r) (fst (serve_all qs w1)) sub"
    using Cons by blast
  show ?case
  proof (cases r)
    case (Inl e)
    obtain r1 where r1: "trail w1 = trail w @ r1" "length r1 \<le> 1" using at_most_one[of q w] s by auto
    have "subseq sub (r1 @ rs)" using IH(3) by (rule subseq_drop_many)
    then show ?thesis using IH r1 s Inl
      by (intro exI[of _ "r1 @ rs"] exI[of _ sub]) (auto simp: case_prod_beta Let_def)
  next
    case (Inr a)
    obtain x where x: "trail w1 = trail w @ [x]" "covers q a x" using answered s Inr by blast
    then show ?thesis using IH s Inr
      by (intro exI[of _ "x # rs"] exI[of _ "x # sub"]) (auto simp: case_prod_beta Let_def)
  qed
qed simp

end

section \<open>What one request does\<close>

lemma lab_record_cases:
  "lab_record env user sql out ms n detail w =
   (let r = audit_create (le_uuid env) (le_now env) user sql out ms n detail
    in if le_persist env r then (None, w\<lparr>lw_audit := lw_audit w @ [r]\<rparr>) else (Some LabAuditError, w))"
  by (simp add: lab_record_def audit_persist_def Let_def)

lemma send_to_db_audit [simp]: "lw_audit (send_to_db st env sql w) = lw_audit w"
  by (simp add: send_to_db_def split: sum.splits)

lemma send_to_db_executed:
  "lw_executed (send_to_db st env sql w) = lw_executed w \<or>
   lw_executed (send_to_db st env sql w) = lw_executed w @ [sql]"
  by (simp add: send_to_db_def split: sum.splits)

lemma lab_execute_kinds:
  "lab_execute st db ms sql = Inl e \<Longrightarrow> e \<noteq> LabAuditError \<and> (\<forall>w. e \<noteq> LabValidationError w)"
  by (auto simp: lab_execute_def require_sql_viewer_credentials_def Let_def
      split: sum.splits option.splits query_result.splits if_splits)

text \<open>The record a request should leave, read off its result.\<close>

definition audit_matches :: "string \<Rightarrow> string \<Rightarrow> lab_error + 'v run_result \<Rightarrow> audit_record \<Rightarrow> bool" where
  "audit_matches sql user res r \<longleftrightarrow>
     ar_user r = user \<and> ar_sql r = take 10000 sql \<and>
     (case res of
        Inr a \<Rightarrow> ar_outcome r = AuditSuccess \<and> ar_row_count r = Some (length (rr_rows a)) \<and>
                 ar_duration_ms r = Some (rr_duration_ms a) \<and> ar_error_detail r = None
      | Inl e \<Rightarrow> ar_error_detail r = Some e \<and> ar_row_count r = None \<and>
                 (if \<exists>why. e = LabValidationError why
                  then ar_outcome r = AuditRejected \<and> ar_duration_ms r = None
                  else ar_outcome r = AuditError \<and> ar_duration_ms r \<noteq> None))"

definition recorded :: "lab_error + 'v run_result \<Rightarrow> bool" where
  "recorded res \<longleftrightarrow> (case res of Inr _ \<Rightarrow> True | Inl LabAuditError \<Rightarrow> False | Inl (LabUncaught _) \<Rightarrow> False | _ \<Rightarrow> True)"

lemma lab_run_trail:
  "case lab_run g parse st env sql user w of (res, w') \<Rightarrow>
     if recorded res then \<exists>r. lw_audit w' = lw_audit w @ [r] \<and> audit_matches sql user res r
     else lw_audit w' = lw_audit w"
proof (cases "lab_validate g parse sql")
  case (Inl why)
  then show ?thesis
    by (simp add: lab_run_def lab_record_cases Let_def recorded_def audit_matches_def audit_create_def)
next
  case (Inr t)
  show ?thesis
  proof (cases "lab_execute st (le_db env) (le_exec_ms env) sql")
    case ex: (Inl e)
    then show ?thesis using Inr lab_execute_kinds[OF ex]
      by (cases e)
        (simp_all add: lab_run_def lab_record_cases Let_def recorded_def audit_matches_def audit_create_def)
  next
    case ex: (Inr r)
    then show ?thesis using Inr
      by (simp add: lab_run_def lab_record_cases Let_def recorded_def audit_matches_def audit_create_def
          shape_result_def)
  qed
qed

lemma lab_run_executed:
  "case lab_run g parse st env sql user w of (res, w') \<Rightarrow>
     lw_executed w' = lw_executed w \<or>
     lw_executed w' = lw_executed w @ [sql] \<and> (\<exists>t. lab_validate g parse sql = Inr t)"
  using send_to_db_executed[of st env sql w]
  by (auto simp: lab_run_def lab_record_cases Let_def
      split: sum.splits option.splits lab_error.splits if_splits)

lemma lab_execute_rows:
  "lab_execute st db ms sql = Inr r \<Longrightarrow>
   \<exists>d rows. vd_query db sql = QCursor d rows \<and> ex_rows r = take (ls_row_limit st + 1) rows"
  by (auto simp: lab_execute_def Let_def split: sum.splits option.splits query_result.splits if_splits)

lemma lab_run_Inr:
  "lab_run g parse st env sql user w = (Inr a, w') \<Longrightarrow>
   \<exists>t r. lab_validate g parse sql = Inr t \<and> lab_execute st (le_db env) (le_exec_ms env) sql = Inr r \<and>
     a = shape_result st sql r \<and> lw_executed w' = lw_executed w @ [sql]"
  by (auto simp: lab_run_def lab_record_cases Let_def lab_execute_def send_to_db_def
      split: sum.splits option.splits lab_error.splits if_splits query_result.splits)

type_synonym 'v lab_request = "'v lab_env \<times> string \<times> string"

definition lab_serve :: "lab_guard \<Rightarrow> sql_parser \<Rightarrow> lab_settings \<Rightarrow> 'v lab_request \<Rightarrow> lab_world
    \<Rightarrow> (lab_error + 'v run_result) \<times> lab_world" where
  "lab_serve g parse st q w = (case q of (env, sql, user) \<Rightarrow> lab_run g parse st env sql user w)"

definition lab_covers :: "'v lab_request \<Rightarrow> 'v run_result \<Rightarrow> audit_record \<Rightarrow> bool" where
  "lab_covers q a r = (case q of (_, sql, user) \<Rightarrow> audit_matches sql user (Inr a :: lab_error + 'v run_result) r)"

interpretation lab: audited lw_audit "lab_serve g parse st" lab_covers for g parse st
proof (unfold_locales, goal_cases)
  case (1 q w)
  obtain env sql user where q: "q = (env, sql, user)" by (cases q)
  show ?case using lab_run_trail[where g = g and parse = parse and st = st and env = env and sql = sql and user = user and w = w]
    by (auto simp: q lab_serve_def case_prod_beta split: if_splits)
next
  case (2 q w a w')
  obtain env sql user where q: "q = (env, sql, user)" by (cases q)
  show ?case using lab_run_trail[where g = g and parse = parse and st = st and env = env and sql = sql and user = user and w = w] 2
    by (auto simp: q lab_serve_def lab_covers_def recorded_def)
qed


section \<open>An example\<close>

definition smuggled :: string where
  "smuggled = ''SELECT $$--$$; DELETE FROM t; SELECT $$'' @ [CHR 0x0A] @ ''$$''"

definition approved_text :: string where
  "approved_text = ''SELECT $$ '' @ [CHR 0x0A] @ ''$$''"

abbreviation demo_select :: sql_node where
  "demo_select \<equiv> SqlNode [] CSelect [] [] [] []"

abbreviation demo_guard :: lab_guard where
  "demo_guard \<equiv> \<lparr>lg_sensitive = {''users''}, lg_allow_cte = False\<rparr>"

abbreviation demo_parser :: sql_parser where
  "demo_parser \<equiv> (\<lambda>t. if t = approved_text then Inr [Some demo_select] else Inl ''unexpected'')"

abbreviation demo_lab :: lab_settings where
  "demo_lab \<equiv> \<lparr>ls_viewer_user = Some ''viewer'', ls_viewer_password = Some ''pw'', ls_row_limit = 2,
               ls_timeout_ms = 1000\<rparr>"

abbreviation demo_rows :: "int row list" where
  "demo_rows \<equiv> [[(''a'', 1)], [(''a'', 2)], [(''a'', 3)]]"

abbreviation demo_env :: "int lab_env" where
  "demo_env \<equiv> \<lparr>le_db = \<lparr>vd_reachable = True, vd_setup_error = None,
                       vd_query = (\<lambda>_. QCursor (Some [''a'']) demo_rows)\<rparr>,
               le_persist = (\<lambda>_. True), le_uuid = ''i'', le_now = 0, le_exec_ms = 3, le_elapsed_ms = 4\<rparr>"

abbreviation empty_world :: lab_world where
  "empty_world \<equiv> \<lparr>lw_audit = [], lw_executed = []\<rparr>"

abbreviation demo_answer :: "int run_result" where
  "demo_answer \<equiv> \<lparr>rr_columns = [''a''], rr_rows = [[(''a'', 1)], [(''a'', 2)]], rr_row_count = 2,
                  rr_duration_ms = 3, rr_sql = smuggled, rr_truncated = True\<rparr>"

abbreviation demo_audit :: audit_record where
  "demo_audit \<equiv> audit_create ''i'' 0 ''op'' smuggled AuditSuccess (Some 3) (Some 2) None"

lemma demo_select_ok: "read_only_select demo_guard demo_select"
  by (simp add: read_only_select_def forbidden_type_def)

lemma normalize_smuggled: "normalize_sql smuggled = approved_text"
  unfolding smuggled_def approved_text_def by (rule strip_dollar_quoted)

lemma demo_run: "lab_run demo_guard demo_parser demo_lab demo_env smuggled ''op'' empty_world =
    (Inr demo_answer, \<lparr>lw_audit = [demo_audit], lw_executed = [smuggled]\<rparr>)"
proof -
  have v: "lab_validate demo_guard demo_parser smuggled = Inr approved_text"
    using demo_select_ok by (auto simp: lab_validate_Inr normalize_smuggled statements_of_single approved_text_def)
  have c: "require_sql_viewer_credentials demo_lab = Inr (''viewer'', ''pw'')"
    by (simp add: require_sql_viewer_credentials_def or_none_def)
  have x: "lab_execute demo_lab (le_db demo_env) 3 smuggled =
      Inr \<lparr>ex_columns = [''a''], ex_rows = demo_rows, ex_row_count = 3, ex_duration_ms = 3, ex_truncated = True\<rparr>"
    by (simp add: lab_execute_def c extract_columns_def or_none_def Let_def)
  show ?thesis
    using x by (simp add: lab_run_def v send_to_db_def c lab_record_cases shape_result_def Let_def)
      (simp add: numeral_2_eq_2)
qed

section \<open>Properties\<close>

text \<open>Every answer SQL Lab gives is audited: over any sequence of requests the audit table only
  grows, by at most one record a request, and the answered requests are matched, in order, by
  success records that carry their user, statement (cut at 10000 characters) and row count.\<close>

theorem every_answer_audited:
  "\<exists>rs sub. lw_audit (snd (lab.serve_all g parse st qs w)) = lw_audit w @ rs \<and>
     length rs \<le> length qs \<and> subseq sub rs \<and>
     list_all2 (\<lambda>qa r. lab_covers (fst qa) (snd qa) r) (fst (lab.serve_all g parse st qs w)) sub"
  by (rule lab.all_covered)

text \<open>C5. One request leaves exactly one audit record, whose outcome, user, statement, counts and
  error detail are those of its result, unless the record could not be written or the driver
  raised an error of another class; then it leaves none, and in no case are rows returned
  without their record.\<close>

theorem one_record_per_request:
  assumes "lab_run g parse st env sql user w = (res, w')"
  shows "if recorded res then \<exists>r. lw_audit w' = lw_audit w @ [r] \<and> audit_matches sql user res r
         else lw_audit w' = lw_audit w \<and> (\<forall>a. res \<noteq> Inr a)"
  using lab_run_trail[where g = g and parse = parse and st = st and env = env and sql = sql and user = user and w = w]
    assms by (auto simp: recorded_def)

theorem one_record_per_request_witness:
  "\<exists>r. lw_audit \<lparr>lw_audit = [demo_audit], lw_executed = [smuggled]\<rparr> = lw_audit empty_world @ [r] \<and>
       audit_matches smuggled ''op'' (Inr demo_answer) r"
  using one_record_per_request[OF demo_run] by (simp add: recorded_def)


text \<open>A rejected statement never reaches the database, an accepted one reaches it at most once,
  and the answer holds at most the configured number of rows, the first ones the query produced,
  flagged as truncated exactly when there were more.\<close>

theorem lab_run_bounded:
  assumes "lab_run g parse st env sql user w = (res, w')"
  shows "(lw_executed w' = lw_executed w \<or>
          lw_executed w' = lw_executed w @ [sql] \<and> (\<exists>t. lab_validate g parse sql = Inr t)) \<and>
         (case res of
            Inl _ \<Rightarrow> True
          | Inr a \<Rightarrow> \<exists>d rows. vd_query (le_db env) sql = QCursor d rows \<and>
              rr_rows a = take (ls_row_limit st) rows \<and> rr_row_count a = length (rr_rows a) \<and>
              rr_row_count a \<le> ls_row_limit st \<and> rr_sql a = sql \<and>
              (rr_truncated a \<longleftrightarrow> ls_row_limit st < length rows))"
proof (intro conjI)
  show "lw_executed w' = lw_executed w \<or>
          lw_executed w' = lw_executed w @ [sql] \<and> (\<exists>t. lab_validate g parse sql = Inr t)"
    using lab_run_executed[where g = g and parse = parse and st = st and env = env and sql = sql and user = user and w = w]
      assms by simp
  show "case res of Inl _ \<Rightarrow> True
          | Inr a \<Rightarrow> \<exists>d rows. vd_query (le_db env) sql = QCursor d rows \<and>
              rr_rows a = take (ls_row_limit st) rows \<and> rr_row_count a = length (rr_rows a) \<and>
              rr_row_count a \<le> ls_row_limit st \<and> rr_sql a = sql \<and>
              (rr_truncated a \<longleftrightarrow> ls_row_limit st < length rows)"
  proof (cases res)
    case (Inr a)
    then obtain r where r: "lab_execute st (le_db env) (le_exec_ms env) sql = Inr r" "a = shape_result st sql r"
      using lab_run_Inr assms by blast
    obtain d rows where "vd_query (le_db env) sql = QCursor d rows" "ex_rows r = take (ls_row_limit st + 1) rows"
      using lab_execute_rows[OF r(1)] by blast
    then show ?thesis using Inr r(2) by (auto simp: shape_result_def Let_def min_def)
  qed simp
qed

theorem lab_run_bounded_witness:
  "\<exists>d rows. vd_query (le_db demo_env) smuggled = QCursor d rows \<and> rr_rows demo_answer = take 2 rows \<and>
     (rr_truncated demo_answer \<longleftrightarrow> 2 < length rows)"
  using lab_run_bounded[OF demo_run] by simp




end
