(* ===== verification/RetrievalMetrics.thy ===== *)
theory RetrievalMetrics
  imports Prelude "HOL-Library.Multiset"
begin

text \<open>
  Retrieval quality of an evaluation, \<open>retrieval_metrics.py\<close>: the relevant identifiers of a
  labelled case, the stable ranking, and recall, precision and reciprocal rank at a depth, with
  the loop of the source as a fold over the ranked hits.
\<close>

section \<open>Computation\<close>

record trace_hit =
  th_chunk_id :: ident
  th_document_id :: ident
  th_score :: pyfloat

record relevance_labels =
  rl_chunk_ids :: "ident list"
  rl_document_ids :: "ident list"
  rl_judgments :: "(ident \<times> pyfloat) list"

record retrieval_metrics =
  rm_recall :: pyfloat
  rm_precision :: pyfloat
  rm_mrr :: pyfloat
  rm_depth :: nat

definition relevant_identifiers :: "relevance_labels \<Rightarrow> ident set" where
  "relevant_identifiers l =
     set (rl_chunk_ids l) \<union> set (rl_document_ids l) \<union>
     set (map fst (filter (\<lambda>(_, j). 0 < j) (rl_judgments l)))"

definition rank_hits :: "trace_hit list \<Rightarrow> trace_hit list" where
  "rank_hits hits = sort_key (\<lambda>h. - th_score h) hits"

definition hit_relevant_ids :: "trace_hit \<Rightarrow> ident set \<Rightarrow> ident set" where
  "hit_relevant_ids h relevant = {th_chunk_id h, th_document_id h} \<inter> relevant"

fun scan_hits :: "ident set \<Rightarrow> nat \<Rightarrow> trace_hit list \<Rightarrow> ident set \<times> nat \<times> nat option
    \<Rightarrow> ident set \<times> nat \<times> nat option" where
  "scan_hits relevant pos [] acc = acc"
| "scan_hits relevant pos (h # hs) (matched, n, first) =
     (let m = hit_relevant_ids h relevant
      in if m = {} then scan_hits relevant (Suc pos) hs (matched, n, first)
         else scan_hits relevant (Suc pos) hs
                (matched \<union> m, Suc n, (case first of None \<Rightarrow> Some pos | Some _ \<Rightarrow> first)))"

definition compute_retrieval_metrics :: "trace_hit list \<Rightarrow> relevance_labels option \<Rightarrow> int
    \<Rightarrow> retrieval_metrics option" where
  "compute_retrieval_metrics hits labels depth =
     (case labels of
        None \<Rightarrow> None
      | Some l \<Rightarrow>
          (let k = nat (max depth 0); relevant = relevant_identifiers l;
               top = take k (rank_hits hits);
               (matched, n, first) = scan_hits relevant 1 top ({}, 0, None)
           in Some \<lparr>rm_recall = (if relevant \<noteq> {} then of_nat (card matched) / of_nat (card relevant) else 0),
                    rm_precision = (if top \<noteq> [] then of_nat n / of_nat (length top) else 0),
                    rm_mrr = (case first of None \<Rightarrow> 0 | Some r \<Rightarrow> 1 / of_nat r),
                    rm_depth = k\<rparr>))"

section \<open>The scan\<close>

abbreviation relevant_hit :: "ident set \<Rightarrow> trace_hit \<Rightarrow> bool" where
  "relevant_hit relevant h \<equiv> hit_relevant_ids h relevant \<noteq> {}"

fun first_position :: "('a \<Rightarrow> bool) \<Rightarrow> nat \<Rightarrow> 'a list \<Rightarrow> nat option" where
  "first_position p i [] = None"
| "first_position p i (x # xs) = (if p x then Some i else first_position p (Suc i) xs)"

lemma scan_hits_spec:
  "scan_hits relevant pos hs (matched, n, first) =
   (matched \<union> (\<Union>h \<in> set hs. hit_relevant_ids h relevant),
    n + length (filter (relevant_hit relevant) hs),
    (case first of None \<Rightarrow> first_position (relevant_hit relevant) pos hs | Some _ \<Rightarrow> first))"
  by (induction relevant pos hs "(matched, n, first)" arbitrary: matched n first rule: scan_hits.induct)
    (auto simp: Let_def split: option.splits)

lemma first_position_ge: "first_position p i xs = Some r \<Longrightarrow> i \<le> r \<and> r < i + length xs \<and> p (xs ! (r - i)) \<and>
    (\<forall>j < r - i. \<not> p (xs ! j))"
proof (induction p i xs rule: first_position.induct)
  case (2 p i x xs)
  show ?case
  proof (cases "p x")
    case False
    then have r: "Suc i \<le> r \<and> r < Suc i + length xs \<and> p (xs ! (r - Suc i)) \<and> (\<forall>j < r - Suc i. \<not> p (xs ! j))"
      using 2 by simp
    then obtain d where d: "r = Suc i + d" using le_Suc_ex by blast
    have "\<forall>j < Suc d. \<not> p ((x # xs) ! j)"
      using r d False by (auto simp: nth_Cons split: nat.splits)
    then show ?thesis using r d by (simp add: Suc_diff_le)
  qed (use 2 in simp)
qed simp

lemma rank_hits_perm: "mset (rank_hits hits) = mset hits"
  by (simp add: rank_hits_def)

lemma rank_hits_sorted: "sorted (map (\<lambda>h. - th_score h) (rank_hits hits))"
  by (simp add: rank_hits_def)

lemma finite_relevant: "finite (relevant_identifiers l)"
  by (simp add: relevant_identifiers_def)

section \<open>Properties\<close>

text \<open>The metrics mean what they say: over the \<open>k\<close> best-scored hits, recall is the share of the
  relevant identifiers that are matched, precision the share of hits that match one, the
  reciprocal rank that of the first match; each lies between 0 and 1.\<close>

theorem metrics_exact:
  assumes "compute_retrieval_metrics hits (Some l) depth = Some m"
  shows "let top = take (rm_depth m) (rank_hits hits); rel = relevant_identifiers l
    in rm_depth m = nat depth \<and>
       (rel \<noteq> {} \<longrightarrow> rm_recall m * of_nat (card rel) =
           of_nat (card {i \<in> rel. \<exists>h \<in> set top. i = th_chunk_id h \<or> i = th_document_id h})) \<and>
       (top \<noteq> [] \<longrightarrow> rm_precision m * of_nat (length top) = of_nat (length (filter (relevant_hit rel) top))) \<and>
       (rm_mrr m = 0 \<and> (\<forall>h \<in> set top. \<not> relevant_hit rel h) \<or>
        (\<exists>r < length top. rm_mrr m = 1 / of_nat (Suc r) \<and> relevant_hit rel (top ! r) \<and>
                          (\<forall>j < r. \<not> relevant_hit rel (top ! j)))) \<and>
       0 \<le> rm_recall m \<and> rm_recall m \<le> 1 \<and> 0 \<le> rm_precision m \<and> rm_precision m \<le> 1 \<and>
       0 \<le> rm_mrr m \<and> rm_mrr m \<le> 1"
proof -
  define rel where "rel = relevant_identifiers l"
  define top where "top = take (nat (max depth 0)) (rank_hits hits)"
  define matched where "matched = (\<Union>h \<in> set top. hit_relevant_ids h rel)"
  define fp where "fp = first_position (relevant_hit rel) 1 top"
  have "compute_retrieval_metrics hits (Some l) depth = Some \<lparr>rm_recall = (if rel \<noteq> {} then of_nat (card matched) / of_nat (card rel) else 0),
      rm_precision = (if top \<noteq> [] then of_nat (length (filter (relevant_hit rel) top)) / of_nat (length top) else 0),
      rm_mrr = (case fp of None \<Rightarrow> 0 | Some r \<Rightarrow> 1 / of_nat r), rm_depth = nat (max depth 0)\<rparr>"
    unfolding compute_retrieval_metrics_def scan_hits_spec Let_def option.case prod.case
      rel_def[symmetric] top_def[symmetric] matched_def[symmetric] fp_def[symmetric] Un_empty_left add_0 ..
  then have m: "m = \<lparr>rm_recall = (if rel \<noteq> {} then of_nat (card matched) / of_nat (card rel) else 0),
      rm_precision = (if top \<noteq> [] then of_nat (length (filter (relevant_hit rel) top)) / of_nat (length top) else 0),
      rm_mrr = (case fp of None \<Rightarrow> 0 | Some r \<Rightarrow> 1 / of_nat r), rm_depth = nat (max depth 0)\<rparr>"
    using assms by (metis option.inject)
  have f: "finite rel" unfolding rel_def by (rule finite_relevant)
  have me: "matched = {i \<in> rel. \<exists>h \<in> set top. i = th_chunk_id h \<or> i = th_document_id h}"
    by (auto simp: matched_def hit_relevant_ids_def)
  have c: "card matched \<le> card rel" using f me by (auto intro: card_mono)
  have c0: "rel \<noteq> {} \<Longrightarrow> 0 < card rel" using f by (simp add: card_gt_0_iff)
  have l: "length (filter (relevant_hit rel) top) \<le> length top" by simp
  have none: "fp = None \<Longrightarrow> \<forall>h \<in> set top. \<not> relevant_hit rel h"
  proof -
    have "first_position p i xs = None \<Longrightarrow> \<forall>x \<in> set xs. \<not> p x" for p :: "trace_hit \<Rightarrow> bool" and i xs
      by (induction p i xs rule: first_position.induct) (auto split: if_splits)
    then show "fp = None \<Longrightarrow> \<forall>h \<in> set top. \<not> relevant_hit rel h" unfolding fp_def by blast
  qed
  have mrr: "rm_mrr m = 0 \<and> (\<forall>h \<in> set top. \<not> relevant_hit rel h) \<or>
        (\<exists>r < length top. rm_mrr m = 1 / of_nat (Suc r) \<and> relevant_hit rel (top ! r) \<and>
                          (\<forall>j < r. \<not> relevant_hit rel (top ! j)))"
  proof (cases fp)
    case None
    then show ?thesis using none m by simp
  next
    case (Some r)
    then have "1 \<le> r \<and> r < 1 + length top \<and> relevant_hit rel (top ! (r - 1)) \<and> (\<forall>j < r - 1. \<not> relevant_hit rel (top ! j))"
      unfolding fp_def by (rule first_position_ge)
    then show ?thesis using Some m by (intro disjI2 exI[of _ "r - 1"]) auto
  qed
  have b: "0 \<le> rm_mrr m \<and> rm_mrr m \<le> 1" using mrr by auto
  have k: "rm_depth m = nat depth" "take (rm_depth m) (rank_hits hits) = top" using m by (simp_all add: top_def)
  have rc: "rel \<noteq> {} \<Longrightarrow> rm_recall m * of_nat (card rel) = of_nat (card matched)" using m c0 by simp
  have pr: "top \<noteq> [] \<Longrightarrow> rm_precision m * of_nat (length top) = of_nat (length (filter (relevant_hit rel) top))"
    using m by simp
  have rb: "0 \<le> rm_recall m \<and> rm_recall m \<le> 1" using m c c0 by (simp add: divide_le_eq)
  have pb: "0 \<le> rm_precision m \<and> rm_precision m \<le> 1" using m l by (simp add: divide_le_eq)
  show ?thesis
    unfolding Let_def rel_def[symmetric] k(2) using k(1) rc pr mrr rb pb b unfolding me by blast
qed

theorem metrics_exact_witness:
  "let m = \<lparr>rm_recall = 1 / 2, rm_precision = 1, rm_mrr = 1, rm_depth = 1\<rparr>
   in 0 \<le> rm_recall m \<and> rm_recall m \<le> 1 \<and> 0 \<le> rm_precision m \<and> rm_precision m \<le> 1"
proof -
  let ?h = "\<lparr>th_chunk_id = ''c'', th_document_id = ''d'', th_score = 1\<rparr>"
  let ?l = "\<lparr>rl_chunk_ids = [''c'', ''x''], rl_document_ids = [], rl_judgments = []\<rparr>"
  have "compute_retrieval_metrics [?h] (Some ?l) 1 = Some \<lparr>rm_recall = 1 / 2, rm_precision = 1, rm_mrr = 1, rm_depth = 1\<rparr>"
    by (simp add: compute_retrieval_metrics_def relevant_identifiers_def rank_hits_def hit_relevant_ids_def)
  from metrics_exact[OF this] show ?thesis unfolding Let_def by blast
qed

end
