(* ===== verification/ObjectStore.thy ===== *)
theory ObjectStore
  imports Prelude
begin

text \<open>
  The artifact store of \<open>storage.py\<close>: JSON objects under keys, each with a generation, the
  conditional write, the create-only write and the read-modify-write loop
  \<open>update_json_cas\<close>. Other writers are the list of writes that land between a read and the write
  that follows it. The locale \<open>cas_protocol\<close> states what a conditional store promises and what a
  read-modify-write loop built on it therefore guarantees; it is interpreted on this store.
  Object keys are the functions at the end.
\<close>

section \<open>Objects and generations\<close>

record 'v obj_store =
  os_objs :: "string \<rightharpoonup> 'v \<times> nat"
  os_next :: nat

definition empty_store :: "'v obj_store" where
  "empty_store = \<lparr>os_objs = Map.empty, os_next = 1\<rparr>"

datatype precondition = NoCondition | IfAbsent | IfMatch nat

definition get_json_with_etag :: "'v obj_store \<Rightarrow> string \<Rightarrow> 'v option \<times> nat option" where
  "get_json_with_etag s key =
     (case os_objs s key of None \<Rightarrow> (None, None) | Some (v, g) \<Rightarrow> (Some v, Some g))"

definition put_json :: "'v obj_store \<Rightarrow> string \<Rightarrow> 'v \<Rightarrow> 'v obj_store" where
  "put_json s key v =
     s\<lparr>os_objs := (os_objs s)(key \<mapsto> (v, os_next s)), os_next := os_next s + 1\<rparr>"

definition precondition_holds :: "'v obj_store \<Rightarrow> string \<Rightarrow> precondition \<Rightarrow> bool" where
  "precondition_holds s key p =
     (case p of
        NoCondition \<Rightarrow> True
      | IfAbsent \<Rightarrow> os_objs s key = None
      | IfMatch g \<Rightarrow> (case os_objs s key of None \<Rightarrow> False | Some (_, g') \<Rightarrow> g' = g))"

text \<open>\<open>None\<close> is \<open>PreconditionFailed\<close>.\<close>

definition put_json_conditional :: "'v obj_store \<Rightarrow> string \<Rightarrow> 'v \<Rightarrow> precondition \<Rightarrow> 'v obj_store option" where
  "put_json_conditional s key v p = (if precondition_holds s key p then Some (put_json s key v) else None)"

definition create_json :: "'v obj_store \<Rightarrow> string \<Rightarrow> 'v \<Rightarrow> 'v obj_store option" where
  "create_json s key v = put_json_conditional s key v IfAbsent"

definition etag_condition :: "'v option \<Rightarrow> nat option \<Rightarrow> precondition" where
  "etag_condition cur etag =
     (case cur of None \<Rightarrow> IfAbsent
      | Some _ \<Rightarrow> (case etag of Some g \<Rightarrow> IfMatch g | None \<Rightarrow> NoCondition))"

section \<open>The read-modify-write loop\<close>

text \<open>What other clients do: unconditional writes, or removal of an object.\<close>

datatype 'v foreign_write = ForeignPut string 'v | ForeignDelete string

fun apply_foreign :: "'v foreign_write \<Rightarrow> 'v obj_store \<Rightarrow> 'v obj_store" where
  "apply_foreign (ForeignPut k v) s = put_json s k v"
| "apply_foreign (ForeignDelete k) s = s\<lparr>os_objs := (os_objs s)(k := None)\<rparr>"

datatype 'e cas_error = CasConflict | CasAborted 'e

text \<open>One entry of the interference list per attempt; a missing entry is no interference. The
  mutation may refuse (\<open>Inl\<close>), which aborts the loop.\<close>

fun update_json_cas :: "nat \<Rightarrow> string \<Rightarrow> ('v option \<Rightarrow> 'e + 'v) \<Rightarrow> 'v foreign_write list list
    \<Rightarrow> 'v obj_store \<Rightarrow> ('e cas_error + 'v) \<times> 'v obj_store" where
  "update_json_cas 0 key mutate env s = (Inl CasConflict, s)"
| "update_json_cas (Suc n) key mutate env s =
     (let (cur, etag) = get_json_with_etag s key
      in case mutate cur of
           Inl e \<Rightarrow> (Inl (CasAborted e), s)
         | Inr payload \<Rightarrow>
             (let s1 = fold apply_foreign (case env of [] \<Rightarrow> [] | ws # _ \<Rightarrow> ws) s
              in case put_json_conditional s1 key payload (etag_condition cur etag) of
                   Some s2 \<Rightarrow> (Inr payload, s2)
                 | None \<Rightarrow> update_json_cas n key mutate (tl env) s1))"

definition store_wf :: "'v obj_store \<Rightarrow> bool" where
  "store_wf s \<longleftrightarrow> (\<forall>k v g. os_objs s k = Some (v, g) \<longrightarrow> g < os_next s)"

lemma put_json_frame [frame_simps]:
  "k \<noteq> key \<Longrightarrow> os_objs (put_json s key v) k = os_objs s k"
  "os_objs (put_json s key v) key = Some (v, os_next s)"
  "os_next (put_json s key v) = Suc (os_next s)"
  by (simp_all add: put_json_def)

lemma store_wf_put [inv_intros]: "store_wf s \<Longrightarrow> store_wf (put_json s key v)"
  by (auto simp: store_wf_def put_json_def less_Suc_eq)

lemma store_wf_foreign [inv_intros]: "store_wf s \<Longrightarrow> store_wf (apply_foreign w s)"
proof (cases w)
  case (ForeignPut k v)
  then show "store_wf s \<Longrightarrow> store_wf (apply_foreign w s)" by (simp add: store_wf_put)
qed (auto simp: store_wf_def split: if_splits)

lemma foreign_next: "os_next s \<le> os_next (apply_foreign w s)"
  by (cases w) (simp_all add: put_json_def)

text \<open>Generations never repeat: after any foreign writes an object of a known old generation is
  the object that was there before.\<close>

lemma foreign_same_generation:
  assumes "store_wf s" "os_objs (apply_foreign w s) key = Some (v, g)" "g < os_next s"
  shows "os_objs s key = Some (v, g)"
  using assms by (cases w) (auto simp: put_json_def split: if_splits)

lemma foreigns_same_generation:
  "store_wf s \<Longrightarrow> os_objs (fold apply_foreign ws s) key = Some (v, g) \<Longrightarrow> g < os_next s \<Longrightarrow>
   os_objs s key = Some (v, g)"
proof (induction ws arbitrary: s)
  case (Cons w ws)
  have g: "g < os_next (apply_foreign w s)" using Cons.prems(3) foreign_next[of s w] by linarith
  have f: "os_objs (fold apply_foreign ws (apply_foreign w s)) key = Some (v, g)" using Cons.prems(2) by simp
  have "os_objs (apply_foreign w s) key = Some (v, g)"
    by (rule Cons.IH[OF store_wf_foreign[OF Cons.prems(1)] f g])
  then show ?case by (rule foreign_same_generation[OF Cons.prems(1) _ Cons.prems(3)])
qed simp

lemma store_wf_foreigns: "store_wf s \<Longrightarrow> store_wf (fold apply_foreign ws s)"
  by (induction ws arbitrary: s) (auto intro: store_wf_foreign)

section \<open>Conditional stores as an interface\<close>

text \<open>
  What a read-modify-write client needs: a write conditioned on what was read succeeds only if the
  cell still holds exactly that, and then the cell holds the new payload.
\<close>

locale cas_protocol =
  fixes cell :: "'s \<Rightarrow> 'v option"
    and observe :: "'s \<Rightarrow> 'tag"
    and attempt :: "'s \<Rightarrow> 'tag \<Rightarrow> 'v \<Rightarrow> 's option"
    and ok :: "'s \<Rightarrow> bool"
    and env :: "'s \<Rightarrow> 's \<Rightarrow> bool"
  assumes ok_env: "ok s \<Longrightarrow> env s s' \<Longrightarrow> ok s'"
    and guarded: "ok s \<Longrightarrow> env s s' \<Longrightarrow> attempt s' (observe s) v = Some s'' \<Longrightarrow> cell s' = cell s"
    and installs: "attempt s' t v = Some s'' \<Longrightarrow> cell s'' = Some v"
begin

inductive rmw :: "('v option \<Rightarrow> 'e + 'v) \<Rightarrow> 's \<Rightarrow> 's \<Rightarrow> 's \<Rightarrow> 'v \<Rightarrow> bool" for mutate where
  win: "mutate (cell s) = Inr v \<Longrightarrow> env s s' \<Longrightarrow> attempt s' (observe s) v = Some s'' \<Longrightarrow> rmw mutate s s' s'' v"
| again: "mutate (cell s) = Inr v0 \<Longrightarrow> env s s1 \<Longrightarrow> attempt s1 (observe s) v0 = None \<Longrightarrow>
    rmw mutate s1 s' s'' v \<Longrightarrow> rmw mutate s s' s'' v"

lemma rmw_atomic:
  "rmw mutate s s' s'' v \<Longrightarrow> ok s \<Longrightarrow> mutate (cell s') = Inr v \<and> cell s'' = Some v"
proof (induction rule: rmw.induct)
  case (win s v s' s'')
  then show ?case using guarded installs by metis
next
  case (again s v0 s1 s' s'' v)
  then show ?case using ok_env by blast
qed

end

definition key_cell :: "string \<Rightarrow> 'v obj_store \<Rightarrow> 'v option" where
  "key_cell key s = map_option fst (os_objs s key)"

definition key_attempt :: "string \<Rightarrow> 'v obj_store \<Rightarrow> precondition \<Rightarrow> 'v \<Rightarrow> 'v obj_store option" where
  "key_attempt key s p v = put_json_conditional s key v p"

definition key_observe :: "string \<Rightarrow> 'v obj_store \<Rightarrow> precondition" where
  "key_observe key s = (case get_json_with_etag s key of (cur, etag) \<Rightarrow> etag_condition cur etag)"

definition foreign_steps :: "'v obj_store \<Rightarrow> 'v obj_store \<Rightarrow> bool" where
  "foreign_steps s s' \<longleftrightarrow> (\<exists>ws. s' = fold apply_foreign ws s)"

interpretation gcs: cas_protocol "key_cell key" "key_observe key" "key_attempt key" store_wf foreign_steps
  for key
proof (unfold_locales, goal_cases)
  case (1 s s')
  then show ?case by (auto simp: foreign_steps_def intro: store_wf_foreigns)
next
  case (2 s s' v s'')
  obtain ws where s': "s' = fold apply_foreign ws s" using 2(2) by (auto simp: foreign_steps_def)
  show ?case
  proof (cases "os_objs s key")
    case None
    then show ?thesis using 2(3)
      by (auto simp: key_observe_def key_attempt_def key_cell_def get_json_with_etag_def etag_condition_def
          put_json_conditional_def precondition_holds_def split: if_splits)
  next
    case (Some vg)
    obtain v0 g where vg: "vg = (v0, g)" by (cases vg)
    then obtain v1 where v1: "os_objs s' key = Some (v1, g)" using 2(3) Some
      by (auto simp: key_observe_def key_attempt_def get_json_with_etag_def etag_condition_def
          put_json_conditional_def precondition_holds_def split: if_splits option.splits)
    have "g < os_next s" using 2(1) Some vg by (auto simp: store_wf_def)
    then have "os_objs s key = Some (v1, g)" using foreigns_same_generation[OF 2(1)] v1 s' by blast
    then show ?thesis using v1 by (simp add: key_cell_def)
  qed
next
  case (3 s' t v s'')
  then show ?case
    by (auto simp: key_attempt_def key_cell_def put_json_conditional_def frame_simps split: if_splits)
qed

lemma update_json_cas_rmw:
  "update_json_cas n key mutate ws s = (Inr v, s'') \<Longrightarrow>
   \<exists>s'. gcs.rmw key mutate s s' s'' v \<and> s'' = put_json s' key v \<and> foreign_steps s s'"
proof (induction n key mutate ws s rule: update_json_cas.induct)
  case (2 n key mutate env s)
  let ?ws = "case env of [] \<Rightarrow> [] | ws # _ \<Rightarrow> ws" let ?s1 = "fold apply_foreign ?ws s"
  obtain cur etag where ce: "get_json_with_etag s key = (cur, etag)" by (cases "get_json_with_etag s key")
  have cur: "key_cell key s = cur" using ce
    by (auto simp: get_json_with_etag_def key_cell_def split: option.splits)
  have ob: "key_observe key s = etag_condition cur etag" by (simp add: key_observe_def ce)
  have st: "foreign_steps s ?s1" by (auto simp: foreign_steps_def)
  obtain p where p: "mutate cur = Inr p" using 2(2) ce by (cases "mutate cur") (auto simp: Let_def)
  show ?case
  proof (cases "put_json_conditional ?s1 key p (etag_condition cur etag)")
    case (Some s2)
    have e: "v = p \<and> s'' = s2" using 2(2) ce p Some by (simp add: Let_def)
    have "s2 = put_json ?s1 key p" using Some by (auto simp: put_json_conditional_def split: if_splits)
    moreover have "gcs.rmw key mutate s ?s1 s2 p"
      by (rule gcs.win) (use p cur ob st Some in \<open>simp_all add: key_attempt_def\<close>)
    ultimately show ?thesis using e st by blast
  next
    case None
    have "update_json_cas n key mutate (tl env) ?s1 = (Inr v, s'')" using 2(2) ce p None by (simp add: Let_def)
    then obtain s' where s': "gcs.rmw key mutate ?s1 s' s'' v" "s'' = put_json s' key v" "foreign_steps ?s1 s'"
      using 2(1)[OF ce[symmetric] refl p refl None] by blast
    have "gcs.rmw key mutate s s' s'' v"
      by (rule gcs.again[OF _ st _ s'(1)]) (use p cur ob None in \<open>simp_all add: key_attempt_def\<close>)
    moreover have "foreign_steps s s'"
      using s'(3) st by (auto simp: foreign_steps_def) (metis fold_append comp_apply)
    ultimately show ?thesis using s'(2) by blast
  qed
qed simp

text \<open>Without interference the loop is one step.\<close>

lemma put_after_read:
  "get_json_with_etag s key = (cur, etag) \<Longrightarrow>
   put_json_conditional s key v (etag_condition cur etag) = Some (put_json s key v)"
  by (auto simp: get_json_with_etag_def put_json_conditional_def precondition_holds_def etag_condition_def
      split: option.splits)

lemma update_json_cas_aborted:
  "update_json_cas n key mutate env s = (Inl (CasAborted e), s') \<Longrightarrow> \<exists>cur. mutate cur = Inl e"
proof (induction n arbitrary: env s)
  case (Suc n)
  obtain cur etag where "get_json_with_etag s key = (cur, etag)" by fastforce
  then show ?case using Suc by (cases "mutate cur") (auto simp: Let_def split: option.splits)
qed simp

lemma update_json_cas_alone:
  assumes "0 < n"
  shows "update_json_cas n key mutate [] s =
    (case mutate (key_cell key s) of Inl e \<Rightarrow> (Inl (CasAborted e), s) | Inr v \<Rightarrow> (Inr v, put_json s key v))"
proof -
  obtain k where n: "n = Suc k" using assms gr0_conv_Suc by blast
  obtain cur etag where ce: "get_json_with_etag s key = (cur, etag)" by (cases "get_json_with_etag s key")
  have "key_cell key s = cur" using ce
    by (auto simp: get_json_with_etag_def key_cell_def split: option.splits)
  then show ?thesis unfolding n using put_after_read[OF ce] ce by (simp add: Let_def split: sum.splits)
qed

lemma key_cell_put [simp]: "key_cell k (put_json s k' v) = (if k = k' then Some v else key_cell k s)"
  by (simp add: key_cell_def put_json_def)

lemma create_json_iff:
  "create_json s k v = (if key_cell k s = None then Some (put_json s k v) else None)"
  by (auto simp: create_json_def put_json_conditional_def precondition_holds_def key_cell_def split: option.splits)

section \<open>Keys\<close>

definition document_record_key :: "ident \<Rightarrow> string" where
  "document_record_key d = ''documents/'' @ d @ ''/record.json''"

definition document_version_key :: "ident \<Rightarrow> string \<Rightarrow> string" where
  "document_version_key d v = ''documents/'' @ d @ ''/versions/'' @ v @ ''.json''"

definition document_version_index_key :: "ident \<Rightarrow> string" where
  "document_version_index_key d = ''documents/'' @ d @ ''/versions/index.json''"

definition ingestion_event_key :: "ident \<Rightarrow> ident \<Rightarrow> string" where
  "ingestion_event_key d i = ''documents/'' @ d @ ''/ingestions/'' @ i @ ''.json''"

text \<open>\<open>Path(filename).suffix\<close>: from the last dot of the last path component, unless that dot begins or
  ends the component.\<close>

definition path_suffix :: "string \<Rightarrow> string" where
  "path_suffix filename =
     (let parts = filter (\<lambda>x. x \<noteq> [] \<and> x \<noteq> ''.'') (py_split CHR ''/'' filename);
          name = (if parts = [] then [] else last parts);
          ext = takeWhile (\<lambda>ch. ch \<noteq> CHR ''.'') (rev name)
      in if ext = [] \<or> length name \<le> Suc (length ext) then [] else CHR ''.'' # rev ext)"

definition raw_document_key :: "ident \<Rightarrow> string \<Rightarrow> string \<Rightarrow> string" where
  "raw_document_key d version filename =
     ''raw/'' @ d @ ''/'' @ version @ ''/source'' @
     (if path_suffix filename = [] then ''.bin'' else path_suffix filename)"

section \<open>Properties\<close>

text \<open>C10. Read-modify-write is atomic: when \<open>update_json_cas\<close> returns, whatever other clients wrote or
  removed between its reads and its writes, the payload it installed is the mutation of the very
  value it overwrote, and nothing of another key was touched by it.\<close>

theorem cas_update_atomic:
  assumes "store_wf s" "update_json_cas n key mutate env s = (Inr v, s'')"
  shows "\<exists>s'. foreign_steps s s' \<and> mutate (key_cell key s') = Inr v \<and> s'' = put_json s' key v \<and>
     key_cell key s'' = Some v \<and> (\<forall>k. k \<noteq> key \<longrightarrow> key_cell k s'' = key_cell k s')"
proof -
  obtain s' where s': "gcs.rmw key mutate s s' s'' v" "s'' = put_json s' key v" "foreign_steps s s'"
    using update_json_cas_rmw[OF assms(2)] by blast
  have "\<forall>k. k \<noteq> key \<longrightarrow> key_cell k s'' = key_cell k s'" by (simp add: s'(2) key_cell_def frame_simps)
  then show ?thesis using gcs.rmw_atomic[OF s'(1) assms(1)] s' by blast
qed

theorem cas_update_atomic_witness:
  "\<exists>s'. foreign_steps (put_json empty_store ''k'' (1::nat)) s' \<and> key_cell ''k'' s' = Some 5"
proof -
  let ?mut = "case_option (Inl ()) (\<lambda>x. Inr (x + (1::nat)))"
  have w: "store_wf (put_json empty_store ''k'' (1::nat))" by (rule store_wf_put) (simp add: store_wf_def empty_store_def)
  have "fst (update_json_cas 8 ''k'' ?mut [[ForeignPut ''k'' (5::nat)]] (put_json empty_store ''k'' (1::nat))) = Inr 6"
    by (simp add: eval_nat_numeral get_json_with_etag_def put_json_conditional_def precondition_holds_def
        put_json_def empty_store_def etag_condition_def)
  then obtain s'' where s: "update_json_cas 8 ''k'' ?mut [[ForeignPut ''k'' (5::nat)]] (put_json empty_store ''k'' (1::nat)) = (Inr 6, s'')"
    by (metis prod.collapse)
  obtain s' where "foreign_steps (put_json empty_store ''k'' 1) s'" "?mut (key_cell ''k'' s') = Inr 6"
    using cas_update_atomic[OF w s] by blast
  then show ?thesis by (intro exI[of _ s']) (auto split: option.splits)
qed

end
