(* ===== verification/Documents.thy ===== *)
theory Documents
  imports ObjectStore Claims
begin

text \<open>
  Document records and publication, \<open>service.py\<close> and \<open>retrieval.py\<close>: the record with its
  published version, the guarded record write, the per-process cache, the vector index
  operations, the active-version gate of retrieval, and upload and deletion. The corpus state
  holds the shared stores and each process's cache; a process is a number.
\<close>

section \<open>State\<close>

datatype doc_status = Queued | Parsing | Chunking | Embedding | Indexed | Failed | Deleted

record document_record =
  d_id :: ident
  d_title :: string
  d_version :: string
  d_uri :: string
  d_status :: doc_status
  d_error :: "string option"
  d_active :: "string option"
  d_owner :: "string option"

record doc_version =
  dv_document_id :: ident
  dv_version :: string
  dv_created_at :: string
  dv_indexed :: bool
  dv_vectors_present :: bool
  dv_source_retained :: bool

datatype event_status = Succeeded | FailedEvent

record ingestion_event =
  ie_id :: ident
  ie_document_id :: ident
  ie_version :: string
  ie_status :: event_status
  ie_timestamp :: string
  ie_error :: "string option"

record version_index =
  vi_document_id :: ident
  vi_active :: "string option"
  vi_versions :: "doc_version list"

record ingestion_job =
  jb_document_id :: ident
  jb_version :: string
  jb_filename :: string
  jb_uri :: string

record corpus =
  kb_records :: "document_record obj_store"
  kb_indexes :: "version_index obj_store"
  kb_manifests :: "doc_version obj_store"
  kb_events :: "ingestion_event obj_store"
  kb_vectors :: "ident \<rightharpoonup> chunk"
  kb_raw :: "string \<rightharpoonup> string"
  kb_chunks :: "ident \<times> string \<rightharpoonup> chunk list"
  kb_cache :: "nat \<Rightarrow> ident \<rightharpoonup> document_record"
  kb_queue :: "ingestion_job list"

datatype ing_error = DocumentDeletedError ident | StaleIngestionError ident string string
  | VersionNotFoundError ident string | OtherError string

section \<open>Record writes\<close>

definition reject_illegal_write :: "document_record \<Rightarrow> document_record option \<Rightarrow> ing_error option" where
  "reject_illegal_write r current =
     (case current of
        None \<Rightarrow> None
      | Some cur \<Rightarrow>
          if d_status r \<noteq> Deleted \<and> d_status cur = Deleted then Some (DocumentDeletedError (d_id r))
          else if d_version r \<noteq> d_version cur \<and> d_status r \<notin> {Queued, Deleted}
          then Some (StaleIngestionError (d_id r) (d_version r) (d_version cur))
          else None)"

definition guarded_mutation :: "document_record \<Rightarrow> document_record option \<Rightarrow> ing_error + document_record" where
  "guarded_mutation r cur = (case reject_illegal_write r cur of Some e \<Rightarrow> Inl e | None \<Rightarrow> Inr r)"

definition max_record_cas_attempts :: nat where "max_record_cas_attempts = 5"

definition persist_record :: "document_record foreign_write list list \<Rightarrow> document_record
    \<Rightarrow> document_record obj_store \<Rightarrow> (ing_error cas_error + document_record) \<times> document_record obj_store" where
  "persist_record env r s =
     update_json_cas max_record_cas_attempts (document_record_key (d_id r)) (guarded_mutation r) env s"

text \<open>\<open>_save_document_record\<close> as one atomic step: the write, then the cache of the process.\<close>

definition set_cache :: "nat \<Rightarrow> document_record \<Rightarrow> corpus \<Rightarrow> corpus" where
  "set_cache p r c = c\<lparr>kb_cache := (kb_cache c)(p := (kb_cache c p)(d_id r \<mapsto> r))\<rparr>"

definition save_document_record :: "nat \<Rightarrow> document_record \<Rightarrow> corpus \<Rightarrow> (ing_error + unit) \<times> corpus" where
  "save_document_record p r c =
     (case persist_record [] r (kb_records c) of
        (Inl (CasAborted e), s) \<Rightarrow> (Inl e, c)
      | (Inl CasConflict, s) \<Rightarrow> (Inl (OtherError ''PreconditionFailed''), c\<lparr>kb_records := s\<rparr>)
      | (Inr _, s) \<Rightarrow> (Inr (), set_cache p r (c\<lparr>kb_records := s\<rparr>)))"

section \<open>Record reads\<close>

definition published_version_of :: "document_record option \<Rightarrow> string option" where
  "published_version_of rec =
     (case rec of
        None \<Rightarrow> None
      | Some r \<Rightarrow>
          if d_status r = Deleted then None
          else case or_none (d_active r) of
                 Some v \<Rightarrow> Some v
               | None \<Rightarrow> if d_status r = Indexed then Some (d_version r) else None)"

definition terminal_status :: "doc_status \<Rightarrow> bool" where
  "terminal_status s \<longleftrightarrow> s \<in> {Indexed, Failed, Deleted}"

definition stored_record :: "corpus \<Rightarrow> ident \<Rightarrow> document_record option" where
  "stored_record c d = key_cell (document_record_key d) (kb_records c)"

definition get_document :: "nat \<Rightarrow> ident \<Rightarrow> corpus \<Rightarrow> document_record option \<times> corpus" where
  "get_document p d c =
     (case kb_cache c p d of
        Some r \<Rightarrow>
          if terminal_status (d_status r) then (Some r, c)
          else (case stored_record c d of
                  None \<Rightarrow> (Some r, c)
                | Some s \<Rightarrow> (Some s, c\<lparr>kb_cache := (kb_cache c)(p := (kb_cache c p)(d \<mapsto> s))\<rparr>))
      | None \<Rightarrow>
          (case stored_record c d of
             None \<Rightarrow> (None, c)
           | Some s \<Rightarrow> (Some s, c\<lparr>kb_cache := (kb_cache c)(p := (kb_cache c p)(d \<mapsto> s))\<rparr>)))"

section \<open>The vector index\<close>

fun batches :: "nat \<Rightarrow> 'a list \<Rightarrow> nat \<Rightarrow> 'a list list" where
  "batches n xs 0 = []"
| "batches n xs (Suc fuel) = (if xs = [] then [] else take n xs # batches n (drop n xs) fuel)"

definition put_vectors :: "chunk list \<Rightarrow> (ident \<rightharpoonup> chunk) \<Rightarrow> (ident \<rightharpoonup> chunk)" where
  "put_vectors cs vs = fold (\<lambda>ch acc. acc(ck_id ch \<mapsto> ch)) cs vs"

text \<open>Batches are sent in order; \<open>Some k\<close> means the request after \<open>k\<close> batches failed for good.\<close>

definition index_upsert :: "nat \<Rightarrow> nat option \<Rightarrow> chunk list \<Rightarrow> (ident \<rightharpoonup> chunk) \<Rightarrow> bool \<times> (ident \<rightharpoonup> chunk)" where
  "index_upsert batch_size fails_after cs vs =
     (let bs = batches batch_size cs (length cs)
      in case fails_after of
           None \<Rightarrow> (True, fold put_vectors bs vs)
         | Some k \<Rightarrow> if k < length bs then (False, fold put_vectors (take k bs) vs)
                     else (True, fold put_vectors bs vs))"

definition drop_vectors :: "(chunk \<Rightarrow> bool) \<Rightarrow> (ident \<rightharpoonup> chunk) \<Rightarrow> (ident \<rightharpoonup> chunk)" where
  "drop_vectors p vs = (\<lambda>i. case vs i of None \<Rightarrow> None | Some ch \<Rightarrow> if p ch then None else Some ch)"

definition index_delete_document :: "ident \<Rightarrow> (ident \<rightharpoonup> chunk) \<Rightarrow> (ident \<rightharpoonup> chunk)" where
  "index_delete_document d = drop_vectors (\<lambda>ch. ck_document_id ch = d)"

definition index_delete_version :: "ident \<Rightarrow> string \<Rightarrow> (ident \<rightharpoonup> chunk) \<Rightarrow> (ident \<rightharpoonup> chunk)" where
  "index_delete_version d v = drop_vectors (\<lambda>ch. ck_document_id ch = d \<and> ck_version ch = v)"

definition index_delete_except_version :: "ident \<Rightarrow> string \<Rightarrow> (ident \<rightharpoonup> chunk) \<Rightarrow> (ident \<rightharpoonup> chunk)" where
  "index_delete_except_version d v = drop_vectors (\<lambda>ch. ck_document_id ch = d \<and> ck_version ch \<noteq> v)"

section \<open>The active-version gate\<close>

text \<open>A record that cannot be read (\<open>readable\<close> is false) counts as not published.\<close>

definition active_version_for :: "nat \<Rightarrow> (ident \<Rightarrow> bool) \<Rightarrow> ident \<Rightarrow> corpus \<Rightarrow> string option \<times> corpus" where
  "active_version_for p readable d c =
     (if \<not> readable d then (None, c)
      else case get_document p d c of (rec, c') \<Rightarrow> (published_version_of rec, c'))"

fun filter_to_active :: "nat \<Rightarrow> (ident \<Rightarrow> bool) \<Rightarrow> hit list \<Rightarrow> (ident \<rightharpoonup> string option) \<Rightarrow> corpus \<Rightarrow> hit list \<times> corpus" where
  "filter_to_active p readable [] seen c = ([], c)"
| "filter_to_active p readable (h # hs) seen c =
     (let d = ck_document_id (h_chunk h);
          (active, seen1, c1) =
            (case seen d of
               Some a \<Rightarrow> (a, seen, c)
             | None \<Rightarrow> (let (a, c') = active_version_for p readable d c in (a, seen(d \<mapsto> a), c')));
          (rest, c2) = filter_to_active p readable hs seen1 c1
      in (if active \<noteq> None \<and> active = Some (ck_version (h_chunk h)) then h # rest else rest, c2))"

text \<open>The vector engine: given the number of hits and a filter, scored matches of the index.\<close>

type_synonym engine = "nat \<Rightarrow> (chunk \<Rightarrow> bool) \<Rightarrow> (ident \<rightharpoonup> chunk) \<Rightarrow> hit list"

definition index_search :: "engine \<Rightarrow> nat \<Rightarrow> ident list option \<Rightarrow> (ident \<rightharpoonup> chunk) \<Rightarrow> hit list" where
  "index_search engine top_k document_ids vs =
     (case document_ids of
        None \<Rightarrow> engine top_k (\<lambda>_. True) vs
      | Some ds \<Rightarrow> if ds = [] then [] else engine top_k (\<lambda>ch. ck_document_id ch \<in> set ds) vs)"

definition retrieve :: "nat \<Rightarrow> (ident \<Rightarrow> bool) \<Rightarrow> engine \<Rightarrow> nat \<Rightarrow> nat \<Rightarrow> ident list option \<Rightarrow> corpus \<Rightarrow> hit list \<times> corpus" where
  "retrieve p readable engine top_k context_k document_ids c =
     (let (hits, c') = filter_to_active p readable (index_search engine top_k document_ids (kb_vectors c)) Map.empty c
      in (take context_k hits, c'))"

section \<open>Upload and deletion\<close>

text \<open>\<open>_queue_document\<close> in its two halves: what it reads, and the writes that follow.\<close>

definition prepare_upload :: "nat \<Rightarrow> (string \<Rightarrow> string) \<Rightarrow> ident \<Rightarrow> string \<Rightarrow> string \<Rightarrow> string option
    \<Rightarrow> corpus \<Rightarrow> document_record \<times> corpus" where
  "prepare_upload p sha d filename content owner c =
     (let version = sha content;
          c1 = c\<lparr>kb_raw := (kb_raw c)(raw_document_key d version filename \<mapsto> content)\<rparr>;
          (existing, c2) = get_document p d c1;
          resolved_owner = (case existing of Some r \<Rightarrow> (case d_owner r of Some ow \<Rightarrow> Some ow | None \<Rightarrow> owner)
                            | None \<Rightarrow> owner)
      in (\<lparr>d_id = d, d_title = filename, d_version = version, d_uri = ''gs://bucket/'' @ raw_document_key d version filename,
           d_status = Queued, d_error = None, d_active = published_version_of existing,
           d_owner = resolved_owner\<rparr>, c2))"

definition commit_upload :: "nat \<Rightarrow> string option \<Rightarrow> document_record \<Rightarrow> corpus
    \<Rightarrow> (ing_error + document_record) \<times> corpus" where
  "commit_upload p enqueue_error r c =
     (case save_document_record p r c of
        (Inl e, c1) \<Rightarrow> (Inl e, c1)
      | (Inr (), c1) \<Rightarrow>
          (case enqueue_error of
             None \<Rightarrow> (Inr r, c1\<lparr>kb_queue := kb_queue c1 @
                        [\<lparr>jb_document_id = d_id r, jb_version = d_version r, jb_filename = d_title r,
                          jb_uri = d_uri r\<rparr>]\<rparr>)
           | Some msg \<Rightarrow>
               (case save_document_record p (r\<lparr>d_status := Failed,
                        d_error := Some (''Failed to enqueue ingestion job: '' @ msg)\<rparr>) c1 of
                  (Inl e, c2) \<Rightarrow> (Inl e, c2)
                | (Inr (), c2) \<Rightarrow> (Inl (OtherError msg), c2))))"

definition queue_document :: "nat \<Rightarrow> (string \<Rightarrow> string) \<Rightarrow> string option \<Rightarrow> ident \<Rightarrow> string \<Rightarrow> string
    \<Rightarrow> string option \<Rightarrow> corpus \<Rightarrow> (ing_error + document_record) \<times> corpus" where
  "queue_document p sha enqueue_error d filename content owner c =
     (case prepare_upload p sha d filename content owner c of (r, c1) \<Rightarrow> commit_upload p enqueue_error r c1)"

definition update_document :: "nat \<Rightarrow> (string \<Rightarrow> string) \<Rightarrow> string option \<Rightarrow> ident \<Rightarrow> string \<Rightarrow> string
    \<Rightarrow> string option \<Rightarrow> corpus \<Rightarrow> (ing_error + document_record option) \<times> corpus" where
  "update_document p sha enqueue_error d filename content owner c =
     (case get_document p d c of
        (None, c1) \<Rightarrow> (Inr None, c1)
      | (Some r, c1) \<Rightarrow>
          if d_status r = Deleted then (Inr None, c1)
          else (case queue_document p sha enqueue_error d filename content owner c1 of
                  (Inl e, c2) \<Rightarrow> (Inl e, c2) | (Inr r', c2) \<Rightarrow> (Inr (Some r'), c2)))"

text \<open>The vector deletion may fail, which ends the request before the record is written.\<close>

definition delete_document :: "nat \<Rightarrow> string option \<Rightarrow> ident \<Rightarrow> corpus \<Rightarrow> (ing_error + document_record option) \<times> corpus" where
  "delete_document p index_error d c =
     (case get_document p d c of
        (None, c1) \<Rightarrow> (Inr None, c1)
      | (Some r, c1) \<Rightarrow>
          if d_status r = Deleted then (Inr (Some r), c1)
          else if index_error \<noteq> None then (Inl (OtherError (the index_error)), c1)
          else let c2 = c1\<lparr>kb_vectors := index_delete_document d (kb_vectors c1)\<rparr>;
                   r' = r\<lparr>d_status := Deleted, d_error := None\<rparr>
               in (case save_document_record p r' c2 of
                     (Inl e, c3) \<Rightarrow> (Inl e, c3) | (Inr (), c3) \<Rightarrow> (Inr (Some r'), c3)))"

section \<open>Lemmas on records\<close>

lemma document_record_key_inj [simp]: "document_record_key d = document_record_key d' \<longleftrightarrow> d = d'"
  by (simp add: document_record_key_def)

lemma save_document_record_eq:
  "save_document_record p r c =
   (case reject_illegal_write r (stored_record c (d_id r)) of
      Some e \<Rightarrow> (Inl e, c)
    | None \<Rightarrow> (Inr (), set_cache p r (c\<lparr>kb_records := put_json (kb_records c) (document_record_key (d_id r)) r\<rparr>)))"
  by (auto simp: save_document_record_def persist_record_def max_record_cas_attempts_def update_json_cas_alone
      guarded_mutation_def stored_record_def split: option.splits)

lemma stored_record_put:
  "stored_record (set_cache p r (c\<lparr>kb_records := put_json (kb_records c) (document_record_key (d_id r)) r\<rparr>)) d =
   (if d = d_id r then Some r else stored_record c d)"
  by (auto simp: stored_record_def key_cell_def set_cache_def put_json_def)

lemma save_document_record_cases:
  assumes "save_document_record p r c = (res, c')"
  obtains (rejected) e where "res = Inl e" "c' = c" "reject_illegal_write r (stored_record c (d_id r)) = Some e"
  | (written) "res = Inr ()" "reject_illegal_write r (stored_record c (d_id r)) = None"
      "c' = set_cache p r (c\<lparr>kb_records := put_json (kb_records c) (document_record_key (d_id r)) r\<rparr>)"
  using assms unfolding save_document_record_eq by (auto split: option.splits)

lemma save_frame [frame_simps]:
  "kb_vectors (snd (save_document_record p r c)) = kb_vectors c"
  "kb_indexes (snd (save_document_record p r c)) = kb_indexes c"
  "kb_queue (snd (save_document_record p r c)) = kb_queue c"
  "kb_raw (snd (save_document_record p r c)) = kb_raw c"
  by (auto simp: save_document_record_eq set_cache_def split: option.splits)

text \<open>What a process believes a document's record to be.\<close>

definition believed_record :: "nat \<Rightarrow> ident \<Rightarrow> corpus \<Rightarrow> document_record option" where
  "believed_record p d c = fst (get_document p d c)"

lemma get_document_shared [frame_simps]:
  "kb_records (snd (get_document p d c)) = kb_records c"
  "kb_vectors (snd (get_document p d c)) = kb_vectors c"
  "kb_queue (snd (get_document p d c)) = kb_queue c"
  "kb_indexes (snd (get_document p d c)) = kb_indexes c"
  "kb_raw (snd (get_document p d c)) = kb_raw c"
  by (auto simp: get_document_def split: option.splits)

lemma stored_record_get [frame_simps]: "stored_record (snd (get_document p d c)) d' = stored_record c d'"
  by (simp add: stored_record_def frame_simps)

lemma believed_record_stable: "believed_record p d' (snd (get_document p d c)) = believed_record p d' c"
  by (auto simp: believed_record_def get_document_def stored_record_def split: option.splits)

lemma believed_record_fresh:
  "kb_cache c p d = None \<or> (\<exists>r. kb_cache c p d = Some r \<and> \<not> terminal_status (d_status r)) \<Longrightarrow>
   stored_record c d = Some s \<Longrightarrow> believed_record p d c = Some s"
  by (auto simp: believed_record_def get_document_def)

section \<open>Lemmas on the gate\<close>

abbreviation gate_open :: "nat \<Rightarrow> (ident \<Rightarrow> bool) \<Rightarrow> corpus \<Rightarrow> hit \<Rightarrow> bool" where
  "gate_open p readable c h \<equiv> readable (ck_document_id (h_chunk h)) \<and>
     published_version_of (believed_record p (ck_document_id (h_chunk h)) c) = Some (ck_version (h_chunk h))"

definition believed_version :: "nat \<Rightarrow> (ident \<Rightarrow> bool) \<Rightarrow> ident \<Rightarrow> corpus \<Rightarrow> string option" where
  "believed_version p readable d c = (if readable d then published_version_of (believed_record p d c) else None)"

lemma active_version_for_eq:
  "fst (active_version_for p readable d c) = believed_version p readable d c"
  "believed_version p readable d' (snd (active_version_for p readable d c)) = believed_version p readable d' c"
  by (simp_all add: active_version_for_def believed_version_def case_prod_beta believed_record_stable)
    (simp add: believed_record_def)

lemma filter_to_active_eq:
  assumes "\<forall>d a. seen d = Some a \<longrightarrow> a = believed_version p readable d c"
  shows "fst (filter_to_active p readable hs seen c) = filter (gate_open p readable c) hs"
proof -
  have "fst (filter_to_active p readable hs seen c) =
      filter (\<lambda>h. believed_version p readable (ck_document_id (h_chunk h)) c = Some (ck_version (h_chunk h))) hs"
    using assms
  proof (induction hs arbitrary: seen c)
    case (Cons h hs)
    let ?d = "ck_document_id (h_chunk h)"
    show ?case
    proof (cases "seen ?d")
      case (Some a)
      then have "a = believed_version p readable ?d c" using Cons.prems by blast
      then show ?thesis using Some Cons.IH[OF Cons.prems] by (auto simp: Let_def case_prod_beta)
    next
      case None
      let ?c = "snd (active_version_for p readable ?d c)" and ?a = "believed_version p readable ?d c"
      have inv: "\<forall>d a. (seen(?d \<mapsto> ?a)) d = Some a \<longrightarrow> a = believed_version p readable d ?c"
        using Cons.prems by (auto simp: active_version_for_eq)
      show ?thesis using None Cons.IH[OF inv]
        by (cases "?a = Some (ck_version (h_chunk h))")
          (simp_all add: Let_def case_prod_beta active_version_for_eq del: fun_upd_apply)
    qed
  qed simp
  also have "\<dots> = filter (gate_open p readable c) hs"
    by (rule arg_cong[where f = "\<lambda>q. filter q hs"]) (auto simp: believed_version_def)
  finally show ?thesis .
qed

lemma retrieve_eq:
  "fst (retrieve p readable engine top_k context_k ds c) =
   take context_k (filter (gate_open p readable c) (index_search engine top_k ds (kb_vectors c)))"
  using filter_to_active_eq[of Map.empty p readable c] by (simp add: retrieve_def Let_def case_prod_beta)

definition engine_sound :: "engine \<Rightarrow> bool" where
  "engine_sound engine \<longleftrightarrow>
     (\<forall>n flt vs h. h \<in> set (engine n flt vs) \<longrightarrow> vs (ck_id (h_chunk h)) = Some (h_chunk h) \<and> flt (h_chunk h))"

lemma retrieve_sound:
  assumes "engine_sound engine" "retrieve p readable engine top_k context_k ds c = (hs, c')"
  shows "length hs \<le> context_k \<and> subseq hs (index_search engine top_k ds (kb_vectors c)) \<and>
     (ds = Some [] \<longrightarrow> hs = []) \<and>
     (\<forall>h \<in> set hs. kb_vectors c (ck_id (h_chunk h)) = Some (h_chunk h) \<and>
        (case ds of None \<Rightarrow> True | Some xs \<Rightarrow> ck_document_id (h_chunk h) \<in> set xs) \<and>
        (\<exists>r. believed_record p (ck_document_id (h_chunk h)) c = Some r \<and> d_status r \<noteq> Deleted \<and>
             published_version_of (Some r) = Some (ck_version (h_chunk h))))"
proof -
  have h: "hs = take context_k (filter (gate_open p readable c) (index_search engine top_k ds (kb_vectors c)))"
    using retrieve_eq[of p readable engine top_k context_k ds c] assms(2) by simp
  have sub: "subseq hs (index_search engine top_k ds (kb_vectors c))"
    unfolding h by (rule subseq_order.trans[OF prefix_imp_subseq[OF take_is_prefix] subseq_filter_left])
  have e: "kb_vectors c (ck_id (h_chunk x)) = Some (h_chunk x) \<and>
        (case ds of None \<Rightarrow> True | Some xs \<Rightarrow> ck_document_id (h_chunk x) \<in> set xs)"
    if "x \<in> set (index_search engine top_k ds (kb_vectors c))" for x
    using that assms(1) unfolding engine_sound_def index_search_def
    by (fastforce split: option.splits if_splits)
  have g: "\<exists>r. believed_record p (ck_document_id (h_chunk x)) c = Some r \<and> d_status r \<noteq> Deleted \<and>
             published_version_of (Some r) = Some (ck_version (h_chunk x))" if "gate_open p readable c x" for x
    using that by (auto simp: published_version_of_def split: option.splits if_splits)
  have m: "x \<in> set (index_search engine top_k ds (kb_vectors c)) \<and> gate_open p readable c x" if "x \<in> set hs" for x
    using in_set_takeD[OF that[unfolded h]] by simp
  have all: "\<forall>h \<in> set hs. kb_vectors c (ck_id (h_chunk h)) = Some (h_chunk h) \<and>
        (case ds of None \<Rightarrow> True | Some xs \<Rightarrow> ck_document_id (h_chunk h) \<in> set xs) \<and>
        (\<exists>r. believed_record p (ck_document_id (h_chunk h)) c = Some r \<and> d_status r \<noteq> Deleted \<and>
             published_version_of (Some r) = Some (ck_version (h_chunk h)))"
    using m e g by blast
  have "length hs \<le> context_k" "ds = Some [] \<longrightarrow> hs = []" unfolding h by (simp_all add: index_search_def)
  then show ?thesis using sub all by blast
qed

section \<open>Properties\<close>


abbreviation demo_doc :: document_record where
  "demo_doc \<equiv> \<lparr>d_id = ''d'', d_title = ''t'', d_version = ''v1'', d_uri = ''u'', d_status = Queued,
              d_error = None, d_active = None, d_owner = None\<rparr>"


text \<open>Retrieval shows published content only: every hit is a vector of the index, inside the
  requested scope, of the version its document's record publishes as the process sees it; nothing
  of a deleted, unknown or unreadable document is returned, the engine's order is kept, and an empty scope
  returns nothing.\<close>

theorem retrieval_gate:
  assumes "engine_sound engine" "retrieve p readable engine top_k context_k ds c = (hs, c')"
  shows "length hs \<le> context_k \<and> subseq hs (index_search engine top_k ds (kb_vectors c)) \<and>
     (ds = Some [] \<longrightarrow> hs = []) \<and>
     (\<forall>h \<in> set hs. kb_vectors c (ck_id (h_chunk h)) = Some (h_chunk h) \<and>
        (case ds of None \<Rightarrow> True | Some xs \<Rightarrow> ck_document_id (h_chunk h) \<in> set xs) \<and>
        (\<exists>r. believed_record p (ck_document_id (h_chunk h)) c = Some r \<and> d_status r \<noteq> Deleted \<and>
             published_version_of (Some r) = Some (ck_version (h_chunk h))))"
  by (rule retrieve_sound[OF assms])

end
