(* ===== verification/Ingestion.thy ===== *)
theory Ingestion
  imports Documents
begin

text \<open>
  Ingestion and version control, \<open>service.py\<close>: the staged pipeline \<open>_run_ingestion\<close> with its
  error paths, \<open>process_document_job\<close>, the version index and its two mutations, restore and
  history. A stage is a step on the corpus that may raise; the outcome of every call that leaves
  the process (parsing, chunking, embedding, the stores, the vector index) is an input.
\<close>

section \<open>Version index\<close>

definition activate_mutation :: "ident \<Rightarrow> doc_version \<Rightarrow> version_index option \<Rightarrow> ing_error + version_index" where
  "activate_mutation d m cur =
     (let index = (case cur of Some i \<Rightarrow> i
                   | None \<Rightarrow> \<lparr>vi_document_id = d, vi_active = None, vi_versions = []\<rparr>);
          others = map (\<lambda>v. v\<lparr>dv_vectors_present := False\<rparr>)
                     (filter (\<lambda>v. dv_version v \<noteq> dv_version m) (vi_versions index))
      in Inr (index\<lparr>vi_versions := others @ [m], vi_active := Some (dv_version m)\<rparr>))"

definition activate_existing_mutation :: "ident \<Rightarrow> string \<Rightarrow> version_index option \<Rightarrow> ing_error + version_index" where
  "activate_existing_mutation d version cur =
     (case cur of
        None \<Rightarrow> Inl (VersionNotFoundError d version)
      | Some index \<Rightarrow>
          if \<not> list_ex (\<lambda>v. dv_version v = version) (vi_versions index)
          then Inl (VersionNotFoundError d version)
          else Inr (index\<lparr>vi_versions := map (\<lambda>v. v\<lparr>dv_vectors_present := (dv_version v = version)\<rparr>) (vi_versions index),
                          vi_active := Some version\<rparr>))"

definition cas_update_index :: "ident \<Rightarrow> (version_index option \<Rightarrow> ing_error + version_index) \<Rightarrow> corpus
    \<Rightarrow> (ing_error + unit) \<times> corpus" where
  "cas_update_index d mutate c =
     (case update_json_cas 8 (document_version_index_key d) mutate [] (kb_indexes c) of
        (Inl (CasAborted e), s) \<Rightarrow> (Inl e, c\<lparr>kb_indexes := s\<rparr>)
      | (Inl CasConflict, s) \<Rightarrow> (Inl (OtherError ''PreconditionFailed''), c\<lparr>kb_indexes := s\<rparr>)
      | (Inr _, s) \<Rightarrow> (Inr (), c\<lparr>kb_indexes := s\<rparr>))"

text \<open>\<open>_create_artifact\<close>: create-only, a second write of the same key is a no-op.\<close>

definition create_artifact :: "string \<Rightarrow> 'v \<Rightarrow> 'v obj_store \<Rightarrow> 'v obj_store" where
  "create_artifact key v s = (case create_json s key v of Some s' \<Rightarrow> s' | None \<Rightarrow> s)"

section \<open>The pipeline\<close>

record ing_env =
  en_parse :: "string \<Rightarrow> string + string"
  en_put_parsed :: "string option"
  en_chunk :: "ident \<Rightarrow> string \<Rightarrow> string \<Rightarrow> string + chunk list"
  en_put_chunks :: "string option"
  en_embed :: "string option"
  en_batch_size :: nat
  en_upsert_fails :: "nat option"
  en_put_manifest :: "string option"
  en_success_fails :: "nat option"
  en_failure_event_ok :: bool
  en_cleanup_ok :: bool
  en_failed_cleanup_ok :: bool
  en_rollback_ok :: bool
  en_timestamp :: string
  en_ingestion_id :: ident

type_synonym step = "corpus \<Rightarrow> (ing_error + unit) \<times> corpus"

fun run_steps :: "step list \<Rightarrow> corpus \<Rightarrow> (ing_error + unit) \<times> corpus" where
  "run_steps [] c = (Inr (), c)"
| "run_steps (f # fs) c = (case f c of (Inl e, c') \<Rightarrow> (Inl e, c') | (Inr (), c') \<Rightarrow> run_steps fs c')"

definition external :: "string option \<Rightarrow> step" where
  "external failure c = (case failure of None \<Rightarrow> (Inr (), c) | Some msg \<Rightarrow> (Inl (OtherError msg), c))"

definition parsed_of :: "ing_env \<Rightarrow> string \<Rightarrow> string" where
  "parsed_of env content = (case en_parse env content of Inr m \<Rightarrow> m | Inl _ \<Rightarrow> [])"

definition chunks_of :: "ing_env \<Rightarrow> document_record \<Rightarrow> string \<Rightarrow> chunk list" where
  "chunks_of env r content =
     (case en_chunk env (d_id r) (d_version r) (parsed_of env content) of Inr cs \<Rightarrow> cs | Inl _ \<Rightarrow> [])"

fun failure_of :: "'e + 'a \<Rightarrow> 'e option" where
  "failure_of (Inl e) = Some e"
| "failure_of (Inr _) = None"

definition upsert_step :: "ing_env \<Rightarrow> chunk list \<Rightarrow> step" where
  "upsert_step env cs c =
     (case index_upsert (en_batch_size env) (en_upsert_fails env) cs (kb_vectors c) of
        (True, vs) \<Rightarrow> (Inr (), c\<lparr>kb_vectors := vs\<rparr>)
      | (False, vs) \<Rightarrow> (Inl (OtherError ''upsert''), c\<lparr>kb_vectors := vs\<rparr>))"

definition put_chunks_step :: "ing_env \<Rightarrow> document_record \<Rightarrow> chunk list \<Rightarrow> step" where
  "put_chunks_step env r cs c =
     (case en_put_chunks env of
        Some msg \<Rightarrow> (Inl (OtherError msg), c)
      | None \<Rightarrow> (Inr (), c\<lparr>kb_chunks := (kb_chunks c)((d_id r, d_version r) \<mapsto> cs)\<rparr>))"

definition manifest_of :: "ing_env \<Rightarrow> ident \<Rightarrow> string \<Rightarrow> doc_version" where
  "manifest_of env d version =
     \<lparr>dv_document_id = d, dv_version = version, dv_created_at = en_timestamp env, dv_indexed = True,
      dv_vectors_present = True, dv_source_retained = True\<rparr>"

definition record_ingestion_event :: "ing_env \<Rightarrow> ident \<Rightarrow> string \<Rightarrow> event_status \<Rightarrow> string option \<Rightarrow> corpus \<Rightarrow> corpus" where
  "record_ingestion_event env d version status err c =
     c\<lparr>kb_events := create_artifact (ingestion_event_key d (en_ingestion_id env))
          \<lparr>ie_id = en_ingestion_id env, ie_document_id = d, ie_version = version, ie_status = status,
           ie_timestamp = en_timestamp env, ie_error = err\<rparr> (kb_events c)\<rparr>"

text \<open>\<open>_record_ingestion_success\<close>: manifest, event, index; \<open>en_success_fails\<close> is the number of these
  writes that landed before one raised.\<close>

definition record_ingestion_success :: "ing_env \<Rightarrow> ident \<Rightarrow> string \<Rightarrow> step" where
  "record_ingestion_success env d version c =
     (let c1 = c\<lparr>kb_manifests := create_artifact (document_version_key d version) (manifest_of env d version) (kb_manifests c)\<rparr>;
          c2 = record_ingestion_event env d version Succeeded None c1
      in case en_success_fails env of
           Some 0 \<Rightarrow> (Inl (OtherError ''manifest''), c)
         | Some (Suc 0) \<Rightarrow> (Inl (OtherError ''event''), c1)
         | Some _ \<Rightarrow> (Inl (OtherError ''index''), c2)
         | None \<Rightarrow> cas_update_index d (activate_mutation d (manifest_of env d version)) c2)"

definition at_status :: "document_record \<Rightarrow> doc_status \<Rightarrow> document_record" where
  "at_status r s = r\<lparr>d_status := s, d_error := None\<rparr>"

definition final_record :: "document_record \<Rightarrow> document_record" where
  "final_record r = r\<lparr>d_status := Indexed, d_active := Some (d_version r), d_error := None\<rparr>"

text \<open>Everything the \<open>try\<close> block does before the publication switch, the switch, and what follows.\<close>

definition staging_steps :: "nat \<Rightarrow> ing_env \<Rightarrow> document_record \<Rightarrow> string \<Rightarrow> step list" where
  "staging_steps p env r content =
     [save_document_record p (at_status r Parsing),
      external (failure_of (en_parse env content)),
      external (en_put_parsed env),
      save_document_record p (at_status r Chunking),
      external (failure_of (en_chunk env (d_id r) (d_version r) (parsed_of env content))),
      put_chunks_step env r (chunks_of env r content),
      save_document_record p (at_status r Embedding),
      external (en_embed env),
      upsert_step env (chunks_of env r content),
      external (en_put_manifest env)]"

definition ingestion_steps :: "nat \<Rightarrow> ing_env \<Rightarrow> document_record \<Rightarrow> string \<Rightarrow> step list" where
  "ingestion_steps p env r content =
     staging_steps p env r content @
     [save_document_record p (final_record r), record_ingestion_success env (d_id r) (d_version r)]"

definition cleanup_superseded :: "ing_env \<Rightarrow> ident \<Rightarrow> string \<Rightarrow> corpus \<Rightarrow> corpus" where
  "cleanup_superseded env d keep c =
     (if en_cleanup_ok env then c\<lparr>kb_vectors := index_delete_except_version d keep (kb_vectors c)\<rparr> else c)"

definition cleanup_failed_version :: "ing_env \<Rightarrow> ident \<Rightarrow> string \<Rightarrow> corpus \<Rightarrow> corpus" where
  "cleanup_failed_version env d version c =
     (if en_failed_cleanup_ok env then c\<lparr>kb_vectors := index_delete_version d version (kb_vectors c)\<rparr> else c)"

definition placeholder_record :: "ident \<Rightarrow> doc_status \<Rightarrow> document_record" where
  "placeholder_record d s = \<lparr>d_id = d, d_title = [], d_version = [], d_uri = [], d_status = s,
                             d_error = None, d_active = None, d_owner = None\<rparr>"

definition abort_for_deleted :: "nat \<Rightarrow> ing_env \<Rightarrow> ident \<Rightarrow> corpus \<Rightarrow> document_record \<times> corpus" where
  "abort_for_deleted p env d c =
     (let c1 = (if en_rollback_ok env then c\<lparr>kb_vectors := index_delete_document d (kb_vectors c)\<rparr> else c)
      in case get_document p d c1 of
           (Some r, c2) \<Rightarrow> (r, c2)
         | (None, c2) \<Rightarrow> (placeholder_record d Deleted, c2))"

definition abort_for_superseded :: "nat \<Rightarrow> ident \<Rightarrow> corpus \<Rightarrow> document_record \<times> corpus" where
  "abort_for_superseded p d c =
     (case get_document p d c of
        (Some r, c2) \<Rightarrow> (r, c2)
      | (None, c2) \<Rightarrow> (placeholder_record d Queued, c2))"

definition failed_record :: "document_record \<Rightarrow> string \<Rightarrow> document_record" where
  "failed_record r msg = r\<lparr>d_status := Failed, d_error := Some msg\<rparr>"

definition handle_failure :: "nat \<Rightarrow> ing_env \<Rightarrow> document_record \<Rightarrow> string \<Rightarrow> corpus
    \<Rightarrow> (ing_error + document_record) \<times> corpus" where
  "handle_failure p env r msg c =
     (case save_document_record p (failed_record r msg) c of
        (Inl (DocumentDeletedError _), c1) \<Rightarrow>
          (case abort_for_deleted p env (d_id r) c1 of (x, c2) \<Rightarrow> (Inr x, c2))
      | (Inl (StaleIngestionError _ _ _), c1) \<Rightarrow>
          (case abort_for_superseded p (d_id r) c1 of (x, c2) \<Rightarrow> (Inr x, c2))
      | (Inl e, c1) \<Rightarrow> (Inl e, c1)
      | (Inr (), c1) \<Rightarrow>
          if \<not> en_failure_event_ok env then (Inl (OtherError ''event''), c1)
          else (Inl (OtherError msg),
                cleanup_failed_version env (d_id r) (d_version r)
                  (record_ingestion_event env (d_id r) (d_version r) FailedEvent (Some msg) c1)))"

definition error_text :: "ing_error \<Rightarrow> string" where
  "error_text e = (case e of OtherError msg \<Rightarrow> msg | VersionNotFoundError _ v \<Rightarrow> v | _ \<Rightarrow> [])"

definition run_ingestion :: "nat \<Rightarrow> ing_env \<Rightarrow> document_record \<Rightarrow> string \<Rightarrow> corpus
    \<Rightarrow> (ing_error + document_record) \<times> corpus" where
  "run_ingestion p env r content c =
     (case run_steps (ingestion_steps p env r content) c of
        (Inr (), c1) \<Rightarrow> (Inr (final_record r), cleanup_superseded env (d_id r) (d_version r) c1)
      | (Inl (DocumentDeletedError _), c1) \<Rightarrow>
          (case abort_for_deleted p env (d_id r) c1 of (x, c2) \<Rightarrow> (Inr x, c2))
      | (Inl (StaleIngestionError _ _ _), c1) \<Rightarrow>
          (case abort_for_superseded p (d_id r) c1 of (x, c2) \<Rightarrow> (Inr x, c2))
      | (Inl e, c1) \<Rightarrow> handle_failure p env r (error_text e) c1)"

text \<open>The source bytes, under the uploaded name or under the legacy one.\<close>

definition get_raw :: "ident \<Rightarrow> string \<Rightarrow> string \<Rightarrow> corpus \<Rightarrow> string option" where
  "get_raw d version filename c =
     (case kb_raw c (raw_document_key d version filename) of
        Some content \<Rightarrow> Some content
      | None \<Rightarrow> kb_raw c (raw_document_key d version ''source.pdf''))"

definition process_document_job :: "nat \<Rightarrow> ing_env \<Rightarrow> ingestion_job \<Rightarrow> corpus
    \<Rightarrow> (ing_error + document_record) \<times> corpus" where
  "process_document_job p env job c =
     (case get_document p (jb_document_id job) c of
        (None, c1) \<Rightarrow> (Inl (OtherError ''Document record not found''), c1)
      | (Some r, c1) \<Rightarrow>
          if d_status r = Deleted then (Inl (DocumentDeletedError (jb_document_id job)), c1)
          else if d_version r \<noteq> jb_version job
          then (Inl (StaleIngestionError (jb_document_id job) (jb_version job) (d_version r)), c1)
          else (case get_raw (jb_document_id job) (jb_version job) (jb_filename job) c1 of
                  Some content \<Rightarrow> run_ingestion p env r content c1
                | None \<Rightarrow>
                    (case save_document_record p (failed_record r ''not found'') c1 of
                       (Inl e, c2) \<Rightarrow> (Inl e, c2)
                     | (Inr (), c2) \<Rightarrow> (Inl (OtherError ''not found''), c2))))"

section \<open>Restore and history\<close>

definition load_version_index :: "ident \<Rightarrow> corpus \<Rightarrow> version_index option" where
  "load_version_index d c = key_cell (document_version_index_key d) (kb_indexes c)"

definition reindex_version :: "ing_env \<Rightarrow> ident \<Rightarrow> string \<Rightarrow> corpus \<Rightarrow> (ing_error + unit) \<times> corpus" where
  "reindex_version env d version c =
     (case kb_chunks c (d, version) of
        None \<Rightarrow> (Inl (OtherError ''No retained content''), c)
      | Some cs \<Rightarrow>
          if cs = [] then (Inl (OtherError ''No retained content''), c)
          else (case en_embed env of
                  Some msg \<Rightarrow> (Inl (OtherError msg), c)
                | None \<Rightarrow> upsert_step env cs c))"

definition restored_record :: "document_record \<Rightarrow> string \<Rightarrow> document_record" where
  "restored_record r version = r\<lparr>d_active := Some version, d_status := Indexed, d_error := None\<rparr>"

definition restore_steps :: "nat \<Rightarrow> ing_env \<Rightarrow> document_record \<Rightarrow> doc_version \<Rightarrow> ident \<Rightarrow> string \<Rightarrow> step list" where
  "restore_steps p env r target d version =
     (if dv_vectors_present target then [] else [reindex_version env d version]) @
     [cas_update_index d (activate_existing_mutation d version),
      save_document_record p (restored_record r version)]"

definition restore_version :: "nat \<Rightarrow> ing_env \<Rightarrow> ident \<Rightarrow> string \<Rightarrow> corpus
    \<Rightarrow> (ing_error + document_record option) \<times> corpus" where
  "restore_version p env d version c =
     (case get_document p d c of
        (None, c1) \<Rightarrow> (Inr None, c1)
      | (Some r, c1) \<Rightarrow>
          if d_status r = Deleted then (Inr None, c1)
          else (case (case load_version_index d c1 of
                        None \<Rightarrow> None
                      | Some i \<Rightarrow> find (\<lambda>v. dv_version v = version) (vi_versions i)) of
             None \<Rightarrow> (Inl (VersionNotFoundError d version), c1)
           | Some target \<Rightarrow>
               (case run_steps (restore_steps p env r target d version) c1 of
                  (Inl e, c2) \<Rightarrow> (Inl e, c2)
                | (Inr (), c2) \<Rightarrow> (Inr (Some (restored_record r version)), c2))))"

record document_history =
  dh_document_id :: ident
  dh_active :: "string option"
  dh_versions :: "doc_version list"
  dh_events :: "ingestion_event list"

text \<open>\<open>keys\<close> is the store's listing of the document's ingestion events.\<close>

definition get_document_history :: "nat \<Rightarrow> (ident \<Rightarrow> string list) \<Rightarrow> (string \<Rightarrow> int) \<Rightarrow> ident \<Rightarrow> corpus
    \<Rightarrow> document_history option \<times> corpus" where
  "get_document_history p keys rank d c =
     (case get_document p d c of
        (None, c1) \<Rightarrow> (None, c1)
      | (Some r, c1) \<Rightarrow>
          if d_status r = Deleted then (None, c1)
          else let index = load_version_index d c1;
                   versions = (case index of None \<Rightarrow> [] | Some i \<Rightarrow> vi_versions i);
                   active = (case index of None \<Rightarrow> published_version_of (Some r) | Some i \<Rightarrow> vi_active i);
                   events = concat (map (\<lambda>k. case key_cell k (kb_events c1) of None \<Rightarrow> [] | Some e \<Rightarrow> [e]) (keys d))
               in (Some \<lparr>dh_document_id = d, dh_active = active,
                         dh_versions = sort_key (\<lambda>v. - rank (dv_created_at v)) versions,
                         dh_events = sort_key (\<lambda>e. - rank (ie_timestamp e)) events\<rparr>, c1))"

end
