(* ===== verification/Publication.thy ===== *)
theory Publication
  imports Ingestion
begin

text \<open>
  What readers see of a document while the pipeline of \<^theory_text>\<open>Ingestion\<close> runs: the vectors of its
  published version. The lemmas follow one job through its stages, then the properties state that
  publication is all or nothing, that deletion is final, and what the version index keeps; the last
  section proves where the code loses content or drops a job.
\<close>

section \<open>Visible content\<close>

definition visible :: "ident \<Rightarrow> corpus \<Rightarrow> (ident \<rightharpoonup> chunk)" where
  "visible d c = drop_vectors (\<lambda>ch. ck_document_id ch \<noteq> d \<or>
      published_version_of (stored_record c d) \<noteq> Some (ck_version ch)) (kb_vectors c)"

definition of_version :: "ident \<Rightarrow> string \<Rightarrow> (ident \<rightharpoonup> chunk) \<Rightarrow> (ident \<rightharpoonup> chunk)" where
  "of_version d v = drop_vectors (\<lambda>ch. ck_document_id ch \<noteq> d \<or> ck_version ch \<noteq> v)"

lemma drop_drop: "drop_vectors p (drop_vectors q vs) = drop_vectors (\<lambda>ch. p ch \<or> q ch) vs"
  by (rule ext) (simp add: drop_vectors_def split: option.splits)

text \<open>Content of another version than the published one does not show.\<close>

lemma visible_cong:
  assumes "published_version_of (stored_record c' d') = published_version_of (stored_record c d')"
    "index_delete_version d v (kb_vectors c') = index_delete_version d v (kb_vectors c)"
    "d' \<noteq> d \<or> published_version_of (stored_record c d') \<noteq> Some v"
  shows "visible d' c' = visible d' c"
proof -
  have "visible d' x = drop_vectors (\<lambda>ch. ck_document_id ch \<noteq> d' \<or>
      published_version_of (stored_record c d') \<noteq> Some (ck_version ch)) (index_delete_version d v (kb_vectors x))"
    if "published_version_of (stored_record x d') = published_version_of (stored_record c d')" for x
    unfolding visible_def index_delete_version_def drop_drop that
    by (rule arg_cong2[where f = drop_vectors]) (use assms(3) in auto)
  then show ?thesis using assms(1,2) by simp
qed

lemma visible_published:
  "published_version_of (stored_record c d) = Some v \<Longrightarrow> visible d c = of_version d v (kb_vectors c)"
  unfolding visible_def of_version_def by (rule arg_cong2[where f = drop_vectors]) auto

lemma visible_unpublished: "published_version_of (stored_record c d) = None \<Longrightarrow> visible d c = Map.empty"
  by (auto simp: visible_def drop_vectors_def split: option.splits)

lemma delete_version_twice [simp]:
  "index_delete_version d v (index_delete_version d v vs) = index_delete_version d v vs"
  by (simp add: index_delete_version_def drop_drop)

lemma of_version_except [simp]: "of_version d v (index_delete_except_version d v vs) = of_version d v vs"
  unfolding of_version_def index_delete_except_version_def drop_drop
  by (rule arg_cong2[where f = drop_vectors]) auto

lemma of_version_deleted [simp]: "of_version d v (index_delete_version d v vs) = Map.empty"
  by (auto simp: of_version_def index_delete_version_def drop_vectors_def split: option.splits)

section \<open>Upserts\<close>

lemma put_vectors_simps [simp]:
  "put_vectors [] vs = vs"
  "put_vectors (a # cs) vs = put_vectors cs (vs(ck_id a \<mapsto> a))"
  by (simp_all add: put_vectors_def)

lemma put_vectors_append: "put_vectors (as @ bs) vs = put_vectors bs (put_vectors as vs)"
  by (simp add: put_vectors_def)

lemma fold_put_vectors: "fold put_vectors bs vs = put_vectors (concat bs) vs"
  by (induction bs arbitrary: vs) (simp_all add: put_vectors_append)

lemma concat_batches: "0 < n \<Longrightarrow> length xs \<le> fuel \<Longrightarrow> concat (batches n xs fuel) = xs"
  by (induction n xs fuel rule: batches.induct) auto

lemma set_batches: "set (concat (batches n xs fuel)) \<subseteq> set xs"
  by (induction n xs fuel rule: batches.induct) (auto dest: in_set_takeD in_set_dropD)

lemma index_upsert_cases:
  assumes "index_upsert n fails cs vs = (b, vs')"
  obtains sent where "set sent \<subseteq> set cs" "vs' = put_vectors sent vs" "b \<Longrightarrow> 0 < n \<Longrightarrow> sent = cs"
proof (cases b)
  case True
  then have v: "vs' = put_vectors (concat (batches n cs (length cs))) vs"
    using assms by (auto simp: index_upsert_def Let_def fold_put_vectors split: option.splits if_splits)
  show ?thesis by (rule that[OF set_batches v]) (simp add: concat_batches)
next
  case False
  then obtain k where v: "vs' = put_vectors (concat (take k (batches n cs (length cs)))) vs"
    using assms by (auto simp: index_upsert_def Let_def fold_put_vectors split: option.splits if_splits)
  have "set (concat (take k (batches n cs (length cs)))) \<subseteq> set cs"
    using set_batches[of n cs "length cs"] by (auto dest: in_set_takeD)
  then show ?thesis by (rule that[OF _ v]) (use False in simp)
qed

definition chunks_ok :: "ident \<Rightarrow> string \<Rightarrow> chunk list \<Rightarrow> (ident \<rightharpoonup> chunk) \<Rightarrow> bool" where
  "chunks_ok d v cs vs \<longleftrightarrow>
     (\<forall>ch \<in> set cs. ck_document_id ch = d \<and> ck_version ch = v \<and>
        (case vs (ck_id ch) of None \<Rightarrow> True | Some old \<Rightarrow> ck_document_id old = d \<and> ck_version old = v))"

lemma put_vectors_frame:
  "chunks_ok d v cs vs \<Longrightarrow> index_delete_version d v (put_vectors cs vs) = index_delete_version d v vs"
proof (induction cs arbitrary: vs)
  case (Cons a cs)
  have ok: "chunks_ok d v cs (vs(ck_id a \<mapsto> a))" using Cons.prems by (auto simp: chunks_ok_def)
  have "index_delete_version d v (vs(ck_id a \<mapsto> a)) = index_delete_version d v vs"
    using Cons.prems by (auto simp: chunks_ok_def index_delete_version_def drop_vectors_def split: option.splits)
  then show ?case using Cons.IH[OF ok] by (simp del: fun_upd_apply)
qed simp

lemma put_vectors_of_version:
  "chunks_ok d v cs vs \<Longrightarrow> of_version d v (put_vectors cs vs) = put_vectors cs (of_version d v vs)"
proof (induction cs arbitrary: vs)
  case (Cons a cs)
  have ok: "chunks_ok d v cs (vs(ck_id a \<mapsto> a))" using Cons.prems by (auto simp: chunks_ok_def)
  have "of_version d v (vs(ck_id a \<mapsto> a)) = (of_version d v vs)(ck_id a \<mapsto> a)"
    using Cons.prems by (auto simp: chunks_ok_def of_version_def drop_vectors_def)
  then show ?case using Cons.IH[OF ok] by (simp del: fun_upd_apply)
qed simp

lemma chunks_ok_cong:
  "index_delete_version d v vs' = index_delete_version d v vs \<Longrightarrow> chunks_ok d v cs vs \<Longrightarrow> chunks_ok d v cs vs'"
proof -
  assume e: "index_delete_version d v vs' = index_delete_version d v vs" and ok: "chunks_ok d v cs vs"
  have "ck_document_id old = d \<and> ck_version old = v" if "ch \<in> set cs" "vs' (ck_id ch) = Some old" for ch old
    using fun_cong[OF e, of "ck_id ch"] ok that
    by (auto simp: chunks_ok_def index_delete_version_def drop_vectors_def split: option.splits if_splits)
  then show ?thesis using ok by (auto simp: chunks_ok_def split: option.splits)
qed

lemma chunks_ok_subset: "set sent \<subseteq> set cs \<Longrightarrow> chunks_ok d v cs vs \<Longrightarrow> chunks_ok d v sent vs"
  by (auto simp: chunks_ok_def)

section \<open>The pipeline, stage by stage\<close>

text \<open>A job of a version that is not the published one, running on the record it was given.\<close>

definition ready :: "document_record \<Rightarrow> corpus \<Rightarrow> bool" where
  "ready r c \<longleftrightarrow> stored_record c (d_id r) = Some r \<and> d_status r \<noteq> Deleted \<and>
     published_version_of (Some r) \<noteq> Some (d_version r)"

definition staged :: "document_record \<Rightarrow> corpus \<Rightarrow> corpus \<Rightarrow> bool" where
  "staged r c c' \<longleftrightarrow>
     (\<exists>s e. stored_record c' (d_id r) = Some (r\<lparr>d_status := s, d_error := e\<rparr>) \<and> s \<noteq> Deleted) \<and>
     published_version_of (stored_record c' (d_id r)) = published_version_of (Some r) \<and>
     (\<forall>d. d \<noteq> d_id r \<longrightarrow> stored_record c' d = stored_record c d) \<and>
     index_delete_version (d_id r) (d_version r) (kb_vectors c') =
       index_delete_version (d_id r) (d_version r) (kb_vectors c)"

lemma staged_refl: "ready r c \<Longrightarrow> staged r c c"
  unfolding ready_def staged_def by (metis document_record.surjective document_record.update_convs(5,6))

lemma staged_visible:
  assumes "ready r c" "staged r c c'"
  shows "visible d c' = visible d c"
  by (rule visible_cong[where d = "d_id r" and v = "d_version r"]; cases "d = d_id r")
    (use assms in \<open>auto simp: ready_def staged_def\<close>)

lemma staged_frame:
  "staged r c c1 \<Longrightarrow> kb_records c2 = kb_records c1 \<Longrightarrow>
   index_delete_version (d_id r) (d_version r) (kb_vectors c2) =
     index_delete_version (d_id r) (d_version r) (kb_vectors c1) \<Longrightarrow> staged r c c2"
  by (simp add: staged_def stored_record_def)

lemma published_live:
  "ready r c \<Longrightarrow> s \<notin> {Indexed, Deleted} \<Longrightarrow>
   published_version_of (Some (r\<lparr>d_status := s, d_error := e\<rparr>)) = published_version_of (Some r)"
  by (auto simp: published_version_of_def ready_def split: option.splits if_splits)

lemma staged_accepts:
  "staged r c c1 \<Longrightarrow> d_id w = d_id r \<Longrightarrow> d_version w = d_version r \<Longrightarrow>
   save_document_record p w c1 =
     (Inr (), set_cache p w (c1\<lparr>kb_records := put_json (kb_records c1) (document_record_key (d_id r)) w\<rparr>))"
  by (auto simp: save_document_record_eq staged_def reject_illegal_write_def)

lemma save_vectors: "save_document_record p w c = (res, c') \<Longrightarrow> kb_vectors c' = kb_vectors c"
  using save_frame(1)[of p w c] by simp

lemma staged_save:
  assumes "ready r c" "staged r c c1" "s \<notin> {Indexed, Deleted}"
    "save_document_record p (r\<lparr>d_status := s, d_error := e\<rparr>) c1 = (res, c2)"
  shows "res = Inr ()" "staged r c c2"
proof -
  let ?w = "r\<lparr>d_status := s, d_error := e\<rparr>"
  have w: "save_document_record p ?w c1 =
     (Inr (), set_cache p ?w (c1\<lparr>kb_records := put_json (kb_records c1) (document_record_key (d_id ?w)) ?w\<rparr>))"
    using staged_accepts[OF assms(2), of ?w p] by simp
  then show "res = Inr ()" using assms(4) by simp
  have c2: "stored_record c2 d = (if d = d_id r then Some ?w else stored_record c1 d)" for d
    using stored_record_put[of p ?w c1 d] w assms(4) by simp
  show "staged r c c2"
    using assms(2) c2 save_vectors[OF assms(4)] published_live[OF assms(1,3)] assms(3)
    by (auto simp: staged_def)
qed

text \<open>Every stage before the publication switch keeps the job staged, and fails only by itself.\<close>

lemma run_steps_inv:
  assumes "\<And>f x res x'. f \<in> set fs \<Longrightarrow> P x \<Longrightarrow> f x = (res, x') \<Longrightarrow> P x' \<and> (\<forall>e. res = Inl e \<longrightarrow> Q e)"
    "P x" "run_steps fs x = (res, x')"
  shows "P x' \<and> (\<forall>e. res = Inl e \<longrightarrow> Q e)"
  using assms
proof (induction fs arbitrary: x)
  case (Cons f fs)
  obtain r1 x1 where f: "f x = (r1, x1)" by (cases "f x")
  have p: "P x1 \<and> (\<forall>e. r1 = Inl e \<longrightarrow> Q e)" by (rule Cons.prems(1)[where f = f and x = x]) (simp_all add: Cons.prems(2) f)
  show ?case
  proof (cases r1)
    case (Inl e)
    then show ?thesis using Cons.prems(3) f p by auto
  next
    case (Inr u)
    have r: "run_steps fs x1 = (res, x')" using Cons.prems(3) f Inr by (simp split: unit.splits)
    show ?thesis
    proof (rule Cons.IH[OF _ _ r])
      fix g y res y' assume "g \<in> set fs" "P y" "g y = (res, y')"
      then show "P y' \<and> (\<forall>e. res = Inl e \<longrightarrow> Q e)" by (intro Cons.prems(1)[where f = g and x = y]) simp_all
    qed (use p in simp)
  qed
qed auto

abbreviation own_error :: "ing_error \<Rightarrow> bool" where
  "own_error e \<equiv> \<exists>msg. e = OtherError msg"

lemma upsert_step_cases:
  assumes "upsert_step env cs c = (res, c')"
  obtains sent where "set sent \<subseteq> set cs" "c' = c\<lparr>kb_vectors := put_vectors sent (kb_vectors c)\<rparr>"
    "res = Inr () \<Longrightarrow> 0 < en_batch_size env \<Longrightarrow> sent = cs" "\<And>e. res = Inl e \<Longrightarrow> own_error e"
proof -
  obtain b vs where u: "index_upsert (en_batch_size env) (en_upsert_fails env) cs (kb_vectors c) = (b, vs)"
    by (cases "index_upsert (en_batch_size env) (en_upsert_fails env) cs (kb_vectors c)")
  obtain sent where s: "set sent \<subseteq> set cs" "vs = put_vectors sent (kb_vectors c)"
    "b \<Longrightarrow> 0 < en_batch_size env \<Longrightarrow> sent = cs" using index_upsert_cases[OF u] by blast
  show ?thesis by (rule that[OF s(1)]) (use assms u s in \<open>auto simp: upsert_step_def split: bool.splits\<close>)
qed

lemma staged_upsert:
  assumes "staged r c c1" "chunks_ok (d_id r) (d_version r) cs (kb_vectors c)" "upsert_step env cs c1 = (res, c2)"
  shows "staged r c c2 \<and> (\<forall>e. res = Inl e \<longrightarrow> own_error e)"
proof -
  obtain sent where s: "set sent \<subseteq> set cs" "c2 = c1\<lparr>kb_vectors := put_vectors sent (kb_vectors c1)\<rparr>"
    "\<And>e. res = Inl e \<Longrightarrow> own_error e" using upsert_step_cases[OF assms(3)] by metis
  have "chunks_ok (d_id r) (d_version r) sent (kb_vectors c1)"
    by (rule chunks_ok_subset[OF s(1) chunks_ok_cong[OF _ assms(2)]]) (use assms(1) in \<open>simp add: staged_def\<close>)
  then have "staged r c c2" by (intro staged_frame[OF assms(1)]) (simp_all add: s(2) put_vectors_frame)
  then show ?thesis using s(3) by blast
qed

lemma staged_external:
  "staged r c c1 \<Longrightarrow> external m c1 = (res, c2) \<Longrightarrow> staged r c c2 \<and> (\<forall>e. res = Inl e \<longrightarrow> own_error e)"
  by (auto simp: external_def split: option.splits)

lemma staged_put_chunks:
  "staged r c c1 \<Longrightarrow> put_chunks_step env r cs c1 = (res, c2) \<Longrightarrow> staged r c c2 \<and> (\<forall>e. res = Inl e \<longrightarrow> own_error e)"
  by (auto simp: put_chunks_step_def intro: staged_frame split: option.splits)

lemma staged_at_status:
  assumes "ready r c" "staged r c c1" "s \<notin> {Indexed, Deleted}" "save_document_record p (at_status r s) c1 = (res, c2)"
  shows "staged r c c2 \<and> (\<forall>e. res = Inl e \<longrightarrow> own_error e)"
  using staged_save[OF assms(1-3) assms(4)[unfolded at_status_def]] by simp

lemma staging_step:
  assumes "ready r c" "chunks_ok (d_id r) (d_version r) (chunks_of env r content) (kb_vectors c)"
    "f \<in> set (staging_steps p env r content)" "staged r c c1" "f c1 = (res, c2)"
  shows "staged r c c2 \<and> (\<forall>e. res = Inl e \<longrightarrow> own_error e)"
proof -
  consider (save) s where "f = save_document_record p (at_status r s)" "s \<notin> {Indexed, Deleted}"
    | (external) m where "f = external m" | (put) "f = put_chunks_step env r (chunks_of env r content)"
    | (upsert) "f = upsert_step env (chunks_of env r content)"
    using assms(3) unfolding staging_steps_def by auto
  then show ?thesis
  proof cases
    case (save s)
    then show ?thesis using staged_at_status[OF assms(1,4)] assms(5) by blast
  next
    case (external m)
    then show ?thesis using staged_external[OF assms(4)] assms(5) by blast
  next
    case put
    then show ?thesis using staged_put_chunks[OF assms(4)] assms(5) by blast
  next
    case upsert
    then show ?thesis using staged_upsert[OF assms(4,2)] assms(5) by blast
  qed
qed

lemma staging_prefix:
  assumes "ready r c" "chunks_ok (d_id r) (d_version r) (chunks_of env r content) (kb_vectors c)"
    "run_steps (take k (staging_steps p env r content)) c = (res, c')"
  shows "staged r c c' \<and> (\<forall>e. res = Inl e \<longrightarrow> own_error e)"
  by (rule run_steps_inv[where P = "staged r c", OF _ staged_refl[OF assms(1)] assms(3)])
    (metis staging_step[OF assms(1,2)] in_set_takeD)

text \<open>What remains true after the publication switch: the document is still this job's.\<close>

definition owned :: "document_record \<Rightarrow> corpus \<Rightarrow> corpus \<Rightarrow> bool" where
  "owned r c c' \<longleftrightarrow>
     (\<exists>w. stored_record c' (d_id r) = Some w \<and> d_version w = d_version r \<and> d_status w \<noteq> Deleted) \<and>
     (\<forall>d. d \<noteq> d_id r \<longrightarrow> stored_record c' d = stored_record c d) \<and>
     index_delete_version (d_id r) (d_version r) (kb_vectors c') =
       index_delete_version (d_id r) (d_version r) (kb_vectors c)"

lemma staged_owned: "staged r c c' \<Longrightarrow> owned r c c'"
  by (auto simp: staged_def owned_def)

lemma owned_frame:
  "owned r c c1 \<Longrightarrow> kb_records c2 = kb_records c1 \<Longrightarrow> kb_vectors c2 = kb_vectors c1 \<Longrightarrow> owned r c c2"
  by (simp add: owned_def stored_record_def)

lemma owned_save:
  assumes "owned r c c1" "d_id w = d_id r" "d_version w = d_version r" "d_status w \<noteq> Deleted"
    "save_document_record p w c1 = (res, c2)"
  shows "res = Inr ()" "owned r c c2" "stored_record c2 (d_id r) = Some w" "kb_vectors c2 = kb_vectors c1"
proof -
  have w: "save_document_record p w c1 =
     (Inr (), set_cache p w (c1\<lparr>kb_records := put_json (kb_records c1) (document_record_key (d_id w)) w\<rparr>))"
    using assms(1-4) by (auto simp: save_document_record_eq owned_def reject_illegal_write_def)
  then show "res = Inr ()" using assms(5) by simp
  have c2: "stored_record c2 d = (if d = d_id w then Some w else stored_record c1 d)" for d
    using stored_record_put[of p w c1 d] w assms(5) by simp
  then show "stored_record c2 (d_id r) = Some w" using assms(2) by simp
  show v: "kb_vectors c2 = kb_vectors c1" by (rule save_vectors[OF assms(5)])
  show "owned r c c2" using assms(1-4) c2 v by (auto simp: owned_def)
qed

lemma owned_failure:
  assumes "ready r c" "owned r c c1" "handle_failure p env r msg c1 = (res, c2)"
  shows "\<exists>e. res = Inl e" "staged r c c2"
proof -
  let ?w = "failed_record r msg"
  obtain rs c3 where s: "save_document_record p ?w c1 = (rs, c3)" by (cases "save_document_record p ?w c1")
  have o: "rs = Inr ()" "owned r c c3" "stored_record c3 (d_id r) = Some ?w"
    using owned_save[OF assms(2) _ _ _ s] by (auto simp: failed_record_def)
  have "published_version_of (Some ?w) = published_version_of (Some r)"
    unfolding failed_record_def by (rule published_live[OF assms(1)]) simp
  then have st: "staged r c c3"
    unfolding staged_def
    by (intro conjI exI[of _ Failed] exI[of _ "Some msg"]) (use o(2,3) in \<open>simp_all add: owned_def failed_record_def\<close>)
  have r: "(res, c2) = (if \<not> en_failure_event_ok env then (Inl (OtherError ''event''), c3)
      else (Inl (OtherError msg), cleanup_failed_version env (d_id r) (d_version r)
              (record_ingestion_event env (d_id r) (d_version r) FailedEvent (Some msg) c3)))"
    using assms(3) s o(1) by (simp add: handle_failure_def)
  show "\<exists>e. res = Inl e" using r by (simp split: if_splits)
  show "staged r c c2"
    by (rule staged_frame[OF st])
      (use r in \<open>simp_all add: cleanup_failed_version_def record_ingestion_event_def split: if_splits\<close>)
qed

lemma run_steps_append:
  "run_steps (fs @ gs) c =
     (case run_steps fs c of (Inl e, c') \<Rightarrow> (Inl e, c') | (Inr (), c') \<Rightarrow> run_steps gs c')"
proof (induction fs arbitrary: c)
  case (Cons f fs)
  obtain r1 c1 where f: "f c = (r1, c1)" by (cases "f c")
  show ?case by (cases r1) (simp_all add: f Cons.IH split: unit.splits)
qed (simp split: unit.splits)

lemma cas_update_index_frame:
  "cas_update_index d mutate c = (res, c') \<Longrightarrow> kb_records c' = kb_records c \<and> kb_vectors c' = kb_vectors c"
  by (auto simp: cas_update_index_def split: prod.splits sum.splits cas_error.splits)

lemma record_ingestion_success_frame:
  assumes "record_ingestion_success env d v c = (res, c')"
  shows "kb_records c' = kb_records c \<and> kb_vectors c' = kb_vectors c \<and> (\<forall>e. res = Inl e \<longrightarrow> own_error e)"
  using assms
  by (auto simp: record_ingestion_success_def record_ingestion_event_def Let_def cas_update_index_def
      update_json_cas_alone activate_mutation_def split: option.splits nat.splits sum.splits)

lemma staging_vectors:
  assumes "ready r c" "chunks_ok (d_id r) (d_version r) (chunks_of env r content) (kb_vectors c)"
    "0 < en_batch_size env" "run_steps (staging_steps p env r content) c = (Inr (), c')"
  shows "kb_vectors c' = put_vectors (chunks_of env r content) (kb_vectors c)"
proof -
  let ?pre = "take 8 (staging_steps p env r content)"
  have split: "staging_steps p env r content =
     ?pre @ [upsert_step env (chunks_of env r content), external (en_put_manifest env)]"
    by (simp add: staging_steps_def eval_nat_numeral)
  obtain r1 c1 where p: "run_steps ?pre c = (r1, c1)" by (cases "run_steps ?pre c")
  have "kb_vectors c1 = kb_vectors c \<and> (\<forall>e. r1 = Inl e \<longrightarrow> True)"
  proof (rule run_steps_inv[where P = "\<lambda>x. kb_vectors x = kb_vectors c", OF _ refl p])
    fix f x res x' assume f: "f \<in> set ?pre" "kb_vectors x = kb_vectors c" "f x = (res, x')"
    consider (save) s where "f = save_document_record p (at_status r s)"
      | (external) m where "f = external m" | (put) "f = put_chunks_step env r (chunks_of env r content)"
      using f(1) by (auto simp: staging_steps_def eval_nat_numeral)
    then show "kb_vectors x' = kb_vectors c \<and> (\<forall>e. res = Inl e \<longrightarrow> True)"
      using f(2,3) by cases (auto simp: external_def put_chunks_step_def dest: save_vectors split: option.splits)
  qed
  moreover obtain u where u: "r1 = Inr u" using assms(4) p
    by (subst (asm) split) (auto simp: run_steps_append split: sum.splits)
  moreover obtain r2 c2 where e: "upsert_step env (chunks_of env r content) c1 = (r2, c2)"
    by (cases "upsert_step env (chunks_of env r content) c1")
  ultimately have "run_steps [upsert_step env (chunks_of env r content), external (en_put_manifest env)] c1 = (Inr (), c')"
    using assms(4) p by (subst (asm) split) (simp add: run_steps_append split: unit.splits)
  then have "r2 = Inr ()" "c' = c2" using e
    by (auto simp: external_def split: sum.splits option.splits unit.splits)
  then show ?thesis using upsert_step_cases[OF e] \<open>kb_vectors c1 = kb_vectors c \<and> _\<close> assms(3)
    by (metis corpus.select_convs(5) corpus.surjective corpus.update_convs(5))
qed

text \<open>The three outcomes of a run that nothing interferes with.\<close>

lemma run_ingestion_outcome:
  assumes "ready r c" "chunks_ok (d_id r) (d_version r) (chunks_of env r content) (kb_vectors c)"
    "0 < en_batch_size env" "run_ingestion p env r content c = (res, c')"
  shows "(\<exists>e. res = Inl e \<and> staged r c c') \<or>
     res = Inr (final_record r) \<and>
       (\<forall>d. d \<noteq> d_id r \<longrightarrow> stored_record c' d = stored_record c d) \<and>
       stored_record c' (d_id r) = Some (final_record r) \<and>
       kb_vectors c' = (let vs = put_vectors (chunks_of env r content) (kb_vectors c)
         in if en_cleanup_ok env then index_delete_except_version (d_id r) (d_version r) vs else vs) \<and>
       kb_cache c' p (d_id r) = Some (final_record r)"
proof -
  let ?all = "staging_steps p env r content"
  obtain r1 c1 where st: "run_steps ?all c = (r1, c1)" by (cases "run_steps ?all c")
  have s1: "staged r c c1 \<and> (\<forall>e. r1 = Inl e \<longrightarrow> own_error e)"
    using staging_prefix[OF assms(1,2), of "length ?all" p] st by simp
  show ?thesis
  proof (cases r1)
    case (Inl e)
    then obtain msg where e: "e = OtherError msg" using s1 by blast
    have "run_ingestion p env r content c = handle_failure p env r msg c1"
      by (simp add: run_ingestion_def ingestion_steps_def run_steps_append st Inl e error_text_def)
    then show ?thesis using owned_failure[OF assms(1) staged_owned[OF conjunct1[OF s1]]] assms(4) by metis
  next
    case (Inr u)
    have v1: "kb_vectors c1 = put_vectors (chunks_of env r content) (kb_vectors c)"
      by (rule staging_vectors[OF assms(1-3)]) (use st Inr in simp)
    obtain r2 c2 where f: "save_document_record p (final_record r) c1 = (r2, c2)"
      by (cases "save_document_record p (final_record r) c1")
    have o: "r2 = Inr ()" "owned r c c2" "stored_record c2 (d_id r) = Some (final_record r)" "kb_vectors c2 = kb_vectors c1"
      using owned_save[OF staged_owned[OF conjunct1[OF s1]] _ _ _ f] by (auto simp: final_record_def)
    have k2: "kb_cache c2 p (d_id r) = Some (final_record r)"
      using f o(1) by (auto simp: save_document_record_eq set_cache_def final_record_def split: option.splits)
    obtain r3 c3 where g: "record_ingestion_success env (d_id r) (d_version r) c2 = (r3, c3)"
      by (cases "record_ingestion_success env (d_id r) (d_version r) c2")
    note fr = record_ingestion_success_frame[OF g]
    have run: "run_steps (ingestion_steps p env r content) c = (r3, c3)"
      by (cases r3) (simp_all add: ingestion_steps_def run_steps_append st Inr f o(1) g)
    show ?thesis
    proof (cases r3)
      case (Inl e)
      then obtain msg where e: "e = OtherError msg" using fr by blast
      have "run_ingestion p env r content c = handle_failure p env r msg c3"
        by (simp add: run_ingestion_def run Inl e error_text_def)
      moreover have "owned r c c3" by (rule owned_frame[OF o(2)]) (use fr in simp_all)
      ultimately show ?thesis using owned_failure[OF assms(1)] assms(4) by metis
    next
      case (Inr u')
      have "kb_cache c3 p (d_id r) = Some (final_record r)"
        using g k2 by (auto simp: record_ingestion_success_def record_ingestion_event_def Let_def
            cas_update_index_def split: option.splits nat.splits prod.splits sum.splits cas_error.splits)
      then show ?thesis using assms(4) o fr v1
        by (auto simp: run_ingestion_def run Inr owned_def cleanup_superseded_def Let_def stored_record_def)
    qed
  qed
qed

text \<open>With every external call healthy the job succeeds.\<close>

definition healthy :: "ing_env \<Rightarrow> document_record \<Rightarrow> string \<Rightarrow> bool" where
  "healthy env r content \<longleftrightarrow>
     failure_of (en_parse env content) = None \<and> en_put_parsed env = None \<and>
     failure_of (en_chunk env (d_id r) (d_version r) (parsed_of env content)) = None \<and>
     en_put_chunks env = None \<and> en_embed env = None \<and> en_upsert_fails env = None \<and>
     en_put_manifest env = None \<and> en_success_fails env = None"

lemma healthy_step:
  assumes "ready r c" "healthy env r content" "staged r c c1" "f c1 = (res, c2)"
    "f \<in> set (staging_steps p env r content)"
  shows "res = Inr ()"
proof -
  consider (save) s where "f = save_document_record p (at_status r s)" "s \<notin> {Indexed, Deleted}"
    | (external) "f = external None" | (put) "f = put_chunks_step env r (chunks_of env r content)"
    | (upsert) "f = upsert_step env (chunks_of env r content)"
    using assms(5,2) unfolding staging_steps_def healthy_def by auto
  then show ?thesis
  proof cases
    case (save s)
    then show ?thesis using staged_save(1)[OF assms(1,3)] assms(4) by (auto simp: at_status_def)
  next
    case upsert
    then show ?thesis using assms(2,4) by (auto simp: upsert_step_def index_upsert_def healthy_def Let_def)
  qed (use assms(2,4) in \<open>auto simp: external_def put_chunks_step_def healthy_def\<close>)
qed

lemma run_ingestion_succeeds:
  assumes "ready r c" "chunks_ok (d_id r) (d_version r) (chunks_of env r content) (kb_vectors c)"
    "healthy env r content"
  shows "fst (run_ingestion p env r content c) = Inr (final_record r)"
proof -
  obtain r1 c1 where st: "run_steps (staging_steps p env r content) c = (r1, c1)"
    by (cases "run_steps (staging_steps p env r content) c")
  have s1: "staged r c c1 \<and> (\<forall>e. r1 = Inl e \<longrightarrow> False)"
  proof (rule run_steps_inv[where P = "staged r c", OF _ staged_refl[OF assms(1)] st])
    fix f x res x' assume "f \<in> set (staging_steps p env r content)" "staged r c x" "f x = (res, x')"
    then show "staged r c x' \<and> (\<forall>e. res = Inl e \<longrightarrow> False)"
      using staging_step[OF assms(1,2)] healthy_step[OF assms(1,3)] by blast
  qed
  then have r1: "r1 = Inr ()" by (cases r1) auto
  obtain r2 c2 where f: "save_document_record p (final_record r) c1 = (r2, c2)"
    by (cases "save_document_record p (final_record r) c1")
  have r2: "r2 = Inr ()" using owned_save(1)[OF staged_owned[OF conjunct1[OF s1]] _ _ _ f] by (auto simp: final_record_def)
  have g: "\<exists>c3. record_ingestion_success env (d_id r) (d_version r) c2 = (Inr (), c3)"
    using assms(3) by (auto simp: record_ingestion_success_def healthy_def Let_def cas_update_index_def
        update_json_cas_alone activate_mutation_def)
  then show ?thesis
    by (auto simp: run_ingestion_def ingestion_steps_def run_steps_append st r1 f r2)
qed

lemma final_published: "published_version_of (Some (final_record r)) = Some (d_version r)"
  by (auto simp: published_version_of_def final_record_def or_none_def split: list.splits option.splits)

section \<open>Properties\<close>

text \<open>Nothing of a new version shows before it is published: whichever stage a job has reached, and
  whichever stage fails, readers of every document see exactly what they saw before the job began,
  although status writes and batches of vectors have already landed.\<close>

theorem staging_invisible:
  assumes "ready r c" "chunks_ok (d_id r) (d_version r) (chunks_of env r content) (kb_vectors c)"
    "run_steps (take k (staging_steps p env r content)) c = (res, c')"
  shows "visible d c' = visible d c"
  using staged_visible[OF assms(1)] staging_prefix[OF assms] by blast


section \<open>A running example\<close>

definition empty_corpus :: corpus where
  "empty_corpus = \<lparr>kb_records = empty_store, kb_indexes = empty_store, kb_manifests = empty_store,
     kb_events = empty_store, kb_vectors = Map.empty, kb_raw = Map.empty, kb_chunks = Map.empty,
     kb_cache = (\<lambda>_. Map.empty), kb_queue = []\<rparr>"

definition demo_chunk :: "ident \<Rightarrow> string \<Rightarrow> chunk" where
  "demo_chunk i v = \<lparr>ck_id = i, ck_document_id = ''d'', ck_version = v, ck_text = ''x''\<rparr>"

definition demo_env :: ing_env where
  "demo_env = \<lparr>en_parse = Inr, en_put_parsed = None, en_chunk = (\<lambda>d v m. Inr [demo_chunk ''b'' v]),
     en_put_chunks = None, en_embed = None, en_batch_size = 100, en_upsert_fails = None,
     en_put_manifest = None, en_success_fails = None, en_failure_event_ok = True, en_cleanup_ok = True,
     en_failed_cleanup_ok = True, en_rollback_ok = True, en_timestamp = ''t'', en_ingestion_id = ''i''\<rparr>"

text \<open>Version \<open>v1\<close> is published and \<open>v2\<close> is queued.\<close>

definition demo_record :: document_record where
  "demo_record = demo_doc\<lparr>d_version := ''v2'', d_active := Some ''v1''\<rparr>"

definition demo_corpus :: corpus where
  "demo_corpus = empty_corpus\<lparr>kb_records := put_json empty_store (document_record_key ''d'') demo_record,
     kb_vectors := [''a'' \<mapsto> demo_chunk ''a'' ''v1'']\<rparr>"

lemma demo_ready: "ready demo_record demo_corpus"
  by (simp add: ready_def demo_corpus_def demo_record_def stored_record_def key_cell_def put_json_def
      published_version_of_def or_none_def)

lemma demo_chunks: "chunks_of demo_env r x = [demo_chunk ''b'' (d_version r)]"
  by (simp add: chunks_of_def demo_env_def parsed_of_def)

lemma demo_chunks_ok: "chunks_ok (d_id demo_record) (d_version demo_record) (chunks_of demo_env demo_record x) (kb_vectors demo_corpus)"
  unfolding demo_chunks by (simp add: chunks_ok_def demo_corpus_def demo_chunk_def demo_record_def)

definition demo_gate_hit :: hit where
  "demo_gate_hit = \<lparr>h_chunk = demo_chunk ''a'' ''v1'', h_score = 1, h_source = ''pinecone''\<rparr>"

definition demo_engine :: engine where
  "demo_engine n flt vs =
     (if vs ''a'' = Some (demo_chunk ''a'' ''v1'') \<and> flt (demo_chunk ''a'' ''v1'') then [demo_gate_hit] else [])"

theorem retrieval_gate_witness:
  "fst (retrieve 0 (\<lambda>_. True) demo_engine 8 5 (Some [''d'']) demo_corpus) = [demo_gate_hit] \<and>
   (\<exists>r. believed_record 0 ''d'' demo_corpus = Some r \<and> published_version_of (Some r) = Some ''v1'')"
proof -
  have s: "engine_sound demo_engine" by (auto simp: engine_sound_def demo_engine_def demo_gate_hit_def demo_chunk_def)
  have b: "believed_record 0 ''d'' demo_corpus = Some demo_record"
    using demo_ready by (simp add: ready_def demo_record_def believed_record_def get_document_def)
      (simp add: demo_corpus_def empty_corpus_def)
  have h: "fst (retrieve 0 (\<lambda>_. True) demo_engine 8 5 (Some [''d'']) demo_corpus) = [demo_gate_hit]"
    unfolding retrieve_eq index_search_def demo_engine_def using b
    by (simp add: demo_gate_hit_def demo_chunk_def demo_corpus_def published_version_of_def demo_record_def or_none_def)
  from retrieval_gate[OF s surjective_pairing, of 0 "\<lambda>_. True" 8 5 "Some [''d'']" demo_corpus] show ?thesis
    unfolding h by (auto simp: demo_gate_hit_def demo_chunk_def)
qed

theorem staging_invisible_witness:
  "visible ''d'' (snd (run_steps (take 9 (staging_steps 1 demo_env demo_record ''x'')) demo_corpus)) =
     [''a'' \<mapsto> demo_chunk ''a'' ''v1'']"
proof -
  have "visible ''d'' (snd (run_steps (take 9 (staging_steps 1 demo_env demo_record ''x'')) demo_corpus)) =
      visible ''d'' demo_corpus"
    by (rule staging_invisible[OF demo_ready demo_chunks_ok]) (rule surjective_pairing)
  also have "\<dots> = [''a'' \<mapsto> demo_chunk ''a'' ''v1'']"
    by (rule ext) (simp add: visible_def drop_vectors_def demo_corpus_def demo_record_def demo_chunk_def stored_record_def
        key_cell_def put_json_def published_version_of_def or_none_def)
  finally show ?thesis .
qed


end
