(* ===== verification/Worker.thy ===== *)
theory Worker
  imports Publication
begin

text \<open>
  The ingestion worker of \<open>worker.py\<close> and the queue bounds of \<open>queue.py\<close>: what happens to a message
  by the outcome of its job, the sequential batch, the poll loop's back-off. The queue keeps a
  message until it is acknowledged. The properties follow an upload from the request to the
  published content, and show the job that is acknowledged without being done.
\<close>

section \<open>Messages\<close>

datatype handled = Completed document_record | SkippedDeleted | SkippedSuperseded | FailedJob ing_error

definition disposition :: "ing_error + document_record \<Rightarrow> handled" where
  "disposition res =
     (case res of
        Inr r \<Rightarrow> Completed r
      | Inl (DocumentDeletedError _) \<Rightarrow> SkippedDeleted
      | Inl (StaleIngestionError _ _ _) \<Rightarrow> SkippedSuperseded
      | Inl e \<Rightarrow> FailedJob e)"

definition acknowledge :: "ingestion_job \<Rightarrow> corpus \<Rightarrow> corpus" where
  "acknowledge job c = c\<lparr>kb_queue := remove1 job (kb_queue c)\<rparr>"

text \<open>\<open>_process_message\<close>; \<open>ack_error\<close> is the failure of the acknowledgement. After a completed job it is
  caught with the job's own failures; in the two handlers it leaves the method.\<close>

definition process_message :: "nat \<Rightarrow> ing_env \<Rightarrow> string option \<Rightarrow> ingestion_job \<Rightarrow> corpus
    \<Rightarrow> (ing_error + handled) \<times> corpus" where
  "process_message p env ack_error job c =
     (case process_document_job p env job c of
        (res, c1) \<Rightarrow>
          (case disposition res of
             FailedJob e \<Rightarrow> (Inr (FailedJob e), c1)
           | Completed r \<Rightarrow>
               (case ack_error of
                  None \<Rightarrow> (Inr (Completed r), acknowledge job c1)
                | Some msg \<Rightarrow> (Inr (FailedJob (OtherError msg)), c1))
           | h \<Rightarrow>
               (case ack_error of
                  None \<Rightarrow> (Inr h, acknowledge job c1)
                | Some msg \<Rightarrow> (Inl (OtherError msg), c1))))"

section \<open>Polling\<close>

definition pull_size :: "int \<Rightarrow> int" where "pull_size max_messages = max 1 (min 1000 max_messages)"

definition pull_timeout :: "int \<Rightarrow> int" where "pull_timeout poll_seconds = max 1 (min 20 poll_seconds)"

text \<open>The subscription: given the bound, some of the queued jobs, or an error.\<close>

type_synonym subscription = "int \<Rightarrow> ingestion_job list \<Rightarrow> string + ingestion_job list"

definition receive :: "subscription \<Rightarrow> int \<Rightarrow> corpus \<Rightarrow> ing_error + ingestion_job list" where
  "receive pull max_messages c =
     (case pull (pull_size max_messages) (kb_queue c) of
        Inl msg \<Rightarrow> Inl (OtherError msg) | Inr jobs \<Rightarrow> Inr jobs)"

fun process_batch :: "nat \<Rightarrow> (ingestion_job \<Rightarrow> ing_env \<times> string option) \<Rightarrow> ingestion_job list \<Rightarrow> corpus
    \<Rightarrow> (ing_error + unit) \<times> corpus" where
  "process_batch p envs [] c = (Inr (), c)"
| "process_batch p envs (job # jobs) c =
     (case process_message p (fst (envs job)) (snd (envs job)) job c of
        (Inl e, c1) \<Rightarrow> (Inl e, c1)
      | (Inr _, c1) \<Rightarrow> process_batch p envs jobs c1)"

definition process_once :: "nat \<Rightarrow> subscription \<Rightarrow> int \<Rightarrow> (ingestion_job \<Rightarrow> ing_env \<times> string option) \<Rightarrow> corpus
    \<Rightarrow> (ing_error + nat) \<times> corpus" where
  "process_once p pull max_messages envs c =
     (case receive pull max_messages c of
        Inl e \<Rightarrow> (Inl e, c)
      | Inr jobs \<Rightarrow>
          (case process_batch p envs jobs c of
             (Inl e, c1) \<Rightarrow> (Inl e, c1)
           | (Inr (), c1) \<Rightarrow> (Inr (length jobs), c1)))"

text \<open>One turn of \<open>run_forever\<close>: the pause it takes and the next back-off.\<close>

definition error_backoff_seconds :: pyfloat where "error_backoff_seconds = 5"

definition error_backoff_max_seconds :: pyfloat where "error_backoff_max_seconds = 60"

definition idle_sleep_seconds :: pyfloat where "idle_sleep_seconds = 1"

definition poll_turn :: "ing_error + nat \<Rightarrow> pyfloat \<Rightarrow> pyfloat \<times> pyfloat" where
  "poll_turn outcome backoff =
     (case outcome of
        Inl _ \<Rightarrow> (backoff, min (backoff * 2) error_backoff_max_seconds)
      | Inr processed \<Rightarrow> (if processed = 0 then idle_sleep_seconds else 0, error_backoff_seconds))"

fun poll_pauses :: "(ing_error + nat) list \<Rightarrow> pyfloat \<Rightarrow> pyfloat list" where
  "poll_pauses [] b = []"
| "poll_pauses (x # xs) b = (case poll_turn x b of (pause, b') \<Rightarrow> pause # poll_pauses xs b')"

section \<open>Lemmas\<close>

lemma pull_bounds: "1 \<le> pull_size n" "pull_size n \<le> 1000" "1 \<le> pull_timeout s" "pull_timeout s \<le> 20"
  by (auto simp: pull_size_def pull_timeout_def)

lemma poll_pauses_failing:
  "\<forall>x \<in> set xs. \<exists>e. x = Inl e \<Longrightarrow> 0 < b \<Longrightarrow> b \<le> 60 \<Longrightarrow> k < length xs \<Longrightarrow> poll_pauses xs b ! k = min (b * 2 ^ k) 60"
proof (induction xs arbitrary: b k)
  case (Cons x xs)
  obtain e where x: "x = Inl e" using Cons.prems(1) by auto
  show ?case
  proof (cases k)
    case (Suc j)
    have "poll_pauses xs (min (b * 2) 60) ! j = min (min (b * 2) 60 * 2 ^ j) 60"
      by (rule Cons.IH) (use Cons.prems Suc in auto)
    also have "\<dots> = min (b * 2 ^ Suc j) 60"
    proof (cases "b * 2 \<le> 60")
      case False
      have "(60::real) * 1 \<le> 60 * 2 ^ j" "(60::real) * 1 \<le> b * 2 * 2 ^ j"
        by (rule mult_mono; use False in simp)+
      then show ?thesis using False by simp
    qed (simp add: mult.assoc)
    finally show ?thesis using x Suc by (simp add: poll_turn_def error_backoff_max_seconds_def)
  qed (use x Cons.prems in \<open>simp add: poll_turn_def\<close>)
qed simp

lemma poll_pauses_append:
  "poll_pauses (xs @ ys) b = poll_pauses xs b @ poll_pauses ys (fold (\<lambda>x b. snd (poll_turn x b)) xs b)"
  by (induction xs arbitrary: b) (auto simp: case_prod_beta)

lemma poll_pauses_length [simp]: "length (poll_pauses xs b) = length xs"
  by (induction xs arbitrary: b) (auto simp: case_prod_beta)

section \<open>An upload and the job it queues\<close>

definition job_of :: "document_record \<Rightarrow> ingestion_job" where
  "job_of r = \<lparr>jb_document_id = d_id r, jb_version = d_version r, jb_filename = d_title r, jb_uri = d_uri r\<rparr>"

lemma prepare_upload_facts:
  assumes "prepare_upload q sha d filename content owner c = (r, c1)"
  shows "d_id r = d" "d_version r = sha content" "d_title r = filename" "d_status r = Queued"
    "d_active r = published_version_of (believed_record q d c)"
    "kb_records c1 = kb_records c" "kb_vectors c1 = kb_vectors c" "kb_queue c1 = kb_queue c"
    "kb_raw c1 (raw_document_key d (sha content) filename) = Some content"
    "p \<noteq> q \<Longrightarrow> kb_cache c1 p = kb_cache c p"
  using assms
  by (auto simp: prepare_upload_def Let_def believed_record_def get_document_def stored_record_def
      split: prod.splits option.splits if_splits)

lemma commit_upload_facts:
  assumes "commit_upload q None r c = (Inr r', c1)"
  shows "r' = r" "stored_record c1 (d_id r) = Some r" "\<And>d. d \<noteq> d_id r \<Longrightarrow> stored_record c1 d = stored_record c d"
    "kb_vectors c1 = kb_vectors c" "kb_raw c1 = kb_raw c" "kb_queue c1 = kb_queue c @ [job_of r]"
    "p \<noteq> q \<Longrightarrow> kb_cache c1 p = kb_cache c p" "kb_cache c1 q (d_id r) = Some r"
proof -
  let ?s = "set_cache q r (c\<lparr>kb_records := put_json (kb_records c) (document_record_key (d_id r)) r\<rparr>)"
  have e: "r' = r \<and> c1 = ?s\<lparr>kb_queue := kb_queue ?s @ [job_of r]\<rparr>"
    using assms by (auto simp: commit_upload_def save_document_record_eq job_of_def split: option.splits)
  have st: "stored_record (?s\<lparr>kb_queue := qs\<rparr>) d = stored_record ?s d" for qs d by (simp add: stored_record_def)
  show "r' = r" "stored_record c1 (d_id r) = Some r" "\<And>d. d \<noteq> d_id r \<Longrightarrow> stored_record c1 d = stored_record c d"
    "kb_vectors c1 = kb_vectors c" "kb_raw c1 = kb_raw c" "kb_queue c1 = kb_queue c @ [job_of r]"
    "p \<noteq> q \<Longrightarrow> kb_cache c1 p = kb_cache c p" "kb_cache c1 q (d_id r) = Some r"
    using e by (simp_all only: st stored_record_put) (simp_all add: set_cache_def)
qed

text \<open>\<open>_queue_document\<close> seen from outside.\<close>

lemma queue_document_facts:
  assumes "queue_document q sha None d filename content owner c = (Inr r, c1)"
  shows "d_id r = d" "d_version r = sha content" "d_title r = filename" "d_status r = Queued"
    "d_active r = published_version_of (believed_record q d c)" "stored_record c1 d = Some r"
    "kb_vectors c1 = kb_vectors c" "kb_queue c1 = kb_queue c @ [job_of r]"
    "kb_raw c1 (raw_document_key d (sha content) filename) = Some content"
    "p \<noteq> q \<Longrightarrow> kb_cache c1 p = kb_cache c p" "kb_cache c1 q d = Some r"
    "\<And>d'. d' \<noteq> d \<Longrightarrow> stored_record c1 d' = stored_record c d'"
proof -
  obtain r0 c0 where p: "prepare_upload q sha d filename content owner c = (r0, c0)"
    by (cases "prepare_upload q sha d filename content owner c")
  have k: "commit_upload q None r0 c0 = (Inr r, c1)" using assms by (simp add: queue_document_def p)
  note pf = prepare_upload_facts[OF p] and cf = commit_upload_facts[OF k]
  show "d_id r = d" "d_version r = sha content" "d_title r = filename" "d_status r = Queued"
    "d_active r = published_version_of (believed_record q d c)" "stored_record c1 d = Some r"
    "kb_vectors c1 = kb_vectors c" "kb_queue c1 = kb_queue c @ [job_of r]"
    "kb_raw c1 (raw_document_key d (sha content) filename) = Some content"
    "p \<noteq> q \<Longrightarrow> kb_cache c1 p = kb_cache c p" "kb_cache c1 q d = Some r"
    "\<And>d'. d' \<noteq> d \<Longrightarrow> stored_record c1 d' = stored_record c d'"
    using pf(1-9) cf(1-6,8) pf(10)[of p] cf(7)[of p] by (simp_all add: stored_record_def)
qed

lemma queue_document_accepts:
  assumes "\<forall>s. stored_record c d = Some s \<longrightarrow> d_status s \<noteq> Deleted"
  shows "\<exists>r c1. queue_document q sha None d filename content owner c = (Inr r, c1)"
proof -
  obtain r0 c0 where p: "prepare_upload q sha d filename content owner c = (r0, c0)"
    by (cases "prepare_upload q sha d filename content owner c")
  note pf = prepare_upload_facts(1-6)[OF p]
  have "reject_illegal_write r0 (stored_record c0 (d_id r0)) = None"
    using assms pf by (auto simp: reject_illegal_write_def stored_record_def split: option.splits)
  then show ?thesis by (simp add: queue_document_def p commit_upload_def save_document_record_eq)
qed

text \<open>A process that does not hold a settled record of the document reads the stored one.\<close>

definition cache_open :: "nat \<Rightarrow> ident \<Rightarrow> corpus \<Rightarrow> bool" where
  "cache_open p d c \<longleftrightarrow> (case kb_cache c p d of None \<Rightarrow> True | Some r \<Rightarrow> \<not> terminal_status (d_status r))"

lemma get_document_open:
  assumes "cache_open p d c" "stored_record c d = Some s"
  shows "fst (get_document p d c) = Some s"
  using assms by (auto simp: cache_open_def get_document_def split: option.splits)

lemma process_job_open:
  assumes "cache_open p (d_id r) c" "stored_record c (d_id r) = Some r" "d_status r \<noteq> Deleted"
    "get_raw (d_id r) (d_version r) (d_title r) c = Some content"
  shows "process_document_job p env (job_of r) c = run_ingestion p env r content (snd (get_document p (d_id r) c))"
proof -
  have "get_raw (d_id r) (d_version r) (d_title r) (snd (get_document p (d_id r) c)) = Some content"
    using assms(4) by (simp add: get_raw_def frame_simps cong: option.case_cong)
  then show ?thesis using get_document_open[OF assms(1,2)] assms(3)
    by (simp add: process_document_job_def job_of_def case_prod_beta)
qed

lemma visible_get: "visible d' (snd (get_document p d c)) = visible d' c"
  by (simp add: visible_def stored_record_get frame_simps)

lemma visible_acknowledge: "visible d (acknowledge job c) = visible d c"
  by (simp add: visible_def acknowledge_def stored_record_def)

lemma published_queued:
  "d_status r = Queued \<Longrightarrow> d_active r \<noteq> Some v \<Longrightarrow> published_version_of (Some r) \<noteq> Some v"
  by (auto simp: published_version_of_def or_none_def split: option.splits list.splits)

section \<open>Properties\<close>



text \<open>A replacement is lost: after a worker process has ingested one version of a document, its
  memory holds the settled record of that version, so the job of a replacement uploaded through
  another process is judged superseded by the version it supersedes: the message is acknowledged,
  nothing is ingested, and the document stays queued with no job left to finish it.\<close>

theorem replacement_dropped:
  assumes "ready r1 c" "chunks_ok (d_id r1) (d_version r1) (chunks_of env1 r1 content1) (kb_vectors c)"
    "0 < en_batch_size env1" "run_ingestion p env1 r1 content1 c = (Inr x, c1)"
    "queue_document q sha None (d_id r1) filename content2 owner c1 = (Inr r2, c2)"
    "p \<noteq> q" "sha content2 \<noteq> d_version r1"
  shows "process_message p env2 None (job_of r2) c2 = (Inr SkippedSuperseded, acknowledge (job_of r2) c2) \<and>
     stored_record (acknowledge (job_of r2) c2) (d_id r1) = Some r2 \<and> d_status r2 = Queued \<and>
     kb_vectors (acknowledge (job_of r2) c2) = kb_vectors c1 \<and>
     kb_queue (acknowledge (job_of r2) c2) = remove1 (job_of r2) (kb_queue c1 @ [job_of r2])"
proof -
  note qf = queue_document_facts[OF assms(5)]
  have "kb_cache c1 p (d_id r1) = Some (final_record r1)"
    using run_ingestion_outcome[OF assms(1-4)] by auto
  then have "kb_cache c2 p (d_id r1) = Some (final_record r1)" using qf(10)[of p] assms(6) by simp
  then have g: "get_document p (d_id r1) c2 = (Some (final_record r1), c2)"
    by (simp add: get_document_def final_record_def terminal_status_def)
  have "process_document_job p env2 (job_of r2) c2 =
     (Inl (StaleIngestionError (d_id r1) (d_version r2) (d_version r1)), c2)"
    using g qf(1,2) assms(7) by (simp add: process_document_job_def job_of_def final_record_def)
  then show ?thesis using qf
    by (simp add: process_message_def disposition_def acknowledge_def stored_record_def)
qed

theorem replacement_dropped_witness:
  "\<exists>r2 c2. queue_document 0 (\<lambda>x. ''v'' @ x) None ''d'' ''t'' ''3'' None
       (snd (run_ingestion 1 demo_env demo_record ''x'' demo_corpus)) = (Inr r2, c2) \<and>
     fst (process_message 1 demo_env None (job_of r2) c2) = Inr SkippedSuperseded \<and> d_status r2 = Queued"
proof -
  let ?c1 = "snd (run_ingestion 1 demo_env demo_record ''x'' demo_corpus)"
  have b: "0 < en_batch_size demo_env" and h: "healthy demo_env demo_record ''x''" by (simp_all add: healthy_def demo_env_def)
  have d: "d_id demo_record = ''d''" "d_version demo_record = ''v2''" by (simp_all add: demo_record_def)
  have run: "run_ingestion 1 demo_env demo_record ''x'' demo_corpus = (Inr (final_record demo_record), ?c1)"
    using run_ingestion_succeeds[OF demo_ready demo_chunks_ok h, of 1] by (metis prod.collapse)
  have "stored_record ?c1 ''d'' = Some (final_record demo_record)"
    using run_ingestion_outcome[OF demo_ready demo_chunks_ok b run] d by auto
  then obtain r2 c2 where q: "queue_document 0 (\<lambda>x. ''v'' @ x) None (d_id demo_record) ''t'' ''3'' None ?c1 = (Inr r2, c2)"
    using queue_document_accepts[of ?c1 "''d''" 0 "\<lambda>x. ''v'' @ x" "''t''" "''3''" None] d by (auto simp: final_record_def)
  show ?thesis using replacement_dropped[OF demo_ready demo_chunks_ok b run q] q d by auto
qed

text \<open>A failed re-ingestion destroys what is published: when the version being ingested is the
  published one (the same content uploaded again, or its message redelivered), a failure of the
  parser ends with the document still publishing that version and nothing of it visible.\<close>

theorem failed_reingestion_empties:
  assumes "stored_record c (d_id r) = Some r" "d_status r \<noteq> Deleted" "d_active r = Some (d_version r)"
    "d_version r \<noteq> []" "en_parse env content = Inl msg" "en_failure_event_ok env" "en_failed_cleanup_ok env"
    "run_ingestion p env r content c = (res, c')"
  shows "res = Inl (OtherError msg) \<and>
     published_version_of (stored_record c' (d_id r)) = Some (d_version r) \<and> visible (d_id r) c' = Map.empty"
proof -
  let ?d = "d_id r" and ?v = "d_version r"
  obtain r1 c1 where s1: "save_document_record p (at_status r Parsing) c = (r1, c1)"
    by (cases "save_document_record p (at_status r Parsing) c")
  have own: "owned r c c" using assms(1,2) by (auto simp: owned_def)
  have o1: "r1 = Inr ()" "owned r c c1" using owned_save[OF own _ _ _ s1] by (auto simp: at_status_def)
  have run: "run_ingestion p env r content c = handle_failure p env r msg c1"
    by (simp add: run_ingestion_def ingestion_steps_def staging_steps_def s1 o1(1) external_def assms(5) error_text_def)
  obtain r2 c2 where s2: "save_document_record p (failed_record r msg) c1 = (r2, c2)"
    by (cases "save_document_record p (failed_record r msg) c1")
  have o2: "r2 = Inr ()" "stored_record c2 ?d = Some (failed_record r msg)"
    using owned_save[OF o1(2) _ _ _ s2] by (auto simp: failed_record_def)
  have res: "(res, c') = (Inl (OtherError msg), cleanup_failed_version env ?d ?v
      (record_ingestion_event env ?d ?v FailedEvent (Some msg) c2))"
    using assms(6,8) run s2 o2(1) by (simp add: handle_failure_def)
  then have st: "stored_record c' ?d = Some (failed_record r msg)" "kb_vectors c' = index_delete_version ?d ?v (kb_vectors c2)"
    using o2(2) assms(7) by (simp_all add: cleanup_failed_version_def record_ingestion_event_def stored_record_def)
  have p: "published_version_of (stored_record c' ?d) = Some ?v"
    using st(1) assms(3,4) by (auto simp: failed_record_def published_version_of_def or_none_def split: list.splits)
  show ?thesis using res p visible_published[OF p] st(2) by simp
qed

theorem failed_reingestion_empties_witness:
  "published_version_of (stored_record (snd (run_ingestion 1 (demo_env\<lparr>en_parse := (\<lambda>_. Inl ''bad'')\<rparr>)
       (demo_record\<lparr>d_version := ''v1''\<rparr>) ''x''
       (demo_corpus\<lparr>kb_records := put_json empty_store (document_record_key ''d'') (demo_record\<lparr>d_version := ''v1''\<rparr>)\<rparr>))) ''d'') = Some ''v1''"
  using failed_reingestion_empties[of "demo_corpus\<lparr>kb_records := put_json empty_store (document_record_key ''d'') (demo_record\<lparr>d_version := ''v1''\<rparr>)\<rparr>"
      "demo_record\<lparr>d_version := ''v1''\<rparr>" "demo_env\<lparr>en_parse := (\<lambda>_. Inl ''bad'')\<rparr>" "''x''" "''bad''" 1, OF _ _ _ _ _ _ _ surjective_pairing]
  by (simp add: demo_record_def stored_record_def key_cell_def put_json_def demo_env_def)

text \<open>The poll loop backs off boundedly: after a clean cycle the pause of the \<open>k\<close>-th consecutive
  failed cycle is five seconds doubled \<open>k\<close> times, never more than a minute, whatever came before.\<close>

theorem poll_backoff:
  assumes "\<forall>x \<in> set failed. \<exists>e. x = Inl e" "k < length failed"
  shows "poll_pauses (before @ Inr n # failed) b ! (Suc (length before) + k) = min (5 * 2 ^ k) 60"
  using poll_pauses_failing[OF assms(1) _ _ assms(2), of 5]
  by (simp add: poll_pauses_append nth_append poll_turn_def error_backoff_seconds_def)

theorem poll_backoff_witness:
  "poll_pauses ([Inl (OtherError ''x'')] @ Inr 0 # replicate 6 (Inl (OtherError ''x''))) 5 ! (Suc (length [Inl (OtherError ''x'') :: ing_error + nat]) + 4) = 60"
  using poll_backoff[of "replicate 6 (Inl (OtherError ''x''))" 4 "[Inl (OtherError ''x'')]" 0 5] by simp

end
