(* ===== verification/Lifecycle.thy ===== *)
theory Lifecycle
  imports Worker
begin

text \<open>
  Whole histories of a corpus: the operations any process may perform, in any order. The locale
  \<open>corpus_invariant\<close> says when a predicate on the corpus survives every operation; it is
  interpreted for the finality of deletion and for the well-formedness of version indexes. The
  last section is about uploads racing with publication.
\<close>

section \<open>Operations\<close>

datatype corpus_op =
    Prepare nat "string \<Rightarrow> string" ident string string "string option"
  | Commit nat "string option" document_record
  | Update nat "string \<Rightarrow> string" "string option" ident string string "string option"
  | Delete nat "string option" ident
  | Message nat ing_env "string option" ingestion_job
  | Restore nat ing_env ident string
  | Read nat ident

fun apply_op :: "corpus_op \<Rightarrow> corpus \<Rightarrow> corpus" where
  "apply_op (Prepare p sha d filename content owner) c = snd (prepare_upload p sha d filename content owner c)"
| "apply_op (Commit p enqueue_error r) c = snd (commit_upload p enqueue_error r c)"
| "apply_op (Update p sha enqueue_error d filename content owner) c =
     snd (update_document p sha enqueue_error d filename content owner c)"
| "apply_op (Delete p index_error d) c = snd (delete_document p index_error d c)"
| "apply_op (Message p env ack_error job) c = snd (process_message p env ack_error job c)"
| "apply_op (Restore p env d version) c = snd (restore_version p env d version c)"
| "apply_op (Read p d) c = snd (get_document p d c)"

definition run_ops :: "corpus_op list \<Rightarrow> corpus \<Rightarrow> corpus" where
  "run_ops ops c = fold apply_op ops c"

section \<open>Invariants of every operation\<close>

locale corpus_invariant =
  fixes P :: "corpus \<Rightarrow> bool"
  assumes save: "P c \<Longrightarrow> P (snd (save_document_record p r c))"
    and activate: "P c \<Longrightarrow> P (snd (cas_update_index d (activate_mutation d m) c))"
    and existing: "P c \<Longrightarrow> P (snd (cas_update_index d (activate_existing_mutation d version) c))"
    and others: "P c \<Longrightarrow> kb_records c' = kb_records c \<Longrightarrow> kb_indexes c' = kb_indexes c \<Longrightarrow> P c'"
begin

lemma get: "P c \<Longrightarrow> P (snd (get_document p d c))"
  by (rule others) (simp_all add: frame_simps)

lemma get': "get_document p d c = (x, c') \<Longrightarrow> P c \<Longrightarrow> P c'"
  using get[of c p d] by simp

lemma save': "save_document_record p r c = (x, c') \<Longrightarrow> P c \<Longrightarrow> P c'"
  using save[of c p r] by simp

lemma external_inv: "external m c = (x, c') \<Longrightarrow> P c \<Longrightarrow> P c'"
  by (auto simp: external_def split: option.splits)

lemma put_chunks_inv: "put_chunks_step env r cs c = (x, c') \<Longrightarrow> P c \<Longrightarrow> P c'"
  by (auto simp: put_chunks_step_def elim: others split: option.splits)

lemma upsert_inv: "upsert_step env cs c = (x, c') \<Longrightarrow> P c \<Longrightarrow> P c'"
  by (auto elim!: upsert_step_cases others)

lemma success_inv:
  assumes "record_ingestion_success env d v c = (x, c')" "P c"
  shows "P c'"
proof -
  let ?c2 = "record_ingestion_event env d v Succeeded None
    (c\<lparr>kb_manifests := create_artifact (document_version_key d v) (manifest_of env d v) (kb_manifests c)\<rparr>)"
  have p2: "P ?c2" by (rule others[OF assms(2)]) (simp_all add: record_ingestion_event_def)
  have p1: "P (c\<lparr>kb_manifests := create_artifact (document_version_key d v) (manifest_of env d v) (kb_manifests c)\<rparr>)"
    by (rule others[OF assms(2)]) simp_all
  show ?thesis using assms p1 p2 activate[OF p2, of d "manifest_of env d v"]
    by (auto simp: record_ingestion_success_def Let_def split: option.splits nat.splits)
qed

lemma steps_inv:
  assumes "\<And>f x res x'. f \<in> set fs \<Longrightarrow> P x \<Longrightarrow> f x = (res, x') \<Longrightarrow> P x'" "P x" "run_steps fs x = (res, x')"
  shows "P x'"
  using run_steps_inv[where P = P and Q = "\<lambda>_. True", OF _ assms(2,3)] assms(1) by blast

lemma ingestion_steps_inv:
  assumes "P c" "run_steps (ingestion_steps p env r content) c = (res, c')"
  shows "P c'"
proof (rule steps_inv[OF _ assms])
  fix f x res x' assume f: "f \<in> set (ingestion_steps p env r content)" "P x" "f x = (res, x')"
  consider (save) w where "f = save_document_record p w" | (external) m where "f = external m"
    | (put) cs where "f = put_chunks_step env r cs" | (upsert) cs where "f = upsert_step env cs"
    | (success) d v where "f = record_ingestion_success env d v"
    using f(1) unfolding ingestion_steps_def staging_steps_def by auto
  then show "P x'" using f(2,3) by cases (blast intro: save' external_inv put_chunks_inv upsert_inv success_inv)+
qed

lemma abort_inv:
  "P c \<Longrightarrow> P (snd (abort_for_deleted p env d c))" "P c \<Longrightarrow> P (snd (abort_for_superseded p d c))"
proof -
  have "P (if en_rollback_ok env then c\<lparr>kb_vectors := index_delete_document d (kb_vectors c)\<rparr> else c)" if "P c"
    by (rule others[OF that]) simp_all
  then show "P c \<Longrightarrow> P (snd (abort_for_deleted p env d c))"
    by (auto simp: abort_for_deleted_def Let_def dest: get' split: prod.splits option.splits)
  show "P c \<Longrightarrow> P (snd (abort_for_superseded p d c))"
    by (auto simp: abort_for_superseded_def dest: get' split: prod.splits option.splits)
qed

lemma failure_inv: "P c \<Longrightarrow> P (snd (handle_failure p env r msg c))"
proof -
  have clean: "P (cleanup_failed_version env d v (record_ingestion_event env d v s m x))" if "P x" for d v s m x
    by (rule others[OF that]) (simp_all add: cleanup_failed_version_def record_ingestion_event_def)
  assume c: "P c"
  obtain x c1 where s: "save_document_record p (failed_record r msg) c = (x, c1)"
    by (cases "save_document_record p (failed_record r msg) c")
  have c1: "P c1" by (rule save'[OF s c])
  show "P (snd (handle_failure p env r msg c))"
    unfolding handle_failure_def s using c1 clean[OF c1] abort_inv[OF c1]
    by (simp add: case_prod_beta split: sum.splits ing_error.splits)
qed

lemma run_inv: "P c \<Longrightarrow> P (snd (run_ingestion p env r content c))"
proof -
  have clean: "P (cleanup_superseded env d v x)" if "P x" for d v x
    by (rule others[OF that]) (simp_all add: cleanup_superseded_def)
  assume c: "P c"
  obtain x c1 where s: "run_steps (ingestion_steps p env r content) c = (x, c1)"
    by (cases "run_steps (ingestion_steps p env r content) c")
  have c1: "P c1" by (rule ingestion_steps_inv[OF c s])
  show "P (snd (run_ingestion p env r content c))"
    unfolding run_ingestion_def s using clean[OF c1] abort_inv[OF c1] failure_inv[OF c1]
    by (simp add: case_prod_beta split: sum.splits ing_error.splits)
qed

lemma job_inv: "P c \<Longrightarrow> P (snd (process_document_job p env job c))"
proof -
  assume c: "P c"
  obtain x c1 where g: "get_document p (jb_document_id job) c = (x, c1)" by (cases "get_document p (jb_document_id job) c")
  have c1: "P c1" by (rule get'[OF g c])
  show "P (snd (process_document_job p env job c))"
    unfolding process_document_job_def g using c1 run_inv[OF c1] save[OF c1]
    by (auto simp: case_prod_beta split: sum.splits option.splits)
qed

lemma message_inv: "P c \<Longrightarrow> P (snd (process_message p env ack_error job c))"
proof -
  assume "P c"
  then have c1: "P (snd (process_document_job p env job c))" by (rule job_inv)
  have ack: "P (acknowledge job x)" if "P x" for x by (rule others[OF that]) (simp_all add: acknowledge_def)
  show "P (snd (process_message p env ack_error job c))"
    using c1 ack[OF c1] by (simp add: process_message_def case_prod_beta split: handled.splits option.splits)
qed

lemma prepare_inv: "P c \<Longrightarrow> P (snd (prepare_upload p sha d filename content owner c))"
proof -
  assume c: "P c"
  have "P (c\<lparr>kb_raw := (kb_raw c)(raw_document_key d (sha content) filename \<mapsto> content)\<rparr>)"
    by (rule others[OF c]) simp_all
  from get[OF this, of p d] show ?thesis by (simp add: prepare_upload_def Let_def case_prod_beta)
qed

lemma commit_inv: "P c \<Longrightarrow> P (snd (commit_upload p enqueue_error r c))"
proof -
  assume c: "P c"
  obtain x c1 where s: "save_document_record p r c = (x, c1)" by (cases "save_document_record p r c")
  have c1: "P c1" by (rule save'[OF s c])
  have q: "P (c1\<lparr>kb_queue := jobs\<rparr>)" for jobs by (rule others[OF c1]) simp_all
  show ?thesis unfolding commit_upload_def s using c1 q save[OF c1]
    by (simp add: case_prod_beta split: sum.splits option.splits)
qed

lemma update_inv: "P c \<Longrightarrow> P (snd (update_document p sha enqueue_error d filename content owner c))"
  using commit_inv[OF prepare_inv[OF get[of c p d]]] get[of c p d]
  by (simp add: update_document_def queue_document_def case_prod_beta split: sum.splits option.splits)

lemma delete_inv: "P c \<Longrightarrow> P (snd (delete_document p index_error d c))"
proof -
  assume "P c"
  then have c1: "P (snd (get_document p d c))" by (rule get)
  have "P ((snd (get_document p d c))\<lparr>kb_vectors := vs\<rparr>)" for vs by (rule others[OF c1]) simp_all
  then show ?thesis using c1 save
    by (simp add: delete_document_def Let_def case_prod_beta split: sum.splits option.splits)
qed

lemma restore_inv: "P c \<Longrightarrow> P (snd (restore_version p env d version c))"
proof -
  assume "P c"
  then have c1: "P (snd (get_document p d c))" by (rule get)
  have steps: "P (snd (run_steps (restore_steps p env r target d version) x))" if x: "P x" for r target x
  proof (rule steps_inv[OF _ x surjective_pairing])
    fix f y res y' assume "f \<in> set (restore_steps p env r target d version)" "P y" "f y = (res, y')"
    then show "P y'" using existing[of y d version] save'[of p "restored_record r version" y]
      by (auto simp: restore_steps_def reindex_version_def dest: upsert_inv split: if_splits option.splits)
  qed
  show ?thesis using c1 steps[OF c1]
    by (auto simp add: restore_version_def case_prod_beta split: sum.splits option.splits)
qed

lemma every_op: "P c \<Longrightarrow> P (apply_op oper c)"
  by (cases oper) (simp_all add: prepare_inv commit_inv update_inv delete_inv message_inv restore_inv get)

lemma every_run: "P c \<Longrightarrow> P (run_ops ops c)"
  unfolding run_ops_def by (induction ops arbitrary: c) (simp_all add: every_op)

end

section \<open>Deletion\<close>

definition gone :: "ident \<Rightarrow> corpus \<Rightarrow> bool" where
  "gone d c \<longleftrightarrow> (case stored_record c d of None \<Rightarrow> False | Some r \<Rightarrow> d_status r = Deleted)"

lemma cas_update_index_records: "kb_records (snd (cas_update_index d mutate c)) = kb_records c"
  using cas_update_index_frame[of d mutate c] by (metis prod.collapse)

interpretation deletion: corpus_invariant "gone d" for d
proof (unfold_locales, goal_cases)
  case (1 c p r)
  obtain x c' where s: "save_document_record p r c = (x, c')" by (cases "save_document_record p r c")
  from s show ?case
  proof (cases rule: save_document_record_cases)
    case written
    then have "stored_record c' d = (if d = d_id r then Some r else stored_record c d)" by (simp add: stored_record_put)
    then show ?thesis using 1 written(2) s by (auto simp: gone_def reject_illegal_write_def split: option.splits if_splits)
  qed (use 1 s in simp)
qed (simp_all add: gone_def stored_record_def cas_update_index_records)

section \<open>Version indexes\<close>

definition index_wf :: "version_index \<Rightarrow> bool" where
  "index_wf i \<longleftrightarrow> distinct (map dv_version (vi_versions i)) \<and>
     (case vi_active i of None \<Rightarrow> False | Some v \<Rightarrow> v \<in> set (map dv_version (vi_versions i))) \<and>
     (\<forall>e \<in> set (vi_versions i). dv_vectors_present e \<longrightarrow> vi_active i = Some (dv_version e))"

definition indexes_wf :: "corpus \<Rightarrow> bool" where
  "indexes_wf c \<longleftrightarrow> (\<forall>d i. load_version_index d c = Some i \<longrightarrow> index_wf i)"

definition keeps_version :: "ident \<Rightarrow> string \<Rightarrow> corpus \<Rightarrow> bool" where
  "keeps_version d v c \<longleftrightarrow>
     (case load_version_index d c of None \<Rightarrow> False | Some i \<Rightarrow> v \<in> set (map dv_version (vi_versions i)))"

lemma document_version_index_key_inj [simp]:
  "document_version_index_key d = document_version_index_key d' \<longleftrightarrow> d = d'"
  by (simp add: document_version_index_key_def)

lemma load_index_after_cas:
  "load_version_index d' (snd (cas_update_index d mutate c)) =
     (case mutate (load_version_index d c) of
        Inl _ \<Rightarrow> load_version_index d' c
      | Inr i \<Rightarrow> if d' = d then Some i else load_version_index d' c)"
  by (auto simp: cas_update_index_def update_json_cas_alone load_version_index_def key_cell_def put_json_def
      split: sum.splits)

lemma index_save: "load_version_index d (snd (save_document_record p r c)) = load_version_index d c"
  by (simp add: load_version_index_def frame_simps)

lemma activate_wf:
  assumes "case cur of None \<Rightarrow> True | Some i \<Rightarrow> index_wf i" "activate_mutation d m cur = Inr i"
  shows "index_wf i"
proof -
  define old where "old = (case cur of None \<Rightarrow> [] | Some i \<Rightarrow> vi_versions i)"
  have o: "distinct (map dv_version old)" using assms(1) by (auto simp: old_def index_wf_def split: option.splits)
  have i: "vi_versions i = map (\<lambda>v. v\<lparr>dv_vectors_present := False\<rparr>) (filter (\<lambda>v. dv_version v \<noteq> dv_version m) old) @ [m]"
    "vi_active i = Some (dv_version m)"
    using assms(2) by (auto simp: activate_mutation_def Let_def old_def split: option.splits)
  show ?thesis using o by (auto simp: index_wf_def i comp_def distinct_map inj_on_def)
qed

lemma existing_wf:
  assumes "case cur of None \<Rightarrow> True | Some i \<Rightarrow> index_wf i" "activate_existing_mutation d v cur = Inr i"
  shows "index_wf i"
  using assms
  by (auto simp: activate_existing_mutation_def index_wf_def list_ex_iff comp_def image_image
      split: option.splits if_splits)

lemma mutations_keep:
  "activate_mutation d m cur = Inr i \<Longrightarrow> cur = Some j \<Longrightarrow>
     set (map dv_version (vi_versions j)) \<subseteq> set (map dv_version (vi_versions i))"
  "activate_existing_mutation d v cur = Inr i \<Longrightarrow> cur = Some j \<Longrightarrow>
     set (map dv_version (vi_versions j)) \<subseteq> set (map dv_version (vi_versions i))"
  by (auto simp: activate_mutation_def activate_existing_mutation_def Let_def image_image image_iff split: if_splits)

interpretation indexes: corpus_invariant indexes_wf
proof (unfold_locales, goal_cases)
  case (2 c d m)
  then show ?case using activate_wf[of "load_version_index d c" d m]
    by (auto simp: indexes_wf_def load_index_after_cas split: sum.splits option.splits)
next
  case (3 c d v)
  then show ?case using existing_wf[of "load_version_index d c" d v]
    by (auto simp: indexes_wf_def load_index_after_cas split: sum.splits option.splits)
qed (simp_all add: indexes_wf_def index_save, simp add: load_version_index_def)

interpretation history: corpus_invariant "keeps_version d v" for d v
proof (unfold_locales, goal_cases)
  case (2 c d' m)
  then show ?case using mutations_keep(1)[of d' m "load_version_index d' c"]
    by (fastforce simp: keeps_version_def load_index_after_cas split: sum.splits option.splits)
next
  case (3 c d' w)
  then show ?case using mutations_keep(2)[of d' w "load_version_index d' c"]
    by (fastforce simp: keeps_version_def load_index_after_cas split: sum.splits option.splits)
qed (simp_all add: keeps_version_def load_version_index_def frame_simps)

section \<open>Properties\<close>



text \<open>The version history of a document is well formed and only grows: in every reachable state its
  versions are distinct, exactly one of them is active and no other is marked as holding vectors,
  and a version once recorded is never dropped, by any sequence of operations of any processes.\<close>

theorem version_index_invariant:
  assumes "indexes_wf c" "load_version_index d (run_ops ops c) = Some i"
  shows "distinct (map dv_version (vi_versions i)) \<and>
     (\<exists>e \<in> set (vi_versions i). vi_active i = Some (dv_version e)) \<and>
     (\<forall>e \<in> set (vi_versions i). dv_vectors_present e \<longrightarrow> vi_active i = Some (dv_version e)) \<and>
     (\<forall>i0. load_version_index d c = Some i0 \<longrightarrow>
        set (map dv_version (vi_versions i0)) \<subseteq> set (map dv_version (vi_versions i)))"
proof -
  have "index_wf i" using indexes.every_run[OF assms(1), of ops] assms(2) by (auto simp: indexes_wf_def)
  moreover have "v \<in> set (map dv_version (vi_versions i))"
    if "load_version_index d c = Some i0" "v \<in> set (map dv_version (vi_versions i0))" for i0 v
    using history.every_run[of d v c ops] that assms(2) by (simp add: keeps_version_def)
  ultimately show ?thesis by (auto simp: index_wf_def split: option.splits)
qed

theorem version_index_invariant_witness:
  "\<exists>i. load_version_index ''d'' (run_ops [Restore 1 demo_env ''d'' ''v1'']
       (demo_corpus\<lparr>kb_indexes := put_json empty_store (document_version_index_key ''d'')
          \<lparr>vi_document_id = ''d'', vi_active = Some ''v1'', vi_versions = [manifest_of demo_env ''d'' ''v1'']\<rparr>\<rparr>)) = Some i \<and>
     distinct (map dv_version (vi_versions i)) \<and> ''v1'' \<in> set (map dv_version (vi_versions i))"
proof -
  let ?i0 = "\<lparr>vi_document_id = ''d'', vi_active = Some ''v1'', vi_versions = [manifest_of demo_env ''d'' ''v1'']\<rparr>"
  let ?c = "demo_corpus\<lparr>kb_indexes := put_json empty_store (document_version_index_key ''d'') ?i0\<rparr>"
  have l: "load_version_index d ?c = (if d = ''d'' then Some ?i0 else None)" for d
    by (simp add: load_version_index_def key_cell_def put_json_def empty_store_def)
  have w: "indexes_wf ?c" unfolding indexes_wf_def l by (simp add: index_wf_def manifest_of_def)
  have "keeps_version ''d'' ''v1'' (run_ops [Restore 1 demo_env ''d'' ''v1''] ?c)"
    by (rule history.every_run) (simp only: keeps_version_def l, simp add: manifest_of_def)
  then obtain i where i: "load_version_index ''d'' (run_ops [Restore 1 demo_env ''d'' ''v1''] ?c) = Some i"
    "''v1'' \<in> set (map dv_version (vi_versions i))"
    by (auto simp: keeps_version_def split: option.splits)
  show ?thesis using version_index_invariant[OF w i(1)] i by blast
qed

text \<open>An upload racing with publication unpublishes both versions: if an upload reads the record while
  the previous version is published and writes it after a job has published the next version, the
  record goes back to the previous version, whose vectors the publication has removed, so the
  document shows nothing although the job that ran had completed.\<close>

theorem upload_race_empties:
  assumes "prepare_upload q sha d filename content owner c = (r3, c0)"
    "published_version_of (believed_record q d c) = Some v1" "v1 \<noteq> []"
    "ready r2 c0" "d_id r2 = d" "d_version r2 \<noteq> v1"
    "chunks_ok d (d_version r2) (chunks_of env r2 content2) (kb_vectors c0)" "0 < en_batch_size env" "en_cleanup_ok env"
    "run_ingestion p env r2 content2 c0 = (Inr x, c1)"
    "commit_upload q None r3 c1 = (Inr r', c2)"
  shows "visible d c1 = put_vectors (chunks_of env r2 content2) (of_version d (d_version r2) (kb_vectors c0)) \<and>
     published_version_of (stored_record c2 d) = Some v1 \<and> visible d c2 = Map.empty"
proof -
  note pf = prepare_upload_facts[OF assms(1)] and cf = commit_upload_facts[OF assms(11)]
  have ok: "chunks_ok (d_id r2) (d_version r2) (chunks_of env r2 content2) (kb_vectors c0)" using assms(5,7) by simp
  have out: "stored_record c1 d = Some (final_record r2)"
    "kb_vectors c1 = index_delete_except_version d (d_version r2) (put_vectors (chunks_of env r2 content2) (kb_vectors c0))"
    using run_ingestion_outcome[OF assms(4) ok assms(8,10)] assms(5,9) by (auto simp: Let_def)
  have "visible d c1 = put_vectors (chunks_of env r2 content2) (of_version d (d_version r2) (kb_vectors c0))"
    using visible_published[of c1 d "d_version r2"] out final_published[of r2] put_vectors_of_version[OF ok] assms(5) by simp
  moreover have p: "published_version_of (stored_record c2 d) = Some v1"
    using cf(1,2) pf(1,4,5) assms(2,3) by (auto simp: published_version_of_def or_none_def split: list.splits)
  moreover have "of_version d v1 (index_delete_except_version d (d_version r2) vs) = Map.empty" for vs
    by (rule ext) (use assms(6) in \<open>auto simp: of_version_def index_delete_except_version_def drop_vectors_def split: option.splits\<close>)
  then have "visible d c2 = Map.empty" using visible_published[OF p] cf(4) out(2) by simp
  ultimately show ?thesis by blast
qed

theorem upload_race_empties_witness:
  "\<exists>r3 c0 c1 c2. prepare_upload 0 (\<lambda>x. ''v'' @ x) ''d'' ''t'' ''3'' None demo_corpus = (r3, c0) \<and>
     run_ingestion 1 demo_env demo_record ''x'' c0 = (Inr (final_record demo_record), c1) \<and>
     commit_upload 0 None r3 c1 = (Inr r3, c2) \<and> visible ''d'' c2 = Map.empty"
proof -
  obtain r3 c0 where p: "prepare_upload 0 (\<lambda>x. ''v'' @ x) ''d'' ''t'' ''3'' None demo_corpus = (r3, c0)"
    by (cases "prepare_upload 0 (\<lambda>x. ''v'' @ x) ''d'' ''t'' ''3'' None demo_corpus")
  note pf = prepare_upload_facts[OF p]
  have d: "d_id demo_record = ''d''" "d_version demo_record = ''v2''" by (simp_all add: demo_record_def)
  have st: "stored_record demo_corpus ''d'' = Some demo_record" using demo_ready d by (simp add: ready_def)
  have b: "published_version_of (believed_record 0 ''d'' demo_corpus) = Some ''v1''"
    using st by (simp add: believed_record_def get_document_def demo_corpus_def empty_corpus_def)
      (simp add: demo_record_def published_version_of_def or_none_def)
  have rd: "ready demo_record c0" using demo_ready pf(6) by (simp add: ready_def stored_record_def)
  have ok: "chunks_ok ''d'' (d_version demo_record) (chunks_of demo_env demo_record ''x'') (kb_vectors c0)"
    using demo_chunks_ok pf(7) d by simp
  have h: "healthy demo_env demo_record ''x''" "0 < en_batch_size demo_env" "en_cleanup_ok demo_env"
    by (simp_all add: healthy_def demo_env_def)
  obtain c1 where run: "run_ingestion 1 demo_env demo_record ''x'' c0 = (Inr (final_record demo_record), c1)"
    using run_ingestion_succeeds[OF rd _ h(1), of 1] ok d by (metis prod.collapse)
  have "stored_record c1 ''d'' = Some (final_record demo_record)"
    using run_ingestion_outcome[OF rd _ h(2) run] ok d by auto
  then have "\<exists>c2. commit_upload 0 None r3 c1 = (Inr r3, c2)"
    using pf(1,4) by (simp add: commit_upload_def save_document_record_eq reject_illegal_write_def final_record_def)
  then obtain c2 where k: "commit_upload 0 None r3 c1 = (Inr r3, c2)" by blast
  show ?thesis using upload_race_empties[OF p b _ rd d(1) _ ok h(2,3) run k] d p run k by auto
qed

end
