(* ===== verification/Conversation.thy ===== *)
theory Conversation
  imports ObjectStore Json
begin

text \<open>
  Multi-turn conversations, \<open>conversation.py\<close>, and the request they produce: loading a stored
  conversation, rewriting a follow-up question, resolving the document scope, recording the turn,
  forgetting. The language model, the clock, the fresh identifier and the outcome of each store
  call are inputs; the store is the artifact store. Constructing a request validates it, as the
  model class does, and may raise.
\<close>

section \<open>Requests\<close>

datatype ask_error = AskValidation | AskRuntime string | AskSqlValidation string | AskOther string

definition max_question_chars :: nat where "max_question_chars = 16000"

definition max_document_ids :: nat where "max_document_ids = 1000"

record unified_request =
  uq_question :: string
  uq_document_ids :: "ident list option"
  uq_include_sql :: bool
  uq_conversation_id :: "ident option"
  uq_forget :: bool

definition valid_question :: "string \<Rightarrow> bool" where
  "valid_question q \<longleftrightarrow> 1 \<le> length q \<and> length q \<le> max_question_chars"

definition valid_scope :: "ident list option \<Rightarrow> bool" where
  "valid_scope ids \<longleftrightarrow> (case ids of None \<Rightarrow> True | Some xs \<Rightarrow> length xs \<le> max_document_ids)"

definition build_request :: "unified_request \<Rightarrow> ask_error + unified_request" where
  "build_request r =
     (if valid_question (uq_question r) \<and> valid_scope (uq_document_ids r) then Inr r else Inl AskValidation)"

section \<open>Conversations\<close>

record conv_turn =
  ct_question :: string
  ct_standalone :: string
  ct_answer :: string
  ct_route :: string
  ct_trace_id :: string
  ct_asked_at :: string

record conversation =
  cv_id :: ident
  cv_created_at :: string
  cv_updated_at :: string
  cv_document_ids :: "ident list option"
  cv_turns :: "conv_turn list"

record conv_settings =
  cs_max_turns :: nat
  cs_window :: nat
  cs_rewrite_enabled :: bool

record conv_env =
  ce_readable :: "ident \<Rightarrow> bool"
  ce_fresh_id :: ident
  ce_now :: string
  ce_rewrite_llm :: "string \<Rightarrow> conv_turn list \<Rightarrow> string option"
  ce_json :: json_loads
  ce_put_ok :: bool

text \<open>\<open>xs[-n:]\<close>: the last \<open>n\<close> elements, and the whole list when \<open>n\<close> is zero.\<close>

definition slice_last :: "nat \<Rightarrow> 'a list \<Rightarrow> 'a list" where
  "slice_last n xs = (if n = 0 then xs else drop (length xs - n) xs)"

text \<open>\<open>None\<close> is an exception (a value of another JSON type has no \<open>get\<close>).\<close>

definition parse_rewrite_response :: "json_loads \<Rightarrow> string \<Rightarrow> string \<Rightarrow> string option" where
  "parse_rewrite_response loads raw fallback =
     (if py_strip raw = [] then Some fallback
      else case loads (extract_json raw) of
             None \<Rightarrow> Some fallback
           | Some (JObj kvs) \<Rightarrow>
               (case j_str (j_get ''standalone_question'' kvs) of
                  Some s \<Rightarrow> if py_strip s \<noteq> [] then Some (py_strip s) else Some fallback
                | None \<Rightarrow> Some fallback)
           | Some _ \<Rightarrow> None)"

definition rewrite_followup :: "conv_env \<Rightarrow> conv_settings \<Rightarrow> string \<Rightarrow> conv_turn list \<Rightarrow> string option" where
  "rewrite_followup env st question prior =
     (if prior = [] then Some question
      else case ce_rewrite_llm env question (slice_last (cs_window st) prior) of
             None \<Rightarrow> None
           | Some raw \<Rightarrow> parse_rewrite_response (ce_json env) raw question)"

definition conversation_key :: "ident \<Rightarrow> string" where
  "conversation_key i = ''conversations/'' @ i @ ''/conversation.json''"

definition load_conversation :: "conv_env \<Rightarrow> ident \<Rightarrow> conversation obj_store \<Rightarrow> conversation option" where
  "load_conversation env i s = (if ce_readable env i then key_cell (conversation_key i) s else None)"

record prepared_turn =
  pt_conversation :: conversation
  pt_request :: unified_request
  pt_original :: string
  pt_rewritten :: "string option"
  pt_forget :: bool

definition new_conversation :: "conv_env \<Rightarrow> unified_request \<Rightarrow> conversation" where
  "new_conversation env r =
     \<lparr>cv_id = (case or_none (uq_conversation_id r) of Some i \<Rightarrow> i | None \<Rightarrow> ce_fresh_id env),
      cv_created_at = ce_now env, cv_updated_at = ce_now env,
      cv_document_ids = uq_document_ids r, cv_turns = []\<rparr>"

definition standalone_question :: "conv_env \<Rightarrow> conv_settings \<Rightarrow> string \<Rightarrow> conv_turn list \<Rightarrow> string option" where
  "standalone_question env st question prior =
     (if prior = [] \<or> \<not> cs_rewrite_enabled st then None
      else let candidate = (case rewrite_followup env st question prior of Some s \<Rightarrow> py_strip s | None \<Rightarrow> [])
           in if candidate \<noteq> [] \<and> candidate \<noteq> py_strip question then Some candidate else None)"

definition prepare_turn :: "conv_env \<Rightarrow> conv_settings \<Rightarrow> unified_request \<Rightarrow> conversation obj_store
    \<Rightarrow> ask_error + prepared_turn" where
  "prepare_turn env st r s =
     (let stored = (case or_none (uq_conversation_id r) of None \<Rightarrow> None | Some i \<Rightarrow> load_conversation env i s);
          conv = (case stored of Some c \<Rightarrow> c | None \<Rightarrow> new_conversation env r);
          prior = (if uq_forget r then [] else cv_turns conv);
          ids = (case uq_document_ids r of Some xs \<Rightarrow> Some xs | None \<Rightarrow> cv_document_ids conv);
          rewritten = standalone_question env st (uq_question r) prior
      in case build_request
                \<lparr>uq_question = (case rewritten of Some q \<Rightarrow> q | None \<Rightarrow> uq_question r),
                 uq_document_ids = ids, uq_include_sql = uq_include_sql r,
                 uq_conversation_id = Some (cv_id conv), uq_forget = uq_forget r\<rparr> of
           Inl e \<Rightarrow> Inl e
         | Inr eff \<Rightarrow> Inr \<lparr>pt_conversation = conv, pt_request = eff, pt_original = uq_question r,
                         pt_rewritten = rewritten, pt_forget = uq_forget r\<rparr>)"

definition record_turn :: "conv_env \<Rightarrow> conv_settings \<Rightarrow> prepared_turn \<Rightarrow> string \<Rightarrow> string \<Rightarrow> string
    \<Rightarrow> conversation obj_store \<Rightarrow> conversation obj_store" where
  "record_turn env st p answer route trace_id s =
     (let conv = pt_conversation p;
          turns0 = (if pt_forget p then [] else cv_turns conv);
          turn = \<lparr>ct_question = pt_original p, ct_standalone = uq_question (pt_request p),
                  ct_answer = answer, ct_route = route, ct_trace_id = trace_id, ct_asked_at = ce_now env\<rparr>;
          turns1 = turns0 @ [turn];
          turns2 = (if cs_max_turns st < length turns1 then slice_last (cs_max_turns st) turns1 else turns1);
          conv' = conv\<lparr>cv_turns := turns2, cv_document_ids := uq_document_ids (pt_request p),
                       cv_updated_at := ce_now env\<rparr>
      in if ce_put_ok env then put_json s (conversation_key (cv_id conv)) conv' else s)"

text \<open>\<open>None\<close>: no such conversation, and then nothing is written; a failing write raises.\<close>

definition forget_conversation :: "conv_env \<Rightarrow> ident \<Rightarrow> conversation obj_store
    \<Rightarrow> (ask_error + conversation option) \<times> conversation obj_store" where
  "forget_conversation env i s =
     (case load_conversation env i s of
        None \<Rightarrow> (Inr None, s)
      | Some c \<Rightarrow>
          (let c' = c\<lparr>cv_turns := [], cv_updated_at := ce_now env\<rparr>
           in if ce_put_ok env then (Inr (Some c'), put_json s (conversation_key (cv_id c)) c')
              else (Inl (AskOther ''put''), s)))"

section \<open>Lemmas\<close>

lemma conversation_key_inj [simp]: "conversation_key i = conversation_key j \<longleftrightarrow> i = j"
  by (simp add: conversation_key_def)

lemma slice_last_length: "0 < n \<Longrightarrow> length (slice_last n xs) = min n (length xs)"
  by (auto simp: slice_last_def)

lemma slice_last_suffix: "suffix (slice_last n xs) xs"
  by (auto simp: slice_last_def suffix_drop)

lemma build_request_Inr:
  "build_request r = Inr r' \<longleftrightarrow> r' = r \<and> valid_question (uq_question r) \<and> valid_scope (uq_document_ids r)"
  by (auto simp: build_request_def)

lemma standalone_question_Some:
  "standalone_question env st q prior = Some c \<Longrightarrow>
   prior \<noteq> [] \<and> cs_rewrite_enabled st \<and> c \<noteq> [] \<and> c \<noteq> py_strip q"
  by (auto simp: standalone_question_def Let_def split: if_splits)

text \<open>The conversation a request continues, as the store has it.\<close>

definition conversation_of :: "conv_env \<Rightarrow> unified_request \<Rightarrow> conversation obj_store \<Rightarrow> conversation" where
  "conversation_of env r s =
     (case or_none (uq_conversation_id r) of
        None \<Rightarrow> new_conversation env r
      | Some i \<Rightarrow> (case load_conversation env i s of Some c \<Rightarrow> c | None \<Rightarrow> new_conversation env r))"

definition resolved_scope :: "unified_request \<Rightarrow> conversation \<Rightarrow> ident list option" where
  "resolved_scope r c = (case uq_document_ids r of Some xs \<Rightarrow> Some xs | None \<Rightarrow> cv_document_ids c)"

lemma prepare_turn_eq:
  "prepare_turn env st r s =
     (let conv = conversation_of env r s;
          rewritten = standalone_question env st (uq_question r) (if uq_forget r then [] else cv_turns conv)
      in case build_request
                \<lparr>uq_question = (case rewritten of Some q \<Rightarrow> q | None \<Rightarrow> uq_question r),
                 uq_document_ids = resolved_scope r conv, uq_include_sql = uq_include_sql r,
                 uq_conversation_id = Some (cv_id conv), uq_forget = uq_forget r\<rparr> of
           Inl e \<Rightarrow> Inl e
         | Inr eff \<Rightarrow> Inr \<lparr>pt_conversation = conv, pt_request = eff, pt_original = uq_question r,
                         pt_rewritten = rewritten, pt_forget = uq_forget r\<rparr>)"
  by (simp add: prepare_turn_def conversation_of_def resolved_scope_def Let_def split: option.split)

definition conv_store_wf :: "conv_settings \<Rightarrow> conversation obj_store \<Rightarrow> bool" where
  "conv_store_wf st s \<longleftrightarrow>
     (\<forall>i c. key_cell (conversation_key i) s = Some c \<longrightarrow> cv_id c = i \<and> length (cv_turns c) \<le> cs_max_turns st)"

lemma conversation_of_id:
  assumes "conv_store_wf st s"
  shows "cv_id (conversation_of env r s) = cv_id (new_conversation env r)"
  using assms
  by (auto simp: conversation_of_def conv_store_wf_def load_conversation_def new_conversation_def split: option.splits)

lemma prepare_turn_Inr:
  assumes "prepare_turn env st r s = Inr p"
  shows "pt_conversation p = conversation_of env r s" "pt_original p = uq_question r" "pt_forget p = uq_forget r"
    "uq_document_ids (pt_request p) = resolved_scope r (conversation_of env r s)"
    "uq_question (pt_request p) = (case pt_rewritten p of Some q \<Rightarrow> q | None \<Rightarrow> uq_question r)"
    "uq_include_sql (pt_request p) = uq_include_sql r" "valid_question (uq_question (pt_request p))"
  using assms by (auto simp: prepare_turn_eq Let_def build_request_Inr split: sum.splits)

text \<open>The turns a stored conversation has after a recorded turn.\<close>

definition kept_turns :: "conv_settings \<Rightarrow> conv_turn list \<Rightarrow> conv_turn list" where
  "kept_turns st turns = (if cs_max_turns st < length turns then slice_last (cs_max_turns st) turns else turns)"

lemma kept_turns_props:
  "0 < cs_max_turns st \<Longrightarrow> length (kept_turns st turns) = min (cs_max_turns st) (length turns)"
  "suffix (kept_turns st turns) turns"
  by (auto simp: kept_turns_def slice_last_length slice_last_suffix)

section \<open>Properties\<close>

text \<open>A recorded turn extends exactly its own conversation: the stored conversation keeps the latest
  turns, at most the configured number, ending with the new one (starting over if the request
  asked to forget), carries the scope the question was answered in (the requested one, else the
  conversation's), and every other conversation is untouched.\<close>

theorem turn_recorded:
  assumes "conv_store_wf st s" "0 < cs_max_turns st" "prepare_turn env st r s = Inr p" "ce_put_ok env"
  shows "\<exists>c turn. key_cell (conversation_key (cv_id (conversation_of env r s))) (record_turn env st p answer route tid s) = Some c \<and>
     suffix (cv_turns c) ((if uq_forget r then [] else cv_turns (conversation_of env r s)) @ [turn]) \<and>
     length (cv_turns c) = min (cs_max_turns st) (length (if uq_forget r then [] else cv_turns (conversation_of env r s)) + 1) \<and>
     ct_question turn = uq_question r \<and> ct_standalone turn = uq_question (pt_request p) \<and> ct_answer turn = answer \<and>
     cv_document_ids c = (case uq_document_ids r of Some xs \<Rightarrow> Some xs | None \<Rightarrow> cv_document_ids (conversation_of env r s)) \<and>
     (\<forall>j. j \<noteq> cv_id (conversation_of env r s) \<longrightarrow>
        key_cell (conversation_key j) (record_turn env st p answer route tid s) = key_cell (conversation_key j) s) \<and>
     conv_store_wf st (record_turn env st p answer route tid s)"
proof -
  let ?conv = "conversation_of env r s"
  define turn where "turn = \<lparr>ct_question = uq_question r, ct_standalone = uq_question (pt_request p),
     ct_answer = answer, ct_route = route, ct_trace_id = tid, ct_asked_at = ce_now env\<rparr>"
  define old where "old = (if uq_forget r then [] else cv_turns ?conv)"
  define c where "c = ?conv\<lparr>cv_turns := kept_turns st (old @ [turn]), cv_document_ids := resolved_scope r ?conv,
     cv_updated_at := ce_now env\<rparr>"
  note pf = prepare_turn_Inr[OF assms(3)]
  have rec: "record_turn env st p answer route tid s = put_json s (conversation_key (cv_id ?conv)) c"
    using assms(4) by (simp add: record_turn_def pf Let_def c_def old_def turn_def kept_turns_def)
  have cell: "key_cell (conversation_key j) (put_json s (conversation_key (cv_id ?conv)) c) =
     (if j = cv_id ?conv then Some c else key_cell (conversation_key j) s)" for j
    by (simp add: key_cell_def put_json_def)
  have wf: "conv_store_wf st (put_json s (conversation_key (cv_id ?conv)) c)"
    using assms(1) kept_turns_props(1)[OF assms(2), of "old @ [turn]"]
    unfolding conv_store_wf_def cell by (auto simp: c_def)
  have c: "suffix (cv_turns c) (old @ [turn])" "length (cv_turns c) = min (cs_max_turns st) (length old + 1)"
    "cv_document_ids c = (case uq_document_ids r of Some xs \<Rightarrow> Some xs | None \<Rightarrow> cv_document_ids ?conv)"
    using kept_turns_props(1)[OF assms(2), of "old @ [turn]"] kept_turns_props(2)[of st "old @ [turn]"]
    by (simp_all add: c_def resolved_scope_def)
  have t: "ct_question turn = uq_question r" "ct_standalone turn = uq_question (pt_request p)" "ct_answer turn = answer"
    by (simp_all add: turn_def)
  show ?thesis unfolding rec old_def[symmetric] cell
    by (intro exI[of _ c] exI[of _ turn] conjI) (use c t wf in simp_all)
qed

abbreviation demo_conv_env :: conv_env where
  "demo_conv_env \<equiv> \<lparr>ce_readable = (\<lambda>_. True), ce_fresh_id = ''c1'', ce_now = ''t'',
     ce_rewrite_llm = (\<lambda>_ _. Some ''{}''), ce_json = (\<lambda>_. None), ce_put_ok = True\<rparr>"

abbreviation demo_conv_settings :: conv_settings where
  "demo_conv_settings \<equiv> \<lparr>cs_max_turns = 12, cs_window = 6, cs_rewrite_enabled = True\<rparr>"

abbreviation demo_ask :: unified_request where
  "demo_ask \<equiv> \<lparr>uq_question = ''who?'', uq_document_ids = Some [''d''], uq_include_sql = False,
     uq_conversation_id = None, uq_forget = False\<rparr>"

lemma demo_prepared:
  "\<exists>p. prepare_turn demo_conv_env demo_conv_settings demo_ask empty_store = Inr p"
  by (simp add: prepare_turn_def or_none_def new_conversation_def standalone_question_def build_request_def
      valid_question_def valid_scope_def max_question_chars_def max_document_ids_def Let_def)

theorem turn_recorded_witness:
  "\<exists>p c. prepare_turn demo_conv_env demo_conv_settings demo_ask empty_store = Inr p \<and>
     key_cell (conversation_key ''c1'') (record_turn demo_conv_env demo_conv_settings p ''me'' ''rag'' ''t'' empty_store) = Some c \<and>
     length (cv_turns c) = 1 \<and> cv_document_ids c = Some [''d'']"
proof -
  obtain p where p: "prepare_turn demo_conv_env demo_conv_settings demo_ask empty_store = Inr p"
    using demo_prepared by blast
  have w: "conv_store_wf demo_conv_settings empty_store" by (simp add: conv_store_wf_def empty_store_def key_cell_def)
  have c: "conversation_of demo_conv_env demo_ask empty_store = new_conversation demo_conv_env demo_ask"
    by (simp add: conversation_of_def or_none_def)
  show ?thesis
    using turn_recorded[OF w _ p, of "''me''" "''rag''" "''t''"] p
    by (auto simp: c new_conversation_def or_none_def)
qed

end
