(* ===== verification/Clarification.thy ===== *)
theory Clarification
  imports Conversation Abstention
begin

text \<open>
  Ambiguity clarification, \<open>clarification.py\<close>: issuing a create-only record with an expiry,
  validating a reply, re-running the answer path. Instants are integers; a stored expiry that
  cannot be parsed is \<open>None\<close>. The answer path is an argument, over a state of the caller's.
\<close>

section \<open>Records\<close>

record clarification_record =
  cl_id :: ident
  cl_turn_id :: ident
  cl_question :: string
  cl_scope :: "ident list option"
  cl_expiry :: "int option"

record clarification_prompt =
  cp_question :: string
  cp_id :: ident
  cp_turn_id :: ident
  cp_expiry :: int
  cp_scope :: "ident list option"

datatype clarification_error = InvalidOrExpired | ReplyRequired

definition scope_clarification_question :: string where
  "scope_clarification_question =
     ''Should I search only the documents you've selected, or the entire corpus?''"

definition default_clarification_question :: string where
  "default_clarification_question =
     ''Could you clarify what you're asking about so I can answer accurately?''"

definition unresolved_missing_information :: string where
  "unresolved_missing_information =
     ''Your reply did not resolve the ambiguity in the original question, so the system cannot answer it confidently. Try asking a more specific question.''"

definition clarification_key :: "ident \<Rightarrow> string" where
  "clarification_key i = ''clarifications/'' @ i @ ''.json''"

section \<open>Issuing and loading\<close>

text \<open>\<open>None\<close>: the create-only write failed. The identifier is the freshly minted one.\<close>

definition issue_clarification :: "ident \<Rightarrow> int \<Rightarrow> int \<Rightarrow> string \<Rightarrow> ident \<Rightarrow> string \<Rightarrow> ident list option
    \<Rightarrow> clarification_record obj_store \<Rightarrow> clarification_prompt option \<times> clarification_record obj_store" where
  "issue_clarification new_id now expiry_minutes original turn_id question scope s =
     (let expiry = now + expiry_minutes * 60
      in case create_json s (clarification_key new_id)
                \<lparr>cl_id = new_id, cl_turn_id = turn_id, cl_question = original, cl_scope = scope,
                 cl_expiry = Some expiry\<rparr> of
           None \<Rightarrow> (None, s)
         | Some s' \<Rightarrow> (Some \<lparr>cp_question = question, cp_id = new_id, cp_turn_id = turn_id,
                            cp_expiry = expiry, cp_scope = scope\<rparr>, s'))"

definition clarification_expired :: "int option \<Rightarrow> int \<Rightarrow> bool" where
  "clarification_expired expiry now \<longleftrightarrow> (case expiry of None \<Rightarrow> True | Some e \<Rightarrow> e \<le> now)"

text \<open>\<open>intact\<close>: the stored payload is a valid record.\<close>

definition load_clarification :: "(ident \<Rightarrow> bool) \<Rightarrow> int \<Rightarrow> ident \<Rightarrow> clarification_record obj_store
    \<Rightarrow> clarification_error + clarification_record" where
  "load_clarification intact now i s =
     (if i = [] then Inl InvalidOrExpired
      else case key_cell (clarification_key i) s of
             None \<Rightarrow> Inl InvalidOrExpired
           | Some r \<Rightarrow>
               if \<not> intact i then Inl InvalidOrExpired
               else if clarification_expired (cl_expiry r) now then Inl InvalidOrExpired
               else Inr r)"

definition resolve_clarification_question :: "bool \<Rightarrow> string option \<Rightarrow> string" where
  "resolve_clarification_question scope_ambiguous question =
     (if scope_ambiguous then scope_clarification_question
      else let q = py_strip (case question of Some x \<Rightarrow> x | None \<Rightarrow> [])
           in if q = [] then default_clarification_question else q)"

section \<open>Replies\<close>

definition combine_question_and_reply :: "string \<Rightarrow> string \<Rightarrow> string" where
  "combine_question_and_reply original reply =
     py_strip original @ [CHR 0x0A, CHR 0x0A] @ ''Clarification: '' @ py_strip reply"

datatype 'r ask_outcome =
  Answered 'r | Clarify clarification_prompt | Abstained abstention_response

definition unresolved_abstention :: "ident option \<Rightarrow> ident \<Rightarrow> ident \<Rightarrow> abstention_response" where
  "unresolved_abstention trace_id trace_hint fresh =
     \<lparr>ab_reason = LowConfidence, ab_missing = unresolved_missing_information,
      ab_trace_id = (case or_none trace_id of Some t \<Rightarrow> t
                     | None \<Rightarrow> if trace_hint \<noteq> [] then trace_hint else fresh)\<rparr>"

datatype reply_failure = ReplyError clarification_error | PathError ask_error

text \<open>\<open>process\<close>: the answer path is given the combined question and the record's scope.\<close>

definition process_reply :: "(ident \<Rightarrow> bool) \<Rightarrow> int \<Rightarrow> ident option \<Rightarrow> ident
    \<Rightarrow> (string \<Rightarrow> ident list option \<Rightarrow> 'w \<Rightarrow> (ask_error + 'r ask_outcome) \<times> 'w)
    \<Rightarrow> clarification_record obj_store \<Rightarrow> ident \<Rightarrow> string \<Rightarrow> 'w \<Rightarrow> (reply_failure + 'r ask_outcome) \<times> 'w" where
  "process_reply intact now trace_id fresh answer_path s i reply w =
     (case load_clarification intact now i s of
        Inl e \<Rightarrow> (Inl (ReplyError e), w)
      | Inr r \<Rightarrow>
          if py_strip reply = [] then (Inl (ReplyError ReplyRequired), w)
          else (case answer_path (combine_question_and_reply (cl_question r) reply) (cl_scope r) w of
                  (Inl e, w') \<Rightarrow> (Inl (PathError e), w')
                | (Inr (Clarify p), w') \<Rightarrow> (Inr (Abstained (unresolved_abstention trace_id (cp_turn_id p) fresh)), w')
                | (Inr out, w') \<Rightarrow> (Inr out, w')))"

section \<open>Lemmas\<close>

lemma clarification_key_inj [simp]: "clarification_key i = clarification_key j \<longleftrightarrow> i = j"
  by (simp add: clarification_key_def)

lemma load_clarification_Inr:
  "load_clarification intact now i s = Inr r \<longleftrightarrow>
   i \<noteq> [] \<and> intact i \<and> key_cell (clarification_key i) s = Some r \<and> (\<exists>e. cl_expiry r = Some e \<and> now < e)"
  by (auto simp: load_clarification_def clarification_expired_def not_le split: option.splits)

lemma process_reply_outcome:
  "process_reply intact now tid fresh path s i reply w = (Inr out, w') \<Longrightarrow> \<nexists>p. out = Clarify p"
  by (auto simp: process_reply_def split: sum.splits if_splits prod.splits ask_outcome.splits)

text \<open>What the store holds under an identifier once it has been issued.\<close>

lemma issue_binds:
  assumes "issue_clarification i now mins original turn question scope s = (Some p, s')"
  shows "key_cell (clarification_key i) s = None"
    "key_cell (clarification_key i) s' = Some \<lparr>cl_id = i, cl_turn_id = turn, cl_question = original,
       cl_scope = scope, cl_expiry = Some (now + mins * 60)\<rparr>"
    "cp_id p = i" "cp_scope p = scope" "cp_expiry p = now + mins * 60" "cp_question p = question"
    "\<And>j. j \<noteq> i \<Longrightarrow> key_cell (clarification_key j) s' = key_cell (clarification_key j) s"
  using assms
  by (auto simp: issue_clarification_def Let_def create_json_def put_json_conditional_def precondition_holds_def
      key_cell_def put_json_def split: option.splits if_splits)

text \<open>Several issues in a row, each with its own identifier and instant.\<close>

definition issue_all :: "int \<Rightarrow> (ident \<times> int \<times> string \<times> ident list option) list
    \<Rightarrow> clarification_record obj_store \<Rightarrow> clarification_record obj_store" where
  "issue_all mins reqs s = fold (\<lambda>(i, now, q, scope) s. snd (issue_clarification i now mins q [] q scope s)) reqs s"

lemma issue_keeps:
  "key_cell (clarification_key i) s = Some r \<Longrightarrow>
   key_cell (clarification_key i) (snd (issue_clarification j now mins original turn question scope s)) = Some r"
  by (auto simp: issue_clarification_def Let_def create_json_def put_json_conditional_def precondition_holds_def
      key_cell_def put_json_def)

lemma issue_all_keeps:
  "key_cell (clarification_key i) s = Some r \<Longrightarrow> key_cell (clarification_key i) (issue_all mins reqs s) = Some r"
  unfolding issue_all_def by (induction reqs arbitrary: s) (auto simp: issue_keeps)

section \<open>Properties\<close>

text \<open>A reply is accepted exactly when its clarification was issued, is intact and unexpired and the
  reply is not blank; an accepted reply re-runs the answer path once, with the original question of
  the record issued under that identifier (whatever was issued since) and its scope, and never
  yields a further clarification.\<close>

theorem reply_bound_to_issue:
  assumes "issue_clarification i now mins original turn question scope s = (Some p, s1)" "i \<noteq> []"
  shows "process_reply intact later tid fresh path (issue_all mins reqs s1) i reply w =
     (if intact i \<and> later < now + mins * 60 \<and> py_strip reply \<noteq> []
      then (case path (combine_question_and_reply original reply) scope w of
              (Inl e, w') \<Rightarrow> (Inl (PathError e), w')
            | (Inr (Clarify c), w') \<Rightarrow> (Inr (Abstained (unresolved_abstention tid (cp_turn_id c) fresh)), w')
            | (Inr out, w') \<Rightarrow> (Inr out, w'))
      else (Inl (ReplyError (if intact i \<and> later < now + mins * 60 then ReplyRequired else InvalidOrExpired)), w))"
proof -
  have "key_cell (clarification_key i) (issue_all mins reqs s1) = Some \<lparr>cl_id = i, cl_turn_id = turn, cl_question = original,
       cl_scope = scope, cl_expiry = Some (now + mins * 60)\<rparr>"
    by (rule issue_all_keeps[OF issue_binds(2)[OF assms(1)]])
  then show ?thesis using assms(2)
    by (auto simp: process_reply_def load_clarification_def clarification_expired_def)
qed

theorem reply_bound_to_issue_witness:
  "process_reply (\<lambda>_. True) 100 None ''f'' (\<lambda>q scope w. (Inr (Answered (q, scope)), Suc w))
     (issue_all 30 [(''j'', 50, ''other'', None)] (snd (issue_clarification ''i'' 0 30 ''which?'' ''t'' ''q'' (Some [''d'']) empty_store)))
     ''i'' ''this one'' (0::nat) =
   (Inr (Answered (combine_question_and_reply ''which?'' ''this one'', Some [''d''])), 1)"
proof -
  obtain p s1 where i: "issue_clarification ''i'' 0 30 ''which?'' ''t'' ''q'' (Some [''d'']) empty_store = (Some p, s1)"
    by (simp add: issue_clarification_def Let_def create_json_def put_json_conditional_def precondition_holds_def empty_store_def)
  have s: "py_strip ''this one'' \<noteq> []" by code_simp
  show ?thesis unfolding i snd_conv
    by (subst reply_bound_to_issue[OF i]) (use s in simp_all)
qed

end
