(* ===== verification/Routing.thy ===== *)
theory Routing
  imports Clarification Confidence
begin

text \<open>
  The agentic router, \<open>router.py\<close>: parsing the classifier's answer, composing hybrid answers, the
  three route handlers, the abstention gates, and the two entry points \<open>query\<close> and \<open>query_stream\<close>
  with their multi-turn and clarification steps. The document service and the database copilot are
  the arguments the code takes them as; each call of the document service is logged with the scope
  it was given.
\<close>

section \<open>Routing decisions\<close>

datatype route = RouteRag | RouteDatabase | RouteHybrid

record decision =
  rd_route :: route
  rd_reasoning :: string
  rd_confidence :: pyfloat
  rd_ambiguous :: bool
  rd_scope_ambiguous :: bool
  rd_question :: "string option"

definition route_name :: "route \<Rightarrow> string" where
  "route_name r = (case r of RouteRag \<Rightarrow> ''rag'' | RouteDatabase \<Rightarrow> ''database'' | RouteHybrid \<Rightarrow> ''hybrid'')"

definition route_of_name :: "string \<Rightarrow> route" where
  "route_of_name s = (if s = ''database'' then RouteDatabase else if s = ''hybrid'' then RouteHybrid else RouteRag)"

definition unparsed_decision :: decision where
  "unparsed_decision =
     \<lparr>rd_route = RouteRag,
      rd_reasoning = ''Failed to parse classifier output; defaulting to document search.'',
      rd_confidence = 1 / 2, rd_ambiguous = False, rd_scope_ambiguous = False, rd_question = None\<rparr>"

text \<open>\<open>float(v)\<close>: a value, a \<open>ValueError\<close> (also of the range check that follows), or a \<open>TypeError\<close>.\<close>

datatype float_result = FloatOk pyfloat | FloatValueError | FloatTypeError

definition float_of_json :: "(string \<Rightarrow> pyfloat option) \<Rightarrow> json \<Rightarrow> float_result" where
  "float_of_json read v =
     (case v of
        JInt i \<Rightarrow> FloatOk (of_int i)
      | JFloat x \<Rightarrow> FloatOk x
      | JBool b \<Rightarrow> FloatOk (if b then 1 else 0)
      | JStr s \<Rightarrow> (case read s of Some x \<Rightarrow> FloatOk x | None \<Rightarrow> FloatValueError)
      | JNan \<Rightarrow> FloatValueError
      | JInfinite _ \<Rightarrow> FloatValueError
      | _ \<Rightarrow> FloatTypeError)"

definition flag_of :: "string \<Rightarrow> (string \<times> json) list \<Rightarrow> bool" where
  "flag_of k kvs = (case j_get k kvs of None \<Rightarrow> False | Some v \<Rightarrow> j_truthy v)"

text \<open>\<open>None\<close> is an exception the parser's handler does not catch.\<close>

definition parse_routing_response :: "json_loads \<Rightarrow> (json \<Rightarrow> string) \<Rightarrow> (string \<Rightarrow> pyfloat option) \<Rightarrow> string
    \<Rightarrow> decision option" where
  "parse_routing_response loads to_str read raw =
     (case loads (extract_json raw) of
        None \<Rightarrow> Some unparsed_decision
      | Some (JObj kvs) \<Rightarrow>
          (case (case j_get ''route'' kvs of None \<Rightarrow> Some ''rag'' | Some (JStr s) \<Rightarrow> Some (py_lower s) | Some _ \<Rightarrow> None) of
             None \<Rightarrow> None
           | Some name \<Rightarrow>
               (let scope_ambiguous = flag_of ''scope_ambiguous'' kvs
                in case float_of_json read (case j_get ''confidence'' kvs of None \<Rightarrow> JFloat (8 / 10) | Some v \<Rightarrow> v) of
                     FloatTypeError \<Rightarrow> None
                   | FloatValueError \<Rightarrow> Some unparsed_decision
                   | FloatOk x \<Rightarrow>
                       if x < 0 \<or> 1 < x then Some unparsed_decision
                       else Some \<lparr>rd_route = route_of_name name,
                              rd_reasoning = (case j_get ''reasoning'' kvs of None \<Rightarrow> ''Classified by LLM'' | Some v \<Rightarrow> to_str v),
                              rd_confidence = x,
                              rd_ambiguous = (flag_of ''ambiguous'' kvs \<or> scope_ambiguous),
                              rd_scope_ambiguous = scope_ambiguous,
                              rd_question = (case j_get ''clarification_question'' kvs of
                                               None \<Rightarrow> None | Some JNull \<Rightarrow> None
                                             | Some v \<Rightarrow> or_none (Some (py_strip (to_str v))))\<rparr>))
      | Some _ \<Rightarrow> None)"

section \<open>Hybrid answers\<close>

definition is_word_char :: "char \<Rightarrow> bool" where
  "is_word_char c \<longleftrightarrow> is_digit c \<or> (let n = (of_char c :: nat) in 97 \<le> n \<and> n \<le> 122)"

text \<open>The maximal runs of word characters.\<close>

fun word_runs :: "string \<Rightarrow> string list" where
  "word_runs [] = []"
| "word_runs (c # cs) =
     (if \<not> is_word_char c then word_runs cs
      else (case cs of
              [] \<Rightarrow> [[c]]
            | d # _ \<Rightarrow> if is_word_char d then (case word_runs cs of [] \<Rightarrow> [[c]] | w # ws \<Rightarrow> (c # w) # ws)
                       else [c] # word_runs cs))"

definition stopwords :: "string list" where
  "stopwords =
     [''about'', ''above'', ''after'', ''again'', ''against'', ''answer'', ''based'', ''because'', ''been'', ''before'',
      ''being'', ''below'', ''between'', ''both'', ''data'', ''does'', ''doing'', ''during'', ''each'', ''from'', ''have'',
      ''having'', ''here'', ''into'', ''more'', ''most'', ''only'', ''other'', ''over'', ''same'', ''should'', ''some'',
      ''such'', ''than'', ''that'', ''their'', ''them'', ''then'', ''there'', ''these'', ''they'', ''this'', ''those'',
      ''through'', ''under'', ''until'', ''very'', ''were'', ''what'', ''when'', ''where'', ''which'', ''while'', ''with'',
      ''would'', ''your'']"

definition significant_tokens :: "string \<Rightarrow> string set" where
  "significant_tokens t = set (filter (\<lambda>w. 3 < length w \<and> w \<notin> set stopwords) (word_runs (py_lower t)))"

definition answers_overlap :: "string \<Rightarrow> string \<Rightarrow> pyfloat \<Rightarrow> bool" where
  "answers_overlap rag db threshold =
     (let a = significant_tokens rag; b = significant_tokens db
      in if a = {} \<or> b = {} then False
         else threshold \<le> of_nat (card (a \<inter> b)) / of_nat (min (card a) (card b)))"

datatype synthesis_mode = SynthAuto | SynthAlways | SynthNever

definition should_synthesize :: "synthesis_mode \<Rightarrow> pyfloat \<Rightarrow> string \<Rightarrow> string \<Rightarrow> bool" where
  "should_synthesize mode threshold rag db =
     (case mode of SynthAlways \<Rightarrow> True | SynthNever \<Rightarrow> False | SynthAuto \<Rightarrow> answers_overlap rag db threshold)"

definition two_newlines :: string where "two_newlines = [CHR 0x0A, CHR 0x0A]"

definition compose_hybrid_sections :: "string \<Rightarrow> string \<Rightarrow> string" where
  "compose_hybrid_sections rag db =
     (let a = (if py_strip rag = [] then [] else ''## From documents'' @ two_newlines @ py_strip rag);
          b = (if py_strip db = [] then [] else ''## From data'' @ two_newlines @ py_strip db)
      in if a = [] then b else if b = [] then a else a @ two_newlines @ b)"

section \<open>Services and responses\<close>

type_synonym row = "(string \<times> json) list"

record rag_response =
  rr_answer :: string
  rr_citations :: "json list"
  rr_evidence_status :: string
  rr_trace_id :: ident
  rr_confidence :: "string option"
  rr_score :: "pyfloat option"
  rr_reason :: "string option"
  rr_claims :: "claim list"
  rr_failed :: bool
  rr_scores :: "pyfloat list"

record db_response =
  db_answer :: string
  db_evidence_status :: string
  db_trace_id :: ident
  db_score :: "pyfloat option"
  db_sql :: "string option"
  db_rows :: "row list"
  db_sources :: "json list"

record unified_response =
  ur_answer :: string
  ur_route :: route
  ur_evidence_status :: string
  ur_trace_id :: ident
  ur_citations :: "json list"
  ur_confidence :: "string option"
  ur_score :: "pyfloat option"
  ur_reason :: "string option"
  ur_sql :: "string option"
  ur_rows :: "row list"
  ur_sources :: "json list"
  ur_reasoning :: string
  ur_conversation_id :: "ident option"
  ur_rewritten :: "string option"
  ur_claims :: "claim list"
  ur_failed :: bool
  ur_scores :: "pyfloat list"

record ask_env =
  ae_conversations :: bool
  ae_conv_env :: conv_env
  ae_conv_settings :: conv_settings
  ae_clarifications :: bool
  ae_clarification_id :: ident
  ae_now :: int
  ae_expiry_minutes :: int
  ae_classifier :: "string \<Rightarrow> string option"
  ae_loads :: json_loads
  ae_str :: "json \<Rightarrow> string"
  ae_float :: "string \<Rightarrow> pyfloat option"
  ae_copilot_on :: bool
  ae_rag :: "string \<Rightarrow> ident list option \<Rightarrow> ask_error + rag_response"
  ae_copilot :: "string \<Rightarrow> bool \<Rightarrow> ask_error + db_response"
  ae_synthesize :: "string \<Rightarrow> string \<Rightarrow> string \<Rightarrow> ask_error + string"
  ae_mode :: synthesis_mode
  ae_overlap :: pyfloat
  ae_min_confidence :: pyfloat
  ae_score_threshold :: pyfloat
  ae_trace_id :: ident

record ask_world =
  aw_conversations :: "conversation obj_store"
  aw_clarifications :: "clarification_record obj_store"
  aw_traces :: "(ident \<times> route) list"
  aw_summaries :: "(string \<times> pyfloat option) list"
  aw_rag_calls :: "(string \<times> ident list option) list"

type_synonym 'a asking = "ask_world \<Rightarrow> (ask_error + 'a) \<times> ask_world"

section \<open>Route handlers\<close>

text \<open>The nested request is validated when it is constructed.\<close>

definition call_rag :: "ask_env \<Rightarrow> unified_request \<Rightarrow> rag_response asking" where
  "call_rag env r w =
     (if \<not> valid_question (uq_question r) \<or> \<not> valid_scope (uq_document_ids r) then (Inl AskValidation, w)
      else (ae_rag env (uq_question r) (uq_document_ids r),
            w\<lparr>aw_rag_calls := aw_rag_calls w @ [(uq_question r, uq_document_ids r)]\<rparr>))"

definition call_copilot :: "ask_env \<Rightarrow> unified_request \<Rightarrow> ask_error + db_response" where
  "call_copilot env r =
     (if \<not> valid_question (uq_question r) then Inl AskValidation
      else ae_copilot env (uq_question r) (uq_include_sql r))"

definition route_rag :: "ask_env \<Rightarrow> unified_request \<Rightarrow> decision \<Rightarrow> unified_response asking" where
  "route_rag env r d w =
     (case call_rag env r w of
        (Inl e, w') \<Rightarrow> (Inl e, w')
      | (Inr a, w') \<Rightarrow>
          (Inr \<lparr>ur_answer = rr_answer a, ur_route = RouteRag, ur_evidence_status = rr_evidence_status a,
            ur_trace_id = rr_trace_id a, ur_citations = rr_citations a, ur_confidence = rr_confidence a,
            ur_score = rr_score a, ur_reason = rr_reason a, ur_sql = None, ur_rows = [], ur_sources = [],
            ur_reasoning = rd_reasoning d, ur_conversation_id = None, ur_rewritten = None,
            ur_claims = rr_claims a, ur_failed = rr_failed a, ur_scores = rr_scores a\<rparr>, w'))"

definition route_database :: "ask_env \<Rightarrow> unified_request \<Rightarrow> decision \<Rightarrow> unified_response asking" where
  "route_database env r d w =
     (case call_copilot env r of
        Inl e \<Rightarrow> (Inl e, w)
      | Inr b \<Rightarrow>
          (Inr \<lparr>ur_answer = db_answer b, ur_route = RouteDatabase, ur_evidence_status = db_evidence_status b,
            ur_trace_id = db_trace_id b, ur_citations = [], ur_confidence = None, ur_score = db_score b,
            ur_reason = None, ur_sql = db_sql b, ur_rows = db_rows b, ur_sources = db_sources b,
            ur_reasoning = rd_reasoning d, ur_conversation_id = None, ur_rewritten = None,
            ur_claims = [], ur_failed = False, ur_scores = []\<rparr>,
           w\<lparr>aw_traces := aw_traces w @ [(db_trace_id b, RouteDatabase)]\<rparr>))"

definition hybrid_status :: "string \<Rightarrow> string \<Rightarrow> string" where
  "hybrid_status rag db =
     (if rag = ''grounded'' \<and> db = ''grounded'' then ''grounded''
      else if rag = ''grounded'' \<or> db = ''grounded'' then ''partially_grounded''
      else ''insufficient_evidence'')"

definition merge_answers :: "ask_env \<Rightarrow> string \<Rightarrow> string \<Rightarrow> string \<Rightarrow> ask_error + string" where
  "merge_answers env q rag db =
     (if should_synthesize (ae_mode env) (ae_overlap env) rag db then ae_synthesize env q rag db
      else Inr (compose_hybrid_sections rag db))"

text \<open>Both lookups run; the document service's failure is the one raised when both fail.\<close>

definition route_hybrid :: "ask_env \<Rightarrow> unified_request \<Rightarrow> decision \<Rightarrow> unified_response asking" where
  "route_hybrid env r d w =
     (case call_rag env r w of
        (Inl e, w') \<Rightarrow> (Inl e, w')
      | (Inr a, w') \<Rightarrow>
          (case call_copilot env r of
             Inl e \<Rightarrow> (Inl e, w')
           | Inr b \<Rightarrow>
               (case merge_answers env (uq_question r) (rr_answer a) (db_answer b) of
                  Inl e \<Rightarrow> (Inl e, w')
                | Inr merged \<Rightarrow>
                    (Inr \<lparr>ur_answer = merged, ur_route = RouteHybrid,
                      ur_evidence_status = hybrid_status (rr_evidence_status a) (db_evidence_status b),
                      ur_trace_id = ae_trace_id env, ur_citations = rr_citations a, ur_confidence = rr_confidence a,
                      ur_score = combine_confidence_scores [rr_score a, db_score b], ur_reason = rr_reason a,
                      ur_sql = db_sql b, ur_rows = db_rows b, ur_sources = db_sources b,
                      ur_reasoning = rd_reasoning d, ur_conversation_id = None, ur_rewritten = None,
                      ur_claims = [], ur_failed = False, ur_scores = []\<rparr>, w'))))"

definition run_route :: "ask_env \<Rightarrow> unified_request \<Rightarrow> decision \<Rightarrow> unified_response asking" where
  "run_route env r d =
     (case rd_route d of
        RouteRag \<Rightarrow> route_rag env r d | RouteDatabase \<Rightarrow> route_database env r d | RouteHybrid \<Rightarrow> route_hybrid env r d)"

section \<open>Asking\<close>

definition abstention_input_of :: "ask_env \<Rightarrow> unified_response \<Rightarrow> abstention_input" where
  "abstention_input_of env u =
     (let ids = set (map cm_id (filter has_conflicting_evidence (ur_claims u)))
      in \<lparr>ai_trace_id = ae_trace_id env, ai_route = route_name (ur_route u),
          ai_scores = (if ur_route u = RouteRag then Some (ur_scores u) else None),
          ai_threshold = ae_score_threshold env, ai_confidence = ur_score u,
          ai_min_confidence = ae_min_confidence env, ai_claims = ur_claims u,
          ai_conflicting = (if ids = {} then None else Some ids),
          ai_row_count = (if ur_route u = RouteDatabase then Some (length (ur_rows u)) else None),
          ai_material = (\<lambda>_. True), ai_overrides = Map.empty\<rparr>)"

definition abstain_on :: "ask_env \<Rightarrow> unified_response \<Rightarrow> abstention_response option" where
  "abstain_on env u = evaluate_abstention (abstention_input_of env u)"

definition classify_query :: "ask_env \<Rightarrow> string \<Rightarrow> ask_error + decision" where
  "classify_query env q =
     (case ae_classifier env q of
        None \<Rightarrow> Inl (AskRuntime ''classifier'')
      | Some raw \<Rightarrow>
          (case parse_routing_response (ae_loads env) (ae_str env) (ae_float env) raw of
             None \<Rightarrow> Inl (AskOther ''classifier answer'') | Some d \<Rightarrow> Inr d))"

text \<open>The request to route, with the turn to record when conversations are kept.\<close>

definition prepare_ask :: "ask_env \<Rightarrow> unified_request \<Rightarrow> ask_world \<Rightarrow> ask_error + unified_request \<times> prepared_turn option" where
  "prepare_ask env r w =
     (if \<not> ae_conversations env then Inr (r, None)
      else (case prepare_turn (ae_conv_env env) (ae_conv_settings env) r (aw_conversations w) of
              Inl e \<Rightarrow> Inl e | Inr p \<Rightarrow> Inr (pt_request p, Some p)))"

definition turn_id_of :: "ask_env \<Rightarrow> prepared_turn option \<Rightarrow> ident" where
  "turn_id_of env prepared =
     (case prepared of
        None \<Rightarrow> ae_trace_id env
      | Some p \<Rightarrow> cv_id (pt_conversation p) @ '':'' @ show_nat (length (cv_turns (pt_conversation p))))"

text \<open>\<open>_issue_clarification\<close>: \<open>None\<close> when there is no store or the write failed.\<close>

definition issue_for :: "ask_env \<Rightarrow> unified_request \<Rightarrow> decision \<Rightarrow> prepared_turn option \<Rightarrow> ask_world
    \<Rightarrow> clarification_prompt option \<times> ask_world" where
  "issue_for env r d prepared w =
     (if \<not> ae_clarifications env then (None, w)
      else (case issue_clarification (ae_clarification_id env) (ae_now env) (ae_expiry_minutes env) (uq_question r)
                   (turn_id_of env prepared)
                   (resolve_clarification_question (rd_scope_ambiguous d) (rd_question d))
                   (uq_document_ids r) (aw_clarifications w) of
              (None, _) \<Rightarrow> (None, w)
            | (Some p, s) \<Rightarrow> (Some p, w\<lparr>aw_clarifications := s\<rparr>)))"

definition clarify_first :: "ask_env \<Rightarrow> bool \<Rightarrow> unified_request \<Rightarrow> decision \<Rightarrow> prepared_turn option \<Rightarrow> ask_world
    \<Rightarrow> clarification_prompt option \<times> ask_world" where
  "clarify_first env allow r d prepared w =
     (if allow \<and> rd_ambiguous d then issue_for env r d prepared w else (None, w))"

text \<open>Without a copilot every question goes to the documents.\<close>

definition available_route :: "ask_env \<Rightarrow> decision \<Rightarrow> decision" where
  "available_route env d =
     (if rd_route d \<noteq> RouteRag \<and> \<not> ae_copilot_on env
      then \<lparr>rd_route = RouteRag,
            rd_reasoning = ''Copilot unavailable; original route was '' @ route_name (rd_route d) @ ''. Falling back to document search.'',
            rd_confidence = rd_confidence d, rd_ambiguous = False, rd_scope_ambiguous = False, rd_question = None\<rparr>
      else d)"

definition summarise :: "string \<Rightarrow> pyfloat option \<Rightarrow> ask_world \<Rightarrow> ask_world" where
  "summarise q score w = w\<lparr>aw_summaries := aw_summaries w @ [(q, score)]\<rparr>"

definition record_answer :: "ask_env \<Rightarrow> prepared_turn option \<Rightarrow> unified_response \<Rightarrow> ask_world \<Rightarrow> ask_world" where
  "record_answer env prepared u w =
     (case prepared of
        None \<Rightarrow> w
      | Some p \<Rightarrow> w\<lparr>aw_conversations := record_turn (ae_conv_env env) (ae_conv_settings env) p (ur_answer u)
                       (route_name (ur_route u)) (ur_trace_id u) (aw_conversations w)\<rparr>)"

definition stamp_response :: "prepared_turn option \<Rightarrow> unified_response \<Rightarrow> unified_response" where
  "stamp_response prepared u =
     u\<lparr>ur_conversation_id := map_option (\<lambda>p. cv_id (pt_conversation p)) prepared,
       ur_rewritten := (case prepared of None \<Rightarrow> None | Some p \<Rightarrow> pt_rewritten p)\<rparr>"

definition router_query :: "ask_env \<Rightarrow> bool \<Rightarrow> unified_request \<Rightarrow> unified_response ask_outcome asking" where
  "router_query env allow r w =
     (case prepare_ask env r w of
        Inl e \<Rightarrow> (Inl e, w)
      | Inr (eff, prepared) \<Rightarrow>
          (case classify_query env (uq_question eff) of
             Inl e \<Rightarrow> (Inl e, w)
           | Inr d \<Rightarrow>
               (case clarify_first env allow eff d prepared w of
                  (Some prompt, w1) \<Rightarrow> (Inr (Clarify prompt), w1)
                | (None, w1) \<Rightarrow>
                    (case run_route env eff (available_route env d) w1 of
                       (Inl e, w2) \<Rightarrow> (Inl e, w2)
                     | (Inr u, w2) \<Rightarrow>
                         (case abstain_on env u of
                            Some a \<Rightarrow> (Inr (Abstained a), summarise (uq_question eff) (ur_score u) w2)
                          | None \<Rightarrow>
                              (Inr (Answered (stamp_response prepared u)),
                               summarise (uq_question eff) (ur_score u) (record_answer env prepared u w2)))))))"

datatype ask_event = StageEvent string | TerminalEvent "unified_response ask_outcome" | ErrorEvent ask_error

definition hide_sql :: "bool \<Rightarrow> unified_response \<Rightarrow> unified_response" where
  "hide_sql include_sql u = (if include_sql then u else u\<lparr>ur_sql := None, ur_rows := []\<rparr>)"

definition router_query_stream :: "ask_env \<Rightarrow> unified_request \<Rightarrow> ask_world \<Rightarrow> ask_event list \<times> ask_world" where
  "router_query_stream env r w =
     (case prepare_ask env r w of
        Inl e \<Rightarrow> ([ErrorEvent e], w)
      | Inr (eff, prepared) \<Rightarrow>
          (case classify_query env (uq_question eff) of
             Inl e \<Rightarrow> ([StageEvent ''classify'', ErrorEvent e], w)
           | Inr d \<Rightarrow>
               (case clarify_first env True eff d prepared w of
                  (Some prompt, w1) \<Rightarrow>
                    ([StageEvent ''classify'', TerminalEvent (Clarify prompt)], summarise (uq_question eff) None w1)
                | (None, w1) \<Rightarrow>
                    (case run_route env eff (available_route env d) w1 of
                       (Inl e, w2) \<Rightarrow>
                         ([StageEvent ''classify'', StageEvent ''retrieve'', StageEvent ''generate'', ErrorEvent e], w2)
                     | (Inr u, w2) \<Rightarrow>
                         (case abstain_on env u of
                            Some a \<Rightarrow>
                              ([StageEvent ''classify'', StageEvent ''retrieve'', StageEvent ''generate'',
                                StageEvent ''verify'', TerminalEvent (Abstained a)],
                               summarise (uq_question eff) (ur_score u) w2)
                          | None \<Rightarrow>
                              ([StageEvent ''classify'', StageEvent ''retrieve'', StageEvent ''generate'',
                                StageEvent ''verify'',
                                TerminalEvent (Answered (hide_sql (uq_include_sql eff) (stamp_response prepared u)))],
                               summarise (uq_question eff) (ur_score u) (record_answer env prepared u w2)))))))"

section \<open>Lemmas\<close>

lemma abstain_on_iff: "abstain_on env u = None \<longleftrightarrow> (\<forall>rc. \<not> trigger (abstention_input_of env u) rc)"
  by (simp add: abstain_on_def evaluate_abstention_def select_reason_code_None)

lemma call_rag_frame:
  "call_rag env r w = (res, w') \<Longrightarrow> aw_conversations w' = aw_conversations w \<and> aw_clarifications w' = aw_clarifications w \<and>
     (\<exists>calls. aw_rag_calls w' = aw_rag_calls w @ calls \<and> (\<forall>c \<in> set calls. snd c = uq_document_ids r))"
  by (auto simp: call_rag_def split: if_splits)

lemma run_route_frame:
  assumes "run_route env r d w = (res, w')"
  shows "aw_conversations w' = aw_conversations w \<and> aw_clarifications w' = aw_clarifications w \<and>
     (\<exists>calls. aw_rag_calls w' = aw_rag_calls w @ calls \<and> (\<forall>c \<in> set calls. snd c = uq_document_ids r))"
  using assms call_rag_frame[of env r w]
  by (auto simp: run_route_def route_rag_def route_database_def route_hybrid_def
      split: route.splits prod.splits sum.splits)

lemma run_route_available:
  "run_route env r (available_route env d) w = (Inr u, w') \<Longrightarrow> ur_route u \<noteq> RouteRag \<Longrightarrow> ae_copilot_on env"
  by (auto simp: run_route_def available_route_def route_rag_def split: route.splits if_splits prod.splits sum.splits)

lemma issue_for_frame:
  "issue_for env r d p w = (x, w') \<Longrightarrow> aw_conversations w' = aw_conversations w \<and> aw_rag_calls w' = aw_rag_calls w"
  by (auto simp: issue_for_def split: if_splits prod.splits option.splits)

lemma clarify_first_frame:
  "clarify_first env allow r d p w = (x, w') \<Longrightarrow> aw_conversations w' = aw_conversations w \<and> aw_rag_calls w' = aw_rag_calls w"
  by (auto simp: clarify_first_def dest: issue_for_frame split: if_splits)

lemma prepare_ask_scope:
  assumes "prepare_ask env r w = Inr (eff, p)" "uq_document_ids r = Some ids"
  shows "uq_document_ids eff = Some ids"
proof (cases "ae_conversations env")
  case True
  then obtain q where q: "prepare_turn (ae_conv_env env) (ae_conv_settings env) r (aw_conversations w) = Inr q"
    "eff = pt_request q" using assms(1) by (auto simp: prepare_ask_def split: sum.splits)
  show ?thesis using prepare_turn_Inr(4)[OF q(1)] q(2) assms(2) by (simp add: resolved_scope_def)
qed (use assms in \<open>simp add: prepare_ask_def\<close>)

text \<open>Whatever happens, the document service is only ever called with the scope of the request.\<close>

lemma router_query_calls:
  assumes "router_query env allow r w = (res, w')" "uq_document_ids r = Some ids"
  shows "\<exists>calls. aw_rag_calls w' = aw_rag_calls w @ calls \<and> (\<forall>c \<in> set calls. snd c = Some ids)"
proof (cases "prepare_ask env r w")
  case (Inr ep)
  obtain eff prepared where ep: "ep = (eff, prepared)" by (cases ep)
  have sc: "uq_document_ids eff = Some ids" using prepare_ask_scope[OF _ assms(2)] Inr ep by blast
  show ?thesis
  proof (cases "classify_query env (uq_question eff)")
    case (Inr d)
    obtain x w1 where c: "clarify_first env allow eff d prepared w = (x, w1)"
      by (cases "clarify_first env allow eff d prepared w")
    obtain y w2 where t: "run_route env eff (available_route env d) w1 = (y, w2)"
      by (cases "run_route env eff (available_route env d) w1")
    show ?thesis
      using assms(1) \<open>prepare_ask env r w = Inr ep\<close> ep Inr c t clarify_first_frame[OF c] run_route_frame[OF t] sc
      by (cases x; cases y) (auto simp: router_query_def summarise_def record_answer_def split: option.splits)
  qed (use assms Inr ep in \<open>auto simp: router_query_def\<close>)
qed (use assms in \<open>auto simp: router_query_def\<close>)

end
