(* ===== verification/AskApi.thy ===== *)
theory AskApi
  imports Routing AuthHttp Documents "HOL-Library.List_Lexorder" "HOL-Library.Char_ord"
begin

text \<open>
  The question endpoints of \<open>api.py\<close>: the role-based document scope of a caller, \<open>/ask\<close>,
  \<open>/ask/stream\<close>, \<open>/ask/clarify\<close>, and the document endpoints' access check. A status code stands for
  an HTTP error; an exception no handler catches is status 500.
\<close>

section \<open>Access\<close>

definition user_can_access :: "document_record \<Rightarrow> user_public \<Rightarrow> auth_settings \<Rightarrow> bool" where
  "user_can_access r u st \<longleftrightarrow>
     \<not> as_enabled st \<or> resolve_is_operator u st \<or> d_owner r = Some (up_email u)"

definition owned_ids :: "document_record list \<Rightarrow> user_public \<Rightarrow> ident set" where
  "owned_ids docs u = set (map d_id (filter (\<lambda>r. d_owner r = Some (up_email u)) docs))"

definition scoped_document_ids :: "document_record list \<Rightarrow> user_public \<Rightarrow> auth_settings
    \<Rightarrow> ident list option \<Rightarrow> ident list option" where
  "scoped_document_ids docs u st requested =
     (if \<not> as_enabled st \<or> resolve_is_operator u st then requested
      else case requested of
             Some (x # xs) \<Rightarrow> Some (filter (\<lambda>i. i \<in> owned_ids docs u) (x # xs))
           | _ \<Rightarrow> Some (sorted_list_of_set (owned_ids docs u)))"

definition list_documents_for :: "document_record list \<Rightarrow> user_public \<Rightarrow> auth_settings \<Rightarrow> document_record list" where
  "list_documents_for docs u st =
     (if \<not> as_enabled st \<or> resolve_is_operator u st then docs
      else filter (\<lambda>r. d_owner r = Some (up_email u)) docs)"

section \<open>The question endpoints\<close>

definition status_of :: "ask_error \<Rightarrow> nat" where
  "status_of e = (case e of AskRuntime _ \<Rightarrow> 503 | AskSqlValidation _ \<Rightarrow> 400 | _ \<Rightarrow> 500)"

definition scope_request :: "document_record list \<Rightarrow> user_public \<Rightarrow> auth_settings
    \<Rightarrow> unified_request \<Rightarrow> unified_request" where
  "scope_request docs u st r =
     r\<lparr>uq_document_ids := scoped_document_ids docs u st (uq_document_ids r)\<rparr>"

definition ask :: "ask_env \<Rightarrow> document_record list \<Rightarrow> user_public \<Rightarrow> auth_settings
    \<Rightarrow> unified_request \<Rightarrow> ask_world \<Rightarrow> (nat + unified_response ask_outcome) \<times> ask_world" where
  "ask env docs u st r w =
     (let r' = scope_request docs u st r
      in case router_query env True r' w of
           (Inl e, w') \<Rightarrow> (Inl (status_of e), w')
         | (Inr (Answered a), w') \<Rightarrow> (Inr (Answered (hide_sql (uq_include_sql r') a)), w')
         | (Inr out, w') \<Rightarrow> (Inr out, w'))"

definition ask_stream :: "ask_env \<Rightarrow> document_record list \<Rightarrow> user_public \<Rightarrow> auth_settings
    \<Rightarrow> unified_request \<Rightarrow> ask_world \<Rightarrow> ask_event list \<times> ask_world" where
  "ask_stream env docs u st r w =
     router_query_stream env (scope_request docs u st r) w"

definition clarify_request :: "string \<Rightarrow> ident list option \<Rightarrow> unified_request" where
  "clarify_request question scope =
     \<lparr>uq_question = question, uq_document_ids = scope, uq_include_sql = False, uq_conversation_id = None,
      uq_forget = False\<rparr>"

definition clarify_path :: "ask_env \<Rightarrow> string \<Rightarrow> ident list option \<Rightarrow> unified_response ask_outcome asking" where
  "clarify_path env question scope w =
     (case build_request (clarify_request question scope) of
        Inl e \<Rightarrow> (Inl e, w) | Inr r \<Rightarrow> router_query env False r w)"

definition ask_clarify :: "ask_env \<Rightarrow> (ident \<Rightarrow> bool) \<Rightarrow> ident \<Rightarrow> string \<Rightarrow> ask_world
    \<Rightarrow> (nat + unified_response ask_outcome) \<times> ask_world" where
  "ask_clarify env intact i reply w =
     (case process_reply intact (ae_now env) (Some (ae_trace_id env)) (ae_trace_id env) (clarify_path env)
             (aw_clarifications w) i reply w of
        (Inl (ReplyError _), w') \<Rightarrow> (Inl 400, w')
      | (Inl (PathError _), w') \<Rightarrow> (Inl 500, w')
      | (Inr out, w') \<Rightarrow> (Inr out, w'))"

section \<open>Lemmas\<close>

definition plain_user :: "user_public \<Rightarrow> auth_settings \<Rightarrow> bool" where
  "plain_user u st \<longleftrightarrow> as_enabled st \<and> \<not> resolve_is_operator u st"

lemma scoped_plain:
  assumes "plain_user u st"
  shows "\<exists>ids. scoped_document_ids docs u st requested = Some ids \<and> set ids \<subseteq> owned_ids docs u"
  using assms by (auto simp: scoped_document_ids_def plain_user_def owned_ids_def split: option.splits list.splits)

lemma router_query_stream_cases:
  assumes "router_query_stream env r w = (evs, w1)" "router_query env True r w = (res, w2)"
  shows "(\<exists>stages lst. evs = map StageEvent stages @ [lst] \<and>
            prefix stages [''classify'', ''retrieve'', ''generate'', ''verify''] \<and>
            lst = (case res of
                     Inl e \<Rightarrow> ErrorEvent e
                   | Inr (Answered a) \<Rightarrow> TerminalEvent (Answered (hide_sql (uq_include_sql r) a))
                   | Inr out \<Rightarrow> TerminalEvent out)) \<and>
         aw_conversations w1 = aw_conversations w2 \<and> aw_clarifications w1 = aw_clarifications w2 \<and>
         aw_rag_calls w1 = aw_rag_calls w2 \<and> aw_traces w1 = aw_traces w2"
proof (cases "prepare_ask env r w")
  case (Inl e)
  then show ?thesis using assms
    by (intro conjI exI[of _ "[]"] exI[of _ "ErrorEvent e"])
      (auto simp: router_query_stream_def router_query_def)
next
  case prep: (Inr ep)
  obtain eff prepared where ep: "ep = (eff, prepared)" by (cases ep)
  have inc: "uq_include_sql eff = uq_include_sql r" using prep ep
    by (auto simp: prepare_ask_def prepare_turn_Inr(6) split: if_splits sum.splits)
  show ?thesis
  proof (cases "classify_query env (uq_question eff)")
    case (Inl e)
    then show ?thesis using assms prep ep
      by (intro conjI exI[of _ "[''classify'']"] exI[of _ "ErrorEvent e"])
        (auto simp: router_query_stream_def router_query_def)
  next
    case cls: (Inr d)
    obtain x w3 where c: "clarify_first env True eff d prepared w = (x, w3)"
      by (cases "clarify_first env True eff d prepared w")
    show ?thesis
    proof (cases x)
      case (Some prompt)
      then show ?thesis using assms prep ep cls c
        by (intro conjI exI[of _ "[''classify'']"] exI[of _ "TerminalEvent (Clarify prompt)"])
          (auto simp: router_query_stream_def router_query_def summarise_def)
    next
      case None
      obtain y w4 where t: "run_route env eff (available_route env d) w3 = (y, w4)"
        by (cases "run_route env eff (available_route env d) w3")
      show ?thesis
      proof (cases y)
        case (Inl e)
        then show ?thesis using assms prep ep cls c None t
          by (intro conjI exI[of _ "[''classify'', ''retrieve'', ''generate'']"] exI[of _ "ErrorEvent e"])
            (auto simp: router_query_stream_def router_query_def)
      next
        case (Inr u)
        let ?st = "[''classify'', ''retrieve'', ''generate'', ''verify'']"
        show ?thesis
        proof (cases "abstain_on env u")
          case (Some a)
          then show ?thesis using assms prep ep cls c None t Inr
            by (intro conjI exI[of _ ?st] exI[of _ "TerminalEvent (Abstained a)"])
              (auto simp: router_query_stream_def router_query_def)
        next
          case no: None
          then show ?thesis using assms prep ep cls c None t Inr inc
            by (intro conjI exI[of _ ?st]
                exI[of _ "TerminalEvent (Answered (hide_sql (uq_include_sql r) (stamp_response prepared u)))"])
              (auto simp: router_query_stream_def router_query_def)
        qed
      qed
    qed
  qed
qed

lemma router_query_answered:
  assumes "router_query env allow r w = (Inr (Answered u), w')"
  shows "\<exists>eff prepared d w1 u0 w2. prepare_ask env r w = Inr (eff, prepared) \<and>
     classify_query env (uq_question eff) = Inr d \<and>
     run_route env eff (available_route env d) w1 = (Inr u0, w2) \<and> u = stamp_response prepared u0 \<and>
     abstain_on env u0 = None"
  using assms unfolding router_query_def
  by (auto split: sum.splits prod.splits option.splits)

lemma abstain_on_stamp: "abstain_on env (stamp_response p u) = abstain_on env u"
  by (simp add: abstain_on_def abstention_input_of_def stamp_response_def)

lemma run_route_database:
  "run_route env r d w = (Inr u, w') \<Longrightarrow> ur_route u = RouteDatabase \<Longrightarrow>
   \<exists>b. ae_copilot env (uq_question r) (uq_include_sql r) = Inr b \<and> ur_sql u = db_sql b \<and> ur_rows u = db_rows b"
  by (auto simp: run_route_def route_rag_def route_database_def route_hybrid_def call_copilot_def
      split: route.splits prod.splits sum.splits if_splits)

lemma prepare_ask_sql: "prepare_ask env r w = Inr (eff, p) \<Longrightarrow> uq_include_sql eff = uq_include_sql r"
  by (auto simp: prepare_ask_def prepare_turn_Inr(6) split: if_splits sum.splits)

section \<open>A running example\<close>

definition demo_rag :: rag_response where
  "demo_rag = \<lparr>rr_answer = ''yes'', rr_citations = [], rr_evidence_status = ''grounded'', rr_trace_id = ''t'',
     rr_confidence = None, rr_score = Some (9 / 10), rr_reason = None, rr_claims = [], rr_failed = False,
     rr_scores = [9 / 10]\<rparr>"

definition demo_db_answer :: db_response where
  "demo_db_answer = \<lparr>db_answer = ''two'', db_evidence_status = ''grounded'', db_trace_id = ''t'', db_score = Some (9 / 10),
     db_sql = Some ''SELECT 2'', db_rows = [[(''n'', JInt 2)]], db_sources = []\<rparr>"

definition demo_ask_env :: "string \<Rightarrow> bool \<Rightarrow> ask_env" where
  "demo_ask_env name conversations =
     \<lparr>ae_conversations = conversations, ae_conv_env = demo_conv_env, ae_conv_settings = demo_conv_settings,
      ae_clarifications = True, ae_clarification_id = ''i'', ae_now = 0, ae_expiry_minutes = 30,
      ae_classifier = (\<lambda>_. Some ''x''), ae_loads = (\<lambda>_. Some (JObj [(''route'', JStr name)])),
      ae_str = (\<lambda>_. []), ae_float = (\<lambda>_. None), ae_copilot_on = True,
      ae_rag = (\<lambda>_ _. Inr demo_rag), ae_copilot = (\<lambda>_ _. Inr demo_db_answer), ae_synthesize = (\<lambda>_ a b. Inr (a @ b)),
      ae_mode = SynthAuto, ae_overlap = 1 / 2, ae_min_confidence = 1 / 2, ae_score_threshold = 1 / 2,
      ae_trace_id = ''t''\<rparr>"

definition demo_world :: ask_world where
  "demo_world = \<lparr>aw_conversations = empty_store,
     aw_clarifications = put_json empty_store (clarification_key ''k'')
       \<lparr>cl_id = ''k'', cl_turn_id = ''t'', cl_question = ''how many?'', cl_scope = None, cl_expiry = Some 9\<rparr>,
     aw_traces = [], aw_summaries = [], aw_rag_calls = []\<rparr>"

definition plain_demo :: user_public where
  "plain_demo = \<lparr>up_id = ''u'', up_email = ''a@b.c'', up_is_active = True, up_created_at = 0, up_is_operator = False\<rparr>"

lemma plain_demo_not_operator: "as_enabled demo_settings" "\<not> resolve_is_operator plain_demo demo_settings"
proof -
  show "as_enabled demo_settings" by simp
  have "operator_emails_set demo_settings = {}" by code_simp
  then show "\<not> resolve_is_operator plain_demo demo_settings" by (simp add: resolve_is_operator_def plain_demo_def)
qed

lemmas demo_ask_simps = router_query_def prepare_ask_def classify_query_def parse_routing_response_def demo_ask_env_def
  demo_rag_def demo_db_answer_def j_get_def float_of_json_def flag_of_def clarify_first_def available_route_def run_route_def
  route_rag_def route_database_def call_rag_def call_copilot_def route_of_name_def valid_question_def valid_scope_def
  max_question_chars_def max_document_ids_def abstain_on_def evaluate_abstention_def select_reason_code_def
  abstention_input_of_def Let_def route_name_def

definition demo_docs :: "nat \<Rightarrow> document_record list" where
  "demo_docs n = map (\<lambda>k. demo_doc\<lparr>d_id := replicate k CHR ''d'', d_owner := Some ''a@b.c''\<rparr>) [0..<n]"

lemma card_demo_docs: "card (owned_ids (demo_docs n) plain_demo) = n"
proof -
  have "owned_ids (demo_docs n) plain_demo = (\<lambda>k. replicate k CHR ''d'') ` {0..<n}"
    unfolding owned_ids_def plain_demo_def demo_docs_def by (auto simp: image_iff)
  moreover have "inj_on (\<lambda>k. replicate k CHR ''d'') {0..<n}"
    by (rule inj_onI) (metis length_replicate)
  ultimately show ?thesis by (simp add: card_image)
qed

definition long_question :: "nat \<Rightarrow> string" where "long_question n = replicate n CHR ''q''"

lemma strip_long_question: "py_strip (long_question n) = long_question n"
proof -
  have q: "\<not> is_space CHR ''q''" by (simp add: is_space_def)
  have d: "dropWhile is_space (replicate n CHR ''q'') = replicate n CHR ''q''" using q by (cases n) simp_all
  show ?thesis by (simp add: long_question_def py_strip_def lstrip_by_def rstrip_by_def d q)
qed

lemma length_long_question: "length (long_question n) = n" by (simp add: long_question_def)

lemma lower_routes: "py_lower ''rag'' = ''rag''" "py_lower ''database'' = ''database''"
  by code_simp+

section \<open>Properties\<close>



text \<open>C15. Retrieval is confined to the caller's own documents: a caller who is not an operator, whatever
  scope the request asks for and whatever conversation it continues, never causes the document
  service to be called with anything but a scope inside the documents they own.\<close>

theorem ask_confined:
  assumes "as_enabled st" "\<not> resolve_is_operator u st" "ask env docs u st r w = (res, w')"
  shows "\<exists>calls. aw_rag_calls w' = aw_rag_calls w @ calls \<and>
     (\<forall>c \<in> set calls. \<exists>ids. snd c = Some ids \<and>
        (\<forall>i \<in> set ids. \<exists>doc \<in> set docs. d_id doc = i \<and> d_owner doc = Some (up_email u)))"
proof -
  let ?r = "scope_request docs u st r"
  obtain ids where ids: "uq_document_ids ?r = Some ids" "set ids \<subseteq> owned_ids docs u"
    using scoped_plain[of u st docs "uq_document_ids r"] assms(1,2)
    by (auto simp: scope_request_def plain_user_def)
  obtain q where "router_query env True ?r w = (q, w')"
    using assms(3) by (auto simp: ask_def Let_def split: prod.splits sum.splits ask_outcome.splits)
  from router_query_calls[OF this ids(1)] show ?thesis
    using ids(2) by (fastforce simp: owned_ids_def)
qed

theorem ask_confined_witness:
  "snd ` set (aw_rag_calls (snd (ask (demo_ask_env ''rag'' False) [demo_doc\<lparr>d_owner := Some ''a@b.c''\<rparr>] plain_demo demo_settings
       (demo_ask\<lparr>uq_document_ids := Some [''d'', ''other'']\<rparr>) demo_world))) \<subseteq> Some ` {ids. set ids \<subseteq> {d_id demo_doc}}"
  using ask_confined[OF plain_demo_not_operator surjective_pairing,
      of "demo_ask_env ''rag'' False" "[demo_doc\<lparr>d_owner := Some ''a@b.c''\<rparr>]"
         "demo_ask\<lparr>uq_document_ids := Some [''d'', ''other'']\<rparr>" demo_world]
  by (fastforce simp: demo_world_def)

text \<open>C17. No answer passes a gate that fires: whenever a question is answered, on any route, plain or
  after a clarification, none of the six abstention triggers holds of the response, and an answer
  of the database or hybrid route needs an available copilot.\<close>

theorem answers_pass_every_gate:
  assumes "router_query env allow r w = (Inr (Answered u), w')"
  shows "(\<forall>rc. \<not> trigger (abstention_input_of env u) rc) \<and> (ur_route u \<noteq> RouteRag \<longrightarrow> ae_copilot_on env)"
proof -
  obtain eff prepared d w1 u0 w2 where a: "run_route env eff (available_route env d) w1 = (Inr u0, w2)"
    "u = stamp_response prepared u0" "abstain_on env u0 = None"
    using router_query_answered[OF assms] by blast
  have "abstain_on env u = None" using a(2,3) by (simp add: abstain_on_stamp)
  moreover have "ur_route u = ur_route u0" using a(2) by (simp add: stamp_response_def)
  ultimately show ?thesis using run_route_available[OF a(1)] unfolding abstain_on_iff by simp
qed

theorem answers_pass_every_gate_witness:
  "\<exists>u. fst (router_query (demo_ask_env ''database'' False) True (demo_ask\<lparr>uq_document_ids := None\<rparr>) demo_world) = Inr (Answered u) \<and>
     \<not> trigger (abstention_input_of (demo_ask_env ''database'' False) u) SqlNoRows"
proof -
  obtain u w' where r: "router_query (demo_ask_env ''database'' False) True (demo_ask\<lparr>uq_document_ids := None\<rparr>) demo_world = (Inr (Answered u), w')"
    by (simp add: demo_ask_simps lower_routes)
  have "\<forall>rc. \<not> trigger (abstention_input_of (demo_ask_env ''database'' False) u) rc"
    using answers_pass_every_gate[OF r] by (rule conjunct1)
  then show ?thesis using r by (auto simp del: trigger.simps)
qed

text \<open>The reply endpoint reveals the SQL the plain endpoint hides: \<open>/ask\<close> removes the statement and
  its rows from an answer unless they were asked for, while \<open>/ask/clarify\<close>, whose request never asks
  for them, returns the copilot's statement and rows as they are.\<close>

theorem clarify_reveals_sql:
  assumes "ask env docs usr st r w = (Inr (Answered u1), w1)" "\<not> uq_include_sql r"
    "ask_clarify env intact i reply w = (Inr (Answered u2), w2)" "ur_route u2 = RouteDatabase"
  shows "ur_sql u1 = None \<and> ur_rows u1 = [] \<and>
     (\<exists>q b. ae_copilot env q False = Inr b \<and> ur_sql u2 = db_sql b \<and> ur_rows u2 = db_rows b)"
proof -
  have one: "ur_sql u1 = None \<and> ur_rows u1 = []"
    using assms(1,2) by (auto simp: ask_def Let_def hide_sql_def scope_request_def
        split: prod.splits sum.splits ask_outcome.splits)
  obtain q scope where "clarify_path env q scope w = (Inr (Answered u2), w2)"
    using assms(3) by (auto simp: ask_clarify_def process_reply_def
        split: prod.splits sum.splits ask_outcome.splits if_splits reply_failure.splits)
  then have "router_query env False (clarify_request q scope) w = (Inr (Answered u2), w2)"
    by (auto simp: clarify_path_def build_request_def split: sum.splits if_splits)
  then obtain eff prepared d x u0 y where a: "prepare_ask env (clarify_request q scope) w = Inr (eff, prepared)"
    "run_route env eff (available_route env d) x = (Inr u0, y)" "u2 = stamp_response prepared u0"
    using router_query_answered by blast
  have "ur_route u0 = RouteDatabase" "ur_sql u2 = ur_sql u0" "ur_rows u2 = ur_rows u0"
    using a(3) assms(4) by (simp_all add: stamp_response_def)
  then show ?thesis using one run_route_database[OF a(2)] prepare_ask_sql[OF a(1)]
    by (auto simp: clarify_request_def)
qed

theorem clarify_reveals_sql_witness:
  "\<exists>u. fst (ask_clarify (demo_ask_env ''database'' False) (\<lambda>_. True) ''k'' ''the docs'' demo_world) = Inr (Answered u) \<and>
     ur_sql u = Some ''SELECT 2''"
proof -
  let ?env = "demo_ask_env ''database'' False"
  obtain u1 w1 where a: "ask ?env [] plain_demo (demo_settings\<lparr>as_enabled := False\<rparr>) demo_ask demo_world = (Inr (Answered u1), w1)"
    by (simp add: ask_def scope_request_def scoped_document_ids_def demo_ask_simps lower_routes)
  have l: "load_clarification (\<lambda>_. True) 0 ''k'' (aw_clarifications demo_world) =
      Inr \<lparr>cl_id = ''k'', cl_turn_id = ''t'', cl_question = ''how many?'', cl_scope = None, cl_expiry = Some 9\<rparr>"
    by (simp add: load_clarification_Inr demo_world_def key_cell_def put_json_def)
  have s: "py_strip ''the docs'' = ''the docs''" "py_strip ''how many?'' = ''how many?''" by code_simp+
  obtain u2 w2 where c: "ask_clarify ?env (\<lambda>_. True) ''k'' ''the docs'' demo_world = (Inr (Answered u2), w2)"
    and d: "ur_route u2 = RouteDatabase"
    using l by (simp add: ask_clarify_def process_reply_def clarify_path_def clarify_request_def build_request_def s
        combine_question_and_reply_def demo_ask_simps lower_routes stamp_response_def)
  have "\<exists>q b. ae_copilot ?env q False = Inr b \<and> ur_sql u2 = db_sql b"
    using clarify_reveals_sql[OF a _ c d] by auto
  then show ?thesis using c by (auto simp: demo_ask_env_def demo_db_answer_def)
qed

text \<open>A long ambiguous question can never be clarified: the reply is appended to the original
  question, so when the question already has 15983 characters or more every non-blank reply makes
  the combined request invalid and the endpoint fails, although the question itself was accepted.\<close>

theorem long_question_unclarifiable:
  assumes "load_clarification intact (ae_now env) i (aw_clarifications w) = Inr c"
    "15983 \<le> length (py_strip (cl_question c))" "py_strip reply \<noteq> []"
  shows "ask_clarify env intact i reply w = (Inl 500, w)"
proof -
  have "1 \<le> length (py_strip reply)" using assms(3) by (cases "py_strip reply") auto
  then have "max_question_chars < length (combine_question_and_reply (cl_question c) reply)"
    using assms(2) by (simp add: combine_question_and_reply_def max_question_chars_def)
  then show ?thesis using assms
    by (simp add: ask_clarify_def process_reply_def clarify_path_def clarify_request_def build_request_def valid_question_def)
qed

theorem long_question_unclarifiable_witness:
  "fst (ask_clarify (demo_ask_env ''rag'' False) (\<lambda>_. True) ''k'' ''ok''
     (demo_world\<lparr>aw_clarifications := put_json empty_store (clarification_key ''k'')
       \<lparr>cl_id = ''k'', cl_turn_id = ''t'', cl_question = long_question 16000, cl_scope = None, cl_expiry = Some 9\<rparr>\<rparr>)) = Inl 500"
proof -
  let ?c = "\<lparr>cl_id = ''k'', cl_turn_id = ''t'', cl_question = long_question 16000, cl_scope = None, cl_expiry = Some 9\<rparr>"
  let ?w = "demo_world\<lparr>aw_clarifications := put_json empty_store (clarification_key ''k'') ?c\<rparr>"
  have l: "load_clarification (\<lambda>_. True) (ae_now (demo_ask_env ''rag'' False)) ''k'' (aw_clarifications ?w) = Inr ?c"
    by (simp add: load_clarification_Inr key_cell_def put_json_def demo_ask_env_def)
  have s: "py_strip ''ok'' \<noteq> []" by code_simp
  show ?thesis by (subst long_question_unclarifiable[OF l _ s]) (simp_all add: strip_long_question length_long_question)
qed

text \<open>A prolific owner cannot ask at all: when conversations are kept, a caller who is not an
  operator and owns more than a thousand documents gets an internal error on every question that
  does not name documents, because the scope the endpoint substitutes fails the validation of the
  request rebuilt from it.\<close>

theorem large_owner_cannot_ask:
  assumes "as_enabled st" "\<not> resolve_is_operator u st" "1000 < card (owned_ids docs u)"
    "uq_document_ids r = None \<or> uq_document_ids r = Some []" "ae_conversations env"
  shows "ask env docs u st r w = (Inl 500, w)"
proof -
  let ?ids = "sorted_list_of_set (owned_ids docs u)" and ?r = "scope_request docs u st r"
  have ids: "uq_document_ids ?r = Some ?ids"
    using assms(1,2,4) by (auto simp: scope_request_def scoped_document_ids_def)
  have "\<not> valid_scope (Some ?ids)" using assms(3) by (simp add: valid_scope_def max_document_ids_def)
  then have "prepare_turn (ae_conv_env env) (ae_conv_settings env) ?r (aw_conversations w) = Inl AskValidation"
    using ids by (simp add: prepare_turn_eq Let_def resolved_scope_def build_request_def)
  then show ?thesis using assms(5) by (simp add: ask_def Let_def router_query_def prepare_ask_def status_of_def)
qed

theorem large_owner_cannot_ask_witness:
  "ask (demo_ask_env ''rag'' True) (demo_docs 1001) plain_demo demo_settings (demo_ask\<lparr>uq_document_ids := None\<rparr>) demo_world =
   (Inl 500, demo_world)"
  by (intro large_owner_cannot_ask[OF plain_demo_not_operator]) (simp_all add: demo_ask_env_def card_demo_docs)

end
