(* ===== verification/Cursor.thy ===== *)
theory Cursor
  imports Json "HOL-Library.List_Lexorder" "HOL-Library.Char_ord"
begin

text \<open>
  The signed pagination tokens of \<open>corpus.py\<close> and \<open>feedback.py\<close>: the URL-safe base64 of the standard
  library (a character is a byte), the JSON text of a dictionary of strings, the token made of a
  payload and its signature, and its verification. The message authentication code, \<open>json.loads\<close> of
  UTF-8 bytes and \<open>str\<close> of a value other than a string are arguments.
\<close>

section \<open>Base64\<close>

definition b64_char :: "nat \<Rightarrow> char" where
  "b64_char i =
     char_of (if i < 26 then 65 + i else if i < 52 then 97 + (i - 26) else if i < 62 then 48 + (i - 52)
              else if i = 62 then 45 else (95 :: nat))"

text \<open>The URL-safe decoder maps both alphabets: \<open>-\<close> and \<open>_\<close> become \<open>+\<close> and \<open>/\<close>.\<close>

definition b64_value :: "char \<Rightarrow> nat option" where
  "b64_value c =
     (let n = (of_char c :: nat)
      in if 65 \<le> n \<and> n \<le> 90 then Some (n - 65)
         else if 97 \<le> n \<and> n \<le> 122 then Some (n - 97 + 26)
         else if 48 \<le> n \<and> n \<le> 57 then Some (n - 48 + 52)
         else if n = 43 \<or> n = 45 then Some 62
         else if n = 47 \<or> n = 95 then Some 63 else None)"

definition pad_char :: char where "pad_char = CHR ''=''"

definition byte_of :: "char \<Rightarrow> nat" where "byte_of c = of_char c"

fun b64_encode :: "string \<Rightarrow> string" where
  "b64_encode [] = []"
| "b64_encode [a] =
     [b64_char (byte_of a div 4), b64_char (byte_of a mod 4 * 16), pad_char, pad_char]"
| "b64_encode [a, b] =
     [b64_char (byte_of a div 4), b64_char (byte_of a mod 4 * 16 + byte_of b div 16),
      b64_char (byte_of b mod 16 * 4), pad_char]"
| "b64_encode (a # b # c # r) =
     b64_char (byte_of a div 4) # b64_char (byte_of a mod 4 * 16 + byte_of b div 16) #
     b64_char (byte_of b mod 16 * 4 + byte_of c div 64) # b64_char (byte_of c mod 64) # b64_encode r"

text \<open>The scanner of \<open>a2b_base64\<close>, not strict: characters outside the alphabet are skipped, and so is a
  pad that does not complete its quadruple; \<open>left\<close> holds the bits not yet written. \<open>None\<close> is an error.\<close>

fun b64_scan :: "nat \<Rightarrow> nat \<Rightarrow> nat \<Rightarrow> string \<Rightarrow> string option" where
  "b64_scan quad left pads [] = (if quad = 0 then Some [] else None)"
| "b64_scan quad left pads (c # cs) =
     (if c = pad_char then
        (if 2 \<le> quad then (if 4 \<le> quad + (pads + 1) then Some [] else b64_scan quad left (pads + 1) cs)
         else b64_scan quad left pads cs)
      else case b64_value c of
             None \<Rightarrow> b64_scan quad left pads cs
           | Some v \<Rightarrow>
               if quad = 0 then b64_scan 1 v 0 cs
               else if quad = 1 then map_option ((#) (char_of (left * 4 + v div 16))) (b64_scan 2 (v mod 16) 0 cs)
               else if quad = 2 then map_option ((#) (char_of (left * 16 + v div 4))) (b64_scan 3 (v mod 4) 0 cs)
               else map_option ((#) (char_of (left * 64 + v))) (b64_scan 0 0 0 cs))"

definition b64url_encode :: "string \<Rightarrow> string" where
  "b64url_encode raw = rstrip_by (\<lambda>c. c = pad_char) (b64_encode raw)"

definition is_ascii :: "string \<Rightarrow> bool" where
  "is_ascii s \<longleftrightarrow> list_all (\<lambda>c. (of_char c :: nat) < 128) s"

definition b64url_decode :: "string \<Rightarrow> string option" where
  "b64url_decode token =
     (let padded = token @ replicate ((4 - length token mod 4) mod 4) pad_char
      in if is_ascii padded then b64_scan 0 0 0 padded else None)"

section \<open>JSON text of a dictionary of strings\<close>

definition hex_digit :: "nat \<Rightarrow> char" where
  "hex_digit d = char_of (if d < 10 then 48 + d else 87 + d)"

definition escape_char :: "char \<Rightarrow> string" where
  "escape_char c =
     (let n = (of_char c :: nat); b = CHR 0x5C
      in if n = 34 then [b, CHR 0x22]
         else if n = 92 then [b, b]
         else if n = 10 then [b, CHR ''n'']
         else if n = 13 then [b, CHR ''r'']
         else if n = 9 then [b, CHR ''t'']
         else if n = 12 then [b, CHR ''f'']
         else if n = 8 then [b, CHR ''b'']
         else if 32 \<le> n \<and> n \<le> 126 then [c]
         else [b, CHR ''u'', CHR ''0'', CHR ''0'', hex_digit (n div 16), hex_digit (n mod 16)])"

definition json_string :: "string \<Rightarrow> string" where
  "json_string s = CHR 0x22 # concat (map escape_char s) @ [CHR 0x22]"

definition json_field :: "string \<times> string \<Rightarrow> string" where
  "json_field kv = json_string (fst kv) @ '':'' @ json_string (snd kv)"

text \<open>\<open>json.dumps(obj, separators=(",", ":"), sort_keys=True)\<close> of a dictionary of strings.\<close>

definition dumps_strs :: "(string \<times> string) list \<Rightarrow> string" where
  "dumps_strs kvs = ''{'' @ join_with '','' (map json_field (sort_key fst kvs)) @ ''}''"

section \<open>Signed tokens\<close>

record cursor_env =
  ce_mac :: "string \<Rightarrow> string \<Rightarrow> string"
  ce_loads :: json_loads
  ce_str :: "json \<Rightarrow> string"

definition sign_payload :: "cursor_env \<Rightarrow> string option \<Rightarrow> string \<Rightarrow> string" where
  "sign_payload env signing_key payload = ce_mac env (case signing_key of Some k \<Rightarrow> k | None \<Rightarrow> []) payload"

definition seal_token :: "cursor_env \<Rightarrow> string option \<Rightarrow> (string \<times> string) list \<Rightarrow> string" where
  "seal_token env signing_key kvs =
     (let payload = dumps_strs kvs
      in b64url_encode payload @ ''.'' @ b64url_encode (sign_payload env signing_key payload))"

datatype cursor_error = CursorEmpty | CursorMalformed | CursorBase64 | CursorSignature | CursorJson
  | CursorNotObject | CursorMissing | CursorUnknown | CursorMismatch

definition open_token :: "cursor_env \<Rightarrow> string option \<Rightarrow> string \<Rightarrow> cursor_error + (string \<times> json) list" where
  "open_token env signing_key token =
     (if token = [] then Inl CursorEmpty
      else case py_split CHR ''.'' token of
             [p, g] \<Rightarrow>
               (case (b64url_decode p, b64url_decode g) of
                  (Some payload, Some signature) \<Rightarrow>
                    if signature \<noteq> sign_payload env signing_key payload then Inl CursorSignature
                    else (case ce_loads env payload of
                            None \<Rightarrow> Inl CursorJson
                          | Some (JObj kvs) \<Rightarrow> Inr kvs
                          | Some _ \<Rightarrow> Inl CursorNotObject)
                | _ \<Rightarrow> Inl CursorBase64)
           | _ \<Rightarrow> Inl CursorMalformed)"

text \<open>\<open>str(obj[key])\<close>; \<open>None\<close> is a missing key.\<close>

definition field_text :: "cursor_env \<Rightarrow> string \<Rightarrow> (string \<times> json) list \<Rightarrow> string option" where
  "field_text env k kvs =
     (case j_get k kvs of None \<Rightarrow> None | Some (JStr s) \<Rightarrow> Some s | Some v \<Rightarrow> Some (ce_str env v))"

text \<open>What the standard library documents: loading inverts dumping.\<close>

definition loads_inverts_dumps :: "json_loads \<Rightarrow> bool" where
  "loads_inverts_dumps loads \<longleftrightarrow>
     (\<forall>kvs. distinct (map fst kvs) \<longrightarrow>
        (\<exists>obj. loads (dumps_strs kvs) = Some (JObj obj) \<and> (\<forall>k. j_get k obj = map_option JStr (map_of kvs k))))"

section \<open>The round trip\<close>

lemma b64_char_props:
  assumes "i < 64"
  shows "b64_value (b64_char i) = Some i" "b64_char i \<noteq> pad_char" "b64_char i \<noteq> CHR ''.''"
    "(of_char (b64_char i) :: nat) < 128"
proof -
  define n :: nat where "n = (if i < 26 then 65 + i else if i < 52 then 97 + (i - 26)
    else if i < 62 then 48 + (i - 52) else if i = 62 then 45 else 95)"
  have n: "of_char (b64_char i) = n" using assms by (auto simp: b64_char_def n_def)
  show "b64_value (b64_char i) = Some i" unfolding b64_value_def Let_def n using assms by (auto simp: n_def)
  show "(of_char (b64_char i) :: nat) < 128" unfolding n using assms by (auto simp: n_def)
  have "n \<noteq> of_char pad_char" "n \<noteq> of_char CHR ''.''" using assms by (auto simp: n_def pad_char_def)
  then show "b64_char i \<noteq> pad_char" "b64_char i \<noteq> CHR ''.''" using n by metis+
qed

lemma byte_of_bound [simp]: "byte_of c < 256"
  by (simp add: byte_of_def)

lemma char_of_byte_of [simp]: "char_of (byte_of c) = c"
  by (simp add: byte_of_def)

lemma b64_parts [simp]:
  "byte_of c div 4 < 64" "byte_of c mod 4 * 16 + byte_of d div 16 < 64" "byte_of c mod 4 * 16 < 64"
  "byte_of c mod 16 * 4 + byte_of d div 64 < 64" "byte_of c mod 16 * 4 < 64" "byte_of c mod 64 < 64"
  using byte_of_bound[of c] byte_of_bound[of d] by linarith+

lemma b64_join [simp]:
  "byte_of d div 16 div 16 = 0" "byte_of d div 16 mod 16 = byte_of d div 16"
  "byte_of d div 64 div 4 = 0" "byte_of d div 64 mod 4 = byte_of d div 64"
proof -
  have "byte_of d div 16 < 16" "byte_of d div 64 < 4" using byte_of_bound[of d] by linarith+
  then show "byte_of d div 16 div 16 = 0" "byte_of d div 16 mod 16 = byte_of d div 16"
    "byte_of d div 64 div 4 = 0" "byte_of d div 64 mod 4 = byte_of d div 64" by simp_all
qed

lemma b64_scan_encode: "b64_scan 0 0 0 (b64_encode s) = Some s"
  by (induction s rule: b64_encode.induct) (simp_all add: b64_char_props del: char_of_nat)

text \<open>The encoding without its padding.\<close>

definition b64_body :: "string \<Rightarrow> string" where
  "b64_body s = filter (\<lambda>c. c \<noteq> pad_char) (b64_encode s)"

lemma b64_encode_padded:
  "b64_encode s = b64_body s @ replicate ((4 - length (b64_body s) mod 4) mod 4) pad_char"
  by (induction s rule: b64_encode.induct) (simp_all add: b64_body_def b64_char_props numeral_2_eq_2)

lemma rstrip_by_padding: "list_all (\<lambda>c. \<not> p c) xs \<Longrightarrow> p y \<Longrightarrow> rstrip_by p (xs @ replicate n y) = xs"
  by (cases xs rule: rev_cases) (simp_all add: rstrip_by_def dropWhile_append)

lemma b64url_encode_body: "b64url_encode s = b64_body s"
proof -
  have "list_all (\<lambda>c. \<not> c = pad_char) (b64_body s)" by (simp add: b64_body_def list_all_iff)
  then show ?thesis unfolding b64url_encode_def by (subst b64_encode_padded) (rule rstrip_by_padding, simp_all)
qed

lemma b64_encode_chars: "c \<in> set (b64_encode s) \<Longrightarrow> (of_char c :: nat) < 128 \<and> c \<noteq> CHR ''.''"
  by (induction s rule: b64_encode.induct) (auto simp: b64_char_props pad_char_def)

lemma b64url_no_dot: "CHR ''.'' \<notin> set (b64url_encode s)"
  using b64_encode_chars[of "CHR ''.''" s] by (auto simp: b64url_encode_body b64_body_def)

lemma b64url_round_trip: "b64url_decode (b64url_encode s) = Some s"
proof -
  have "is_ascii (b64_encode s)" by (auto simp: is_ascii_def list_all_iff dest: b64_encode_chars)
  then show ?thesis
    unfolding b64url_decode_def b64url_encode_body b64_encode_padded[symmetric] Let_def
    by (simp add: b64_scan_encode)
qed

lemma py_split_none: "x \<notin> set xs \<Longrightarrow> py_split x xs = [xs]"
  by (induction xs) auto

lemma py_split_one: "x \<notin> set xs \<Longrightarrow> x \<notin> set ys \<Longrightarrow> py_split x (xs @ x # ys) = [xs, ys]"
  by (induction xs) (auto simp: py_split_none)

lemma open_seal:
  assumes "ce_loads env (dumps_strs kvs) = Some (JObj obj)"
  shows "open_token env key (seal_token env key kvs) = Inr obj"
  using assms
  by (simp add: open_token_def seal_token_def Let_def py_split_one b64url_no_dot b64url_round_trip)

text \<open>Whatever is accepted carries the signature of its payload.\<close>

lemma open_token_signed:
  "open_token env key token = Inr obj \<Longrightarrow>
   \<exists>p g payload. py_split CHR ''.'' token = [p, g] \<and> b64url_decode p = Some payload \<and>
     b64url_decode g = Some (sign_payload env key payload) \<and> ce_loads env payload = Some (JObj obj)"
  by (auto simp: open_token_def split: if_splits list.splits option.splits json.splits)

section \<open>A reader of such dictionaries\<close>

text \<open>A reader for the texts \<^const>\<open>dumps_strs\<close> writes: one function with the documented behaviour.\<close>

definition hex_value :: "char \<Rightarrow> nat" where
  "hex_value c = (let n = of_char c in if n < 58 then n - 48 else n - 87)"

definition unescape_char :: "char \<Rightarrow> char" where
  "unescape_char c =
     (if c = CHR ''n'' then CHR 0x0A else if c = CHR ''r'' then CHR 0x0D else if c = CHR ''t'' then CHR 0x09
      else if c = CHR ''f'' then CHR 0x0C else if c = CHR ''b'' then CHR 0x08 else c)"

fun read_chars :: "string \<Rightarrow> (string \<times> string) option" where
  "read_chars (c # cs) =
     (if c = CHR 0x22 then Some ([], cs)
      else if c = CHR 0x5C then
        (case cs of
           e # r \<Rightarrow>
             if e = CHR ''u'' then
               (case r of
                  z1 # z2 # h # l # r' \<Rightarrow>
                    map_option (map_prod ((#) (char_of (hex_value h * 16 + hex_value l))) id) (read_chars r')
                | _ \<Rightarrow> None)
             else map_option (map_prod ((#) (unescape_char e)) id) (read_chars r)
         | [] \<Rightarrow> None)
      else map_option (map_prod ((#) c) id) (read_chars cs))"
| "read_chars [] = None"

fun read_fields :: "nat \<Rightarrow> string \<Rightarrow> (string \<times> string) list option" where
  "read_fields 0 s = None"
| "read_fields (Suc n) s =
     (case read_chars (tl s) of
        None \<Rightarrow> None
      | Some (k, r) \<Rightarrow>
          (case read_chars (drop 2 r) of
             None \<Rightarrow> None
           | Some (v, r') \<Rightarrow>
               if r' = ''}'' then Some [(k, v)] else map_option ((#) (k, v)) (read_fields n (tl r'))))"

definition loads_strs :: json_loads where
  "loads_strs s =
     (if s = ''{}'' then Some (JObj [])
      else map_option (\<lambda>kvs. JObj (map (map_prod id JStr) kvs)) (read_fields (length s) (tl s)))"

lemma hex_value_digit: "d < 16 \<Longrightarrow> hex_value (hex_digit d) = d"
  by (simp add: hex_value_def hex_digit_def)

lemma hex_byte: "char_of (hex_value (hex_digit (of_char c div 16)) * 16 + hex_value (hex_digit (of_char c mod 16))) = c"
proof -
  have "(of_char c :: nat) div 16 < 16" by (simp add: less_mult_imp_div_less)
  then show ?thesis by (simp add: hex_value_digit)
qed

lemma escape_special:
  "escape_char CHR 0x22 = [CHR 0x5C, CHR 0x22]" "escape_char CHR 0x5C = [CHR 0x5C, CHR 0x5C]"
  "escape_char CHR 0x0A = [CHR 0x5C, CHR ''n'']" "escape_char CHR 0x0D = [CHR 0x5C, CHR ''r'']"
  "escape_char CHR 0x09 = [CHR 0x5C, CHR ''t'']" "escape_char CHR 0x0C = [CHR 0x5C, CHR ''f'']"
  "escape_char CHR 0x08 = [CHR 0x5C, CHR ''b'']"
  by (simp_all add: escape_char_def Let_def)

lemma read_escape: "read_chars (escape_char c @ r) = map_option (map_prod ((#) c) id) (read_chars r)"
proof (cases "c \<in> {CHR 0x22, CHR 0x5C, CHR 0x0A, CHR 0x0D, CHR 0x09, CHR 0x0C, CHR 0x08}")
  case True
  then show ?thesis by (elim insertE emptyE) (simp_all only: escape_special append_Cons append_Nil, simp_all add: unescape_char_def)
next
  case False
  define n :: nat where "n = of_char c"
  have "n \<notin> {of_char CHR 0x22, of_char CHR 0x5C, of_char CHR 0x0A, of_char CHR 0x0D, of_char CHR 0x09,
      of_char CHR 0x0C, of_char CHR 0x08}"
    using False unfolding n_def by (simp only: insert_iff empty_iff of_char_eq_iff simp_thms)
  then have "n \<notin> {34, 92, 10, 13, 9, 12, 8}" by simp
  then have e: "escape_char c = (if 32 \<le> n \<and> n \<le> 126 then [c]
      else [CHR 0x5C, CHR ''u'', CHR ''0'', CHR ''0'', hex_digit (n div 16), hex_digit (n mod 16)])"
    unfolding escape_char_def Let_def n_def[symmetric] by simp
  show ?thesis using False unfolding e by (simp add: n_def hex_byte)
qed

lemma read_string: "read_chars (concat (map escape_char s) @ CHR 0x22 # r) = Some (s, r)"
  by (induction s) (simp_all add: read_escape)

lemma read_one: "read_fields (Suc n) (json_field (k, v) @ r) =
   (if r = ''}'' then Some [(k, v)] else map_option ((#) (k, v)) (read_fields n (tl r)))"
  by (simp add: json_field_def json_string_def read_string)

lemma read_join:
  assumes "kvs \<noteq> []" "length kvs \<le> n"
  shows "read_fields n (join_with '','' (map json_field kvs) @ ''}'') = Some kvs"
  using assms
proof (induction kvs arbitrary: n rule: induct_list012)
  case (2 kv)
  then obtain k v m where "kv = (k, v)" "n = Suc m" by (cases kv; cases n) auto
  then show ?case using read_one[of m k v "''}''"] by simp
next
  case (3 kv kv' r)
  then obtain k v m where e: "kv = (k, v)" "n = Suc m" by (cases kv; cases n) auto
  then have "read_fields m (join_with '','' (map json_field (kv' # r)) @ ''}'') = Some (kv' # r)"
    using 3 by simp
  then show ?case using read_one[of m k v "'','' @ join_with '','' (map json_field (kv' # r)) @ ''}''"] e by simp
qed simp

lemma join_length: "length xs \<le> length (join_with '','' xs) + 1"
  by (induction xs rule: induct_list012) auto

lemma map_of_rev_distinct: "distinct (map fst xs) \<Longrightarrow> map_of (rev xs) = map_of xs"
  by (intro map_of_inject_set[THEN iffD2]) (auto simp: distinct_map)

lemma j_get_strs:
  assumes "distinct (map fst kvs)"
  shows "j_get k (map (map_prod id JStr) kvs) = map_option JStr (map_of kvs k)"
proof -
  have "map fst (map (map_prod id JStr) kvs) = map fst kvs" by simp
  moreover have "map_of (map (map_prod id JStr) kvs) k = map_option JStr (map_of kvs k)"
    by (induction kvs) auto
  ultimately show ?thesis unfolding j_get_def by (metis assms map_of_rev_distinct)
qed

lemma map_of_sorted: "distinct (map fst kvs) \<Longrightarrow> map_of (sort_key fst kvs) = map_of kvs"
  by (intro map_of_inject_set[THEN iffD2]) (auto simp: distinct_map inj_on_def)

lemma loads_strs_inverts: "loads_inverts_dumps loads_strs"
  unfolding loads_inverts_dumps_def
proof (intro allI impI)
  fix kvs :: "(string \<times> string) list" assume d: "distinct (map fst kvs)"
  let ?s = "sort_key fst kvs"
  have "loads_strs (dumps_strs kvs) = Some (JObj (map (map_prod id JStr) ?s))"
  proof (cases "kvs = []")
    case False
    then have "?s \<noteq> []" by (metis length_0_conv length_sort)
    moreover have "length ?s \<le> length (dumps_strs kvs)"
      using join_length[of "map json_field ?s"] by (simp add: dumps_strs_def)
    ultimately have "read_fields (length (dumps_strs kvs)) (join_with '','' (map json_field ?s) @ ''}'') = Some ?s"
      by (rule read_join)
    then have "read_fields (length (dumps_strs kvs)) (tl (dumps_strs kvs)) = Some ?s"
      by (simp only: dumps_strs_def append_Cons append_Nil list.sel)
    moreover have "dumps_strs kvs \<noteq> ''{}''"
    proof -
      obtain kv r where "?s = kv # r" using \<open>?s \<noteq> []\<close> by (cases ?s) auto
      then show ?thesis by (cases r) (auto simp: dumps_strs_def json_field_def json_string_def)
    qed
    ultimately show ?thesis by (simp add: loads_strs_def)
  qed (simp add: dumps_strs_def loads_strs_def)
  moreover have "distinct (map fst ?s)" using d by (simp add: distinct_map inj_on_def)
  ultimately show "\<exists>obj. loads_strs (dumps_strs kvs) = Some (JObj obj) \<and> (\<forall>k. j_get k obj = map_option JStr (map_of kvs k))"
    using d by (simp add: j_get_strs map_of_sorted)
qed
section \<open>Properties\<close>

lemma b64_scan_skip:
  "list_all (\<lambda>c. b64_value c = None \<and> c \<noteq> pad_char) junk \<Longrightarrow> b64_scan quad left pads (junk @ s) = b64_scan quad left pads s"
  by (induction junk) simp_all

lemma py_split_prefix: "x \<notin> set junk \<Longrightarrow> py_split x s = p # r \<Longrightarrow> py_split x (junk @ s) = (junk @ p) # r"
  by (induction junk) auto

lemma b64url_decode_skip:
  assumes "list_all (\<lambda>c. b64_value c = None \<and> c \<noteq> pad_char \<and> (of_char c :: nat) < 128) junk" "length junk mod 4 = 0"
  shows "b64url_decode (junk @ s) = b64url_decode s"
proof -
  have "(length junk + length s) mod 4 = length s mod 4" using assms(2) by presburger
  moreover have "is_ascii (junk @ t) = is_ascii t" for t using assms(1) by (auto simp: is_ascii_def list_all_iff)
  moreover have "b64_scan 0 0 0 (junk @ t) = b64_scan 0 0 0 t" for t
    using assms(1) by (intro b64_scan_skip) (auto simp: list_all_iff)
  ultimately show ?thesis by (simp add: b64url_decode_def Let_def del: b64_scan.simps)
qed

text \<open>C18. Cursor tokens are sealed: a token opens to exactly the fields it was made of, and any token that
  opens carries, after its dot, the authentication code of the payload before it under the key in use.\<close>

theorem token_sealed:
  assumes "loads_inverts_dumps (ce_loads env)" "distinct (map fst kvs)"
  shows "(\<exists>obj. open_token env key (seal_token env key kvs) = Inr obj \<and> (\<forall>k. field_text env k obj = map_of kvs k)) \<and>
     {token. \<exists>obj. open_token env key token = Inr obj} \<subseteq>
       {token. \<exists>p g payload. py_split CHR ''.'' token = [p, g] \<and> b64url_decode p = Some payload \<and>
          b64url_decode g = Some (sign_payload env key payload)}"
proof -
  obtain obj where obj: "ce_loads env (dumps_strs kvs) = Some (JObj obj)" "\<And>k. j_get k obj = map_option JStr (map_of kvs k)"
    using assms unfolding loads_inverts_dumps_def by blast
  have "field_text env k obj = map_of kvs k" for k by (simp add: field_text_def obj(2) split: option.split)
  then show ?thesis using open_seal[OF obj(1)] open_token_signed[of env key] by blast
qed

text \<open>The check of a cursor accepts altered tokens: characters outside the base64 alphabet are skipped
  before the signature is compared, so a token with any multiple of four of them in front opens like
  the original.\<close>

theorem token_malleable:
  assumes "list_all (\<lambda>c. b64_value c = None \<and> c \<notin> {pad_char, CHR ''.''} \<and> (of_char c :: nat) < 128) junk" "length junk mod 4 = 0"
  shows "open_token env key (junk @ seal_token env key kvs) = open_token env key (seal_token env key kvs)"
proof -
  let ?t = "seal_token env key kvs"
  obtain p g where t: "py_split CHR ''.'' ?t = [p, g]"
    by (simp add: seal_token_def Let_def py_split_one b64url_no_dot)
  have ne: "?t \<noteq> []" by (simp add: seal_token_def Let_def)
  have "py_split CHR ''.'' (junk @ ?t) = [junk @ p, g]"
    using assms(1) t by (intro py_split_prefix) (auto simp: list_all_iff)
  moreover have "b64url_decode (junk @ p) = b64url_decode p"
    using assms by (intro b64url_decode_skip) (auto simp: list_all_iff)
  ultimately show ?thesis using t ne by (simp add: open_token_def)
qed

definition demo_token_env :: cursor_env where
  "demo_token_env = \<lparr>ce_mac = (\<lambda>k s. k @ s), ce_loads = loads_strs, ce_str = (\<lambda>_. [])\<rparr>"

theorem token_sealed_witness:
  "\<exists>obj. open_token demo_token_env (Some ''k'') (seal_token demo_token_env (Some ''k'') [(''id'', ''7''), (''ts'', ''now'')]) = Inr obj \<and>
     field_text demo_token_env ''ts'' obj = Some ''now''"
  using token_sealed[of demo_token_env "[(''id'', ''7''), (''ts'', ''now'')]" "Some ''k''"]
  by (auto simp: demo_token_env_def loads_strs_inverts)

theorem token_malleable_witness:
  "open_token demo_token_env (Some ''k'') (''!?!?'' @ seal_token demo_token_env (Some ''k'') [(''id'', ''7'')])
     = open_token demo_token_env (Some ''k'') (seal_token demo_token_env (Some ''k'') [(''id'', ''7'')])"
  by (rule token_malleable) (simp_all add: b64_value_def pad_char_def)

end
