(* ===== verification/Paging.thy ===== *)
theory Paging
  imports Cursor "HOL-Library.Product_Lexorder" "HOL-Library.Multiset"
begin

text \<open>
  Keyset pagination, shared by the corpus listing, the feedback inbox and their clients: sorting by a
  total key, resuming strictly after a boundary key, clamping the page size, and a client that
  follows the returned cursors. The locale \<open>keyset\<close> states what the order of a listing must
  satisfy and proves what following the cursors then yields.
\<close>

section \<open>Pages\<close>

text \<open>\<open>sorted(xs, key=..., reverse=...)\<close> is stable in both directions.\<close>

definition py_sorted :: "('a \<Rightarrow> 'k::linorder) \<Rightarrow> bool \<Rightarrow> 'a list \<Rightarrow> 'a list" where
  "py_sorted key rev_order xs = (if rev_order then rev (sort_key key (rev xs)) else sort_key key xs)"

definition clamp_page_size :: "int option \<Rightarrow> int \<Rightarrow> nat" where
  "clamp_page_size requested maximum =
     (let limit = max 1 maximum
      in nat (case requested of None \<Rightarrow> limit | Some r \<Rightarrow> max 1 (min r limit)))"

text \<open>A client: it asks for the first page and then for the page of every cursor it is given.\<close>

fun walk :: "('c option \<Rightarrow> 'e + 'a list \<times> 'c option) \<Rightarrow> nat \<Rightarrow> 'c option \<Rightarrow> ('e + 'a list list) option" where
  "walk fetch 0 c = None"
| "walk fetch (Suc n) c =
     (case fetch c of
        Inl e \<Rightarrow> Some (Inl e)
      | Inr (page, None) \<Rightarrow> Some (Inr [page])
      | Inr (page, Some c') \<Rightarrow>
          (case walk fetch n (Some c') of
             None \<Rightarrow> None
           | Some (Inl e) \<Rightarrow> Some (Inl e)
           | Some (Inr pages) \<Rightarrow> Some (Inr (page # pages))))"

section \<open>The order of a listing\<close>

definition rest_after :: "('k \<Rightarrow> 'k \<Rightarrow> bool) \<Rightarrow> ('a \<Rightarrow> 'k) \<Rightarrow> 'k option \<Rightarrow> 'a list \<Rightarrow> 'a list" where
  "rest_after before key boundary xs =
     (case boundary of None \<Rightarrow> xs | Some k \<Rightarrow> filter (\<lambda>x. before k (key x)) xs)"

definition page_next :: "('a \<Rightarrow> 'k) \<Rightarrow> nat \<Rightarrow> 'a list \<Rightarrow> 'a list \<times> 'k option" where
  "page_next key n rest =
     (take n rest, if n < length rest \<and> take n rest \<noteq> [] then Some (key (last (take n rest))) else None)"

lemma clamp_page_size_pos: "1 \<le> clamp_page_size r m"
  by (auto simp: clamp_page_size_def Let_def split: option.split)

lemma clamp_page_size_le: "int (clamp_page_size r m) \<le> max 1 m"
  by (auto simp: clamp_page_size_def Let_def split: option.split)

locale keyset =
  fixes before :: "'k \<Rightarrow> 'k \<Rightarrow> bool"
  assumes irrefl: "\<not> before k k"
    and trans: "before a b \<Longrightarrow> before b c \<Longrightarrow> before a c"
begin

lemma asym: "before a b \<Longrightarrow> \<not> before b a"
  using irrefl trans by blast

lemma rest_after_member:
  assumes "sorted_wrt (\<lambda>x y. before (key x) (key y)) (us @ m # vs)"
  shows "rest_after before key (Some (key m)) (us @ m # vs) = vs"
  using assms asym irrefl
  by (force simp: rest_after_def sorted_wrt_append filter_empty_conv filter_id_conv)

text \<open>Following the cursors from a boundary yields exactly the rest, page by page.\<close>

lemma walk_rest:
  assumes "sorted_wrt (\<lambda>x y. before (key x) (key y)) xs" "1 \<le> n"
    and fetch: "\<And>b. fetch (map_option tok b) =
      Inr (map_prod (map f) (map_option tok) (page_next key n (rest_after before key b xs)))"
  shows "xs = us @ rest_after before key b xs \<Longrightarrow> length (rest_after before key b xs) < k \<Longrightarrow>
    \<exists>pages. walk fetch k (map_option tok b) = Some (Inr pages) \<and>
      concat pages = map f (rest_after before key b xs) \<and> list_all (\<lambda>p. length p \<le> n) pages"
proof (induction k arbitrary: us b)
  case (Suc k)
  define r where "r = rest_after before key b xs"
  show ?case
  proof (cases "n < length r")
    case False
    then have "fetch (map_option tok b) = Inr (map f r, None)"
      by (simp add: fetch page_next_def r_def)
    then show ?thesis using False by (auto simp: r_def)
  next
    case True
    define p where "p = take n r"
    have p: "p \<noteq> []" "length p = n" using True \<open>1 \<le> n\<close> by (auto simp: p_def)
    then obtain q m where qm: "p = q @ [m]" by (metis rev_exhaust)
    have xs: "xs = (us @ q) @ m # drop n r"
      using Suc.prems(1) qm unfolding r_def[symmetric] p_def by (metis append.assoc append_Cons append_Nil append_take_drop_id)
    have rest: "rest_after before key (Some (key m)) xs = drop n r"
      using assms(1) unfolding xs by (rule rest_after_member)
    have fe: "fetch (map_option tok b) = Inr (map f p, Some (tok (key m)))"
      using True p qm by (simp add: fetch page_next_def r_def[symmetric] p_def[symmetric])
    have "length (drop n r) < k" using Suc.prems(2) True assms(2) by (simp add: r_def)
    then obtain pages where pg: "walk fetch k (Some (tok (key m))) = Some (Inr pages)"
      "concat pages = map f (drop n r)" "list_all (\<lambda>p. length p \<le> n) pages"
      using Suc.IH[of "us @ q @ [m]" "Some (key m)"] xs rest by auto
    have "map f r = map f p @ map f (drop n r)" unfolding p_def by (simp flip: map_append)
    then show ?thesis using pg fe p by (auto simp: r_def[symmetric])
  qed
qed simp

lemma walk_enumerates:
  assumes "sorted_wrt (\<lambda>x y. before (key x) (key y)) xs" "1 \<le> n"
    and "\<And>b. fetch (map_option tok b) =
      Inr (map_prod (map f) (map_option tok) (page_next key n (rest_after before key b xs)))"
    and "length xs < k"
  shows "\<exists>pages. walk fetch k None = Some (Inr pages) \<and> concat pages = map f xs \<and>
      list_all (\<lambda>p. length p \<le> n) pages"
  using walk_rest[OF assms(1-3), of "[]" None k] assms(4) by (simp add: rest_after_def)

end

section \<open>Sorted listings\<close>

lemma sorted_wrt_strict:
  "sorted (map key xs) \<Longrightarrow> distinct (map key xs) \<Longrightarrow> sorted_wrt (\<lambda>x y. key x < key y) xs"
  by (induction xs) (auto simp: less_le)

lemma set_py_sorted [simp]: "set (py_sorted key d xs) = set xs"
  by (simp add: py_sorted_def)

lemma length_py_sorted [simp]: "length (py_sorted key d xs) = length xs"
  by (simp add: py_sorted_def)

lemma mset_py_sorted [simp]: "mset (py_sorted key d xs) = mset xs"
  by (simp add: py_sorted_def)

lemma py_sorted_strict:
  assumes "distinct (map key xs)"
  shows "sorted_wrt (\<lambda>x y. if d then key y < key x else key x < key y) (py_sorted key d xs)"
proof -
  have "sorted_wrt (\<lambda>x y. key x < key y) (sort_key key ys)" if "distinct (map key ys)" for ys
    using that by (intro sorted_wrt_strict) (auto simp: distinct_map inj_on_def)
  from this[of xs] this[of "rev xs"] show ?thesis
    using assms by (simp add: py_sorted_def sorted_wrt_rev distinct_map)
qed

end
