(* ===== verification/CorpusList.thy ===== *)
theory CorpusList
  imports Paging AskApi
begin

text \<open>
  The corpus listing, \<open>corpus.py\<close>, and its endpoint: role scoping, filters, metadata search, total
  order, signed cursors and pages. Case folding is an argument; a document date is what the caller's
  accessor gives, and without one the record's \<open>created_at\<close>, an attribute document records do not have.
\<close>

section \<open>Parameters\<close>

datatype sort_field = SortName | SortOwner | SortDate

datatype sort_direction = Asc | Desc

definition sort_field_name :: "sort_field \<Rightarrow> string" where
  "sort_field_name f = (case f of SortName \<Rightarrow> ''name'' | SortOwner \<Rightarrow> ''owner'' | SortDate \<Rightarrow> ''date'')"

definition sort_direction_name :: "sort_direction \<Rightarrow> string" where
  "sort_direction_name d = (case d of Asc \<Rightarrow> ''asc'' | Desc \<Rightarrow> ''desc'')"

definition status_name :: "doc_status \<Rightarrow> string" where
  "status_name s = (case s of Queued \<Rightarrow> ''queued'' | Parsing \<Rightarrow> ''parsing'' | Chunking \<Rightarrow> ''chunking''
     | Embedding \<Rightarrow> ''embedding'' | Indexed \<Rightarrow> ''indexed'' | Failed \<Rightarrow> ''failed'' | Deleted \<Rightarrow> ''deleted'')"

record corpus_params =
  cp_sort :: sort_field
  cp_direction :: sort_direction
  cp_status :: "doc_status option"
  cp_owner :: "string option"
  cp_active :: "string option"
  cp_from :: "string option"
  cp_to :: "string option"
  cp_search :: "string option"
  cp_page_size :: "int option"
  cp_cursor :: "string option"

datatype corpus_error = SearchTermTooLong | InvalidCursor cursor_error

definition max_search_term_length :: nat where "max_search_term_length = 200"

type_synonym date_accessor = "document_record \<Rightarrow> string option"

section \<open>Cursors\<close>

record corpus_boundary =
  cb_field :: string
  cb_direction :: string
  cb_value :: string
  cb_id :: ident

definition encode_corpus_cursor :: "cursor_env \<Rightarrow> string option \<Rightarrow> sort_field \<Rightarrow> sort_direction
    \<Rightarrow> string \<times> ident \<Rightarrow> string" where
  "encode_corpus_cursor env key f d boundary =
     seal_token env key
       [(''sf'', sort_field_name f), (''dir'', sort_direction_name d), (''pk'', fst boundary), (''id'', snd boundary)]"

definition decode_corpus_cursor :: "cursor_env \<Rightarrow> string option \<Rightarrow> string \<Rightarrow> cursor_error + corpus_boundary" where
  "decode_corpus_cursor env key token =
     (case open_token env key token of
        Inl e \<Rightarrow> Inl e
      | Inr obj \<Rightarrow>
          (case (field_text env ''sf'' obj, field_text env ''dir'' obj, field_text env ''pk'' obj, field_text env ''id'' obj) of
             (Some sf, Some d, Some pk, Some i) \<Rightarrow>
               if sf \<notin> {''name'', ''owner'', ''date''} \<or> d \<notin> {''asc'', ''desc''} then Inl CursorUnknown
               else Inr \<lparr>cb_field = sf, cb_direction = d, cb_value = pk, cb_id = i\<rparr>
           | _ \<Rightarrow> Inl CursorMissing))"

section \<open>Scope, filters, search, order\<close>

definition scope_by_role :: "string option \<Rightarrow> bool \<Rightarrow> document_record list \<Rightarrow> document_record list" where
  "scope_by_role viewer is_operator docs =
     (if is_operator then docs else filter (\<lambda>d. d_owner d \<noteq> None \<and> d_owner d = viewer) docs)"

definition passes_filters :: "corpus_params \<Rightarrow> date_accessor \<Rightarrow> document_record \<Rightarrow> bool" where
  "passes_filters p date_of d \<longleftrightarrow>
     (case cp_status p of None \<Rightarrow> True | Some s \<Rightarrow> d_status d = s) \<and>
     (case cp_owner p of None \<Rightarrow> True | Some q \<Rightarrow> d_owner d = Some q) \<and>
     (case cp_active p of None \<Rightarrow> True | Some v \<Rightarrow> d_active d = Some v) \<and>
     (if cp_from p \<noteq> None \<or> cp_to p \<noteq> None
      then case date_of d of
             None \<Rightarrow> False
           | Some t \<Rightarrow> (case cp_from p of None \<Rightarrow> True | Some a \<Rightarrow> \<not> t < a) \<and>
                       (case cp_to p of None \<Rightarrow> True | Some b \<Rightarrow> \<not> b < t)
      else True)"

definition searchable_text :: "(string \<Rightarrow> string) \<Rightarrow> document_record \<Rightarrow> string" where
  "searchable_text casefold d =
     casefold (join_with [CHR 0x0A]
       [d_id d, d_title d, d_version d, status_name (d_status d),
        (case d_owner d of Some q \<Rightarrow> q | None \<Rightarrow> []), (case d_active d of Some v \<Rightarrow> v | None \<Rightarrow> [])])"

definition matches_search :: "(string \<Rightarrow> string) \<Rightarrow> string \<Rightarrow> document_record \<Rightarrow> bool" where
  "matches_search casefold term0 d \<longleftrightarrow> cut_at (casefold term0) (searchable_text casefold d) \<noteq> None"

definition primary_sort_value :: "(string \<Rightarrow> string) \<Rightarrow> sort_field \<Rightarrow> date_accessor \<Rightarrow> document_record \<Rightarrow> string" where
  "primary_sort_value casefold f date_of d =
     (case f of
        SortName \<Rightarrow> casefold (d_title d)
      | SortOwner \<Rightarrow> casefold (case d_owner d of Some q \<Rightarrow> q | None \<Rightarrow> [])
      | SortDate \<Rightarrow> (case date_of d of Some t \<Rightarrow> t | None \<Rightarrow> []))"

definition corpus_key :: "(string \<Rightarrow> string) \<Rightarrow> sort_field \<Rightarrow> date_accessor \<Rightarrow> document_record \<Rightarrow> string \<times> ident" where
  "corpus_key casefold f date_of d = (primary_sort_value casefold f date_of d, d_id d)"

section \<open>The listing\<close>

record corpus_page =
  pg_documents :: "document_record list"
  pg_next :: "string option"

definition list_corpus :: "cursor_env \<Rightarrow> (string \<Rightarrow> string) \<Rightarrow> string option \<Rightarrow> int \<Rightarrow> date_accessor option
    \<Rightarrow> string option \<Rightarrow> bool \<Rightarrow> corpus_params \<Rightarrow> document_record list \<Rightarrow> corpus_error + corpus_page" where
  "list_corpus env casefold signing_key max_size accessor viewer is_operator p docs =
     (let date_of = (case accessor of Some f \<Rightarrow> f | None \<Rightarrow> (\<lambda>_. None));
          key = corpus_key casefold (cp_sort p) date_of
      in if (case cp_search p of None \<Rightarrow> False | Some t \<Rightarrow> max_search_term_length < length t) then Inl SearchTermTooLong
         else
           (let scoped = scope_by_role viewer is_operator docs;
                filtered = filter (passes_filters p date_of) scoped;
                found = (case or_none (cp_search p) of None \<Rightarrow> filtered
                         | Some t \<Rightarrow> filter (matches_search casefold t) filtered);
                ordered = py_sorted key (cp_direction p = Desc) found
            in case (case cp_cursor p of
                       None \<Rightarrow> Inr ordered
                     | Some token \<Rightarrow>
                         (case decode_corpus_cursor env signing_key token of
                            Inl e \<Rightarrow> Inl e
                          | Inr b \<Rightarrow>
                              if cb_field b \<noteq> sort_field_name (cp_sort p) \<or> cb_direction b \<noteq> sort_direction_name (cp_direction p)
                              then Inl CursorMismatch
                              else let bk = (cb_value b, cb_id b)
                                   in Inr (if cp_direction p = Desc then filter (\<lambda>d. key d < bk) ordered
                                           else filter (\<lambda>d. bk < key d) ordered))) of
                 Inl e \<Rightarrow> Inl (InvalidCursor e)
               | Inr rest \<Rightarrow>
                   (let size = clamp_page_size (cp_page_size p) max_size;
                        page = take size rest
                    in Inr \<lparr>pg_documents = page,
                            pg_next = (if size < length rest \<and> page \<noteq> []
                                       then Some (encode_corpus_cursor env signing_key (cp_sort p) (cp_direction p) (key (last page)))
                                       else None)\<rparr>)))"

text \<open>The endpoint: names of the sort field and direction that are not in the vocabulary are refused.\<close>

definition sort_field_of :: "string option \<Rightarrow> sort_field option" where
  "sort_field_of s = (case s of None \<Rightarrow> Some SortName
     | Some t \<Rightarrow> if t = ''name'' then Some SortName else if t = ''owner'' then Some SortOwner
                 else if t = ''date'' then Some SortDate else None)"

definition sort_direction_of :: "string option \<Rightarrow> sort_direction option" where
  "sort_direction_of s = (case s of None \<Rightarrow> Some Asc
     | Some t \<Rightarrow> if t = ''asc'' then Some Asc else if t = ''desc'' then Some Desc else None)"

definition corpus_endpoint :: "cursor_env \<Rightarrow> (string \<Rightarrow> string) \<Rightarrow> string option \<Rightarrow> int \<Rightarrow> user_public \<Rightarrow> auth_settings
    \<Rightarrow> string option \<Rightarrow> string option \<Rightarrow> corpus_params \<Rightarrow> document_record list \<Rightarrow> nat + corpus_page" where
  "corpus_endpoint env casefold signing_key max_size u st field direction p docs =
     (case (sort_field_of field, sort_direction_of direction) of
        (Some f, Some d) \<Rightarrow>
          (case list_corpus env casefold signing_key max_size None (Some (up_email u)) (resolve_is_operator u st)
                  (p\<lparr>cp_sort := f, cp_direction := d\<rparr>) docs of
             Inl _ \<Rightarrow> Inl 400
           | Inr page \<Rightarrow> Inr page)
      | _ \<Rightarrow> Inl 400)"

section \<open>What a listing is over\<close>

definition dates :: "date_accessor option \<Rightarrow> date_accessor" where
  "dates accessor = (case accessor of Some f \<Rightarrow> f | None \<Rightarrow> (\<lambda>_. None))"

definition listed :: "(string \<Rightarrow> string) \<Rightarrow> date_accessor option \<Rightarrow> string option \<Rightarrow> bool \<Rightarrow> corpus_params
    \<Rightarrow> document_record \<Rightarrow> bool" where
  "listed casefold accessor viewer is_operator p d \<longleftrightarrow>
     (is_operator \<or> (d_owner d \<noteq> None \<and> d_owner d = viewer)) \<and> passes_filters p (dates accessor) d \<and>
     (case or_none (cp_search p) of None \<Rightarrow> True | Some t \<Rightarrow> matches_search casefold t d)"

definition key_before :: "sort_direction \<Rightarrow> string \<times> ident \<Rightarrow> string \<times> ident \<Rightarrow> bool" where
  "key_before d a b \<longleftrightarrow> (if d = Desc then b < a else a < b)"

interpretation corpus_order: keyset "key_before d" for d
  by unfold_locales (auto simp: key_before_def split: if_splits)

definition ordered_listing :: "(string \<Rightarrow> string) \<Rightarrow> date_accessor option \<Rightarrow> string option \<Rightarrow> bool \<Rightarrow> corpus_params
    \<Rightarrow> document_record list \<Rightarrow> document_record list" where
  "ordered_listing casefold accessor viewer is_operator p docs =
     py_sorted (corpus_key casefold (cp_sort p) (dates accessor)) (cp_direction p = Desc)
       (filter (listed casefold accessor viewer is_operator p) docs)"

definition search_ok :: "corpus_params \<Rightarrow> bool" where
  "search_ok p \<longleftrightarrow> (case cp_search p of None \<Rightarrow> True | Some t \<Rightarrow> length t \<le> max_search_term_length)"

definition corpus_rest :: "cursor_env \<Rightarrow> (string \<Rightarrow> string) \<Rightarrow> string option \<Rightarrow> date_accessor option \<Rightarrow> corpus_params
    \<Rightarrow> document_record list \<Rightarrow> cursor_error + document_record list" where
  "corpus_rest env casefold signing_key accessor p xs =
     (case cp_cursor p of
        None \<Rightarrow> Inr xs
      | Some token \<Rightarrow>
          (case decode_corpus_cursor env signing_key token of
             Inl e \<Rightarrow> Inl e
           | Inr b \<Rightarrow>
               if cb_field b \<noteq> sort_field_name (cp_sort p) \<or> cb_direction b \<noteq> sort_direction_name (cp_direction p)
               then Inl CursorMismatch
               else Inr (rest_after (key_before (cp_direction p)) (corpus_key casefold (cp_sort p) (dates accessor))
                           (Some (cb_value b, cb_id b)) xs)))"

lemma list_corpus_eq:
  "list_corpus env casefold signing_key max_size accessor viewer is_operator p docs =
     (if \<not> search_ok p then Inl SearchTermTooLong
      else case corpus_rest env casefold signing_key accessor p
                  (ordered_listing casefold accessor viewer is_operator p docs) of
             Inl e \<Rightarrow> Inl (InvalidCursor e)
           | Inr rest \<Rightarrow>
               Inr (case page_next (corpus_key casefold (cp_sort p) (dates accessor))
                          (clamp_page_size (cp_page_size p) max_size) rest of
                      (page, nxt) \<Rightarrow> \<lparr>pg_documents = page,
                        pg_next = map_option (encode_corpus_cursor env signing_key (cp_sort p) (cp_direction p)) nxt\<rparr>))"
proof -
  have f: "(case or_none (cp_search p) of None \<Rightarrow> filter (passes_filters p (dates accessor)) (scope_by_role viewer is_operator docs)
      | Some t \<Rightarrow> filter (matches_search casefold t) (filter (passes_filters p (dates accessor)) (scope_by_role viewer is_operator docs))) =
    filter (listed casefold accessor viewer is_operator p) docs"
    by (auto simp: scope_by_role_def listed_def conj_ac intro!: filter_cong split: option.splits)
  show ?thesis
    unfolding list_corpus_def Let_def dates_def[symmetric] f
    by (auto simp: search_ok_def ordered_listing_def corpus_rest_def rest_after_def key_before_def page_next_def
        split: option.splits sum.splits)
qed

section \<open>Following the cursors\<close>

definition fetch_corpus :: "cursor_env \<Rightarrow> (string \<Rightarrow> string) \<Rightarrow> string option \<Rightarrow> int \<Rightarrow> date_accessor option
    \<Rightarrow> string option \<Rightarrow> bool \<Rightarrow> corpus_params \<Rightarrow> document_record list \<Rightarrow> string option
    \<Rightarrow> corpus_error + document_record list \<times> string option" where
  "fetch_corpus env casefold signing_key max_size accessor viewer is_operator p docs c =
     (case list_corpus env casefold signing_key max_size accessor viewer is_operator (p\<lparr>cp_cursor := c\<rparr>) docs of
        Inl e \<Rightarrow> Inl e | Inr page \<Rightarrow> Inr (pg_documents page, pg_next page))"

lemma decode_encode_corpus:
  assumes "loads_inverts_dumps (ce_loads env)"
  shows "decode_corpus_cursor env key (encode_corpus_cursor env key f d b) =
    Inr \<lparr>cb_field = sort_field_name f, cb_direction = sort_direction_name d, cb_value = fst b, cb_id = snd b\<rparr>"
proof -
  let ?kvs = "[(''sf'', sort_field_name f), (''dir'', sort_direction_name d), (''pk'', fst b), (''id'', snd b)]"
  have "distinct (map fst ?kvs)" by simp
  then obtain obj where o: "ce_loads env (dumps_strs ?kvs) = Some (JObj obj)"
    and g: "\<And>k. j_get k obj = map_option JStr (map_of ?kvs k)"
    using assms unfolding loads_inverts_dumps_def by blast
  have "field_text env k obj = map_of ?kvs k" for k by (simp add: field_text_def g split: option.split)
  then show ?thesis
    using open_seal[OF o, of key]
    by (cases f; cases d) (simp_all add: decode_corpus_cursor_def encode_corpus_cursor_def sort_field_name_def sort_direction_name_def)
qed

lemma listed_cursor [simp]: "listed casefold accessor viewer is_operator (p\<lparr>cp_cursor := c\<rparr>) = listed casefold accessor viewer is_operator p"
  by (simp add: listed_def passes_filters_def fun_eq_iff cong: option.case_cong)

lemma fetch_corpus_page:
  assumes "loads_inverts_dumps (ce_loads env)" "search_ok p"
  shows "fetch_corpus env casefold signing_key max_size accessor viewer is_operator p docs
      (map_option (encode_corpus_cursor env signing_key (cp_sort p) (cp_direction p)) b) =
    Inr (map_prod (map id) (map_option (encode_corpus_cursor env signing_key (cp_sort p) (cp_direction p)))
      (page_next (corpus_key casefold (cp_sort p) (dates accessor)) (clamp_page_size (cp_page_size p) max_size)
        (rest_after (key_before (cp_direction p)) (corpus_key casefold (cp_sort p) (dates accessor)) b
          (ordered_listing casefold accessor viewer is_operator p docs))))"
  using assms(2)
  by (cases b) (auto simp: fetch_corpus_def list_corpus_eq corpus_rest_def search_ok_def ordered_listing_def
      decode_encode_corpus[OF assms(1)] rest_after_def split: prod.split)

lemma ordered_listing_strict:
  assumes "distinct (map d_id docs)"
  shows "sorted_wrt (\<lambda>x y. key_before (cp_direction p) (corpus_key casefold (cp_sort p) (dates accessor) x)
      (corpus_key casefold (cp_sort p) (dates accessor) y)) (ordered_listing casefold accessor viewer is_operator p docs)"
proof -
  have "distinct (map (corpus_key casefold (cp_sort p) (dates accessor)) (filter (listed casefold accessor viewer is_operator p) docs))"
    using assms by (auto simp: distinct_map inj_on_def corpus_key_def)
  from py_sorted_strict[OF this, of "cp_direction p = Desc"] show ?thesis
    by (simp add: ordered_listing_def key_before_def)
qed

text \<open>Every page, whatever cursor it was asked with, is part of what the viewer may see.\<close>

lemma list_corpus_confined:
  assumes "list_corpus env casefold signing_key max_size accessor viewer is_operator p docs = Inr page"
    "d \<in> set (pg_documents page)"
  shows "d \<in> set docs" "listed casefold accessor viewer is_operator p d"
proof -
  obtain rest where r: "corpus_rest env casefold signing_key accessor p (ordered_listing casefold accessor viewer is_operator p docs) = Inr rest"
    "pg_documents page = take (clamp_page_size (cp_page_size p) max_size) rest"
    using assms(1) by (auto simp: list_corpus_eq page_next_def split: if_splits sum.splits)
  have "set rest \<subseteq> set (ordered_listing casefold accessor viewer is_operator p docs)"
    using r(1) by (auto simp: corpus_rest_def rest_after_def split: option.splits sum.splits if_splits)
  moreover have "d \<in> set rest" using assms(2) r(2) by (auto dest: in_set_takeD)
  ultimately have "d \<in> set (ordered_listing casefold accessor viewer is_operator p docs)" by blast
  then show "d \<in> set docs" "listed casefold accessor viewer is_operator p d" by (auto simp: ordered_listing_def)
qed

section \<open>Properties\<close>

text \<open>C19. Following the cursors lists the corpus exactly once: a client that starts without a cursor and
  asks for the page of every cursor it receives ends after at most one page per document and one more, each
  page within the clamped size, and the pages put together are the visible, filtered and matching
  documents, each once, in the requested order.\<close>

theorem corpus_walk:
  assumes "loads_inverts_dumps (ce_loads env)" "distinct (map d_id docs)" "search_ok p"
  shows "\<exists>pages. walk (fetch_corpus env casefold signing_key max_size accessor viewer is_operator p docs) (Suc (length docs)) None
       = Some (Inr pages) \<and>
     mset (concat pages) = mset (filter (listed casefold accessor viewer is_operator p) docs) \<and>
     sorted_wrt (\<lambda>x y. key_before (cp_direction p) (corpus_key casefold (cp_sort p) (dates accessor) x)
       (corpus_key casefold (cp_sort p) (dates accessor) y)) (concat pages) \<and>
     list_all (\<lambda>pg. length pg \<le> clamp_page_size (cp_page_size p) max_size) pages"
proof -
  have len: "length (ordered_listing casefold accessor viewer is_operator p docs) < Suc (length docs)"
    by (simp add: ordered_listing_def le_imp_less_Suc)
  obtain pages where p: "walk (fetch_corpus env casefold signing_key max_size accessor viewer is_operator p docs) (Suc (length docs)) None
       = Some (Inr pages)" "concat pages = ordered_listing casefold accessor viewer is_operator p docs"
    "list_all (\<lambda>pg. length pg \<le> clamp_page_size (cp_page_size p) max_size) pages"
    using corpus_order.walk_enumerates[OF ordered_listing_strict[OF assms(2)] clamp_page_size_pos
        fetch_corpus_page[OF assms(1,3)] len] by auto
  then show ?thesis using ordered_listing_strict[OF assms(2), of p casefold accessor viewer is_operator]
    by (auto simp: ordered_listing_def)
qed

definition demo_cursor_env :: cursor_env where
  "demo_cursor_env = \<lparr>ce_mac = (\<lambda>k s. k @ s), ce_loads = loads_strs, ce_str = (\<lambda>_. [])\<rparr>"

definition demo_params :: corpus_params where
  "demo_params = \<lparr>cp_sort = SortName, cp_direction = Desc, cp_status = None, cp_owner = None, cp_active = None,
     cp_from = None, cp_to = None, cp_search = None, cp_page_size = Some 1, cp_cursor = None\<rparr>"

theorem corpus_walk_witness:
  "\<exists>pages. walk (fetch_corpus demo_cursor_env py_lower None 50 None None True demo_params (demo_docs 3)) 4 None = Some (Inr pages) \<and>
     mset (concat pages) = mset (demo_docs 3)"
proof -
  have "length (demo_docs 3) = 3" "distinct (map d_id (demo_docs 3))"
    by (simp_all add: demo_docs_def comp_def distinct_map inj_on_def)
  moreover have "filter (listed py_lower None None True demo_params) (demo_docs 3) = demo_docs 3"
    by (simp add: filter_id_conv listed_def passes_filters_def demo_params_def or_none_def)
  ultimately show ?thesis
    using corpus_walk[of demo_cursor_env "demo_docs 3" demo_params py_lower None 50 None None True]
    by (auto simp: demo_cursor_env_def loads_strs_inverts search_ok_def demo_params_def)
qed

text \<open>C20. The listing endpoint shows a caller who is not an operator only their own documents, whatever the
  filters and whatever cursor they present, one with another caller's position or a forged one
  included; a page never exceeds the configured size.\<close>

theorem corpus_confined:
  assumes "corpus_endpoint env casefold signing_key max_size u st field direction p docs = Inr page"
    "\<not> resolve_is_operator u st"
  shows "set (pg_documents page) \<subseteq> {d \<in> set docs. d_owner d = Some (up_email u)} \<and>
     int (length (pg_documents page)) \<le> max 1 max_size"
proof -
  obtain f d where l: "list_corpus env casefold signing_key max_size None (Some (up_email u)) False
      (p\<lparr>cp_sort := f, cp_direction := d\<rparr>) docs = Inr page"
    using assms by (auto simp: corpus_endpoint_def split: option.splits sum.splits)
  have "length (pg_documents page) \<le> clamp_page_size (cp_page_size p) max_size"
    using l by (auto simp: list_corpus_eq page_next_def split: if_splits sum.splits)
  then have "int (length (pg_documents page)) \<le> max 1 max_size"
    using clamp_page_size_le[of "cp_page_size p" max_size] by linarith
  then show ?thesis using list_corpus_confined[OF l] by (auto simp: listed_def)
qed

text \<open>A date bound empties the endpoint's listing: document records have no creation date and the
  endpoint supplies no accessor, so a request with a lower or an upper date bound matches no
  document, whatever their age.\<close>

theorem date_filter_matches_nothing:
  assumes "cp_from p \<noteq> None \<or> cp_to p \<noteq> None"
    "corpus_endpoint env casefold signing_key max_size u st field direction p docs = Inr page"
  shows "pg_documents page = [] \<and> pg_next page = None"
proof -
  obtain f d where l: "list_corpus env casefold signing_key max_size None (Some (up_email u)) (resolve_is_operator u st)
      (p\<lparr>cp_sort := f, cp_direction := d\<rparr>) docs = Inr page"
    using assms(2) by (auto simp: corpus_endpoint_def split: option.splits sum.splits)
  have "\<not> listed casefold None (Some (up_email u)) (resolve_is_operator u st) (p\<lparr>cp_sort := f, cp_direction := d\<rparr>) x" for x
    using assms(1) by (auto simp: listed_def passes_filters_def dates_def)
  then have "set (pg_documents page) = {}" using list_corpus_confined(2)[OF l] by (metis equals0I)
  moreover have "pg_documents page = [] \<Longrightarrow> pg_next page = None"
    using l by (auto simp: list_corpus_eq page_next_def split: if_splits sum.splits)
  ultimately show ?thesis by simp
qed

theorem corpus_confined_witness:
  "\<exists>page. corpus_endpoint demo_cursor_env py_lower None 50 plain_demo demo_settings None None
       (demo_params\<lparr>cp_search := Some ''dd''\<rparr>) (demo_docs 3) = Inr page \<and>
     set (pg_documents page) \<subseteq> {d \<in> set (demo_docs 3). d_owner d = Some ''a@b.c''}"
proof -
  obtain page where p: "corpus_endpoint demo_cursor_env py_lower None 50 plain_demo demo_settings None None
       (demo_params\<lparr>cp_search := Some ''dd''\<rparr>) (demo_docs 3) = Inr page"
    by (simp add: corpus_endpoint_def list_corpus_eq sort_field_of_def sort_direction_of_def search_ok_def
        max_search_term_length_def corpus_rest_def demo_params_def split: prod.split)
  then show ?thesis using corpus_confined[OF p plain_demo_not_operator(2)] by (auto simp: plain_demo_def)
qed

theorem date_filter_matches_nothing_witness:
  "\<exists>page. corpus_endpoint demo_cursor_env py_lower None 50 plain_demo demo_settings None None
       (demo_params\<lparr>cp_from := Some ''2020-01-01''\<rparr>) (demo_docs 3) = Inr page \<and> pg_documents page = []"
proof -
  obtain page where p: "corpus_endpoint demo_cursor_env py_lower None 50 plain_demo demo_settings None None
       (demo_params\<lparr>cp_from := Some ''2020-01-01''\<rparr>) (demo_docs 3) = Inr page"
    by (simp add: corpus_endpoint_def list_corpus_eq sort_field_of_def sort_direction_of_def search_ok_def
        corpus_rest_def demo_params_def split: prod.split)
  then show ?thesis using date_filter_matches_nothing[OF _ p] by (auto simp: demo_params_def)
qed

end
