(* ===== verification/QueryTraces.thy ===== *)
theory QueryTraces
  imports ObjectStore RetrievalMetrics Claims "HOL-Library.List_Lexorder" "HOL-Library.Char_ord"
begin

text \<open>
  Listings of the artifact store and the stored query traces, \<open>storage.py\<close> and \<open>service.py\<close>: the keys
  under a prefix in the order the store lists them, the listings by kind, the trace record a query
  leaves, its write and its read.
\<close>

section \<open>Texts\<close>

definition py_endswith :: "string \<Rightarrow> string \<Rightarrow> bool" where
  "py_endswith s t \<longleftrightarrow> py_startswith (rev s) (rev t)"

definition contains_text :: "string \<Rightarrow> string \<Rightarrow> bool" where
  "contains_text needle s \<longleftrightarrow> cut_at needle s \<noteq> None"

lemma py_endswith_append [simp]: "py_endswith (s @ t) t"
  by (simp add: py_endswith_def)

lemma py_startswith_iff: "py_startswith s p \<longleftrightarrow> prefix p s"
  by (auto simp: py_startswith_def prefix_def) (metis append_take_drop_id)

lemma py_endswith_iff: "py_endswith s t \<longleftrightarrow> suffix t s"
  by (simp add: py_endswith_def py_startswith_iff suffix_to_prefix)

lemma cut_at_None: "cut_at p s = None \<Longrightarrow> s \<noteq> a @ p @ b"
proof (induction p s arbitrary: a rule: cut_at.induct)
  case (2 p x xs)
  show ?case
  proof (cases a)
    case Nil
    then show ?thesis using 2(2) by (auto simp: py_startswith_iff split: if_splits)
  next
    case (Cons y ys)
    then show ?thesis using 2 by (auto split: if_splits)
  qed
qed (auto split: if_splits)

lemma contains_text_iff: "contains_text p s \<longleftrightarrow> (\<exists>a b. s = a @ p @ b)"
  unfolding contains_text_def using cut_at_None[of p s] cut_at_sound[of p s] by fastforce

section \<open>Listings\<close>

definition list_keys :: "string \<Rightarrow> 'v obj_store \<Rightarrow> string list" where
  "list_keys pre s = filter (\<lambda>k. py_startswith k pre) (sorted_list_of_set (dom (os_objs s)))"

definition list_document_record_keys :: "'v obj_store \<Rightarrow> string list" where
  "list_document_record_keys s = filter (\<lambda>k. py_endswith k ''/record.json'') (list_keys ''documents/'' s)"

definition list_query_trace_keys :: "'v obj_store \<Rightarrow> string list" where
  "list_query_trace_keys s = filter (\<lambda>k. py_endswith k ''/trace.json'') (list_keys ''queries/'' s)"

definition list_feedback_record_keys :: "'v obj_store \<Rightarrow> string list" where
  "list_feedback_record_keys s =
     filter (\<lambda>k. contains_text ''/feedback/'' k \<and> py_endswith k ''.json'') (list_keys ''queries/'' s)"

definition list_ingestion_event_keys :: "ident \<Rightarrow> 'v obj_store \<Rightarrow> string list" where
  "list_ingestion_event_keys d s =
     filter (\<lambda>k. py_endswith k ''.json'') (list_keys (''documents/'' @ d @ ''/ingestions/'') s)"

definition list_corpus_snapshot_keys :: "'v obj_store \<Rightarrow> string list" where
  "list_corpus_snapshot_keys s =
     filter (\<lambda>k. py_endswith k ''.json'' \<and> \<not> contains_text ''/sql/'' k) (list_keys ''corpus_snapshots/'' s)"

definition list_evaluation_run_keys :: "'v obj_store \<Rightarrow> string list" where
  "list_evaluation_run_keys s = filter (\<lambda>k. py_endswith k ''/results.json'') (list_keys ''evaluation/runs/'' s)"

definition list_evaluation_set_case_keys :: "ident \<Rightarrow> 'v obj_store \<Rightarrow> string list" where
  "list_evaluation_set_case_keys set_id s =
     filter (\<lambda>k. py_endswith k ''.json'') (list_keys (''evaluation/sets/'' @ set_id @ ''/cases/'') s)"

definition query_trace_key :: "ident \<Rightarrow> string" where
  "query_trace_key t = ''queries/'' @ t @ ''/trace.json''"

definition query_feedback_key :: "ident \<Rightarrow> ident \<Rightarrow> string" where
  "query_feedback_key t f = ''queries/'' @ t @ ''/feedback/'' @ f @ ''.json''"

definition evaluation_set_case_key :: "ident \<Rightarrow> ident \<Rightarrow> string" where
  "evaluation_set_case_key set_id c = ''evaluation/sets/'' @ set_id @ ''/cases/'' @ c @ ''.json''"

definition evaluation_run_results_key :: "ident \<Rightarrow> string" where
  "evaluation_run_results_key r = ''evaluation/runs/'' @ r @ ''/results.json''"

definition finite_store :: "'v obj_store \<Rightarrow> bool" where
  "finite_store s \<longleftrightarrow> finite (dom (os_objs s))"

lemma set_list_keys: "finite_store s \<Longrightarrow> set (list_keys pre s) = {k \<in> dom (os_objs s). prefix pre k}"
  by (auto simp: list_keys_def finite_store_def py_startswith_iff)

lemma distinct_list_keys: "distinct (list_keys pre s)"
  by (simp add: list_keys_def)

lemma finite_store_put [inv_intros]: "finite_store s \<Longrightarrow> finite_store (put_json s k v)"
  by (simp add: finite_store_def put_json_def)

lemma case_key_listed:
  "finite_store s \<Longrightarrow> key_cell (evaluation_set_case_key set_id c) s \<noteq> None \<Longrightarrow>
   evaluation_set_case_key set_id c \<in> set (list_evaluation_set_case_keys set_id s)"
  by (auto simp: list_evaluation_set_case_keys_def set_list_keys key_cell_def evaluation_set_case_key_def
      py_endswith_iff suffix_def prefix_def)

lemma feedback_key_listed:
  "finite_store s \<Longrightarrow> key_cell (query_feedback_key t f) s \<noteq> None \<Longrightarrow>
   query_feedback_key t f \<in> set (list_feedback_record_keys s)"
proof -
  assume a: "finite_store s" "key_cell (query_feedback_key t f) s \<noteq> None"
  have "query_feedback_key t f = (''queries/'' @ t) @ ''/feedback/'' @ (f @ ''.json'')"
    by (simp add: query_feedback_key_def)
  then have "contains_text ''/feedback/'' (query_feedback_key t f)" unfolding contains_text_iff by blast
  moreover have "prefix ''queries/'' (query_feedback_key t f)" "suffix ''.json'' (query_feedback_key t f)"
    by (simp_all add: query_feedback_key_def prefix_def suffix_def)
  ultimately show ?thesis using a
    by (auto simp: list_feedback_record_keys_def set_list_keys key_cell_def py_endswith_iff)
qed

section \<open>Query traces\<close>

record query_trace =
  qt_trace_id :: ident
  qt_question :: string
  qt_route :: string
  qt_document_ids :: "ident list option"
  qt_answer :: string
  qt_evidence_status :: string
  qt_confidence :: "string option"
  qt_score :: "pyfloat option"
  qt_reason :: "string option"
  qt_citations :: "ident list"
  qt_hits :: "trace_hit list"
  qt_sql :: "string option"
  qt_claims :: "claim list"
  qt_abstention :: "string option"

definition get_query_trace :: "ident \<Rightarrow> query_trace obj_store \<Rightarrow> query_trace option" where
  "get_query_trace t s = key_cell (query_trace_key t) s"

definition write_query_trace :: "query_trace \<Rightarrow> query_trace obj_store \<Rightarrow> query_trace obj_store" where
  "write_query_trace tr s = put_json s (query_trace_key (qt_trace_id tr)) tr"

lemma query_trace_key_inj [simp]: "query_trace_key a = query_trace_key b \<longleftrightarrow> a = b"
  by (simp add: query_trace_key_def)

lemma get_write_query_trace [simp]:
  "get_query_trace t (write_query_trace tr s) = (if t = qt_trace_id tr then Some tr else get_query_trace t s)"
  by (simp add: get_query_trace_def write_query_trace_def key_cell_def put_json_def)

end
