(* ===== verification/Feedback.thy ===== *)
theory Feedback
  imports Paging QueryTraces
begin

text \<open>
  User feedback and its review: \<open>feedback.py\<close> and the feedback operations of \<open>service.py\<close>. A record is
  stored under its trace; operators list the negative ones page by page, classify, resolve and
  promote them into the evaluation set. The updates are compare-and-set loops under the
  interference given as an argument. A benchmark case is the record at the end of the data section.
\<close>

section \<open>Data\<close>

datatype review_status = Unreviewed | Reviewed | Resolved

datatype failure_category = MissingKnowledge | RetrievalFailure | WrongRoute | UnsupportedAnswer | SqlProblem
  | AmbiguousQuestion

definition review_status_name :: "review_status \<Rightarrow> string" where
  "review_status_name s = (case s of Unreviewed \<Rightarrow> ''unreviewed'' | Reviewed \<Rightarrow> ''reviewed'' | Resolved \<Rightarrow> ''resolved'')"

definition category_of_name :: "string \<Rightarrow> failure_category option" where
  "category_of_name s =
     (if s = ''Missing knowledge'' then Some MissingKnowledge
      else if s = ''Retrieval failure'' then Some RetrievalFailure
      else if s = ''Wrong route'' then Some WrongRoute
      else if s = ''Unsupported answer'' then Some UnsupportedAnswer
      else if s = ''SQL problem'' then Some SqlProblem
      else if s = ''Ambiguous question'' then Some AmbiguousQuestion else None)"

record feedback_record =
  fb_trace_id :: ident
  fb_id :: ident
  fb_created_at :: string
  fb_rating :: int
  fb_comment :: "string option"
  fb_expected :: "string option"
  fb_status :: review_status
  fb_category :: "failure_category option"
  fb_reviewed_by :: "string option"
  fb_reviewed_at :: "string option"
  fb_promoted :: "ident option"

record feedback_context =
  fc_feedback :: feedback_record
  fc_expected :: "string option"
  fc_confidence :: "string option"
  fc_route :: "string option"
  fc_hits :: "trace_hit list"
  fc_sql :: "string option"

datatype feedback_error = InvalidFailureCategory | ExpectedAnswerRequired | AlreadyInEvaluationSet | FeedbackOther

record golden_case =
  gc_id :: ident
  gc_question :: string
  gc_document_ids :: "ident list option"
  gc_expected_status :: "string option"
  gc_required_terms :: "string list"
  gc_forbidden_terms :: "string list"
  gc_required_citations :: "ident list"
  gc_min_citations :: int
  gc_max_citations :: "int option"
  gc_min_confidence :: "string option"
  gc_reason_terms :: "string list"

record benchmark_case = golden_case +
  bc_labels :: "relevance_labels option"
  bc_human_reviewed :: bool
  bc_expected_answer :: "string option"

section \<open>The inbox\<close>

definition is_negative_rating :: "int \<Rightarrow> bool" where
  "is_negative_rating r \<longleftrightarrow> r \<in> {1, 2}"

definition status_token :: "review_status option \<Rightarrow> string" where
  "status_token s = (case s of None \<Rightarrow> [] | Some x \<Rightarrow> review_status_name x)"

record inbox_boundary =
  ib_status :: string
  ib_created_at :: string
  ib_id :: ident

definition encode_inbox_cursor :: "cursor_env \<Rightarrow> string option \<Rightarrow> review_status option \<Rightarrow> string \<times> ident \<Rightarrow> string" where
  "encode_inbox_cursor env key status b =
     seal_token env key [(''rs'', status_token status), (''ts'', fst b), (''id'', snd b)]"

definition decode_inbox_cursor :: "cursor_env \<Rightarrow> string option \<Rightarrow> string \<Rightarrow> cursor_error + inbox_boundary" where
  "decode_inbox_cursor env key token =
     (case open_token env key token of
        Inl e \<Rightarrow> Inl e
      | Inr obj \<Rightarrow>
          (case (field_text env ''rs'' obj, field_text env ''ts'' obj, field_text env ''id'' obj) of
             (Some rs, Some ts, Some i) \<Rightarrow>
               if rs \<notin> {[], ''unreviewed'', ''reviewed'', ''resolved''} then Inl CursorUnknown
               else Inr \<lparr>ib_status = rs, ib_created_at = ts, ib_id = i\<rparr>
           | _ \<Rightarrow> Inl CursorMissing))"

definition select_negative :: "review_status option \<Rightarrow> feedback_record list \<Rightarrow> feedback_record list" where
  "select_negative status items =
     filter (\<lambda>i. is_negative_rating (fb_rating i) \<and> (case status of None \<Rightarrow> True | Some s \<Rightarrow> fb_status i = s)) items"

definition inbox_key :: "feedback_record \<Rightarrow> string \<times> ident" where
  "inbox_key i = (fb_created_at i, fb_id i)"

definition build_feedback_context :: "feedback_record \<Rightarrow> query_trace option \<Rightarrow> feedback_context" where
  "build_feedback_context item trace =
     (case trace of
        None \<Rightarrow> \<lparr>fc_feedback = item, fc_expected = None, fc_confidence = None, fc_route = None, fc_hits = [], fc_sql = None\<rparr>
      | Some t \<Rightarrow> \<lparr>fc_feedback = item, fc_expected = fb_expected item, fc_confidence = qt_confidence t,
                   fc_route = Some (qt_route t), fc_hits = qt_hits t, fc_sql = qt_sql t\<rparr>)"

record inbox_page =
  ip_items :: "feedback_context list"
  ip_next :: "string option"

definition list_feedback_inbox :: "cursor_env \<Rightarrow> string option \<Rightarrow> int \<Rightarrow> (feedback_record \<Rightarrow> query_trace option)
    \<Rightarrow> review_status option \<Rightarrow> int option \<Rightarrow> string option \<Rightarrow> feedback_record list \<Rightarrow> cursor_error + inbox_page" where
  "list_feedback_inbox env signing_key limit trace_of status page_size cursor items =
     (let ordered = py_sorted inbox_key True (select_negative status items)
      in case (case cursor of
                 None \<Rightarrow> Inr ordered
               | Some token \<Rightarrow>
                   (case decode_inbox_cursor env signing_key token of
                      Inl e \<Rightarrow> Inl e
                    | Inr b \<Rightarrow>
                        if ib_status b \<noteq> status_token status then Inl CursorMismatch
                        else Inr (filter (\<lambda>i. inbox_key i < (ib_created_at b, ib_id b)) ordered))) of
           Inl e \<Rightarrow> Inl e
         | Inr rest \<Rightarrow>
             (let size = clamp_page_size page_size limit;
                  page = take size rest
              in Inr \<lparr>ip_items = map (\<lambda>i. build_feedback_context i (trace_of i)) page,
                      ip_next = (if size < length rest \<and> page \<noteq> []
                                 then Some (encode_inbox_cursor env signing_key status (inbox_key (last page))) else None)\<rparr>))"

section \<open>Review actions\<close>

definition parse_failure_category :: "string \<Rightarrow> feedback_error + failure_category" where
  "parse_failure_category c = (case category_of_name c of Some k \<Rightarrow> Inr k | None \<Rightarrow> Inl InvalidFailureCategory)"

definition classify_feedback_record :: "string \<Rightarrow> string \<Rightarrow> string \<Rightarrow> feedback_record \<Rightarrow> feedback_error + feedback_record" where
  "classify_feedback_record category reviewer reviewed_at r =
     (case parse_failure_category category of
        Inl e \<Rightarrow> Inl e
      | Inr k \<Rightarrow> Inr (r\<lparr>fb_category := Some k, fb_reviewed_by := Some reviewer, fb_reviewed_at := Some reviewed_at,
                         fb_status := Reviewed\<rparr>))"

definition resolve_feedback_record :: "feedback_record \<Rightarrow> feedback_record" where
  "resolve_feedback_record r = r\<lparr>fb_status := Resolved\<rparr>"

definition benchmark_case_id_for :: "ident \<Rightarrow> ident" where
  "benchmark_case_id_for i = ''feedback-'' @ i"

definition build_benchmark_case :: "feedback_record \<Rightarrow> string \<Rightarrow> benchmark_case" where
  "build_benchmark_case r question =
     \<lparr>gc_id = benchmark_case_id_for (fb_id r), gc_question = question, gc_document_ids = None, gc_expected_status = None,
      gc_required_terms = [], gc_forbidden_terms = [], gc_required_citations = [], gc_min_citations = 0,
      gc_max_citations = None, gc_min_confidence = None, gc_reason_terms = [], bc_labels = None,
      bc_human_reviewed = True, bc_expected_answer = fb_expected r\<rparr>"

definition promote_feedback_record :: "string \<Rightarrow> feedback_record \<Rightarrow> feedback_error + feedback_record \<times> benchmark_case" where
  "promote_feedback_record question r =
     (if fb_promoted r \<noteq> None then Inl AlreadyInEvaluationSet
      else if py_strip (case fb_expected r of Some a \<Rightarrow> a | None \<Rightarrow> []) = [] then Inl ExpectedAnswerRequired
      else (let c = build_benchmark_case r question in Inr (r\<lparr>fb_promoted := Some (gc_id c)\<rparr>, c)))"

section \<open>Stored feedback\<close>

record feedback_world =
  fw_traces :: "query_trace obj_store"
  fw_feedback :: "feedback_record obj_store"
  fw_cases :: "benchmark_case obj_store"

definition record_query_feedback :: "ident \<Rightarrow> string \<Rightarrow> ident \<Rightarrow> int \<Rightarrow> string option \<Rightarrow> string option
    \<Rightarrow> feedback_world \<Rightarrow> feedback_record option \<times> feedback_world" where
  "record_query_feedback fresh now t rating comment expected w =
     (case get_query_trace t (fw_traces w) of
        None \<Rightarrow> (None, w)
      | Some _ \<Rightarrow>
          (let r = \<lparr>fb_trace_id = t, fb_id = fresh, fb_created_at = now, fb_rating = rating, fb_comment = comment,
                    fb_expected = expected, fb_status = Unreviewed, fb_category = None, fb_reviewed_by = None,
                    fb_reviewed_at = None, fb_promoted = None\<rparr>
           in (Some r, w\<lparr>fw_feedback := put_json (fw_feedback w) (query_feedback_key t fresh) r\<rparr>)))"

definition feedback_key_for :: "ident \<Rightarrow> feedback_record obj_store \<Rightarrow> string option" where
  "feedback_key_for i s =
     find (\<lambda>k. py_endswith k (''/feedback/'' @ i @ ''.json'')) (list_feedback_record_keys s)"

definition get_feedback_review_record :: "ident \<Rightarrow> feedback_record obj_store \<Rightarrow> feedback_record option" where
  "get_feedback_review_record i s =
     (case feedback_key_for i s of None \<Rightarrow> None | Some k \<Rightarrow> key_cell k s)"

text \<open>\<open>intact\<close>: the payload under the key is a valid record; the others are skipped.\<close>

definition list_feedback_reviews :: "(string \<Rightarrow> bool) \<Rightarrow> feedback_record obj_store \<Rightarrow> feedback_record list" where
  "list_feedback_reviews intact s =
     concat (map (\<lambda>k. case key_cell k s of Some r \<Rightarrow> if intact k then [r] else [] | None \<Rightarrow> [])
       (list_feedback_record_keys s))"

definition feedback_cas_attempts :: nat where "feedback_cas_attempts = 8"

definition on_record :: "(feedback_record \<Rightarrow> feedback_error + feedback_record) \<Rightarrow> feedback_record option
    \<Rightarrow> feedback_error + feedback_record" where
  "on_record f cur = (case cur of None \<Rightarrow> Inl FeedbackOther | Some r \<Rightarrow> f r)"

definition cas_update_feedback :: "feedback_record foreign_write list list \<Rightarrow> string
    \<Rightarrow> (feedback_record \<Rightarrow> feedback_error + feedback_record) \<Rightarrow> feedback_record obj_store
    \<Rightarrow> (feedback_error + feedback_record) \<times> feedback_record obj_store" where
  "cas_update_feedback env key f s =
     (case update_json_cas feedback_cas_attempts key (on_record f) env s of
        (Inl CasConflict, s') \<Rightarrow> (Inl FeedbackOther, s')
      | (Inl (CasAborted e), s') \<Rightarrow> (Inl e, s')
      | (Inr r, s') \<Rightarrow> (Inr r, s'))"

definition classify_feedback :: "feedback_record foreign_write list list \<Rightarrow> string \<Rightarrow> ident \<Rightarrow> string \<Rightarrow> string
    \<Rightarrow> feedback_record obj_store \<Rightarrow> (feedback_error + feedback_record option) \<times> feedback_record obj_store" where
  "classify_feedback env now i category reviewer s =
     (case feedback_key_for i s of
        None \<Rightarrow> (Inr None, s)
      | Some key \<Rightarrow>
          (case parse_failure_category category of
             Inl e \<Rightarrow> (Inl e, s)
           | Inr _ \<Rightarrow>
               (case cas_update_feedback env key (classify_feedback_record category reviewer now) s of
                  (Inl e, s') \<Rightarrow> (Inl e, s') | (Inr r, s') \<Rightarrow> (Inr (Some r), s'))))"

definition resolve_feedback :: "feedback_record foreign_write list list \<Rightarrow> ident \<Rightarrow> feedback_record obj_store
    \<Rightarrow> (feedback_error + feedback_record option) \<times> feedback_record obj_store" where
  "resolve_feedback env i s =
     (case feedback_key_for i s of
        None \<Rightarrow> (Inr None, s)
      | Some key \<Rightarrow>
          (case cas_update_feedback env key (\<lambda>r. Inr (resolve_feedback_record r)) s of
             (Inl e, s') \<Rightarrow> (Inl e, s') | (Inr r, s') \<Rightarrow> (Inr (Some r), s')))"

definition promote_feedback :: "feedback_record foreign_write list list \<Rightarrow> ident \<Rightarrow> ident \<Rightarrow> feedback_world
    \<Rightarrow> (feedback_error + benchmark_case option) \<times> feedback_world" where
  "promote_feedback env set_id i w =
     (case (feedback_key_for i (fw_feedback w), get_feedback_review_record i (fw_feedback w)) of
        (Some key, Some r) \<Rightarrow>
          (let question = (case get_query_trace (fb_trace_id r) (fw_traces w) of Some t \<Rightarrow> qt_question t | None \<Rightarrow> [])
           in case promote_feedback_record question r of
                Inl e \<Rightarrow> (Inl e, w)
              | Inr (_, c) \<Rightarrow>
                  (case create_json (fw_cases w) (evaluation_set_case_key set_id (gc_id c)) c of
                     None \<Rightarrow> (Inl AlreadyInEvaluationSet, w)
                   | Some cases \<Rightarrow>
                       (case cas_update_feedback env key
                               (\<lambda>cur. case promote_feedback_record question cur of Inl e \<Rightarrow> Inl e | Inr (u, _) \<Rightarrow> Inr u)
                               (fw_feedback w) of
                          (Inl e, s') \<Rightarrow> (Inl e, w\<lparr>fw_cases := cases, fw_feedback := s'\<rparr>)
                        | (Inr _, s') \<Rightarrow> (Inr (Some c), w\<lparr>fw_cases := cases, fw_feedback := s'\<rparr>))))
      | _ \<Rightarrow> (Inr None, w))"

section \<open>Lemmas\<close>

definition newer_first :: "string \<times> ident \<Rightarrow> string \<times> ident \<Rightarrow> bool" where
  "newer_first a b \<longleftrightarrow> b < a"

interpretation inbox_order: keyset newer_first
  by unfold_locales (auto simp: newer_first_def)

definition inbox_listing :: "review_status option \<Rightarrow> feedback_record list \<Rightarrow> feedback_record list" where
  "inbox_listing status items = py_sorted inbox_key True (select_negative status items)"

definition fetch_inbox :: "cursor_env \<Rightarrow> string option \<Rightarrow> int \<Rightarrow> (feedback_record \<Rightarrow> query_trace option)
    \<Rightarrow> review_status option \<Rightarrow> int option \<Rightarrow> feedback_record list \<Rightarrow> string option
    \<Rightarrow> cursor_error + feedback_context list \<times> string option" where
  "fetch_inbox env signing_key limit trace_of status page_size items c =
     (case list_feedback_inbox env signing_key limit trace_of status page_size c items of
        Inl e \<Rightarrow> Inl e | Inr page \<Rightarrow> Inr (ip_items page, ip_next page))"

lemma decode_encode_inbox:
  assumes "loads_inverts_dumps (ce_loads env)"
  shows "decode_inbox_cursor env key (encode_inbox_cursor env key status b) =
    Inr \<lparr>ib_status = status_token status, ib_created_at = fst b, ib_id = snd b\<rparr>"
proof -
  let ?kvs = "[(''rs'', status_token status), (''ts'', fst b), (''id'', snd b)]"
  have "distinct (map fst ?kvs)" by simp
  then obtain obj where o: "ce_loads env (dumps_strs ?kvs) = Some (JObj obj)"
    and g: "\<And>k. j_get k obj = map_option JStr (map_of ?kvs k)"
    using assms unfolding loads_inverts_dumps_def by blast
  have "field_text env k obj = map_of ?kvs k" for k by (simp add: field_text_def g split: option.split)
  then show ?thesis
    using open_seal[OF o, of key]
    by (cases status) (auto simp: decode_inbox_cursor_def encode_inbox_cursor_def status_token_def review_status_name_def
        split: review_status.split)
qed

lemma fetch_inbox_page:
  assumes "loads_inverts_dumps (ce_loads env)"
  shows "fetch_inbox env signing_key limit trace_of status page_size items
      (map_option (encode_inbox_cursor env signing_key status) b) =
    Inr (map_prod (map (\<lambda>i. build_feedback_context i (trace_of i))) (map_option (encode_inbox_cursor env signing_key status))
      (page_next inbox_key (clamp_page_size page_size limit)
        (rest_after newer_first inbox_key b (inbox_listing status items))))"
  by (cases b) (auto simp: fetch_inbox_def list_feedback_inbox_def Let_def decode_encode_inbox[OF assms] rest_after_def
      newer_first_def inbox_listing_def page_next_def)

lemma inbox_listing_strict:
  assumes "distinct (map fb_id items)"
  shows "sorted_wrt (\<lambda>x y. newer_first (inbox_key x) (inbox_key y)) (inbox_listing status items)"
proof -
  have "distinct (map inbox_key (select_negative status items))"
    using assms by (auto simp: distinct_map inj_on_def inbox_key_def select_negative_def)
  from py_sorted_strict[OF this, of True] show ?thesis by (simp add: inbox_listing_def newer_first_def)
qed

lemma feedback_context_item [simp]: "fc_feedback (build_feedback_context i t) = i"
  by (simp add: build_feedback_context_def split: option.split)

lemma feedback_key_for_sound:
  "feedback_key_for i s = Some k \<Longrightarrow> k \<in> set (list_feedback_record_keys s) \<and> suffix (''/feedback/'' @ i @ ''.json'') k"
  by (auto simp: feedback_key_for_def find_Some_iff py_endswith_iff)

lemma cas_update_feedback_atomic:
  assumes "store_wf s" "cas_update_feedback env key f s = (Inr r, s')"
  shows "\<exists>s1 r0. foreign_steps s s1 \<and> key_cell key s1 = Some r0 \<and> f r0 = Inr r \<and> s' = put_json s1 key r"
proof -
  have "update_json_cas feedback_cas_attempts key (on_record f) env s = (Inr r, s')"
    using assms(2) by (auto simp: cas_update_feedback_def split: prod.splits sum.splits cas_error.splits)
  from gcs.rmw_atomic update_json_cas_rmw[OF this] assms(1) show ?thesis
    by (fastforce simp: on_record_def split: option.splits)
qed

section \<open>Properties\<close>

text \<open>Following the cursors of the inbox visits every negative item of the requested status exactly
  once, newest first, in pages within the limit, whether or not the trace of an item still exists.\<close>

theorem inbox_walk:
  assumes "loads_inverts_dumps (ce_loads env)" "distinct (map fb_id items)"
  shows "\<exists>pages. walk (fetch_inbox env signing_key limit trace_of status page_size items) (Suc (length items)) None = Some (Inr pages) \<and>
     mset (map fc_feedback (concat pages)) = mset (select_negative status items) \<and>
     sorted_wrt (\<lambda>x y. inbox_key (fc_feedback y) < inbox_key (fc_feedback x)) (concat pages) \<and>
     list_all (\<lambda>pg. int (length pg) \<le> max 1 limit) pages"
proof -
  have len: "length (inbox_listing status items) < Suc (length items)"
    by (simp add: inbox_listing_def select_negative_def le_imp_less_Suc)
  obtain pages where p: "walk (fetch_inbox env signing_key limit trace_of status page_size items) (Suc (length items)) None = Some (Inr pages)"
    "concat pages = map (\<lambda>i. build_feedback_context i (trace_of i)) (inbox_listing status items)"
    "list_all (\<lambda>pg. length pg \<le> clamp_page_size page_size limit) pages"
    using inbox_order.walk_enumerates[OF inbox_listing_strict[OF assms(2)] clamp_page_size_pos fetch_inbox_page[OF assms(1)] len]
    by blast
  have "list_all (\<lambda>pg. int (length pg) \<le> max 1 limit) pages"
    using p(3) clamp_page_size_le[of page_size limit] by (fastforce simp: list_all_iff)
  moreover have "map fc_feedback (concat pages) = inbox_listing status items" by (simp add: p(2) comp_def)
  then have "mset (map fc_feedback (concat pages)) = mset (select_negative status items)"
    by (simp only: inbox_listing_def mset_py_sorted)
  moreover have "sorted_wrt (\<lambda>x y. inbox_key (fc_feedback y) < inbox_key (fc_feedback x)) (concat pages)"
    using inbox_listing_strict[OF assms(2), of status] by (simp add: p(2) sorted_wrt_map newer_first_def)
  ultimately show ?thesis using p(1) by blast
qed

definition demo_feedback :: "ident \<Rightarrow> int \<Rightarrow> feedback_record" where
  "demo_feedback i rating = \<lparr>fb_trace_id = ''t'', fb_id = i, fb_created_at = ''2024'', fb_rating = rating, fb_comment = None,
     fb_expected = Some ''four'', fb_status = Unreviewed, fb_category = None, fb_reviewed_by = None, fb_reviewed_at = None,
     fb_promoted = None\<rparr>"

theorem inbox_walk_witness:
  "\<exists>pages. walk (fetch_inbox \<lparr>ce_mac = (\<lambda>k s. k @ s), ce_loads = loads_strs, ce_str = (\<lambda>_. [])\<rparr> None 1 (\<lambda>_. None) None None
       [demo_feedback ''a'' 1, demo_feedback ''b'' 5, demo_feedback ''c'' 2]) 4 None = Some (Inr pages) \<and>
     mset (map fc_feedback (concat pages)) = {#demo_feedback ''a'' 1, demo_feedback ''c'' 2#}"
  using inbox_walk[of "\<lparr>ce_mac = (\<lambda>k s. k @ s), ce_loads = loads_strs, ce_str = (\<lambda>_. [])\<rparr>"
      "[demo_feedback ''a'' 1, demo_feedback ''b'' 5, demo_feedback ''c'' 2]" None 1 "\<lambda>_. None" None None]
  by (auto simp: loads_strs_inverts demo_feedback_def select_negative_def is_negative_rating_def eval_nat_numeral)

text \<open>A classification loses no concurrent review: whatever other operators wrote between the read and
  the write, the record it installs is the one it overwrote with the category, the reviewer, the
  instant and the status replaced, so a promotion or a rating recorded meanwhile survives; an unknown
  category changes nothing.\<close>

theorem classification_atomic:
  assumes "store_wf s" "classify_feedback env now i category reviewer s = (res, s')"
  shows "(category_of_name category = None \<longrightarrow> s' = s \<and> (res = Inr None \<or> res = Inl InvalidFailureCategory)) \<and>
     (\<forall>r. res = Inr (Some r) \<longrightarrow>
        (\<exists>key s1 r0 k. foreign_steps s s1 \<and> key_cell key s1 = Some r0 \<and> category_of_name category = Some k \<and>
           r = r0\<lparr>fb_category := Some k, fb_reviewed_by := Some reviewer, fb_reviewed_at := Some now, fb_status := Reviewed\<rparr> \<and>
           s' = put_json s1 key r))"
proof (intro conjI impI allI)
  assume "category_of_name category = None"
  then show "s' = s" "res = Inr None \<or> res = Inl InvalidFailureCategory"
    using assms(2) by (auto simp: classify_feedback_def parse_failure_category_def split: option.splits)
next
  fix r assume "res = Inr (Some r)"
  then obtain key where "cas_update_feedback env key (classify_feedback_record category reviewer now) s = (Inr r, s')"
    using assms(2) by (auto simp: classify_feedback_def split: option.splits sum.splits prod.splits)
  from cas_update_feedback_atomic[OF assms(1) this]
  show "\<exists>key s1 r0 k. foreign_steps s s1 \<and> key_cell key s1 = Some r0 \<and> category_of_name category = Some k \<and>
           r = r0\<lparr>fb_category := Some k, fb_reviewed_by := Some reviewer, fb_reviewed_at := Some now, fb_status := Reviewed\<rparr> \<and>
           s' = put_json s1 key r"
    by (fastforce simp: classify_feedback_record_def parse_failure_category_def split: option.splits)
qed

text \<open>A promotion never duplicates and never overwrites a benchmark case: it either leaves the evaluation
  set as it was, or adds the one case whose identifier derives from the feedback, at a key that was
  free, with the question of the trace and the operator's expected answer; it reports success only
  when it added the case.\<close>

theorem promotion_creates_once:
  assumes "promote_feedback env set_id i w = (res, w')"
  shows "(fw_cases w' = fw_cases w \<and> (\<forall>c. res \<noteq> Inr (Some c))) \<or>
     (\<exists>r c. get_feedback_review_record i (fw_feedback w) = Some r \<and> fb_promoted r = None \<and>
        c = build_benchmark_case r (case get_query_trace (fb_trace_id r) (fw_traces w) of Some t \<Rightarrow> qt_question t | None \<Rightarrow> []) \<and>
        key_cell (evaluation_set_case_key set_id (''feedback-'' @ fb_id r)) (fw_cases w) = None \<and>
        fw_cases w' = put_json (fw_cases w) (evaluation_set_case_key set_id (''feedback-'' @ fb_id r)) c \<and>
        (\<forall>d. res = Inr (Some d) \<longrightarrow> d = c))"
  using assms
  by (auto simp: promote_feedback_def Let_def promote_feedback_record_def build_benchmark_case_def benchmark_case_id_for_def
      create_json_def put_json_conditional_def precondition_holds_def key_cell_def
      split: option.splits sum.splits prod.splits if_splits)

definition demo_feedback_world :: feedback_world where
  "demo_feedback_world = \<lparr>fw_traces = empty_store, fw_feedback = put_json empty_store (query_feedback_key ''t'' ''a'') (demo_feedback ''a'' 1),
     fw_cases = empty_store\<rparr>"

lemma demo_feedback_key: "feedback_key_for ''a'' (fw_feedback demo_feedback_world) = Some (query_feedback_key ''t'' ''a'')"
proof -
  have "list_keys ''queries/'' (fw_feedback demo_feedback_world) = [query_feedback_key ''t'' ''a'']"
    by (simp add: list_keys_def demo_feedback_world_def put_json_def empty_store_def py_startswith_iff query_feedback_key_def)
  moreover have "contains_text ''/feedback/'' (query_feedback_key ''t'' ''a'')" by code_simp
  ultimately show ?thesis
    by (simp add: feedback_key_for_def list_feedback_record_keys_def py_endswith_iff)
      (simp add: query_feedback_key_def suffix_def)
qed

theorem classification_atomic_witness:
  "\<exists>r s'. classify_feedback [[ForeignPut (query_feedback_key ''t'' ''a'') (demo_feedback ''a'' 2)]] ''now'' ''a'' ''SQL problem'' ''op''
       (fw_feedback demo_feedback_world) = (Inr (Some r), s') \<and> fb_category r = Some SqlProblem"
proof -
  let ?env = "[[ForeignPut (query_feedback_key ''t'' ''a'') (demo_feedback ''a'' 2)]]"
  let ?s = "fw_feedback demo_feedback_world"
  have wf: "store_wf ?s"
    unfolding demo_feedback_world_def feedback_world.simps by (rule store_wf_put) (simp add: store_wf_def empty_store_def)
  have "\<exists>r. fst (classify_feedback ?env ''now'' ''a'' ''SQL problem'' ''op'' ?s) = Inr (Some r)"
    unfolding classify_feedback_def demo_feedback_key
    by (simp add: parse_failure_category_def category_of_name_def cas_update_feedback_def feedback_cas_attempts_def eval_nat_numeral
        get_json_with_etag_def put_json_conditional_def precondition_holds_def put_json_def empty_store_def etag_condition_def
        on_record_def classify_feedback_record_def demo_feedback_world_def)
  then obtain r s' where c: "classify_feedback ?env ''now'' ''a'' ''SQL problem'' ''op'' ?s = (Inr (Some r), s')"
    by (metis prod.collapse)
  have "category_of_name ''SQL problem'' = Some SqlProblem" by (simp add: category_of_name_def)
  then show ?thesis using classification_atomic[OF wf c] c by auto
qed

theorem promotion_creates_once_witness:
  "\<exists>c w'. promote_feedback [] ''set'' ''a'' demo_feedback_world = (Inr (Some c), w') \<and>
     key_cell (evaluation_set_case_key ''set'' ''feedback-a'') (fw_cases w') = Some c"
proof -
  let ?w = "demo_feedback_world"
  have r: "get_feedback_review_record ''a'' (fw_feedback ?w) = Some (demo_feedback ''a'' 1)"
    by (simp add: get_feedback_review_record_def demo_feedback_key)
      (simp add: demo_feedback_world_def key_cell_def put_json_def)
  have strip: "py_strip ''four'' = ''four''" by code_simp
  have "\<exists>c. fst (promote_feedback [] ''set'' ''a'' ?w) = Inr (Some c)"
    unfolding promote_feedback_def demo_feedback_key r
    by (simp add: Let_def promote_feedback_record_def demo_feedback_def strip create_json_def put_json_conditional_def
        precondition_holds_def demo_feedback_world_def empty_store_def cas_update_feedback_def feedback_cas_attempts_def
        eval_nat_numeral get_json_with_etag_def put_json_def etag_condition_def on_record_def)
  then obtain c w' where p: "promote_feedback [] ''set'' ''a'' ?w = (Inr (Some c), w')" by (metis prod.collapse)
  show ?thesis using promotion_creates_once[OF p] p r
    by (auto simp: demo_feedback_def key_cell_def put_json_def)
qed

end
