(* ===== verification/Evaluation.thy ===== *)
theory Evaluation
  imports Feedback Conversation
begin

text \<open>
  Evaluation, \<open>evaluation.py\<close> and the evaluation runs of \<open>service.py\<close>: the golden case check, the
  deterministic checks, the validation of the set, a run over the stored cases, and the listing of
  runs. The answer pipeline and case folding are arguments. The trace of a query is written in the
  background, so a run carries the writes that are still pending, and an argument says how many of
  them have landed when a case looks its trace up.
\<close>

section \<open>Golden cases\<close>

record observed_answer =
  oa_answer :: string
  oa_citations :: "ident list"
  oa_status :: string
  oa_confidence :: "string option"
  oa_reason :: "string option"

datatype golden_failure = WrongStatus string string | MissingTerm string | ForbiddenTerm string | MissingCitation ident
  | TooFewCitations int nat | TooManyCitations int nat | UnknownMinimum string | ConfidenceTooLow string "string option"
  | MissingReasonTerm string

definition confidence_rank :: "string \<Rightarrow> nat option" where
  "confidence_rank s =
     (if s = ''low'' then Some 1 else if s = ''medium'' then Some 2 else if s = ''high'' then Some 3 else None)"

definition check_min_confidence :: "(string \<Rightarrow> string) \<Rightarrow> string \<Rightarrow> string option \<Rightarrow> golden_failure list" where
  "check_min_confidence casefold minimum actual =
     (case confidence_rank (casefold minimum) of
        None \<Rightarrow> [UnknownMinimum minimum]
      | Some m \<Rightarrow>
          (case confidence_rank (casefold (case actual of Some a \<Rightarrow> a | None \<Rightarrow> [])) of
             None \<Rightarrow> [ConfidenceTooLow minimum actual]
           | Some a \<Rightarrow> if a < m then [ConfidenceTooLow minimum actual] else []))"

definition evaluate_response :: "(string \<Rightarrow> string) \<Rightarrow> 'a golden_case_scheme \<Rightarrow> observed_answer \<Rightarrow> golden_failure list" where
  "evaluate_response casefold c r =
     (let answer = casefold (oa_answer r); ids = set (oa_citations r); n = length (oa_citations r);
          reason = casefold (case oa_reason r of Some x \<Rightarrow> x | None \<Rightarrow> [])
      in (case gc_expected_status c of None \<Rightarrow> [] | Some s \<Rightarrow> if oa_status r \<noteq> s then [WrongStatus s (oa_status r)] else [])
       @ map MissingTerm (filter (\<lambda>t. \<not> contains_text (casefold t) answer) (gc_required_terms c))
       @ map ForbiddenTerm (filter (\<lambda>t. contains_text (casefold t) answer) (gc_forbidden_terms c))
       @ map MissingCitation (filter (\<lambda>i. i \<notin> ids) (gc_required_citations c))
       @ (if int n < gc_min_citations c then [TooFewCitations (gc_min_citations c) n] else [])
       @ (case gc_max_citations c of None \<Rightarrow> [] | Some m \<Rightarrow> if m < int n then [TooManyCitations m n] else [])
       @ (case gc_min_confidence c of None \<Rightarrow> [] | Some m \<Rightarrow> check_min_confidence casefold m (oa_confidence r))
       @ map MissingReasonTerm (filter (\<lambda>t. \<not> contains_text (casefold t) reason) (gc_reason_terms c)))"

definition golden_passed :: "(string \<Rightarrow> string) \<Rightarrow> 'a golden_case_scheme \<Rightarrow> observed_answer \<Rightarrow> bool" where
  "golden_passed casefold c r \<longleftrightarrow> evaluate_response casefold c r = []"

text \<open>The runner is given a request, which is validated when it is built.\<close>

type_synonym 'r runner = "string \<Rightarrow> ident list option \<Rightarrow> ask_error + 'r"

definition run_case :: "'r runner \<Rightarrow> 'a golden_case_scheme \<Rightarrow> ask_error + 'r" where
  "run_case run c =
     (if valid_question (gc_question c) \<and> valid_scope (gc_document_ids c) then run (gc_question c) (gc_document_ids c)
      else Inl AskValidation)"

record golden_summary =
  gs_total :: nat
  gs_passed :: nat
  gs_failed :: nat
  gs_results :: "(ident \<times> golden_failure list) list"

fun golden_results :: "(string \<Rightarrow> string) \<Rightarrow> observed_answer runner \<Rightarrow> 'a golden_case_scheme list
    \<Rightarrow> ask_error + (ident \<times> golden_failure list) list" where
  "golden_results casefold run [] = Inr []"
| "golden_results casefold run (c # cs) =
     (case run_case run c of
        Inl e \<Rightarrow> Inl e
      | Inr r \<Rightarrow>
          (case golden_results casefold run cs of
             Inl e \<Rightarrow> Inl e | Inr rs \<Rightarrow> Inr ((gc_id c, evaluate_response casefold c r) # rs)))"

definition evaluate_cases :: "(string \<Rightarrow> string) \<Rightarrow> observed_answer runner \<Rightarrow> 'a golden_case_scheme list
    \<Rightarrow> ask_error + golden_summary" where
  "evaluate_cases casefold run cases =
     (case golden_results casefold run cases of
        Inl e \<Rightarrow> Inl e
      | Inr rs \<Rightarrow>
          (let passed = length (filter (\<lambda>r. snd r = []) rs)
           in Inr \<lparr>gs_total = length rs, gs_passed = passed, gs_failed = length rs - passed, gs_results = rs\<rparr>))"

section \<open>Deterministic checks\<close>

datatype check_name = CitationPresence | RequiredFact string | EvidenceStatus

type_synonym check = "check_name \<times> bool"

record eval_result =
  er_case_id :: ident
  er_checks :: "check list"
  er_metrics :: "retrieval_metrics option"

definition run_deterministic_checks :: "(string \<Rightarrow> string) \<Rightarrow> 'a golden_case_scheme \<Rightarrow> observed_answer \<Rightarrow> check list" where
  "run_deterministic_checks casefold c r =
     (let ids = set (oa_citations r); n = int (length (oa_citations r));
          citation_ok = (gc_min_citations c \<le> n \<and> (case gc_max_citations c of None \<Rightarrow> True | Some m \<Rightarrow> n \<le> m) \<and>
                         list_all (\<lambda>i. i \<in> ids) (gc_required_citations c));
          answer = casefold (oa_answer r)
      in [(CitationPresence, citation_ok)]
       @ map (\<lambda>t. (RequiredFact t, contains_text (casefold t) answer)) (gc_required_terms c)
       @ [(EvidenceStatus, case gc_expected_status c of None \<Rightarrow> True | Some s \<Rightarrow> oa_status r = s)])"

definition evaluate_benchmark_case :: "(string \<Rightarrow> string) \<Rightarrow> 'a golden_case_scheme \<Rightarrow> observed_answer \<Rightarrow> eval_result" where
  "evaluate_benchmark_case casefold c r =
     \<lparr>er_case_id = gc_id c, er_checks = run_deterministic_checks casefold c r, er_metrics = None\<rparr>"

definition valid_evaluation_set :: "benchmark_case list \<Rightarrow> bool" where
  "valid_evaluation_set cases \<longleftrightarrow> list_ex bc_human_reviewed cases"

definition ci_run_passed :: "eval_result list \<Rightarrow> bool" where
  "ci_run_passed results \<longleftrightarrow> list_all (\<lambda>r. list_all snd (er_checks r)) results"

section \<open>Runs\<close>

record eval_run =
  ev_run_id :: ident
  ev_created_at :: string
  ev_ci_passed :: bool
  ev_results :: "eval_result list"

record eval_env =
  ee_casefold :: "string \<Rightarrow> string"
  ee_answer :: "(observed_answer \<times> query_trace) runner"
  ee_landed :: "nat \<Rightarrow> nat"
  ee_depth :: int
  ee_run_id :: ident
  ee_now :: string

datatype eval_error = InvalidEvaluationSet | CaseFailed ask_error | RunExists

text \<open>One case: the query leaves its trace among the pending writes; then some of them land; then the
  trace under the response's identifier is read.\<close>

record eval_world =
  vw_traces :: "query_trace obj_store"
  vw_pending :: "query_trace list"
  vw_cases :: "benchmark_case obj_store"
  vw_runs :: "eval_run obj_store"

definition land :: "nat \<Rightarrow> eval_world \<Rightarrow> eval_world" where
  "land k w = w\<lparr>vw_traces := fold write_query_trace (take k (vw_pending w)) (vw_traces w), vw_pending := drop k (vw_pending w)\<rparr>"

definition evaluate_stored_case :: "eval_env \<Rightarrow> nat \<Rightarrow> benchmark_case \<Rightarrow> eval_world
    \<Rightarrow> (ask_error + eval_result) \<times> eval_world" where
  "evaluate_stored_case env i c w =
     (case run_case (ee_answer env) c of
        Inl e \<Rightarrow> (Inl e, w)
      | Inr (r, tr) \<Rightarrow>
          (let result = evaluate_benchmark_case (ee_casefold env) c r;
               w1 = w\<lparr>vw_pending := vw_pending w @ [tr]\<rparr>
           in case bc_labels c of
                None \<Rightarrow> (Inr result, w1)
              | Some labels \<Rightarrow>
                  (let w2 = land (ee_landed env i) w1
                   in case get_query_trace (qt_trace_id tr) (vw_traces w2) of
                        None \<Rightarrow> (Inr result, w2)
                      | Some t \<Rightarrow> (Inr (result\<lparr>er_metrics := compute_retrieval_metrics (qt_hits t) (Some labels) (ee_depth env)\<rparr>), w2))))"

fun evaluate_stored_cases :: "eval_env \<Rightarrow> nat \<Rightarrow> benchmark_case list \<Rightarrow> eval_world
    \<Rightarrow> (ask_error + eval_result list) \<times> eval_world" where
  "evaluate_stored_cases env i [] w = (Inr [], w)"
| "evaluate_stored_cases env i (c # cs) w =
     (case evaluate_stored_case env i c w of
        (Inl e, w') \<Rightarrow> (Inl e, w')
      | (Inr r, w') \<Rightarrow>
          (case evaluate_stored_cases env (Suc i) cs w' of
             (Inl e, w'') \<Rightarrow> (Inl e, w'') | (Inr rs, w'') \<Rightarrow> (Inr (r # rs), w'')))"

definition list_benchmark_cases :: "(string \<Rightarrow> bool) \<Rightarrow> ident \<Rightarrow> benchmark_case obj_store \<Rightarrow> benchmark_case list" where
  "list_benchmark_cases intact set_id s =
     concat (map (\<lambda>k. case key_cell k s of Some c \<Rightarrow> if intact k then [c] else [] | None \<Rightarrow> [])
       (list_evaluation_set_case_keys set_id s))"

definition run_evaluation :: "eval_env \<Rightarrow> (string \<Rightarrow> bool) \<Rightarrow> ident \<Rightarrow> eval_world \<Rightarrow> (eval_error + eval_run) \<times> eval_world" where
  "run_evaluation env intact set_id w =
     (let cases = list_benchmark_cases intact set_id (vw_cases w)
      in if \<not> valid_evaluation_set cases then (Inl InvalidEvaluationSet, w)
         else case evaluate_stored_cases env 0 cases w of
                (Inl e, w') \<Rightarrow> (Inl (CaseFailed e), w')
              | (Inr results, w') \<Rightarrow>
                  (let run = \<lparr>ev_run_id = ee_run_id env, ev_created_at = ee_now env,
                              ev_ci_passed = ci_run_passed results, ev_results = results\<rparr>
                   in case create_json (vw_runs w') (evaluation_run_results_key (ee_run_id env)) run of
                        None \<Rightarrow> (Inl RunExists, w')
                      | Some s \<Rightarrow> (Inr run, w'\<lparr>vw_runs := s\<rparr>)))"

record eval_summary =
  es_run_id :: ident
  es_created_at :: string
  es_ci_passed :: bool
  es_result_count :: nat

definition list_evaluation_runs :: "(string \<Rightarrow> bool) \<Rightarrow> eval_run obj_store \<Rightarrow> eval_summary list" where
  "list_evaluation_runs intact s =
     py_sorted es_created_at True
       (concat (map (\<lambda>k. case key_cell k s of
            Some r \<Rightarrow> if intact k then [\<lparr>es_run_id = ev_run_id r, es_created_at = ev_created_at r, es_ci_passed = ev_ci_passed r,
                         es_result_count = length (ev_results r)\<rparr>] else []
          | None \<Rightarrow> []) (list_evaluation_run_keys s)))"

definition get_evaluation_run :: "ident \<Rightarrow> eval_run obj_store \<Rightarrow> eval_run option" where
  "get_evaluation_run r s = key_cell (evaluation_run_results_key r) s"

section \<open>Lemmas\<close>

lemma checks_passed:
  "list_all snd (run_deterministic_checks casefold c r) \<longleftrightarrow>
     gc_min_citations c \<le> int (length (oa_citations r)) \<and>
     (case gc_max_citations c of None \<Rightarrow> True | Some m \<Rightarrow> int (length (oa_citations r)) \<le> m) \<and>
     list_all (\<lambda>i. i \<in> set (oa_citations r)) (gc_required_citations c) \<and>
     list_all (\<lambda>t. contains_text (casefold t) (casefold (oa_answer r))) (gc_required_terms c) \<and>
     (case gc_expected_status c of None \<Rightarrow> True | Some s \<Rightarrow> oa_status r = s)"
  by (auto simp: run_deterministic_checks_def Let_def list_all_iff)

lemma evaluate_stored_cases_invalid:
  assumes "c \<in> set cs" "\<not> valid_question (gc_question c)"
  shows "\<exists>e. fst (evaluate_stored_cases env i cs w) = Inl e"
  using assms(1)
proof (induction cs arbitrary: i w)
  case (Cons d cs)
  show ?case
  proof (cases "c = d")
    case True
    then show ?thesis using assms(2) by (simp add: evaluate_stored_case_def run_case_def)
  next
    case False
    obtain x w1 where x: "evaluate_stored_case env i d w = (x, w1)" by (cases "evaluate_stored_case env i d w")
    have "c \<in> set cs" using False Cons.prems by simp
    then obtain e w2 where "evaluate_stored_cases env (Suc i) cs w1 = (Inl e, w2)"
      using Cons.IH by (metis prod.collapse)
    then show ?thesis using x by (cases x) simp_all
  qed
qed simp

lemma case_listed:
  assumes "finite_store s" "key_cell (evaluation_set_case_key set_id i) s = Some c" "intact (evaluation_set_case_key set_id i)"
  shows "c \<in> set (list_benchmark_cases intact set_id s)"
  using case_key_listed[OF assms(1), of set_id i] assms(2,3)
  by (force simp: list_benchmark_cases_def)

lemma promoted_case_stored:
  assumes "promote_feedback env set_id i w = (Inr (Some c), w')" "get_feedback_review_record i (fw_feedback w) = Some r"
    "get_query_trace (fb_trace_id r) (fw_traces w) = None"
  shows "key_cell (evaluation_set_case_key set_id (''feedback-'' @ fb_id r)) (fw_cases w') = Some c"
    "gc_question c = []" "bc_human_reviewed c" "\<exists>s. fw_cases w' = put_json (fw_cases w) s c"
  using assms
  by (auto simp: promote_feedback_def Let_def promote_feedback_record_def build_benchmark_case_def benchmark_case_id_for_def
      create_json_def put_json_conditional_def key_cell_def put_json_def
      split: option.splits sum.splits prod.splits if_splits)

section \<open>Properties\<close>

text \<open>What the deterministic checks of a continuous-integration run leave out of the golden case check:
  a case passes the golden check exactly when all its deterministic checks pass and, besides, no
  forbidden term occurs in the answer, the confidence reaches the required minimum, and the reason for
  insufficient evidence has the required terms; no deterministic check looks at these three.\<close>

theorem golden_check_is_checks_and_more:
  "golden_passed casefold c r \<longleftrightarrow>
     list_all snd (run_deterministic_checks casefold c r) \<and>
     (\<nexists>t. t \<in> set (gc_forbidden_terms c) \<and> contains_text (casefold t) (casefold (oa_answer r))) \<and>
     (case gc_min_confidence c of None \<Rightarrow> True | Some m \<Rightarrow> check_min_confidence casefold m (oa_confidence r) = []) \<and>
     list_all (\<lambda>t. contains_text (casefold t) (casefold (case oa_reason r of Some x \<Rightarrow> x | None \<Rightarrow> []))) (gc_reason_terms c)"
  unfolding checks_passed golden_passed_def evaluate_response_def Let_def
  by (auto simp: filter_empty_conv list_all_iff not_less split: option.splits)

text \<open>Promoting an item whose trace has expired disables evaluation: the case is created with an empty
  question, which no request accepts, so every later run over the set fails, whatever the other cases
  are and whatever else the set holds.\<close>

theorem expired_promotion_breaks_runs:
  assumes "finite_store (fw_cases w)" "promote_feedback env set_id i w = (Inr (Some c), w')"
    "get_feedback_review_record i (fw_feedback w) = Some r" "get_query_trace (fb_trace_id r) (fw_traces w) = None"
    "intact (evaluation_set_case_key set_id (''feedback-'' @ fb_id r))" "vw_cases v = fw_cases w'"
  shows "\<exists>e. fst (run_evaluation ee intact set_id v) = Inl (CaseFailed e)"
proof -
  note p = promoted_case_stored[OF assms(2-4)]
  have "finite_store (fw_cases w')" using p(4) assms(1) by (auto intro: finite_store_put)
  then have c: "c \<in> set (list_benchmark_cases intact set_id (vw_cases v))"
    using case_listed[OF _ p(1)] assms(5,6) by metis
  then have "valid_evaluation_set (list_benchmark_cases intact set_id (vw_cases v))"
    using p(3) by (auto simp: valid_evaluation_set_def list_ex_iff)
  moreover have "\<not> valid_question (gc_question c)" using p(2) by (simp add: valid_question_def)
  then obtain e v' where "evaluate_stored_cases ee 0 (list_benchmark_cases intact set_id (vw_cases v)) v = (Inl e, v')"
    using evaluate_stored_cases_invalid[OF c] by (metis prod.collapse)
  ultimately show ?thesis by (simp add: run_evaluation_def)
qed

text \<open>A run can score a case on the passages of another: the queries of one run share the request's
  trace identifier and their traces are written in the background, so when the write of the second
  case has not landed the metrics attached to it are those of the first case's passages.\<close>

theorem metrics_of_previous_case:
  assumes "run_case (ee_answer env) c1 = Inr (r1, t1)" "run_case (ee_answer env) c2 = Inr (r2, t2)"
    "qt_trace_id t1 = qt_trace_id t2" "bc_labels c1 = Some l1" "bc_labels c2 = Some l2"
    "vw_pending w = []" "ee_landed env 0 = 1" "ee_landed env 1 = 0"
  shows "\<exists>x y w'. evaluate_stored_cases env 0 [c1, c2] w = (Inr [x, y], w') \<and>
     er_metrics y = compute_retrieval_metrics (qt_hits t1) (Some l2) (ee_depth env)"
  using assms by (simp add: evaluate_stored_case_def Let_def land_def)

definition demo_eval_env :: "(ident \<Rightarrow> query_trace) \<Rightarrow> eval_env" where
  "demo_eval_env traces = \<lparr>ee_casefold = py_lower,
     ee_answer = (\<lambda>q _. Inr (\<lparr>oa_answer = q, oa_citations = [], oa_status = ''grounded'', oa_confidence = None, oa_reason = None\<rparr>, traces q)),
     ee_landed = (\<lambda>i. 1 - i), ee_depth = 10, ee_run_id = ''r'', ee_now = ''now''\<rparr>"

definition demo_trace :: "ident \<Rightarrow> query_trace" where
  "demo_trace q = \<lparr>qt_trace_id = ''t'', qt_question = q, qt_route = ''rag'', qt_document_ids = None, qt_answer = q,
     qt_evidence_status = ''grounded'', qt_confidence = None, qt_score = None, qt_reason = None, qt_citations = [],
     qt_hits = [\<lparr>th_chunk_id = q, th_document_id = ''d'', th_score = 1\<rparr>], qt_sql = None, qt_claims = [], qt_abstention = None\<rparr>"

definition demo_case :: "ident \<Rightarrow> benchmark_case" where
  "demo_case q = \<lparr>gc_id = q, gc_question = q, gc_document_ids = None, gc_expected_status = None,
      gc_required_terms = [], gc_forbidden_terms = [], gc_required_citations = [], gc_min_citations = 0,
      gc_max_citations = None, gc_min_confidence = None, gc_reason_terms = [],
      bc_labels = Some \<lparr>rl_chunk_ids = [q], rl_document_ids = [], rl_judgments = []\<rparr>,
      bc_human_reviewed = True, bc_expected_answer = None\<rparr>"

definition demo_eval_world :: "benchmark_case obj_store \<Rightarrow> eval_world" where
  "demo_eval_world cases = \<lparr>vw_traces = empty_store, vw_pending = [], vw_cases = cases, vw_runs = empty_store\<rparr>"

theorem expired_promotion_breaks_runs_witness:
  "\<exists>c w' e. promote_feedback [] ''set'' ''a'' demo_feedback_world = (Inr (Some c), w') \<and>
     fst (run_evaluation (demo_eval_env demo_trace) (\<lambda>_. True) ''set'' (demo_eval_world (fw_cases w'))) = Inl (CaseFailed e)"
proof -
  let ?w = demo_feedback_world
  have r: "get_feedback_review_record ''a'' (fw_feedback ?w) = Some (demo_feedback ''a'' 1)"
    by (simp add: get_feedback_review_record_def demo_feedback_key)
      (simp add: demo_feedback_world_def key_cell_def put_json_def)
  have strip: "py_strip ''four'' = ''four''" by code_simp
  have "\<exists>c. fst (promote_feedback [] ''set'' ''a'' ?w) = Inr (Some c)"
    unfolding promote_feedback_def demo_feedback_key r
    by (simp add: Let_def promote_feedback_record_def demo_feedback_def strip create_json_def put_json_conditional_def
        precondition_holds_def demo_feedback_world_def empty_store_def cas_update_feedback_def feedback_cas_attempts_def
        eval_nat_numeral get_json_with_etag_def put_json_def etag_condition_def on_record_def)
  then obtain c w' where p: "promote_feedback [] ''set'' ''a'' ?w = (Inr (Some c), w')" by (metis prod.collapse)
  have "finite_store (fw_cases ?w)" by (simp add: finite_store_def demo_feedback_world_def empty_store_def)
  moreover have "get_query_trace (fb_trace_id (demo_feedback ''a'' 1)) (fw_traces ?w) = None"
    by (simp add: get_query_trace_def key_cell_def demo_feedback_world_def empty_store_def)
  ultimately show ?thesis
    using expired_promotion_breaks_runs[OF _ p r, of "\<lambda>_. True" "demo_eval_world (fw_cases w')" "demo_eval_env demo_trace"] p
    by (auto simp: demo_eval_world_def)
qed

theorem metrics_of_previous_case_witness:
  "\<exists>x y w' m. evaluate_stored_cases (demo_eval_env demo_trace) 0 [demo_case ''a'', demo_case ''b''] (demo_eval_world empty_store)
       = (Inr [x, y], w') \<and> er_metrics y = Some m \<and> rm_recall m = 0 \<and>
     (\<exists>m'. compute_retrieval_metrics (qt_hits (demo_trace ''b'')) (bc_labels (demo_case ''b'')) 10 = Some m' \<and> rm_recall m' = 1)"
proof -
  let ?env = "demo_eval_env demo_trace"
  have q: "run_case (ee_answer ?env) (demo_case q) = Inr (\<lparr>oa_answer = q, oa_citations = [], oa_status = ''grounded'',
      oa_confidence = None, oa_reason = None\<rparr>, demo_trace q)" if "length q = 1" for q
    using that by (simp add: run_case_def demo_case_def demo_eval_env_def valid_question_def valid_scope_def max_question_chars_def)
  obtain x y w' where e: "evaluate_stored_cases ?env 0 [demo_case ''a'', demo_case ''b''] (demo_eval_world empty_store) = (Inr [x, y], w')"
    "er_metrics y = compute_retrieval_metrics (qt_hits (demo_trace ''a'')) (bc_labels (demo_case ''b'')) 10"
    using metrics_of_previous_case[OF q[of "''a''"] q[of "''b''"], of "\<lparr>rl_chunk_ids = [''a''], rl_document_ids = [], rl_judgments = []\<rparr>"
        "\<lparr>rl_chunk_ids = [''b''], rl_document_ids = [], rl_judgments = []\<rparr>" "demo_eval_world empty_store"]
    by (auto simp: demo_trace_def demo_case_def demo_eval_world_def demo_eval_env_def)
  have m: "compute_retrieval_metrics (qt_hits (demo_trace p)) (bc_labels (demo_case q)) 10 \<noteq> None \<and>
      rm_recall (the (compute_retrieval_metrics (qt_hits (demo_trace p)) (bc_labels (demo_case q)) 10)) = (if p = q then 1 else 0)"
    if "q \<noteq> ''d''" for p q
    using that by (auto simp: compute_retrieval_metrics_def demo_trace_def demo_case_def relevant_identifiers_def rank_hits_def
        hit_relevant_ids_def Let_def)
  show ?thesis using e m[of "''b''" "''a''"] m[of "''b''" "''b''"] by auto
qed

end
