(* ===== verification/KnowledgeGap.thy ===== *)
theory KnowledgeGap
  imports Feedback
begin

text \<open>
  The knowledge gap map, \<open>knowledge_gap.py\<close> and its endpoint: the eligible outcomes, the greedy
  clustering by cosine similarity, coverage, representative questions and recommendations. The
  embedding and the labelling model are arguments; \<open>None\<close> is an exception they raise. An embedding is
  a list of exact reals.
\<close>

section \<open>Eligible outcomes\<close>

record outcome =
  oc_trace_id :: ident
  oc_question :: string
  oc_score :: "pyfloat option"
  oc_low_confidence :: bool
  oc_abstained :: bool
  oc_negative :: bool
  oc_document_ids :: "ident list"

definition outcome_of :: "pyfloat \<Rightarrow> ident set \<Rightarrow> query_trace \<Rightarrow> outcome" where
  "outcome_of threshold negative t =
     \<lparr>oc_trace_id = qt_trace_id t, oc_question = qt_question t, oc_score = qt_score t,
      oc_low_confidence = (case qt_score t of None \<Rightarrow> False | Some s \<Rightarrow> s < threshold),
      oc_abstained = (qt_abstention t \<noteq> None), oc_negative = (qt_trace_id t \<in> negative),
      oc_document_ids = (case qt_document_ids t of Some ids \<Rightarrow> ids | None \<Rightarrow> [])\<rparr>"

definition is_eligible :: "outcome \<Rightarrow> bool" where
  "is_eligible o1 \<longleftrightarrow> oc_low_confidence o1 \<or> oc_abstained o1 \<or> oc_negative o1"

definition select_eligible_outcomes :: "pyfloat \<Rightarrow> query_trace list \<Rightarrow> feedback_record list \<Rightarrow> outcome list" where
  "select_eligible_outcomes threshold traces items =
     (let negative = set (map fb_trace_id (filter (\<lambda>i. is_negative_rating (fb_rating i)) items))
      in filter is_eligible (map (outcome_of threshold negative) traces))"

section \<open>Clustering\<close>

type_synonym embedding = "pyfloat list"

record cluster =
  kc_sum :: embedding
  kc_members :: "outcome list"

definition centroid :: "cluster \<Rightarrow> embedding" where
  "centroid c = (if kc_members c = [] then kc_sum c else map (\<lambda>x. x / of_nat (length (kc_members c))) (kc_sum c))"

text \<open>Adding a longer vector than the sum indexes out of range: \<open>None\<close>.\<close>

definition cluster_add :: "outcome \<Rightarrow> embedding \<Rightarrow> cluster \<Rightarrow> cluster option" where
  "cluster_add o1 e c =
     (if kc_sum c = [] then Some \<lparr>kc_sum = e, kc_members = kc_members c @ [o1]\<rparr>
      else if length (kc_sum c) < length e then None
      else Some \<lparr>kc_sum = map2 (+) (take (length e) (kc_sum c)) e @ drop (length e) (kc_sum c),
                kc_members = kc_members c @ [o1]\<rparr>)"

definition cosine_similarity :: "embedding \<Rightarrow> embedding \<Rightarrow> pyfloat" where
  "cosine_similarity a b =
     (let ps = zip a b;
          dot = sum_list (map (\<lambda>(x, y). x * y) ps);
          na = sum_list (map (\<lambda>(x, y). x * x) ps);
          nb = sum_list (map (\<lambda>(x, y). y * y) ps)
      in if na \<le> 0 \<or> nb \<le> 0 then 0 else dot / (sqrt na * sqrt nb))"

text \<open>The scan for the most similar cluster starts below with the similarity \<open>-1\<close> and keeps the first
  strictly larger one.\<close>

fun best_cluster :: "embedding \<Rightarrow> nat \<Rightarrow> cluster list \<Rightarrow> nat option \<times> pyfloat \<Rightarrow> nat option \<times> pyfloat" where
  "best_cluster e i [] acc = acc"
| "best_cluster e i (c # cs) (best, s) =
     (let q = cosine_similarity e (centroid c)
      in best_cluster e (Suc i) cs (if s < q then (Some i, q) else (best, s)))"

definition similarity_threshold :: pyfloat where "similarity_threshold = 3 / 4"

definition place_outcome :: "int \<Rightarrow> outcome \<times> embedding \<Rightarrow> cluster list \<Rightarrow> cluster list option" where
  "place_outcome max_topics oe cs =
     (let (best, s) = best_cluster (snd oe) 0 cs (None, - 1);
          at_capacity = (max_topics \<le> int (length cs))
      in case best of
           Some i \<Rightarrow>
             if similarity_threshold \<le> s \<or> at_capacity
             then map_option (\<lambda>c. cs[i := c]) (cluster_add (fst oe) (snd oe) (cs ! i))
             else map_option (\<lambda>c. cs @ [c]) (cluster_add (fst oe) (snd oe) \<lparr>kc_sum = [], kc_members = []\<rparr>)
         | None \<Rightarrow> map_option (\<lambda>c. cs @ [c]) (cluster_add (fst oe) (snd oe) \<lparr>kc_sum = [], kc_members = []\<rparr>))"

fun cluster_outcomes :: "int \<Rightarrow> (outcome \<times> embedding) list \<Rightarrow> cluster list \<Rightarrow> cluster list option" where
  "cluster_outcomes max_topics [] cs = Some cs"
| "cluster_outcomes max_topics (oe # oes) cs =
     (case place_outcome max_topics oe cs of None \<Rightarrow> None | Some cs' \<Rightarrow> cluster_outcomes max_topics oes cs')"

section \<open>Coverage\<close>

record coverage_thresholds =
  th_good_confidence :: pyfloat
  th_poor_confidence :: pyfloat
  th_good_negative :: pyfloat
  th_poor_negative :: pyfloat

definition default_thresholds :: coverage_thresholds where
  "default_thresholds = \<lparr>th_good_confidence = 7 / 10, th_poor_confidence = 4 / 10, th_good_negative = 2 / 10,
     th_poor_negative = 5 / 10\<rparr>"

definition average_confidence :: "outcome list \<Rightarrow> pyfloat" where
  "average_confidence ms =
     (if ms = [] then 0
      else sum_list (map (\<lambda>m. case oc_score m of Some s \<Rightarrow> s | None \<Rightarrow> 0) ms) / of_nat (length ms))"

definition negative_ratio :: "outcome list \<Rightarrow> pyfloat" where
  "negative_ratio ms = (if ms = [] then 0 else of_nat (length (filter oc_negative ms)) / of_nat (length ms))"

datatype coverage = Poor | Fair | Good

definition coverage_quality :: "coverage_thresholds \<Rightarrow> outcome list \<Rightarrow> coverage" where
  "coverage_quality th ms =
     (let a = average_confidence ms; n = negative_ratio ms
      in if a < th_poor_confidence th \<or> th_poor_negative th \<le> n then Poor
         else if th_good_confidence th \<le> a \<and> n \<le> th_good_negative th then Good else Fair)"

definition representative_limit :: nat where "representative_limit = 5"

fun representatives :: "string list \<Rightarrow> outcome list \<Rightarrow> string list" where
  "representatives acc [] = acc"
| "representatives acc (m # ms) =
     (if py_strip (oc_question m) = [] \<or> oc_question m \<in> set acc then representatives acc ms
      else if representative_limit \<le> length (acc @ [oc_question m]) then acc @ [oc_question m]
      else representatives (acc @ [oc_question m]) ms)"

section \<open>Recommendations\<close>

record topic =
  tp_label :: string
  tp_coverage :: coverage
  tp_members :: "outcome list"

record recommendations =
  rc_missing :: "string list"
  rc_documents :: "ident list"
  rc_cases :: "string list"
  rc_frequent :: "string list"

text \<open>Appending what has not been seen yet.\<close>

fun add_new :: "'a list \<Rightarrow> 'a list \<Rightarrow> 'a list" where
  "add_new acc [] = acc"
| "add_new acc (x # xs) = (if x \<in> set acc then add_new acc xs else add_new (acc @ [x]) xs)"

definition build_recommendations :: "topic list \<Rightarrow> recommendations" where
  "build_recommendations ts =
     (let poor = filter (\<lambda>t. tp_coverage t = Poor) ts;
          under = map tp_label poor @ map tp_label (filter (\<lambda>t. tp_coverage t = Fair) ts);
          asked = add_new [] (filter (\<lambda>q. py_strip q \<noteq> [])
                    (map oc_question (filter oc_negative (concat (map tp_members ts)))))
      in \<lparr>rc_missing = (if under = [] then map tp_label ts else under),
          rc_documents = add_new [] (concat (map (\<lambda>t. concat (map oc_document_ids (tp_members t))) poor)),
          rc_cases = (if asked \<noteq> [] then asked
                      else add_new [] (filter (\<lambda>q. py_strip q \<noteq> []) (concat (map (\<lambda>t. representatives [] (tp_members t)) poor)))),
          rc_frequent = map tp_label (py_sorted (\<lambda>t. length (tp_members t)) True ts)\<rparr>)"

section \<open>The map\<close>

record gap_map =
  gm_topics :: "(string \<times> coverage \<times> nat) list"
  gm_recommendations :: recommendations
  gm_eligible :: nat
  gm_minimum :: int

definition no_recommendations :: recommendations where
  "no_recommendations = \<lparr>rc_missing = [], rc_documents = [], rc_cases = [], rc_frequent = []\<rparr>"

fun embed_all :: "(string \<Rightarrow> embedding option) \<Rightarrow> outcome list \<Rightarrow> (outcome \<times> embedding) list option" where
  "embed_all emb [] = Some []"
| "embed_all emb (o1 # os) =
     (case emb (oc_question o1) of
        None \<Rightarrow> None
      | Some e \<Rightarrow> map_option ((#) (o1, e)) (embed_all emb os))"

fun label_topics :: "(string list \<Rightarrow> string option) \<Rightarrow> coverage_thresholds \<Rightarrow> cluster list \<Rightarrow> topic list option" where
  "label_topics label th [] = Some []"
| "label_topics label th (c # cs) =
     (if kc_members c = [] then label_topics label th cs
      else case label (representatives [] (kc_members c)) of
             None \<Rightarrow> None
           | Some l \<Rightarrow>
               if py_strip l = [] then None
               else map_option ((#) \<lparr>tp_label = py_strip l, tp_coverage = coverage_quality th (kc_members c),
                                    tp_members = kc_members c\<rparr>) (label_topics label th cs))"

text \<open>\<open>None\<close> is \<open>KnowledgeGapGenerationError\<close>.\<close>

definition generate_knowledge_gap_map :: "(string \<Rightarrow> embedding option) \<Rightarrow> (string list \<Rightarrow> string option) \<Rightarrow> int \<Rightarrow> int
    \<Rightarrow> coverage_thresholds \<Rightarrow> outcome list \<Rightarrow> gap_map option" where
  "generate_knowledge_gap_map emb label max_topics minimum th outcomes =
     (if int (length outcomes) < minimum
      then Some \<lparr>gm_topics = [], gm_recommendations = no_recommendations, gm_eligible = length outcomes, gm_minimum = minimum\<rparr>
      else if max_topics < 1 then None
      else case embed_all emb outcomes of
             None \<Rightarrow> None
           | Some oes \<Rightarrow>
               (case cluster_outcomes max_topics oes [] of
                  None \<Rightarrow> None
                | Some cs \<Rightarrow>
                    (case label_topics label th cs of
                       None \<Rightarrow> None
                     | Some ts \<Rightarrow>
                         Some \<lparr>gm_topics = map (\<lambda>t. (tp_label t, tp_coverage t, length (tp_members t))) ts,
                               gm_recommendations = build_recommendations ts,
                               gm_eligible = length outcomes, gm_minimum = minimum\<rparr>)))"

text \<open>The endpoint calls the text model as a function; the client class has \<open>generate\<close> and no
  \<open>__call__\<close>, so the call raises.\<close>

definition endpoint_label :: "string list \<Rightarrow> string option" where
  "endpoint_label questions = None"

definition gap_endpoint :: "(string \<Rightarrow> embedding option) \<Rightarrow> int \<Rightarrow> int \<Rightarrow> pyfloat \<Rightarrow> query_trace obj_store
    \<Rightarrow> feedback_record obj_store \<Rightarrow> nat + gap_map" where
  "gap_endpoint emb max_topics minimum threshold traces items =
     (let ts = List.map_filter (\<lambda>k. key_cell k traces) (list_query_trace_keys traces);
          fs = List.map_filter (\<lambda>k. key_cell k items) (list_feedback_record_keys items)
      in case generate_knowledge_gap_map emb endpoint_label max_topics minimum default_thresholds
                (select_eligible_outcomes threshold ts fs) of
           None \<Rightarrow> Inl 500 | Some m \<Rightarrow> Inr m)"

section \<open>Lemmas\<close>

definition member_total :: "cluster list \<Rightarrow> outcome multiset" where
  "member_total cs = sum_list (map (\<lambda>c. mset (kc_members c)) cs)"

lemma cluster_add_members: "cluster_add o1 e c = Some c' \<Longrightarrow> kc_members c' = kc_members c @ [o1]"
  by (auto simp: cluster_add_def split: if_splits)

lemma best_cluster_index:
  "best_cluster e i cs acc = (Some k, s) \<Longrightarrow> (case acc of (Some j, _) \<Rightarrow> j < i | _ \<Rightarrow> True) \<Longrightarrow> k < i + length cs"
proof (induction e i cs acc rule: best_cluster.induct)
  case (2 e i c cs best q)
  from 2(1)[OF refl] 2(2,3) show ?case by (fastforce simp: Let_def split: if_splits option.splits)
qed auto

lemma member_total_update:
  "i < length cs \<Longrightarrow> kc_members c = kc_members (cs ! i) @ [o1] \<Longrightarrow>
   member_total (cs[i := c]) = add_mset o1 (member_total cs)"
proof (induction cs arbitrary: i)
  case (Cons d ds)
  then show ?case by (cases i) (auto simp: member_total_def)
qed simp

lemma place_outcome_cases:
  assumes "place_outcome n oe cs = Some cs'"
  shows "member_total cs' = add_mset (fst oe) (member_total cs)"
    "length cs' = length cs \<or> (length cs' = Suc (length cs) \<and>
       (int (length cs) < n \<or> fst (best_cluster (snd oe) 0 cs (None, - 1)) = None))"
    "list_all (\<lambda>c. kc_members c \<noteq> []) cs \<Longrightarrow> list_all (\<lambda>c. kc_members c \<noteq> []) cs'"
proof -
  obtain best s where b: "best_cluster (snd oe) 0 cs (None, - 1) = (best, s)"
    by (cases "best_cluster (snd oe) 0 cs (None, - 1)")
  have fresh: "cluster_add (fst oe) (snd oe) \<lparr>kc_sum = [], kc_members = []\<rparr> = Some \<lparr>kc_sum = snd oe, kc_members = [fst oe]\<rparr>"
    by (simp add: cluster_add_def)
  consider (new) "cs' = cs @ [\<lparr>kc_sum = snd oe, kc_members = [fst oe]\<rparr>]" "int (length cs) < n \<or> best = None"
    | (old) i c where "best = Some i" "cs' = cs[i := c]" "cluster_add (fst oe) (snd oe) (cs ! i) = Some c"
    using assms b unfolding place_outcome_def fresh by (auto split: option.splits if_splits)
  then have r: "member_total cs' = add_mset (fst oe) (member_total cs) \<and>
    (length cs' = length cs \<or> (length cs' = Suc (length cs) \<and>
       (int (length cs) < n \<or> fst (best_cluster (snd oe) 0 cs (None, - 1)) = None))) \<and>
    (list_all (\<lambda>c. kc_members c \<noteq> []) cs \<longrightarrow> list_all (\<lambda>c. kc_members c \<noteq> []) cs')"
  proof cases
    case new
    then show ?thesis using b by (simp add: member_total_def)
  next
    case old
    have i: "i < length cs" using best_cluster_index[of "snd oe" 0 cs] b old(1) by fastforce
    have "list_all (\<lambda>c. kc_members c \<noteq> []) cs \<longrightarrow> list_all (\<lambda>c. kc_members c \<noteq> []) (cs[i := c])"
      using cluster_add_members[OF old(3)] set_update_subset_insert[of cs i c] by (auto simp: list_all_iff)
    then show ?thesis using old i cluster_add_members[OF old(3)] member_total_update[OF i] by simp
  qed
  show "member_total cs' = add_mset (fst oe) (member_total cs)" using r by (rule conjunct1)
  show "length cs' = length cs \<or> (length cs' = Suc (length cs) \<and>
       (int (length cs) < n \<or> fst (best_cluster (snd oe) 0 cs (None, - 1)) = None))"
    using r[THEN conjunct2] by (rule conjunct1)
  show "list_all (\<lambda>c. kc_members c \<noteq> []) cs'" if "list_all (\<lambda>c. kc_members c \<noteq> []) cs"
    using r[THEN conjunct2, THEN conjunct2] that by (rule mp)
qed

lemma cluster_outcomes_partition:
  "cluster_outcomes n oes cs = Some cs' \<Longrightarrow>
   member_total cs' = mset (map fst oes) + member_total cs \<and>
   (list_all (\<lambda>c. kc_members c \<noteq> []) cs \<longrightarrow> list_all (\<lambda>c. kc_members c \<noteq> []) cs')"
proof (induction n oes cs rule: cluster_outcomes.induct)
  case (2 n oe oes cs)
  then obtain cs1 where c: "place_outcome n oe cs = Some cs1" "cluster_outcomes n oes cs1 = Some cs'"
    by (auto split: option.splits)
  show ?case using 2(1)[OF c] place_outcome_cases(1,3)[OF c(1)] by auto
qed simp

lemma embed_all_fst: "embed_all emb os = Some oes \<Longrightarrow> map fst oes = os"
  by (induction os arbitrary: oes) (auto split: option.splits)

lemma label_topics_members:
  "label_topics label th cs = Some ts \<Longrightarrow> list_all (\<lambda>c. kc_members c \<noteq> []) cs \<Longrightarrow>
   map tp_members ts = map kc_members cs \<and> list_all (\<lambda>t. tp_label t \<noteq> []) ts"
  by (induction cs arbitrary: ts) (auto split: option.splits if_splits)

lemma label_topics_none: "label_topics endpoint_label th cs = Some ts \<Longrightarrow> ts = []"
  by (induction cs arbitrary: ts) (auto simp: endpoint_label_def split: option.splits if_splits)

section \<open>Similarity\<close>

definition dot :: "embedding \<Rightarrow> embedding \<Rightarrow> pyfloat" where
  "dot a b = sum_list (map2 (*) a b)"

lemma cosine_similarity_dot:
  assumes "length a = length b"
  shows "cosine_similarity a b =
    (if dot a a \<le> 0 \<or> dot b b \<le> 0 then 0 else dot a b / (sqrt (dot a a) * sqrt (dot b b)))"
proof -
  have "map (\<lambda>(x, y). x * x) (zip a b) = map2 (*) a a" "map (\<lambda>(x, y). y * y) (zip a b) = map2 (*) b b"
    using assms by (induction a b rule: list_induct2) auto
  then show ?thesis by (simp add: cosine_similarity_def dot_def Let_def)
qed

lemma dot_self_nonneg: "0 \<le> dot a a"
  by (induction a) (auto simp: dot_def)

lemma dot_add: "length a = length b \<Longrightarrow> length b = length c \<Longrightarrow> dot a (map2 (+) b c) = dot a b + dot a c"
  by (induction a b c rule: list_induct3) (auto simp: dot_def algebra_simps)

lemma dot_scale: "dot a (map (\<lambda>x. x / k) b) = dot a b / k"
proof (induction a arbitrary: b)
  case (Cons x a)
  then show ?case by (cases b) (auto simp: dot_def add_divide_distrib)
qed (simp add: dot_def)

lemma dot_neg: "dot a (map uminus b) = - dot a b"
proof (induction a arbitrary: b)
  case (Cons x a)
  then show ?case by (cases b) (auto simp: dot_def)
qed (simp add: dot_def)

lemma dot_neg_left: "dot (map uminus a) b = - dot a b"
proof (induction a arbitrary: b)
  case (Cons x a)
  then show ?case by (cases b) (auto simp: dot_def)
qed (simp add: dot_def)

lemma best_cluster_found:
  "cs \<noteq> [] \<Longrightarrow> list_all (\<lambda>c. - 1 < cosine_similarity e (centroid c)) cs \<Longrightarrow>
   fst (best_cluster e i cs (None, - 1)) \<noteq> None"
proof -
  have keep: "fst (best_cluster e j ds (Some k, s)) \<noteq> None" for j ds k s
    by (induction ds arbitrary: j k s) (auto simp: Let_def)
  show "cs \<noteq> [] \<Longrightarrow> list_all (\<lambda>c. - 1 < cosine_similarity e (centroid c)) cs \<Longrightarrow> ?thesis"
    using keep by (cases cs) (auto simp: Let_def)
qed

text \<open>The clusters of a batch whose embeddings form no obtuse angle.\<close>

definition acute :: "nat \<Rightarrow> embedding set \<Rightarrow> cluster list \<Rightarrow> bool" where
  "acute d es cs \<longleftrightarrow> list_all (\<lambda>c. length (kc_sum c) = d \<and> (\<forall>e \<in> es. 0 \<le> dot e (kc_sum c))) cs"

lemma acute_similarity:
  assumes "acute d es cs" "e \<in> es" "length e = d" "c \<in> set cs"
  shows "0 \<le> cosine_similarity e (centroid c)"
proof -
  have c: "length (kc_sum c) = d" "0 \<le> dot e (kc_sum c)" using assms by (auto simp: acute_def list_all_iff)
  then have l: "length (centroid c) = length e" using assms(3) by (simp add: centroid_def)
  have "0 \<le> dot e (centroid c)" using c(2) by (simp add: centroid_def dot_scale)
  then show ?thesis by (simp add: cosine_similarity_dot[OF l[symmetric]])
qed

lemma place_acute:
  assumes "place_outcome n oe cs = Some cs'" "acute d es cs" "snd oe \<in> es" "1 \<le> d"
    "\<forall>e \<in> es. length e = d \<and> (\<forall>f \<in> es. 0 \<le> dot e f)"
  shows "acute d es cs'"
proof -
  obtain best s where b: "best_cluster (snd oe) 0 cs (None, - 1) = (best, s)"
    by (cases "best_cluster (snd oe) 0 cs (None, - 1)")
  have le: "length (snd oe) = d" "\<forall>e \<in> es. 0 \<le> dot e (snd oe)" using assms(3,5) by auto
  have fresh: "cluster_add (fst oe) (snd oe) \<lparr>kc_sum = [], kc_members = []\<rparr> = Some \<lparr>kc_sum = snd oe, kc_members = [fst oe]\<rparr>"
    by (simp add: cluster_add_def)
  consider (new) "cs' = cs @ [\<lparr>kc_sum = snd oe, kc_members = [fst oe]\<rparr>]"
    | (old) i c where "best = Some i" "cs' = cs[i := c]" "cluster_add (fst oe) (snd oe) (cs ! i) = Some c"
    using assms(1) b unfolding place_outcome_def fresh by (auto split: option.splits if_splits)
  then show ?thesis
  proof cases
    case new
    then show ?thesis using assms(2) le by (simp add: acute_def)
  next
    case old
    have i: "i < length cs" using best_cluster_index[of "snd oe" 0 cs] b old(1) by fastforce
    then have o1: "length (kc_sum (cs ! i)) = d" "\<forall>e \<in> es. 0 \<le> dot e (kc_sum (cs ! i))"
      using assms(2) by (auto simp: acute_def list_all_length)
    have "kc_sum (cs ! i) \<noteq> []" using o1(1) assms(4) by auto
    then have "kc_sum c = map2 (+) (kc_sum (cs ! i)) (snd oe)"
      using old(3) o1(1) le(1) by (auto simp: cluster_add_def split: if_splits)
    then have "length (kc_sum c) = d" "\<forall>e \<in> es. 0 \<le> dot e (kc_sum c)"
      using o1 le assms(5) by (auto simp: dot_add)
    then show ?thesis using assms(2) old(2) set_update_subset_insert[of cs i c] by (auto simp: acute_def list_all_iff)
  qed
qed

lemma cluster_outcomes_bound:
  "cluster_outcomes n oes cs = Some cs' \<Longrightarrow> acute d es cs \<Longrightarrow> snd ` set oes \<subseteq> es \<Longrightarrow> 1 \<le> d \<Longrightarrow> 1 \<le> n \<Longrightarrow>
   \<forall>e \<in> es. length e = d \<and> (\<forall>f \<in> es. 0 \<le> dot e f) \<Longrightarrow> int (length cs) \<le> n \<Longrightarrow> int (length cs') \<le> n"
proof (induction n oes cs rule: cluster_outcomes.induct)
  case (2 n oe oes cs)
  then obtain cs1 where c: "place_outcome n oe cs = Some cs1" "cluster_outcomes n oes cs1 = Some cs'"
    by (auto split: option.splits)
  have oe: "snd oe \<in> es" "length (snd oe) = d" using 2(4,7) by auto
  have "int (length cs1) \<le> n"
  proof (cases "int (length cs) < n")
    case True
    then show ?thesis using place_outcome_cases(2)[OF c(1)] by auto
  next
    case False
    then have "cs \<noteq> []" using 2(6) by auto
    moreover have "list_all (\<lambda>k. - 1 < cosine_similarity (snd oe) (centroid k)) cs"
      using acute_similarity[OF 2(3) oe] by (fastforce simp: list_all_iff)
    ultimately have "fst (best_cluster (snd oe) 0 cs (None, - 1)) \<noteq> None" by (rule best_cluster_found)
    then show ?thesis using place_outcome_cases(2)[OF c(1)] False 2(8) by auto
  qed
  then show ?case using 2(1)[OF c] place_acute[OF c(1) 2(3) oe(1) 2(5) 2(7)] 2(4-7) by simp
qed simp

section \<open>Properties\<close>

text \<open>Every eligible outcome is counted in exactly one topic and no topic is empty or unlabelled: when
  the map is generated its topic counts add up to the number of eligible outcomes, and when the
  embeddings have one dimension and form no obtuse angle there are at most as many topics as
  configured.\<close>

theorem gap_topics_partition:
  assumes "generate_knowledge_gap_map emb label max_topics minimum th os = Some m" "minimum \<le> int (length os)"
  shows "sum_list (map (\<lambda>(l, c, n). n) (gm_topics m)) = length os \<and>
     list_all (\<lambda>(l, c, n). l \<noteq> [] \<and> 0 < n) (gm_topics m) \<and>
     (\<forall>es d. embed_all emb os = Some es \<and> 1 \<le> d \<and>
        (\<forall>e \<in> snd ` set es. length e = d \<and> (\<forall>f \<in> snd ` set es. 0 \<le> dot e f)) \<longrightarrow> int (length (gm_topics m)) \<le> max_topics)"
proof -
  obtain oes cs ts where g: "\<not> max_topics < 1" "embed_all emb os = Some oes" "cluster_outcomes max_topics oes [] = Some cs"
    "label_topics label th cs = Some ts" "gm_topics m = map (\<lambda>t. (tp_label t, tp_coverage t, length (tp_members t))) ts"
    using assms unfolding generate_knowledge_gap_map_def by (auto split: option.splits if_splits)
  note p = cluster_outcomes_partition[OF g(3)]
  have ne: "list_all (\<lambda>c. kc_members c \<noteq> []) cs" using p by simp
  note l = label_topics_members[OF g(4) ne]
  have "size (member_total cs) = length os" using p embed_all_fst[OF g(2)] by (simp add: member_total_def)
  moreover have "size (member_total cs) = sum_list (map (length \<circ> kc_members) cs)"
    unfolding member_total_def by (induction cs) auto
  moreover have "map (length \<circ> kc_members) cs = map (\<lambda>t. length (tp_members t)) ts"
    using arg_cong[OF l[THEN conjunct1], of "map length"] by (simp add: comp_def)
  ultimately have "sum_list (map (\<lambda>(l, c, n). n) (gm_topics m)) = length os"
    by (simp add: g(5) comp_def)
  moreover have "list_all (\<lambda>t. tp_members t \<noteq> []) ts"
  proof -
    have "[] \<notin> set (map tp_members ts)" using l ne by (auto simp: list_all_iff)
    then show ?thesis by (auto simp: list_all_iff image_iff)
  qed
  then have "list_all (\<lambda>(l, c, n). l \<noteq> [] \<and> 0 < n) (gm_topics m)" using l by (auto simp: g(5) list_all_iff)
  moreover have "length (gm_topics m) = length cs" using arg_cong[OF l[THEN conjunct1], of length] by (simp add: g(5))
  moreover have "int (length cs) \<le> max_topics"
    if "1 \<le> d" "\<forall>e \<in> snd ` set oes. length e = d \<and> (\<forall>f \<in> snd ` set oes. 0 \<le> dot e f)" for d
    by (rule cluster_outcomes_bound[OF g(3) _ subset_refl that(1) _ that(2)]) (use g(1) in \<open>auto simp: acute_def\<close>)
  ultimately show ?thesis using g(2) by auto
qed

definition demo_outcome :: "string \<Rightarrow> outcome" where
  "demo_outcome q = \<lparr>oc_trace_id = q, oc_question = q, oc_score = None, oc_low_confidence = False, oc_abstained = True,
     oc_negative = False, oc_document_ids = []\<rparr>"

definition demo_embed :: "string \<Rightarrow> embedding option" where
  "demo_embed q = Some (if q = ''a'' then [1] else [- 1])"

text \<open>The bound on the number of topics fails for opposite questions: two outcomes whose embeddings
  point in exactly opposite directions become two topics although one is the maximum, because the
  scan only accepts a similarity larger than \<open>-1\<close>.\<close>

theorem opposite_questions_exceed_bound:
  assumes "emb (oc_question a) = Some e" "emb (oc_question b) = Some (map uminus e)" "0 < dot e e"
    "label (representatives [] [a]) = Some l1" "py_strip l1 \<noteq> []" "label (representatives [] [b]) = Some l2" "py_strip l2 \<noteq> []"
  shows "\<exists>m. generate_knowledge_gap_map emb label 1 1 th [a, b] = Some m \<and> length (gm_topics m) = 2"
proof -
  have ne: "e \<noteq> []" using assms(3) by (auto simp: dot_def)
  have c: "centroid \<lparr>kc_sum = e, kc_members = [a]\<rparr> = e" by (simp add: centroid_def)
  have s: "cosine_similarity (map uminus e) e = - 1"
    using assms(3) by (simp add: cosine_similarity_dot dot_neg dot_neg_left real_sqrt_mult_self)
  have p1: "place_outcome 1 (a, e) [] = Some [\<lparr>kc_sum = e, kc_members = [a]\<rparr>]"
    by (simp add: place_outcome_def cluster_add_def)
  have p2: "place_outcome 1 (b, map uminus e) [\<lparr>kc_sum = e, kc_members = [a]\<rparr>] =
      Some [\<lparr>kc_sum = e, kc_members = [a]\<rparr>, \<lparr>kc_sum = map uminus e, kc_members = [b]\<rparr>]"
    by (simp add: place_outcome_def cluster_add_def c s)
  show ?thesis using assms p1 p2 by (simp add: generate_knowledge_gap_map_def)
qed

text \<open>The endpoint never produces a topic: its labeller calls an object that is not callable, so as soon
  as there are enough outcomes for a topic the request fails, and below that there is none.\<close>

theorem gap_endpoint_never_generates:
  assumes "outcomes = select_eligible_outcomes threshold (List.map_filter (\<lambda>k. key_cell k traces) (list_query_trace_keys traces))
     (List.map_filter (\<lambda>k. key_cell k items) (list_feedback_record_keys items))"
  shows "(outcomes \<noteq> [] \<and> minimum \<le> int (length outcomes) \<longrightarrow> gap_endpoint emb max_topics minimum threshold traces items = Inl 500) \<and>
     (\<forall>m. gap_endpoint emb max_topics minimum threshold traces items = Inr m \<longrightarrow> gm_topics m = [])"
proof -
  have g: "gm_topics m = [] \<and> (minimum \<le> int (length outcomes) \<longrightarrow> outcomes = [])"
    if m: "generate_knowledge_gap_map emb endpoint_label max_topics minimum default_thresholds outcomes = Some m" for m
  proof (cases "int (length outcomes) < minimum")
    case False
    then obtain oes cs ts where g: "embed_all emb outcomes = Some oes" "cluster_outcomes max_topics oes [] = Some cs"
      "label_topics endpoint_label default_thresholds cs = Some ts"
      "gm_topics m = map (\<lambda>t. (tp_label t, tp_coverage t, length (tp_members t))) ts"
      using m unfolding generate_knowledge_gap_map_def by (auto split: option.splits if_splits)
    have ts: "ts = []" by (rule label_topics_none[OF g(3)])
    note p = cluster_outcomes_partition[OF g(2)]
    have "cs = []" using label_topics_members[OF g(3)] p ts by simp
    then have "outcomes = []" using p embed_all_fst[OF g(1)] by (auto simp: member_total_def)
    then show ?thesis using ts g(4) by simp
  qed (use m in \<open>auto simp: generate_knowledge_gap_map_def\<close>)
  show ?thesis using g unfolding gap_endpoint_def Let_def assms[symmetric]
    by (auto split: option.splits)
qed

theorem gap_topics_partition_witness:
  "\<exists>m. generate_knowledge_gap_map demo_embed (\<lambda>_. Some ''topic'') 2 1 default_thresholds [demo_outcome ''a'', demo_outcome ''a''] = Some m \<and>
     sum_list (map (\<lambda>(l, c, n). n) (gm_topics m)) = 2"
proof -
  have strip: "py_strip ''topic'' = ''topic''" by code_simp
  obtain m where m: "generate_knowledge_gap_map demo_embed (\<lambda>_. Some ''topic'') 2 1 default_thresholds [demo_outcome ''a'', demo_outcome ''a''] = Some m"
    by (simp add: generate_knowledge_gap_map_def demo_outcome_def demo_embed_def place_outcome_def cluster_add_def centroid_def
        cosine_similarity_def similarity_threshold_def Let_def strip)
  show ?thesis using gap_topics_partition[OF m] m by auto
qed

theorem opposite_questions_exceed_bound_witness:
  "\<exists>m. generate_knowledge_gap_map demo_embed (\<lambda>_. Some ''topic'') 1 1 default_thresholds [demo_outcome ''a'', demo_outcome ''b''] = Some m \<and>
     length (gm_topics m) = 2"
proof -
  have strip: "py_strip ''topic'' \<noteq> []" by code_simp
  show ?thesis
    by (rule opposite_questions_exceed_bound[where e = "[1]", OF _ _ _ refl strip refl strip])
      (simp_all add: demo_outcome_def demo_embed_def dot_def)
qed

definition demo_gap_trace :: query_trace where
  "demo_gap_trace = \<lparr>qt_trace_id = ''t'', qt_question = ''a'', qt_route = ''rag'', qt_document_ids = None, qt_answer = [],
     qt_evidence_status = [], qt_confidence = None, qt_score = Some 0, qt_reason = None, qt_citations = [], qt_hits = [],
     qt_sql = None, qt_claims = [], qt_abstention = None\<rparr>"

theorem gap_endpoint_never_generates_witness:
  "gap_endpoint demo_embed 5 1 (1 / 2) (put_json empty_store (query_trace_key ''t'') demo_gap_trace) empty_store = Inl 500"
proof -
  let ?s = "put_json empty_store (query_trace_key ''t'') demo_gap_trace"
  have "list_query_trace_keys ?s = [query_trace_key ''t'']"
    by (simp add: list_query_trace_keys_def list_keys_def put_json_def empty_store_def py_startswith_iff py_endswith_iff)
      (simp add: query_trace_key_def prefix_def suffix_def)
  moreover have "key_cell (query_trace_key ''t'') ?s = Some demo_gap_trace" by (simp add: key_cell_def put_json_def)
  moreover have "list_feedback_record_keys (empty_store :: feedback_record obj_store) = []"
    by (simp add: list_feedback_record_keys_def list_keys_def empty_store_def)
  ultimately have o1: "select_eligible_outcomes (1 / 2) (List.map_filter (\<lambda>k. key_cell k ?s) (list_query_trace_keys ?s))
      (List.map_filter (\<lambda>k. key_cell k empty_store) (list_feedback_record_keys empty_store)) \<noteq> []"
    by (simp add: map_filter_simps select_eligible_outcomes_def outcome_of_def is_eligible_def demo_gap_trace_def)
  then have "1 \<le> int (length (select_eligible_outcomes (1 / 2) (List.map_filter (\<lambda>k. key_cell k ?s) (list_query_trace_keys ?s))
      (List.map_filter (\<lambda>k. key_cell k empty_store) (list_feedback_record_keys empty_store))))"
    by (simp add: Suc_le_eq flip: of_nat_Suc)
  with o1 show ?thesis using gap_endpoint_never_generates[OF refl, of "1 / 2" ?s empty_store 1 demo_embed 5] by blast
qed

end
