(* ===== verification/AiConfig.thy ===== *)
theory AiConfig
  imports Paging QueryTraces
begin

text \<open>
  Versioned AI configurations, \<open>ai_config.py\<close>: create-only versions, the per-configuration index with the
  append-only history, the active pointer and the activation log, approval, rollback, and the
  resolver that bootstraps a default. Updates of the index and of a version are compare-and-set
  loops under the interference given as an argument; fresh identifiers and instants are arguments.
\<close>

section \<open>Data\<close>

record ai_version =
  av_config :: ident
  av_id :: ident
  av_prompt :: string
  av_model :: string
  av_schema :: string
  av_threshold :: pyfloat
  av_retrieval :: "(string \<times> string) list"
  av_description :: string
  av_created_at :: string
  av_approved :: bool
  av_approver :: "string option"
  av_approved_at :: "string option"

record activation_event =
  ae_operator :: string
  ae_previous :: "ident option"
  ae_selected :: ident
  ae_timestamp :: string
  ae_reason :: string

record ai_index =
  ix_config :: ident
  ix_active :: "ident option"
  ix_versions :: "ident list"
  ix_events :: "activation_event list"

datatype ai_error = ChangeDescriptionRequired | ConfigurationVersionNotFound | ConfigConflict

record ai_store =
  as_versions :: "ai_version obj_store"
  as_indexes :: "ai_index obj_store"

definition ai_config_version_key :: "ident \<Rightarrow> ident \<Rightarrow> string" where
  "ai_config_version_key c v = ''ai_config/'' @ c @ ''/versions/'' @ v @ ''.json''"

definition ai_config_index_key :: "ident \<Rightarrow> string" where
  "ai_config_index_key c = ''ai_config/'' @ c @ ''/index.json''"

section \<open>Reads\<close>

definition validate_change_description :: "string option \<Rightarrow> ai_error + string" where
  "validate_change_description d =
     (case d of
        None \<Rightarrow> Inl ChangeDescriptionRequired
      | Some s \<Rightarrow> if 1 \<le> length s \<and> length s \<le> 500 then Inr s else Inl ChangeDescriptionRequired)"

definition as_index :: "ident \<Rightarrow> ai_index option \<Rightarrow> ai_index" where
  "as_index c cur =
     (case cur of Some ix \<Rightarrow> ix | None \<Rightarrow> \<lparr>ix_config = c, ix_active = None, ix_versions = [], ix_events = []\<rparr>)"

definition get_index :: "ident \<Rightarrow> ai_store \<Rightarrow> ai_index" where
  "get_index c s = as_index c (key_cell (ai_config_index_key c) (as_indexes s))"

definition get_version :: "ident \<Rightarrow> ident \<Rightarrow> ai_store \<Rightarrow> ai_version option" where
  "get_version c v s = key_cell (ai_config_version_key c v) (as_versions s)"

definition get_history :: "ident \<Rightarrow> ai_store \<Rightarrow> ai_version list" where
  "get_history c s =
     map snd (py_sorted (\<lambda>(i, v). (av_created_at v, i)) True
       (List.map_filter (\<lambda>(i, v). map_option (Pair i) (get_version c v s)) (enumerate 0 (ix_versions (get_index c s)))))"

section \<open>Writes\<close>

type_synonym index_noise = "ai_index foreign_write list list"

definition cas_index :: "index_noise \<Rightarrow> ident \<Rightarrow> (ai_index option \<Rightarrow> ai_error + ai_index) \<Rightarrow> ai_store
    \<Rightarrow> (ai_error + ai_index) \<times> ai_store" where
  "cas_index noise c f s =
     (case update_json_cas 8 (ai_config_index_key c) f noise (as_indexes s) of
        (Inl CasConflict, t) \<Rightarrow> (Inl ConfigConflict, s\<lparr>as_indexes := t\<rparr>)
      | (Inl (CasAborted e), t) \<Rightarrow> (Inl e, s\<lparr>as_indexes := t\<rparr>)
      | (Inr ix, t) \<Rightarrow> (Inr ix, s\<lparr>as_indexes := t\<rparr>))"

definition append_version :: "ident \<Rightarrow> ident \<Rightarrow> ai_index option \<Rightarrow> ai_error + ai_index" where
  "append_version c v cur =
     (let ix = as_index c cur
      in Inr (if v \<in> set (ix_versions ix) then ix else ix\<lparr>ix_versions := ix_versions ix @ [v]\<rparr>))"

record version_request =
  vr_prompt :: string
  vr_model :: string
  vr_schema :: string
  vr_threshold :: pyfloat
  vr_retrieval :: "(string \<times> string) list"
  vr_description :: "string option"

definition create_version :: "index_noise \<Rightarrow> ident \<Rightarrow> string \<Rightarrow> ident \<Rightarrow> version_request \<Rightarrow> ai_store
    \<Rightarrow> (ai_error + ai_version) \<times> ai_store" where
  "create_version noise fresh now c r s =
     (case validate_change_description (vr_description r) of
        Inl e \<Rightarrow> (Inl e, s)
      | Inr d \<Rightarrow>
          (let v = \<lparr>av_config = c, av_id = fresh, av_prompt = vr_prompt r, av_model = vr_model r, av_schema = vr_schema r,
                    av_threshold = vr_threshold r, av_retrieval = vr_retrieval r, av_description = d, av_created_at = now,
                    av_approved = False, av_approver = None, av_approved_at = None\<rparr>
           in case create_json (as_versions s) (ai_config_version_key c fresh) v of
                None \<Rightarrow> (Inl ConfigConflict, s)
              | Some t \<Rightarrow>
                  (case cas_index noise c (append_version c fresh) (s\<lparr>as_versions := t\<rparr>) of
                     (Inl e, s') \<Rightarrow> (Inl e, s') | (Inr _, s') \<Rightarrow> (Inr v, s'))))"

definition approve_mutation :: "string \<Rightarrow> string \<Rightarrow> ai_version option \<Rightarrow> ai_error + ai_version" where
  "approve_mutation approver now cur =
     (case cur of
        None \<Rightarrow> Inl ConfigurationVersionNotFound
      | Some v \<Rightarrow> Inr (v\<lparr>av_approved := True, av_approver := Some approver, av_approved_at := Some now\<rparr>))"

definition approve_version :: "ai_version foreign_write list list \<Rightarrow> string \<Rightarrow> string \<Rightarrow> ident \<Rightarrow> ident \<Rightarrow> ai_store
    \<Rightarrow> (ai_error + ai_version) \<times> ai_store" where
  "approve_version noise now approver c v s =
     (case get_version c v s of
        None \<Rightarrow> (Inl ConfigurationVersionNotFound, s)
      | Some _ \<Rightarrow>
          (case update_json_cas 8 (ai_config_version_key c v) (approve_mutation approver now) noise (as_versions s) of
             (Inl CasConflict, t) \<Rightarrow> (Inl ConfigConflict, s\<lparr>as_versions := t\<rparr>)
           | (Inl (CasAborted e), t) \<Rightarrow> (Inl e, s\<lparr>as_versions := t\<rparr>)
           | (Inr x, t) \<Rightarrow> (Inr x, s\<lparr>as_versions := t\<rparr>)))"

definition activation :: "string \<Rightarrow> string \<Rightarrow> string \<Rightarrow> ident \<Rightarrow> ident \<Rightarrow> ai_index option \<Rightarrow> ai_error + ai_index" where
  "activation now operator reason c v cur =
     (let ix = as_index c cur
      in if v \<notin> set (ix_versions ix) then Inl ConfigurationVersionNotFound
         else Inr (ix\<lparr>ix_active := Some v,
                      ix_events := ix_events ix @ [\<lparr>ae_operator = operator, ae_previous = ix_active ix, ae_selected = v,
                                                   ae_timestamp = now, ae_reason = reason\<rparr>]\<rparr>))"

definition rollback_version :: "index_noise \<Rightarrow> string \<Rightarrow> string \<Rightarrow> string \<Rightarrow> ident \<Rightarrow> ident \<Rightarrow> ai_store
    \<Rightarrow> (ai_error + activation_event) \<times> ai_store" where
  "rollback_version noise now operator reason c v s =
     (if v \<notin> set (ix_versions (get_index c s)) then (Inl ConfigurationVersionNotFound, s)
      else case cas_index noise c (activation now operator reason c v) s of
             (Inl e, s') \<Rightarrow> (Inl e, s') | (Inr ix, s') \<Rightarrow> (Inr (last (ix_events ix)), s'))"

section \<open>Resolution\<close>

record resolved_config =
  rs_version :: ident
  rs_config :: ident
  rs_prompt :: string
  rs_model :: string
  rs_schema :: string
  rs_threshold :: pyfloat
  rs_retrieval :: "(string \<times> string) list"
  rs_resolved :: bool

definition from_version :: "ai_version \<Rightarrow> resolved_config" where
  "from_version v = \<lparr>rs_version = av_id v, rs_config = av_config v, rs_prompt = av_prompt v, rs_model = av_model v,
     rs_schema = av_schema v, rs_threshold = av_threshold v, rs_retrieval = av_retrieval v, rs_resolved = True\<rparr>"

definition default_prompt :: string where
  "default_prompt = ''You are answering questions over a private business PDF corpus. Use only the provided context. If the context is insufficient, say that the available documents do not contain enough evidence.''"

definition unresolved_config :: "ident \<Rightarrow> resolved_config" where
  "unresolved_config c = \<lparr>rs_version = ''unresolved'', rs_config = c, rs_prompt = default_prompt, rs_model = ''gemini-3.5-flash'',
     rs_schema = ''{}'', rs_threshold = 1 / 2, rs_retrieval = [], rs_resolved = False\<rparr>"

record ai_defaults =
  df_model :: string
  df_threshold :: pyfloat
  df_retrieval :: "(string \<times> string) list"

definition bootstrap_default :: "index_noise \<Rightarrow> index_noise \<Rightarrow> ai_defaults \<Rightarrow> ident \<Rightarrow> string \<Rightarrow> ident \<Rightarrow> ai_store
    \<Rightarrow> (ai_error + resolved_config) \<times> ai_store" where
  "bootstrap_default n1 n2 df fresh now c s =
     (case create_version n1 fresh now c
             \<lparr>vr_prompt = default_prompt, vr_model = df_model df, vr_schema = ''{}'', vr_threshold = df_threshold df,
              vr_retrieval = df_retrieval df, vr_description = Some ''Initial default configuration (auto-seeded)''\<rparr> s of
        (Inl e, s1) \<Rightarrow> (Inl e, s1)
      | (Inr v, s1) \<Rightarrow>
          (case rollback_version n2 now ''system'' ''Bootstrap initial active configuration'' c (av_id v) s1 of
             (Inl e, s2) \<Rightarrow> (Inl e, s2) | (Inr _, s2) \<Rightarrow> (Inr (from_version v), s2)))"

definition resolve_config :: "index_noise \<Rightarrow> index_noise \<Rightarrow> ai_defaults \<Rightarrow> ident \<Rightarrow> string \<Rightarrow> ident \<Rightarrow> ai_store
    \<Rightarrow> resolved_config \<times> ai_store" where
  "resolve_config n1 n2 df fresh now c s =
     (case ix_active (get_index c s) of
        Some v \<Rightarrow>
          (case get_version c v s of None \<Rightarrow> (unresolved_config c, s) | Some x \<Rightarrow> (from_version x, s))
      | None \<Rightarrow>
          (case bootstrap_default n1 n2 df fresh now c s of
             (Inl _, s') \<Rightarrow> (unresolved_config c, s') | (Inr r, s') \<Rightarrow> (r, s')))"

section \<open>Steps\<close>

text \<open>The operations the service performs on the store, each with its own interference excluded here:
  every one is a read-modify-write that is atomic.\<close>

inductive ai_step :: "ai_store \<Rightarrow> ai_store \<Rightarrow> bool" where
  create: "create_version [] fresh now c r s = (res, s') \<Longrightarrow> ai_step s s'"
| approve: "approve_version [] now approver c v s = (res, s') \<Longrightarrow> ai_step s s'"
| rollback: "rollback_version [] now operator reason c v s = (res, s') \<Longrightarrow> ai_step s s'"
| resolve: "resolve_config [] [] df fresh now c s = (x, s') \<Longrightarrow> ai_step s s'"

definition governed :: "ai_version \<Rightarrow> string \<times> string \<times> string \<times> pyfloat \<times> (string \<times> string) list \<times> string \<times> string" where
  "governed v = (av_prompt v, av_model v, av_schema v, av_threshold v, av_retrieval v, av_description v, av_created_at v)"

section \<open>Invariants\<close>

lemma ai_config_index_key_inj [simp]: "ai_config_index_key a = ai_config_index_key b \<longleftrightarrow> a = b"
  by (simp add: ai_config_index_key_def)

lemma cas_index_alone:
  "cas_index [] c f s =
     (case f (key_cell (ai_config_index_key c) (as_indexes s)) of
        Inl e \<Rightarrow> (Inl e, s)
      | Inr ix \<Rightarrow> (Inr ix, s\<lparr>as_indexes := put_json (as_indexes s) (ai_config_index_key c) ix\<rparr>))"
  by (simp add: cas_index_def update_json_cas_alone split: sum.split)

text \<open>The log of an index is a chain that ends at the active version, and every version it names is in the history.\<close>

fun event_chain :: "ident option \<Rightarrow> activation_event list \<Rightarrow> ident option" where
  "event_chain active [] = active"
| "event_chain active (e # es) = (if ae_previous e = active then event_chain (Some (ae_selected e)) es else None)"

definition ai_index_wf :: "ai_index \<Rightarrow> bool" where
  "ai_index_wf ix \<longleftrightarrow> distinct (ix_versions ix) \<and> event_chain None (ix_events ix) = ix_active ix \<and>
     (\<forall>v. ix_active ix = Some v \<longrightarrow> v \<in> set (ix_versions ix)) \<and> ae_selected ` set (ix_events ix) \<subseteq> set (ix_versions ix)"

definition stored_version :: "ident \<Rightarrow> ident \<Rightarrow> ai_store \<Rightarrow> bool" where
  "stored_version c v s \<longleftrightarrow> (\<exists>x. get_version c v s = Some x \<and> av_id x = v)"

definition ai_inv :: "ai_store \<Rightarrow> bool" where
  "ai_inv s \<longleftrightarrow> (\<forall>k ix. key_cell k (as_indexes s) = Some ix \<longrightarrow> ai_index_wf ix) \<and>
     (\<forall>c v. v \<in> set (ix_versions (get_index c s)) \<longrightarrow> stored_version c v s)"

lemma event_chain_append:
  "event_chain a es \<noteq> None \<or> es = [] \<Longrightarrow> ae_previous e = event_chain a es \<Longrightarrow>
   event_chain a (es @ [e]) = Some (ae_selected e)"
  by (induction es arbitrary: a) (auto split: if_splits)

lemma event_chain_end:
  "event_chain None es = x \<Longrightarrow> x = None \<longrightarrow> es = [] \<Longrightarrow>
   event_chain None (es @ [\<lparr>ae_operator = op, ae_previous = x, ae_selected = v, ae_timestamp = t, ae_reason = r\<rparr>]) = Some v"
  by (subst event_chain_append) auto

definition activated :: "ai_index \<Rightarrow> bool" where
  "activated ix \<longleftrightarrow> (ix_active ix = None \<longrightarrow> ix_events ix = [])"

lemma as_index_wf: "(\<forall>ix. cur = Some ix \<longrightarrow> ai_index_wf ix \<and> activated ix) \<Longrightarrow> ai_index_wf (as_index c cur) \<and> activated (as_index c cur)"
  by (auto simp: as_index_def ai_index_wf_def activated_def split: option.split)

text \<open>One step on an index keeps it well formed and only extends its history and its log.\<close>

definition index_grows :: "ai_index \<Rightarrow> ai_index \<Rightarrow> bool" where
  "index_grows ix ix' \<longleftrightarrow> prefix (ix_versions ix) (ix_versions ix') \<and> prefix (ix_events ix) (ix_events ix')"

lemma append_version_wf:
  "append_version c v cur = Inr ix' \<Longrightarrow> ai_index_wf (as_index c cur) \<Longrightarrow> activated (as_index c cur) \<Longrightarrow>
   ai_index_wf ix' \<and> activated ix' \<and> index_grows (as_index c cur) ix' \<and> ix_active ix' = ix_active (as_index c cur) \<and>
   set (ix_versions ix') = insert v (set (ix_versions (as_index c cur)))"
  by (auto simp: append_version_def Let_def ai_index_wf_def activated_def index_grows_def image_subset_iff split: if_splits)

lemma activation_wf:
  "activation now op reason c v cur = Inr ix' \<Longrightarrow> ai_index_wf (as_index c cur) \<Longrightarrow> activated (as_index c cur) \<Longrightarrow>
   ai_index_wf ix' \<and> activated ix' \<and> index_grows (as_index c cur) ix' \<and> ix_active ix' = Some v \<and>
   ix_versions ix' = ix_versions (as_index c cur)"
  by (auto simp: activation_def Let_def ai_index_wf_def activated_def index_grows_def event_chain_end image_subset_iff split: if_splits)

text \<open>What every step guarantees: indexes stay well formed and grow, versions are never removed, never
  change their governed settings and never lose an approval.\<close>

definition ai_ok :: "ai_store \<Rightarrow> bool" where
  "ai_ok s \<longleftrightarrow> ai_inv s \<and> (\<forall>k ix. key_cell k (as_indexes s) = Some ix \<longrightarrow> activated ix)"

definition ai_keeps :: "ai_store \<Rightarrow> ai_store \<Rightarrow> bool" where
  "ai_keeps s s' \<longleftrightarrow>
     (\<forall>k v. key_cell k (as_versions s) = Some v \<longrightarrow>
        (\<exists>v'. key_cell k (as_versions s') = Some v' \<and> governed v' = governed v \<and> (av_approved v \<longrightarrow> av_approved v'))) \<and>
     (\<forall>c. index_grows (get_index c s) (get_index c s'))"

lemma ai_keeps_refl [simp]: "ai_keeps s s"
  by (auto simp: ai_keeps_def index_grows_def)

lemma ai_keeps_trans: "ai_keeps a b \<Longrightarrow> ai_keeps b c \<Longrightarrow> ai_keeps a c"
proof -
  assume a: "ai_keeps a b" and b: "ai_keeps b c"
  have "\<exists>v''. key_cell k (as_versions c) = Some v'' \<and> governed v'' = governed v \<and> (av_approved v \<longrightarrow> av_approved v'')"
    if "key_cell k (as_versions a) = Some v" for k v
    using a b that unfolding ai_keeps_def by (metis (no_types, lifting))
  moreover have "index_grows (get_index d a) (get_index d c)" for d
    using a b unfolding ai_keeps_def index_grows_def by (meson prefix_order.trans)
  ultimately show ?thesis by (auto simp: ai_keeps_def)
qed

lemma get_index_put:
  "get_index d (s\<lparr>as_indexes := put_json (as_indexes s) (ai_config_index_key c) ix\<rparr>) = (if d = c then ix else get_index d s)"
  by (simp add: get_index_def as_index_def)

lemma index_ok: "ai_ok s \<Longrightarrow> ai_index_wf (get_index c s) \<and> activated (get_index c s)"
  unfolding get_index_def ai_ok_def ai_inv_def by (rule as_index_wf) auto

lemma cas_index_step:
  assumes "ai_ok s" "cas_index [] c f s = (res, s')"
    and "\<And>ix'. f (key_cell (ai_config_index_key c) (as_indexes s)) = Inr ix' \<Longrightarrow>
      ai_index_wf ix' \<and> activated ix' \<and> index_grows (get_index c s) ix' \<and>
      (\<forall>v. v \<in> set (ix_versions ix') \<longrightarrow> stored_version c v s)"
  shows "ai_ok s' \<and> ai_keeps s s' \<and> as_versions s' = as_versions s \<and>
    (\<forall>ix. res = Inr ix \<longrightarrow> f (key_cell (ai_config_index_key c) (as_indexes s)) = Inr ix \<and> get_index c s' = ix)"
proof (cases "f (key_cell (ai_config_index_key c) (as_indexes s))")
  case (Inl e)
  then show ?thesis using assms(1,2) by (auto simp: cas_index_alone)
next
  case (Inr ix)
  then have s': "s' = s\<lparr>as_indexes := put_json (as_indexes s) (ai_config_index_key c) ix\<rparr>" and r: "res = Inr ix"
    using assms(2) by (auto simp: cas_index_alone)
  note f = assms(3)[OF Inr]
  have v: "stored_version d v s' = stored_version d v s" for d v by (simp add: s' get_version_def stored_version_def)
  have i: "get_index d s' = (if d = c then ix else get_index d s)" for d by (simp add: s' get_index_put)
  have "ai_ok s'" unfolding ai_ok_def ai_inv_def v i
    using f assms(1) by (auto simp: s' ai_ok_def ai_inv_def)
  moreover have "ai_keeps s s'" unfolding ai_keeps_def i using f by (auto simp: s' index_grows_def)
  ultimately show ?thesis using r i Inr by (simp add: s')
qed

lemma create_version_step:
  assumes "ai_ok s" "create_version [] fresh now c r s = (res, s')"
  shows "ai_ok s' \<and> ai_keeps s s' \<and>
    (\<forall>v. res = Inr v \<longrightarrow> av_id v = fresh \<and> av_config v = c \<and> get_version c fresh s' = Some v \<and> fresh \<in> set (ix_versions (get_index c s')) \<and>
       ix_active (get_index c s') = ix_active (get_index c s))"
proof (cases "validate_change_description (vr_description r)")
  case (Inl e)
  then show ?thesis using assms by (auto simp: create_version_def)
next
  case d: (Inr d)
  define v where "v = \<lparr>av_config = c, av_id = fresh, av_prompt = vr_prompt r, av_model = vr_model r, av_schema = vr_schema r,
    av_threshold = vr_threshold r, av_retrieval = vr_retrieval r, av_description = d, av_created_at = now,
    av_approved = False, av_approver = None, av_approved_at = None\<rparr>"
  show ?thesis
  proof (cases "create_json (as_versions s) (ai_config_version_key c fresh) v")
    case None
    then show ?thesis using assms d by (auto simp: create_version_def v_def)
  next
    case (Some t)
    have t: "t = put_json (as_versions s) (ai_config_version_key c fresh) v" "key_cell (ai_config_version_key c fresh) (as_versions s) = None"
      using Some by (auto simp: create_json_iff split: if_splits)
    let ?s1 = "s\<lparr>as_versions := t\<rparr>"
    obtain x s2 where x: "cas_index [] c (append_version c fresh) ?s1 = (x, s2)" by (cases "cas_index [] c (append_version c fresh) ?s1")
    have gi: "get_index d ?s1 = get_index d s" for d by (simp add: get_index_def)
    have gv: "stored_version e w s \<Longrightarrow> stored_version e w ?s1" for e w
      using t by (auto simp: stored_version_def get_version_def)
    have ok1: "ai_ok ?s1"
      using assms(1) gv unfolding ai_ok_def ai_inv_def gi by auto
    have k1: "ai_keeps s ?s1" unfolding ai_keeps_def gi using t by (auto simp: index_grows_def)
    have st: "ai_ok s2 \<and> ai_keeps ?s1 s2 \<and> as_versions s2 = as_versions ?s1 \<and>
      (\<forall>ix. x = Inr ix \<longrightarrow> append_version c fresh (key_cell (ai_config_index_key c) (as_indexes ?s1)) = Inr ix \<and> get_index c s2 = ix)"
    proof (rule cas_index_step[OF ok1 x])
      fix ix assume a: "append_version c fresh (key_cell (ai_config_index_key c) (as_indexes ?s1)) = Inr ix"
      have w: "ai_index_wf (get_index c ?s1) \<and> activated (get_index c ?s1)" using index_ok[OF ok1] .
      have "stored_version c fresh ?s1" using t by (auto simp: stored_version_def get_version_def v_def)
      then have "stored_version c u ?s1" if "u \<in> set (ix_versions ix)" for u
        using append_version_wf[OF a] w that ok1
        by (auto simp: get_index_def[symmetric] gi ai_ok_def ai_inv_def)
      then show "ai_index_wf ix \<and> activated ix \<and> index_grows (get_index c ?s1) ix \<and> (\<forall>v. v \<in> set (ix_versions ix) \<longrightarrow> stored_version c v ?s1)"
        using append_version_wf[OF a] w by (simp add: get_index_def)
    qed
    have sx: "s' = s2 \<and> (res = (case x of Inl e \<Rightarrow> Inl e | Inr _ \<Rightarrow> Inr v))"
      using assms(2) d Some x by (auto simp: create_version_def v_def split: sum.splits)
    have "av_id w = fresh \<and> av_config w = c \<and> get_version c fresh s2 = Some w \<and> fresh \<in> set (ix_versions (get_index c s2)) \<and>
       ix_active (get_index c s2) = ix_active (get_index c s)" if rw: "res = Inr w" for w
    proof -
      obtain ix where ix: "x = Inr ix" "w = v" using sx rw by (auto split: sum.splits)
      then have a: "append_version c fresh (key_cell (ai_config_index_key c) (as_indexes ?s1)) = Inr ix" "get_index c s2 = ix" using st by auto
      have "ai_index_wf (get_index c ?s1) \<and> activated (get_index c ?s1)" using index_ok[OF ok1] .
      then show ?thesis using append_version_wf[OF a(1)] a(2) st t ix gi[of c]
        by (auto simp: get_index_def[symmetric] get_version_def v_def)
    qed
    then show ?thesis using st sx ai_keeps_trans[OF k1] by auto
  qed
qed

lemma rollback_version_step:
  assumes "ai_ok s" "rollback_version [] now op reason c v s = (res, s')"
  shows "ai_ok s' \<and> ai_keeps s s' \<and> as_versions s' = as_versions s \<and>
    (v \<in> set (ix_versions (get_index c s)) \<longrightarrow> (\<exists>e. res = Inr e \<and> ae_selected e = v \<and> ae_previous e = ix_active (get_index c s)) \<and>
        ix_active (get_index c s') = Some v) \<and>
    (v \<notin> set (ix_versions (get_index c s)) \<longrightarrow> res = Inl ConfigurationVersionNotFound \<and> s' = s)"
proof (cases "v \<in> set (ix_versions (get_index c s))")
  case False
  then show ?thesis using assms by (auto simp: rollback_version_def)
next
  case True
  obtain x s2 where x: "cas_index [] c (activation now op reason c v) s = (x, s2)" by (cases "cas_index [] c (activation now op reason c v) s")
  have w: "ai_index_wf (get_index c s) \<and> activated (get_index c s)" using index_ok[OF assms(1)] .
  have st: "ai_ok s2 \<and> ai_keeps s s2 \<and> as_versions s2 = as_versions s \<and>
      (\<forall>ix. x = Inr ix \<longrightarrow> activation now op reason c v (key_cell (ai_config_index_key c) (as_indexes s)) = Inr ix \<and> get_index c s2 = ix)"
  proof (rule cas_index_step[OF assms(1) x])
    fix ix assume a: "activation now op reason c v (key_cell (ai_config_index_key c) (as_indexes s)) = Inr ix"
    show "ai_index_wf ix \<and> activated ix \<and> index_grows (get_index c s) ix \<and> (\<forall>v. v \<in> set (ix_versions ix) \<longrightarrow> stored_version c v s)"
      using activation_wf[OF a] w assms(1) by (auto simp: get_index_def[symmetric] ai_ok_def ai_inv_def)
  qed
  obtain ix where ix: "activation now op reason c v (key_cell (ai_config_index_key c) (as_indexes s)) = Inr ix"
    using True by (auto simp: activation_def get_index_def Let_def)
  then have xi: "x = Inr ix" using x by (simp add: cas_index_alone)
  have e: "ix_events ix = ix_events (get_index c s) @ [\<lparr>ae_operator = op, ae_previous = ix_active (get_index c s), ae_selected = v,
      ae_timestamp = now, ae_reason = reason\<rparr>]"
    using ix by (auto simp: activation_def get_index_def Let_def split: if_splits)
  have r: "res = Inr (last (ix_events ix))" "s' = s2" using assms(2) True x xi by (auto simp: rollback_version_def)
  show ?thesis using st xi r e True activation_wf[OF ix] w by (auto simp: get_index_def[symmetric])
qed

lemma approve_version_step:
  assumes "ai_ok s" "approve_version [] now approver c v s = (res, s')"
  shows "ai_ok s' \<and> ai_keeps s s'"
proof (cases "get_version c v s")
  case None
  then show ?thesis using assms by (auto simp: approve_version_def)
next
  case (Some x)
  then have s': "s' = s\<lparr>as_versions := put_json (as_versions s) (ai_config_version_key c v)
      (x\<lparr>av_approved := True, av_approver := Some approver, av_approved_at := Some now\<rparr>)\<rparr>"
    using assms(2) by (auto simp: approve_version_def update_json_cas_alone approve_mutation_def get_version_def)
  have i: "get_index d s' = get_index d s" for d by (simp add: s' get_index_def)
  have g: "stored_version d w s \<Longrightarrow> stored_version d w s'" for d w
    using Some by (auto simp: s' get_version_def stored_version_def)
  have "ai_ok s'" using assms(1) g unfolding ai_ok_def ai_inv_def i by (auto simp: s')
  moreover have "ai_keeps s s'" unfolding ai_keeps_def i using Some
    by (auto simp: s' get_version_def governed_def index_grows_def)
  ultimately show ?thesis by blast
qed

lemma resolve_config_step:
  assumes "ai_ok s" "resolve_config [] [] df fresh now c s = (x, s')"
  shows "ai_ok s' \<and> ai_keeps s s' \<and>
    (get_version c fresh s = None \<longrightarrow> rs_resolved x \<and> ix_active (get_index c s') = Some (rs_version x) \<and>
       (\<exists>v. get_version c (rs_version x) s' = Some v \<and> rs_prompt x = av_prompt v \<and> rs_model x = av_model v \<and>
          rs_threshold x = av_threshold v \<and> rs_retrieval x = av_retrieval v))"
proof (cases "ix_active (get_index c s)")
  case (Some v)
  then have "v \<in> set (ix_versions (get_index c s))" using index_ok[OF assms(1), of c] by (auto simp: ai_index_wf_def)
  then obtain y where y: "get_version c v s = Some y" "av_id y = v"
    using assms(1) unfolding ai_ok_def ai_inv_def stored_version_def by metis
  then show ?thesis using assms Some by (auto simp: resolve_config_def from_version_def)
next
  case None
  define rq where "rq = \<lparr>vr_prompt = default_prompt, vr_model = df_model df, vr_schema = ''{}'', vr_threshold = df_threshold df,
              vr_retrieval = df_retrieval df, vr_description = Some ''Initial default configuration (auto-seeded)''\<rparr>"
  obtain a s1 where a: "create_version [] fresh now c rq s = (a, s1)" by (cases "create_version [] fresh now c rq s")
  note st = create_version_step[OF assms(1) a]
  show ?thesis
  proof (cases a)
    case (Inl e)
    have "get_version c fresh s \<noteq> None"
    proof
      assume "get_version c fresh s = None"
      then show False using a Inl
        by (auto simp: create_version_def rq_def validate_change_description_def create_json_iff get_version_def Let_def
            cas_index_alone append_version_def split: sum.splits)
    qed
    then show ?thesis using assms(2) None a Inl st by (auto simp: resolve_config_def bootstrap_default_def rq_def)
  next
    case (Inr v)
    have v: "av_id v = fresh" "get_version c fresh s1 = Some v" "fresh \<in> set (ix_versions (get_index c s1))" using st Inr by auto
    obtain b s2 where b: "rollback_version [] now ''system'' ''Bootstrap initial active configuration'' c (av_id v) s1 = (b, s2)"
      by (cases "rollback_version [] now ''system'' ''Bootstrap initial active configuration'' c (av_id v) s1")
    have ok1: "ai_ok s1" using st by blast
    note rb = rollback_version_step[OF ok1 b]
    obtain e where e: "b = Inr e" using rb v by auto
    have x: "x = from_version v \<and> s' = s2"
      using assms(2) None a Inr b e by (simp add: resolve_config_def bootstrap_default_def rq_def)
    have "get_version c fresh s2 = Some v" using rb v(2) by (simp add: get_version_def)
    then show ?thesis using x rb v st ai_keeps_trans[of s s1 s2] by (auto simp: from_version_def)
  qed
qed

lemma ai_step_keeps: "ai_step s s' \<Longrightarrow> ai_ok s \<Longrightarrow> ai_ok s' \<and> ai_keeps s s'"
proof (induction rule: ai_step.induct)
  case create then show ?case using create_version_step by metis
next
  case approve then show ?case using approve_version_step by metis
next
  case rollback then show ?case using rollback_version_step by metis
next
  case resolve then show ?case using resolve_config_step by metis
qed

lemma ai_steps_keep: "ai_step\<^sup>*\<^sup>* s s' \<Longrightarrow> ai_ok s \<Longrightarrow> ai_ok s' \<and> ai_keeps s s'"
  by (induction rule: rtranclp_induct) (auto dest: ai_step_keeps intro: ai_keeps_trans)

definition empty_ai_store :: ai_store where
  "empty_ai_store = \<lparr>as_versions = empty_store, as_indexes = empty_store\<rparr>"

lemma empty_ai_ok: "ai_ok empty_ai_store"
  by (simp add: ai_ok_def ai_inv_def empty_ai_store_def empty_store_def key_cell_def get_index_def as_index_def)

section \<open>Properties\<close>

text \<open>C21. A configuration version is immutable but for its approval: whatever sequence of creations,
  approvals, rollbacks and resolutions runs, a version that exists keeps its prompt, model, schema,
  threshold, retrieval settings, description and instant, an approval is never withdrawn, the
  histories and the activation logs only grow, every log is a chain ending at the active version,
  and the active version is one of the history.\<close>

theorem ai_versions_immutable:
  assumes "ai_step\<^sup>*\<^sup>* empty_ai_store s" "ai_step\<^sup>*\<^sup>* s s'"
  shows "(get_version c v s = Some x \<longrightarrow>
       (\<exists>x'. get_version c v s' = Some x' \<and> governed x' = governed x \<and> (av_approved x \<longrightarrow> av_approved x'))) \<and>
     prefix (ix_versions (get_index c s)) (ix_versions (get_index c s')) \<and>
     prefix (ix_events (get_index c s)) (ix_events (get_index c s')) \<and>
     event_chain None (ix_events (get_index c s')) = ix_active (get_index c s') \<and>
     (\<forall>a. ix_active (get_index c s') = Some a \<longrightarrow> a \<in> set (ix_versions (get_index c s')) \<and> get_version c a s' \<noteq> None)"
proof -
  have ok: "ai_ok s" using ai_steps_keep[OF assms(1) empty_ai_ok] by blast
  note k = ai_steps_keep[OF assms(2) ok]
  have w: "ai_index_wf (get_index c s')" using index_ok k by blast
  have "get_version c a s' \<noteq> None" if "a \<in> set (ix_versions (get_index c s'))" for a
    using k that unfolding ai_ok_def ai_inv_def stored_version_def by fastforce
  then show ?thesis using k w by (auto simp: ai_keeps_def get_version_def ai_index_wf_def index_grows_def)
qed

text \<open>Resolution always stamps a version: in every reachable store, when the identifier minted for a
  bootstrap is unused, resolving a configuration is not the unresolved fallback, the version it names
  is the active one afterwards, and the settings are exactly that version's.\<close>

theorem resolution_stamps_active:
  assumes "ai_step\<^sup>*\<^sup>* empty_ai_store s" "get_version c fresh s = None" "resolve_config [] [] df fresh now c s = (x, s')"
  shows "rs_resolved x \<and> ix_active (get_index c s') = Some (rs_version x) \<and>
     (\<exists>v. get_version c (rs_version x) s' = Some v \<and> rs_prompt x = av_prompt v \<and> rs_model x = av_model v \<and>
        rs_threshold x = av_threshold v \<and> rs_retrieval x = av_retrieval v)"
proof -
  have "ai_ok s" using ai_steps_keep[OF assms(1) empty_ai_ok] by blast
  then show ?thesis using resolve_config_step[OF _ assms(3)] assms(2) by blast
qed

definition demo_ai_request :: version_request where
  "demo_ai_request = \<lparr>vr_prompt = ''p'', vr_model = ''m'', vr_schema = ''{}'', vr_threshold = 1 / 2, vr_retrieval = [],
     vr_description = Some ''first''\<rparr>"

theorem ai_versions_immutable_witness:
  "\<exists>x x'. get_version ''c'' ''v'' (snd (create_version [] ''v'' ''now'' ''c'' demo_ai_request empty_ai_store)) = Some x \<and>
     get_version ''c'' ''v'' (snd (approve_version [] ''later'' ''op'' ''c'' ''v''
       (snd (create_version [] ''v'' ''now'' ''c'' demo_ai_request empty_ai_store)))) = Some x' \<and> governed x' = governed x"
proof -
  let ?s = "snd (create_version [] ''v'' ''now'' ''c'' demo_ai_request empty_ai_store)"
  let ?t = "snd (approve_version [] ''later'' ''op'' ''c'' ''v'' ?s)"
  have a: "ai_step empty_ai_store ?s" by (rule ai_step.create[OF surjective_pairing])
  have b: "ai_step ?s ?t" by (rule ai_step.approve[OF surjective_pairing])
  obtain x where x: "get_version ''c'' ''v'' ?s = Some x"
    by (simp add: create_version_def demo_ai_request_def validate_change_description_def create_json_iff cas_index_alone
        append_version_def get_version_def empty_ai_store_def empty_store_def key_cell_def Let_def put_json_def as_index_def)
  show ?thesis
    using ai_versions_immutable[OF r_into_rtranclp[of ai_step, OF a] r_into_rtranclp[of ai_step, OF b], of "''c''" "''v''" x] x by auto
qed

theorem resolution_stamps_active_witness:
  "rs_resolved (fst (resolve_config [] [] \<lparr>df_model = ''m'', df_threshold = 1 / 2, df_retrieval = []\<rparr> ''v'' ''now'' ''default'' empty_ai_store))"
proof -
  have "get_version ''default'' ''v'' empty_ai_store = None"
    by (simp add: get_version_def empty_ai_store_def empty_store_def key_cell_def)
  from resolution_stamps_active[OF rtranclp.rtrancl_refl this surjective_pairing] show ?thesis by blast
qed

end
