(* ===== verification/Replay.thy ===== *)
theory Replay
  imports AiConfig Publication Json
begin

text \<open>
  The replay lab, \<open>replay.py\<close>: immutable corpus snapshots and SQL fixtures, the validation of a replay
  request, the state machine of a run with its compare-and-set transitions, cancellation, and the
  worker's execution with its cancellation and time checks between stages. The executor's calls, the
  clock, the digest and case folding are arguments; so is what other processes do to the runs
  between the worker's accesses, one function per access.
\<close>

section \<open>SQL fixtures\<close>

fun collapse_spaces :: "string \<Rightarrow> string" where
  "collapse_spaces [] = []"
| "collapse_spaces (c # cs) =
     (let r = collapse_spaces cs
      in if is_space c then (if take 1 r = '' '' then r else CHR '' '' # r) else c # r)"

text \<open>The loop that removes trailing semicolons, on the reversed text.\<close>

function drop_semicolons :: "string \<Rightarrow> string" where
  "drop_semicolons s =
     (case s of c # cs \<Rightarrow> if c = CHR '';'' then drop_semicolons (dropWhile is_space cs) else s | [] \<Rightarrow> [])"
  by pat_completeness auto
termination
  by (relation "measure length") (auto simp: length_dropWhile_le le_imp_less_Suc)

declare drop_semicolons.simps [simp del]

definition normalize_fixture_sql :: "(string \<Rightarrow> string) \<Rightarrow> string \<Rightarrow> string" where
  "normalize_fixture_sql casefold sql = casefold (rev (drop_semicolons (rev (py_strip (collapse_spaces sql)))))"

record sql_fixture =
  sf_id :: ident
  sf_snapshot :: ident
  sf_sql :: string
  sf_hash :: string
  sf_rows :: "(string \<times> json) list list"

record corpus_snapshot =
  sn_id :: ident
  sn_created_at :: string
  sn_manifest :: "(ident \<times> string) list"

definition corpus_snapshot_key :: "ident \<Rightarrow> string" where
  "corpus_snapshot_key i = ''corpus_snapshots/'' @ i @ ''.json''"

definition sql_result_fixture_key :: "ident \<Rightarrow> ident \<Rightarrow> string" where
  "sql_result_fixture_key i f = ''corpus_snapshots/'' @ i @ ''/sql/'' @ f @ ''.json''"

definition replay_run_key :: "ident \<Rightarrow> string" where
  "replay_run_key i = ''replays/'' @ i @ ''.json''"

definition create_snapshot :: "ident \<Rightarrow> string \<Rightarrow> (ident \<times> string) list \<Rightarrow> corpus_snapshot obj_store
    \<Rightarrow> corpus_snapshot option \<times> corpus_snapshot obj_store" where
  "create_snapshot fresh now manifest s =
     (let x = \<lparr>sn_id = fresh, sn_created_at = now, sn_manifest = manifest\<rparr>
      in case create_json s (corpus_snapshot_key fresh) x of None \<Rightarrow> (None, s) | Some t \<Rightarrow> (Some x, t))"

definition list_snapshots :: "(string \<Rightarrow> bool) \<Rightarrow> string list \<Rightarrow> corpus_snapshot obj_store \<Rightarrow> corpus_snapshot list" where
  "list_snapshots intact keys s =
     List.map_filter (\<lambda>k. case key_cell k s of Some x \<Rightarrow> if intact k then Some x else None | None \<Rightarrow> None) keys"

definition create_sql_fixture :: "(string \<Rightarrow> string) \<Rightarrow> (string \<Rightarrow> string) \<Rightarrow> ident \<Rightarrow> string \<Rightarrow> (string \<times> json) list list
    \<Rightarrow> sql_fixture obj_store \<Rightarrow> sql_fixture option \<times> sql_fixture obj_store" where
  "create_sql_fixture digest casefold snapshot sql rows s =
     (let h = digest (normalize_fixture_sql casefold sql);
          x = \<lparr>sf_id = h, sf_snapshot = snapshot, sf_sql = sql, sf_hash = h, sf_rows = rows\<rparr>
      in case create_json s (sql_result_fixture_key snapshot h) x of None \<Rightarrow> (None, s) | Some t \<Rightarrow> (Some x, t))"

text \<open>The endpoint's manifest: the documents in scope that have an active version.\<close>

definition snapshot_manifest :: "ident list option \<Rightarrow> document_record list \<Rightarrow> (ident \<times> string) list" where
  "snapshot_manifest scope docs =
     List.map_filter (\<lambda>d. map_option (Pair (d_id d)) (d_active d))
       (case scope of None \<Rightarrow> docs | Some ids \<Rightarrow> filter (\<lambda>d. d_id d \<in> set ids) docs)"

section \<open>Runs\<close>

datatype replay_state = ReplayQueued | ReplayRunning | ReplayCompleted | ReplayFailed | ReplayCancelled

definition terminal_replay :: "replay_state \<Rightarrow> bool" where
  "terminal_replay s \<longleftrightarrow> s \<in> {ReplayCompleted, ReplayFailed, ReplayCancelled}"

record replay_request =
  rq_question :: string
  rq_version :: ident
  rq_max_passages :: int
  rq_min_score :: pyfloat
  rq_snapshot :: ident

record replay_result =
  rp_answer :: string
  rp_route :: string
  rp_scores :: "pyfloat list"
  rp_latency :: pyfloat
  rp_prompt_tokens :: int
  rp_completion_tokens :: int
  rp_cost :: pyfloat

datatype replay_failure = TimedOut | FixtureMissing ident string | ExecutionError

record replay_run =
  rr_id :: ident
  rr_state :: replay_state
  rr_request :: replay_request
  rr_result :: "replay_result option"
  rr_failure :: "replay_failure option"
  rr_cancel :: bool

datatype replay_error = ApprovedConfigurationRequired | BadMaxPassages | BadMinScore | SnapshotMissing | ReplayNotFound | ReplayConflict

definition split_version_id :: "ident \<Rightarrow> ident \<times> ident" where
  "split_version_id i = (case cut_at '':'' i of Some (a, b) \<Rightarrow> (a, b) | None \<Rightarrow> (''default'', i))"

definition load_ai_config_version :: "ident \<Rightarrow> ai_store \<Rightarrow> ai_version option" where
  "load_ai_config_version i s = (case split_version_id i of (c, v) \<Rightarrow> get_version c v s)"

definition validate_replay :: "ai_store \<Rightarrow> corpus_snapshot obj_store \<Rightarrow> replay_request \<Rightarrow> replay_error option" where
  "validate_replay cfg snaps r =
     (case load_ai_config_version (rq_version r) cfg of
        None \<Rightarrow> Some ApprovedConfigurationRequired
      | Some v \<Rightarrow>
          if \<not> av_approved v then Some ApprovedConfigurationRequired
          else if \<not> (1 \<le> rq_max_passages r \<and> rq_max_passages r \<le> 100) then Some BadMaxPassages
          else if \<not> (0 \<le> rq_min_score r \<and> rq_min_score r \<le> 1) then Some BadMinScore
          else if key_cell (corpus_snapshot_key (rq_snapshot r)) snaps = None then Some SnapshotMissing
          else None)"

type_synonym run_store = "replay_run obj_store"

type_synonym run_noise = "replay_run foreign_write list list"

definition cas_run :: "run_noise \<Rightarrow> ident \<Rightarrow> (replay_run option \<Rightarrow> replay_run) \<Rightarrow> run_store \<Rightarrow> (replay_error + replay_run) \<times> run_store" where
  "cas_run noise i f s =
     (case update_json_cas 8 (replay_run_key i) (\<lambda>cur. Inr (f cur) :: unit + replay_run) noise s of
        (Inl _, t) \<Rightarrow> (Inl ReplayConflict, t) | (Inr r, t) \<Rightarrow> (Inr r, t))"

definition create_replay_run :: "run_noise \<Rightarrow> ident \<Rightarrow> ai_store \<Rightarrow> corpus_snapshot obj_store \<Rightarrow> replay_request \<Rightarrow> run_store
    \<Rightarrow> (replay_error + replay_run) \<times> run_store" where
  "create_replay_run noise fresh cfg snaps r s =
     (case validate_replay cfg snaps r of
        Some e \<Rightarrow> (Inl e, s)
      | None \<Rightarrow> cas_run noise fresh (\<lambda>_. \<lparr>rr_id = fresh, rr_state = ReplayQueued, rr_request = r, rr_result = None,
                                          rr_failure = None, rr_cancel = False\<rparr>) s)"

definition cancelled_run :: "replay_run \<Rightarrow> replay_run" where
  "cancelled_run r = r\<lparr>rr_cancel := True, rr_state := ReplayCancelled, rr_result := None, rr_failure := None\<rparr>"

definition cancel_mutation :: "replay_run \<Rightarrow> replay_run option \<Rightarrow> replay_run" where
  "cancel_mutation run cur =
     (case cur of
        None \<Rightarrow> run
      | Some c \<Rightarrow> if terminal_replay (rr_state c) then c else cancelled_run c)"

definition cancel_replay_run :: "run_noise \<Rightarrow> ident \<Rightarrow> run_store \<Rightarrow> (replay_error + replay_run) \<times> run_store" where
  "cancel_replay_run noise i s =
     (case key_cell (replay_run_key i) s of
        None \<Rightarrow> (Inl ReplayNotFound, s)
      | Some run \<Rightarrow>
          if terminal_replay (rr_state run) then (Inr run, s)
          else cas_run noise i (cancel_mutation run) s)"

definition transition_mutation :: "replay_run \<Rightarrow> replay_run option \<Rightarrow> replay_run" where
  "transition_mutation run cur =
     (case cur of
        None \<Rightarrow> run
      | Some c \<Rightarrow>
          if terminal_replay (rr_state c) then c
          else if rr_cancel c \<and> rr_state run \<noteq> ReplayCancelled
          then c\<lparr>rr_state := ReplayCancelled, rr_result := None, rr_failure := None\<rparr>
          else c\<lparr>rr_state := rr_state run, rr_result := rr_result run, rr_failure := rr_failure run,
                 rr_cancel := rr_cancel c \<or> rr_state run = ReplayCancelled\<rparr>)"

text \<open>With the interference before it the transition is one atomic step.\<close>

definition transition_run :: "replay_run \<Rightarrow> run_store \<Rightarrow> replay_run \<times> run_store" where
  "transition_run run s =
     (let x = transition_mutation run (key_cell (replay_run_key (rr_id run)) s)
      in (x, put_json s (replay_run_key (rr_id run)) x))"

section \<open>Execution\<close>

record gen_output =
  go_answer :: string
  go_prompt_tokens :: int
  go_completion_tokens :: int

record replay_executor =
  rx_classify :: "string \<Rightarrow> ai_version \<Rightarrow> string option"
  rx_retrieve :: "string \<Rightarrow> ai_version \<Rightarrow> (ident \<times> string) list \<Rightarrow> int \<Rightarrow> pyfloat \<Rightarrow> (trace_hit list \<times> pyfloat list) option"
  rx_sql :: "string \<Rightarrow> ai_version \<Rightarrow> string option"
  rx_generate :: "string \<Rightarrow> ai_version \<Rightarrow> string \<Rightarrow> trace_hit list \<Rightarrow> (string \<times> json) list list option \<Rightarrow> gen_output option"

record replay_env =
  rv_executor :: replay_executor
  rv_configs :: ai_store
  rv_snapshots :: "corpus_snapshot obj_store"
  rv_fixtures :: "sql_fixture obj_store"
  rv_digest :: "string \<Rightarrow> string"
  rv_casefold :: "string \<Rightarrow> string"
  rv_pricing :: "string \<rightharpoonup> pyfloat \<times> pyfloat"
  rv_timeout :: pyfloat
  rv_elapsed :: "nat \<Rightarrow> pyfloat"
  rv_others :: "nat \<Rightarrow> run_store \<Rightarrow> run_store"

definition compute_replay_cost :: "int \<Rightarrow> int \<Rightarrow> string \<Rightarrow> (string \<rightharpoonup> pyfloat \<times> pyfloat) \<Rightarrow> pyfloat" where
  "compute_replay_cost prompt completion model pricing =
     (case pricing model of
        None \<Rightarrow> 0
      | Some (p, c) \<Rightarrow> of_int prompt / 1000 * p + of_int completion / 1000 * c)"

datatype exec_outcome = ExecDone replay_result | ExecCancelled | ExecFailed replay_failure

text \<open>A stage boundary: the time check, then a fresh look at the cancel flag after what others did.\<close>

definition boundary :: "replay_env \<Rightarrow> nat \<Rightarrow> ident \<Rightarrow> run_store \<Rightarrow> exec_outcome option \<times> run_store" where
  "boundary env k i s =
     (if rv_timeout env \<le> rv_elapsed env k then (Some (ExecFailed TimedOut), s)
      else let s1 = rv_others env k s
           in case key_cell (replay_run_key i) s1 of
                Some r \<Rightarrow> (if rr_cancel r then (Some ExecCancelled, s1) else (None, s1))
              | None \<Rightarrow> (None, s1))"

definition fixture_rows :: "replay_env \<Rightarrow> replay_request \<Rightarrow> ai_version \<Rightarrow> string
    \<Rightarrow> replay_failure + (string \<times> json) list list option" where
  "fixture_rows env q cfg route =
     (if route \<notin> {''database'', ''sql''} then Inr None
      else case rx_sql (rv_executor env) (rq_question q) cfg of
             None \<Rightarrow> Inl ExecutionError
           | Some sql \<Rightarrow>
               (let h = rv_digest env (normalize_fixture_sql (rv_casefold env) sql)
                in case key_cell (sql_result_fixture_key (rq_snapshot q) h) (rv_fixtures env) of
                     None \<Rightarrow> Inl (FixtureMissing (rq_snapshot q) h)
                   | Some f \<Rightarrow> Inr (Some (sf_rows f))))"

definition replay_answer :: "replay_env \<Rightarrow> replay_request \<Rightarrow> ai_version \<Rightarrow> string \<Rightarrow> trace_hit list \<Rightarrow> pyfloat list
    \<Rightarrow> (string \<times> json) list list option \<Rightarrow> exec_outcome" where
  "replay_answer env q cfg route hits scores rows =
     (case rx_generate (rv_executor env) (rq_question q) cfg route hits rows of
        None \<Rightarrow> ExecFailed ExecutionError
      | Some g \<Rightarrow>
          ExecDone \<lparr>rp_answer = go_answer g, rp_route = route, rp_scores = map (\<lambda>x. max 0 (min 1 x)) scores,
            rp_latency = rv_elapsed env 7 * 1000, rp_prompt_tokens = go_prompt_tokens g,
            rp_completion_tokens = go_completion_tokens g,
            rp_cost = compute_replay_cost (go_prompt_tokens g) (go_completion_tokens g) (av_model cfg) (rv_pricing env)\<rparr>)"

definition execute_with_timeout :: "replay_env \<Rightarrow> ident \<Rightarrow> replay_request \<Rightarrow> run_store \<Rightarrow> exec_outcome \<times> run_store" where
  "execute_with_timeout env i q s =
     (case (load_ai_config_version (rq_version q) (rv_configs env), key_cell (corpus_snapshot_key (rq_snapshot q)) (rv_snapshots env)) of
        (Some cfg, Some snap) \<Rightarrow>
          (case boundary env 3 i s of
             (Some x, s1) \<Rightarrow> (x, s1)
           | (None, s1) \<Rightarrow>
               (case rx_classify (rv_executor env) (rq_question q) cfg of
                  None \<Rightarrow> (ExecFailed ExecutionError, s1)
                | Some route \<Rightarrow>
                    (case boundary env 4 i s1 of
                       (Some x, s2) \<Rightarrow> (x, s2)
                     | (None, s2) \<Rightarrow>
                         (case rx_retrieve (rv_executor env) (rq_question q) cfg (sn_manifest snap) (rq_max_passages q) (rq_min_score q) of
                            None \<Rightarrow> (ExecFailed ExecutionError, s2)
                          | Some (hits, scores) \<Rightarrow>
                              (case boundary env 5 i s2 of
                                 (Some x, s3) \<Rightarrow> (x, s3)
                               | (None, s3) \<Rightarrow>
                                   (case fixture_rows env q cfg route of
                                      Inl e \<Rightarrow> (ExecFailed e, s3)
                                    | Inr rows \<Rightarrow>
                                        (case boundary env 6 i s3 of
                                           (Some x, s4) \<Rightarrow> (x, s4)
                                         | (None, s4) \<Rightarrow> (replay_answer env q cfg route hits scores rows, s4))))))))
      | _ \<Rightarrow> (ExecFailed ExecutionError, s))"

definition finished_run :: "replay_run \<Rightarrow> exec_outcome \<Rightarrow> replay_run" where
  "finished_run run x =
     (case x of
        ExecDone r \<Rightarrow> run\<lparr>rr_state := ReplayCompleted, rr_result := Some r, rr_failure := None\<rparr>
      | ExecCancelled \<Rightarrow> run\<lparr>rr_state := ReplayCancelled, rr_result := None, rr_failure := None\<rparr>
      | ExecFailed e \<Rightarrow> run\<lparr>rr_state := ReplayFailed, rr_result := None, rr_failure := Some e\<rparr>)"

text \<open>\<open>None\<close>: no such run. The worker's accesses are numbered from 0; the last one is the eighth.\<close>

definition execute_run :: "replay_env \<Rightarrow> ident \<Rightarrow> run_store \<Rightarrow> replay_run option \<times> run_store" where
  "execute_run env i s =
     (let s0 = rv_others env 0 s
      in case key_cell (replay_run_key i) s0 of
           None \<Rightarrow> (None, s0)
         | Some run \<Rightarrow>
             if rr_state run \<noteq> ReplayQueued then (Some run, s0)
             else
               (let s1 = (if rr_cancel run then s0 else rv_others env 1 s0);
                    flag = rr_cancel run \<or> (case key_cell (replay_run_key (rr_id run)) s1 of Some r \<Rightarrow> rr_cancel r | None \<Rightarrow> False);
                    s2 = rv_others env 2 s1
                in if flag then
                     (let c = run\<lparr>rr_state := ReplayCancelled, rr_result := None, rr_failure := None\<rparr>
                      in (Some c, snd (transition_run c s2)))
                   else
                     (case transition_run (run\<lparr>rr_state := ReplayRunning\<rparr>) s2 of
                        (p, s3) \<Rightarrow>
                          if rr_state p \<noteq> ReplayRunning then (Some p, s3)
                          else (case execute_with_timeout env (rr_id run) (rr_request run) s3 of
                                  (x, s4) \<Rightarrow>
                                    (case transition_run (finished_run run x) (rv_others env 7 s4) of
                                       (p', s5) \<Rightarrow> (Some p', s5))))))"

section \<open>Lemmas\<close>

definition run_ok :: "replay_run \<Rightarrow> bool" where
  "run_ok r \<longleftrightarrow> (rr_result r \<noteq> None \<longleftrightarrow> rr_state r = ReplayCompleted) \<and> (rr_failure r \<noteq> None \<longleftrightarrow> rr_state r = ReplayFailed)"

inductive replay_step :: "run_store \<Rightarrow> run_store \<Rightarrow> bool" where
  create: "key_cell (replay_run_key fresh) s = None \<Longrightarrow>
    create_replay_run [] fresh cfg snaps q s = (res, s') \<Longrightarrow> replay_step s s'"
| cancel: "cancel_replay_run [] i s = (res, s') \<Longrightarrow> replay_step s s'"
| move: "run_ok r \<Longrightarrow> transition_run r s = (x, s') \<Longrightarrow> replay_step s s'"

definition runs_ok :: "run_store \<Rightarrow> bool" where
  "runs_ok s \<longleftrightarrow> (\<forall>k r. key_cell k s = Some r \<longrightarrow> run_ok r)"

definition outcomes_kept :: "run_store \<Rightarrow> run_store \<Rightarrow> bool" where
  "outcomes_kept s s' \<longleftrightarrow> (\<forall>k r. key_cell k s = Some r \<and> terminal_replay (rr_state r) \<longrightarrow> key_cell k s' = Some r)"

lemma cas_run_alone: "cas_run [] i f s = (Inr (f (key_cell (replay_run_key i) s)), put_json s (replay_run_key i) (f (key_cell (replay_run_key i) s)))"
  by (simp add: cas_run_def update_json_cas_alone)

lemma cancelled_run_ok [simp]: "run_ok (cancelled_run r)"
  by (simp add: run_ok_def cancelled_run_def)

lemma transition_mutation_ok: "run_ok r \<Longrightarrow> (\<forall>c. cur = Some c \<longrightarrow> run_ok c) \<Longrightarrow> run_ok (transition_mutation r cur)"
  by (auto simp: run_ok_def transition_mutation_def split: option.split)

lemma transition_mutation_terminal:
  "cur = Some c \<Longrightarrow> terminal_replay (rr_state c) \<Longrightarrow> transition_mutation r cur = c"
  by (simp add: transition_mutation_def)

lemma runs_ok_put: "runs_ok s \<Longrightarrow> run_ok r \<Longrightarrow> runs_ok (put_json s k r)"
  by (simp add: runs_ok_def)

lemma replay_step_keeps:
  assumes "replay_step s s'" "runs_ok s"
  shows "runs_ok s' \<and> outcomes_kept s s'"
  using assms(1)
proof (cases rule: replay_step.cases)
  case (create fresh cfg snaps q res)
  then show ?thesis using assms(2)
    by (cases "validate_replay cfg snaps q")
      (auto simp: create_replay_run_def cas_run_alone outcomes_kept_def run_ok_def intro!: runs_ok_put)
next
  case (cancel i res)
  then show ?thesis using assms(2)
    by (auto simp: cancel_replay_run_def cas_run_alone cancel_mutation_def runs_ok_def outcomes_kept_def split: option.splits if_splits)
next
  case (move r x)
  have "run_ok (transition_mutation r (key_cell (replay_run_key (rr_id r)) s))"
    using transition_mutation_ok[OF move(1)] assms(2) by (auto simp: runs_ok_def)
  then show ?thesis using move(2) assms(2)
    by (auto simp: transition_run_def Let_def outcomes_kept_def transition_mutation_terminal intro!: runs_ok_put)
qed

lemma replay_steps_keep: "replay_step\<^sup>*\<^sup>* s s' \<Longrightarrow> runs_ok s \<Longrightarrow> runs_ok s' \<and> outcomes_kept s s'"
proof (induction rule: rtranclp_induct)
  case (step y z)
  then show ?case using replay_step_keeps[of y z] unfolding outcomes_kept_def by metis
qed (simp add: outcomes_kept_def)

lemma transition_stores:
  "transition_run r s = (x, s') \<Longrightarrow> key_cell (replay_run_key (rr_id r)) s' = Some x"
  by (auto simp: transition_run_def Let_def)

lemma transition_ends:
  "transition_run r s = (x, s') \<Longrightarrow> terminal_replay (rr_state r) \<Longrightarrow> terminal_replay (rr_state x)"
  by (auto simp: transition_run_def Let_def transition_mutation_def terminal_replay_def split: option.splits if_splits)

lemma transition_not_running:
  "transition_run r s = (x, s') \<Longrightarrow> rr_state r = ReplayRunning \<Longrightarrow> rr_state x = ReplayRunning \<or> terminal_replay (rr_state x)"
  by (auto simp: transition_run_def Let_def transition_mutation_def terminal_replay_def split: option.splits if_splits)

lemma finished_run_terminal: "terminal_replay (rr_state (finished_run r x))"
  by (cases x) (simp_all add: finished_run_def terminal_replay_def)

lemma finished_run_id [simp]: "rr_id (finished_run r x) = rr_id r"
  by (cases x) (simp_all add: finished_run_def)

section \<open>Normalization\<close>

lemma lower_char_cases:
  "is_space (lower_char c) = is_space c" "lower_char c = CHR '' '' \<longleftrightarrow> c = CHR '' ''" "lower_char c = CHR '';'' \<longleftrightarrow> c = CHR '';''"
proof -
  define n :: nat where "n = of_char c"
  have n: "n < 256" by (simp add: n_def)
  have l: "of_char (lower_char c) = (if 65 \<le> n \<and> n \<le> 90 then n + 32 else n)"
    by (auto simp: lower_char_def Let_def n_def)
  show "is_space (lower_char c) = is_space c"
    unfolding is_space_def Let_def l n_def[symmetric] by auto
  have "of_char (lower_char c) = (of_char CHR '' '' :: nat) \<longleftrightarrow> n = of_char CHR '' ''" unfolding l by auto
  then show "lower_char c = CHR '' '' \<longleftrightarrow> c = CHR '' ''" unfolding n_def by (simp only: of_char_eq_iff)
  have "of_char (lower_char c) = (of_char CHR '';'' :: nat) \<longleftrightarrow> n = of_char CHR '';''" unfolding l by auto
  then show "lower_char c = CHR '';'' \<longleftrightarrow> c = CHR '';''" unfolding n_def by (simp only: of_char_eq_iff)
qed

lemma dropWhile_space_lower: "dropWhile is_space (map lower_char s) = map lower_char (dropWhile is_space s)"
  by (induction s) (auto simp: lower_char_cases)

lemma take_lower_space: "take 1 (map lower_char r) = '' '' \<longleftrightarrow> take 1 r = '' ''"
  by (cases r) (simp_all add: lower_char_cases)

lemma collapse_lower: "collapse_spaces (map lower_char s) = map lower_char (collapse_spaces s)"
proof (induction s)
  case (Cons c s)
  have "lower_char CHR '' '' = CHR '' ''" by (simp add: lower_char_cases(2))
  then show ?case using Cons
    by (simp only: list.map collapse_spaces.simps Let_def lower_char_cases(1) take_lower_space split: if_splits) simp
qed simp

lemma drop_semicolons_lower: "drop_semicolons (map lower_char s) = map lower_char (drop_semicolons s)"
proof (induction s rule: drop_semicolons.induct)
  case (1 s)
  show ?case
  proof (cases s)
    case (Cons c cs)
    then show ?thesis using 1[OF Cons]
      by (subst (1 2) drop_semicolons.simps) (auto simp: lower_char_cases dropWhile_space_lower)
  qed (simp add: drop_semicolons.simps)
qed

lemma py_strip_lower: "py_strip (map lower_char s) = map lower_char (py_strip s)"
  by (simp add: py_strip_def lstrip_by_def rstrip_by_def dropWhile_space_lower rev_map)

lemma lower_char_idem: "lower_char (lower_char c) = lower_char c"
proof -
  define n :: nat where "n = of_char c"
  have "of_char (lower_char c) = (if 65 \<le> n \<and> n \<le> 90 then n + 32 else n)"
    by (auto simp: lower_char_def Let_def n_def)
  then show ?thesis unfolding lower_char_def[of "lower_char c"] Let_def by (auto split: if_splits)
qed

lemma normalize_lower: "normalize_fixture_sql py_lower (py_lower s) = normalize_fixture_sql py_lower s"
  by (simp add: normalize_fixture_sql_def py_lower_def collapse_lower py_strip_lower drop_semicolons_lower comp_def lower_char_idem rev_map)

lemma normalize_case: "py_lower s = py_lower t \<Longrightarrow> normalize_fixture_sql py_lower s = normalize_fixture_sql py_lower t"
  using normalize_lower[of s] normalize_lower[of t] by simp

section \<open>Properties\<close>



text \<open>A replay may be answered with another query's rows: fixtures are keyed by a normalization that also
  folds the case of string literals, so a fixture captured for one query is what every query equal to
  it up to case gets, although their literals differ.\<close>

theorem fixture_ignores_literal_case:
  assumes "create_sql_fixture (rv_digest env) py_lower (rq_snapshot q) sql1 rows s = (Some f, rv_fixtures env)"
    "rv_casefold env = py_lower" "py_lower sql1 = py_lower sql2" "rx_sql (rv_executor env) (rq_question q) cfg = Some sql2"
  shows "fixture_rows env q cfg ''database'' = Inr (Some rows)"
proof -
  have "key_cell (sql_result_fixture_key (rq_snapshot q) (rv_digest env (normalize_fixture_sql py_lower sql1))) (rv_fixtures env) = Some f"
    "sf_rows f = rows"
    using assms(1) by (auto simp: create_sql_fixture_def Let_def create_json_iff split: if_splits option.splits dest!: sym[of _ "rv_fixtures env"])
  then show ?thesis using assms(2,4) normalize_case[OF assms(3)] by (simp add: fixture_rows_def Let_def)
qed

text \<open>A corpus snapshot records deleted documents: deletion keeps the active version of the record, and
  the manifest takes every listed record that has one, so a document of which retrieval shows nothing
  is part of the snapshot a replay is scoped to.\<close>

theorem snapshot_contains_deleted:
  assumes "delete_document p None d c = (Inr (Some r), c')" "d_active r = Some v" "scope = None \<or> scope = Some [d_id r]" "r \<in> set docs"
  shows "(d_id r, v) \<in> set (snapshot_manifest scope docs) \<and> published_version_of (Some r) = None"
proof -
  have "d_status r = Deleted"
    using assms(1) by (auto simp: delete_document_def Let_def split: prod.splits option.splits if_splits sum.splits)
  then show ?thesis using assms(2-4)
    by (auto simp: snapshot_manifest_def published_version_of_def map_filter_def image_iff intro!: bexI[of _ r])
qed
definition demo_replay_request :: replay_request where
  "demo_replay_request = \<lparr>rq_question = ''who?'', rq_version = ''v'', rq_max_passages = 5, rq_min_score = 0, rq_snapshot = ''s''\<rparr>"

definition demo_ai_version :: ai_version where
  "demo_ai_version = \<lparr>av_config = ''c'', av_id = ''v'', av_prompt = ''p'', av_model = ''m'', av_schema = ''{}'', av_threshold = 1 / 2,
     av_retrieval = [], av_description = ''d'', av_created_at = ''now'', av_approved = True, av_approver = None, av_approved_at = None\<rparr>"

definition demo_failed_run :: replay_run where
  "demo_failed_run = \<lparr>rr_id = ''r'', rr_state = ReplayFailed, rr_request = demo_replay_request, rr_result = None,
     rr_failure = Some TimedOut, rr_cancel = False\<rparr>"

definition demo_replay_env :: replay_env where
  "demo_replay_env = \<lparr>rv_executor = \<lparr>rx_classify = \<lambda>_ _. Some ''database'', rx_retrieve = \<lambda>_ _ _ _ _. Some ([], []),
       rx_sql = \<lambda>_ _. Some ''SELECT 1 FROM t WHERE n = 'AB';'', rx_generate = \<lambda>_ _ _ _ _. None\<rparr>,
     rv_configs = empty_ai_store, rv_snapshots = empty_store,
     rv_fixtures = snd (create_sql_fixture id py_lower ''s'' ''SELECT 1 FROM t WHERE n = 'ab';'' [] empty_store),
     rv_digest = id, rv_casefold = py_lower, rv_pricing = Map.empty, rv_timeout = 10, rv_elapsed = of_nat,
     rv_others = (\<lambda>_ s. s)\<rparr>"



theorem fixture_ignores_literal_case_witness:
  "fixture_rows demo_replay_env demo_replay_request demo_ai_version ''database'' = Inr (Some [])"
proof -
  let ?q = "''SELECT 1 FROM t WHERE n = 'ab';''"
  have lower: "py_lower ?q = py_lower ''SELECT 1 FROM t WHERE n = 'AB';''" by code_simp
  obtain f where "create_sql_fixture id py_lower ''s'' ?q [] empty_store = (Some f, snd (create_sql_fixture id py_lower ''s'' ?q [] empty_store))"
    by (simp add: create_sql_fixture_def create_json_iff empty_store_def key_cell_def Let_def)
  then show ?thesis
    by (intro fixture_ignores_literal_case[where s = empty_store and f = f and ?sql1.0 = ?q and ?sql2.0 = "''SELECT 1 FROM t WHERE n = 'AB';''"])
      (simp_all only: lower, simp_all add: demo_replay_env_def demo_replay_request_def)
qed

theorem snapshot_contains_deleted_witness:
  "\<exists>r c'. delete_document 0 None ''d'' demo_corpus = (Inr (Some r), c') \<and> (''d'', ''v1'') \<in> set (snapshot_manifest None [r]) \<and>
     published_version_of (Some r) = None"
proof -
  have st: "stored_record demo_corpus ''d'' = Some demo_record" using demo_ready by (simp add: ready_def demo_record_def)
  let ?r = "demo_record\<lparr>d_status := Deleted, d_error := None\<rparr>"
  have ids: "d_id demo_record = ''d''" "d_active demo_record = Some ''v1''" "d_status demo_record \<noteq> Deleted"
    by (simp_all add: demo_record_def)
  obtain c' where c: "delete_document 0 None ''d'' demo_corpus = (Inr (Some ?r), c')"
    using st ids
    by (simp add: delete_document_def get_document_def Let_def demo_corpus_def empty_corpus_def save_document_record_eq stored_record_def
        reject_illegal_write_def)
  show ?thesis using snapshot_contains_deleted[OF c, of "''v1''" None "[?r]"] c ids by auto
qed

end
