(* ===== verification/Metrics.thy ===== *)
theory Metrics
  imports Json "HOL-Library.AList" "HOL-Library.List_Lexorder" "HOL-Library.Char_ord" "HOL-Library.Product_Lexorder"
begin

text \<open>
  The in-process metrics of \<open>observability.py\<close>: counters, sliding windows of samples with their running
  sums, the text exposition, the timing wrapper, the per-request token tally and the entry of the
  structured log formatter. Dictionaries are association lists in insertion order. The rendering of
  a number is an argument.
\<close>

section \<open>Registry\<close>

type_synonym labels = "(string \<times> string) list"

type_synonym metric_key = "string \<times> labels"

definition normalise_labels :: "labels \<Rightarrow> labels" where
  "normalise_labels kvs = sort kvs"

record registry =
  mr_counters :: "(metric_key \<times> pyfloat) list"
  mr_samples :: "(metric_key \<times> pyfloat list) list"
  mr_sums :: "(metric_key \<times> pyfloat) list"

definition empty_registry :: registry where
  "empty_registry = \<lparr>mr_counters = [], mr_samples = [], mr_sums = []\<rparr>"

definition value_at :: "'v \<Rightarrow> ('k \<times> 'v) list \<Rightarrow> 'k \<Rightarrow> 'v" where
  "value_at d xs k = (case map_of xs k of Some v \<Rightarrow> v | None \<Rightarrow> d)"

definition increment :: "string \<Rightarrow> labels \<Rightarrow> pyfloat \<Rightarrow> registry \<Rightarrow> registry" where
  "increment name ls amount r =
     (let key = (name, normalise_labels ls)
      in r\<lparr>mr_counters := AList.update key (value_at 0 (mr_counters r) key + amount) (mr_counters r)\<rparr>)"

text \<open>Appending to a deque of bounded length drops from the front.\<close>

definition deque_append :: "nat \<Rightarrow> 'a list \<Rightarrow> 'a \<Rightarrow> 'a list" where
  "deque_append n xs x = drop (Suc (length xs) - n) (xs @ [x])"

text \<open>The window must hold a sample: with \<open>max_samples = 0\<close> the code raises, which is \<open>False\<close> here.\<close>

definition observe :: "nat \<Rightarrow> string \<Rightarrow> pyfloat \<Rightarrow> labels \<Rightarrow> registry \<Rightarrow> bool \<times> registry" where
  "observe max_samples name value ls r =
     (let key = (name, normalise_labels ls);
          r0 = (if map_of (mr_samples r) key = None
                then r\<lparr>mr_samples := AList.update key [] (mr_samples r), mr_sums := AList.update key 0 (mr_sums r)\<rparr> else r);
          xs = value_at [] (mr_samples r0) key
      in if length xs = max_samples \<and> xs = [] then (False, r0)
         else (let s = value_at 0 (mr_sums r0) key - (if length xs = max_samples then hd xs else 0)
               in (True, r0\<lparr>mr_samples := AList.update key (deque_append max_samples xs value) (mr_samples r0),
                            mr_sums := AList.update key (s + value) (mr_sums r0)\<rparr>)))"

section \<open>Exposition\<close>

definition replace_char :: "char \<Rightarrow> string \<Rightarrow> string \<Rightarrow> string" where
  "replace_char c t s = concat (map (\<lambda>x. if x = c then t else [x]) s)"

definition escape_label :: "string \<Rightarrow> string" where
  "escape_label v =
     replace_char (CHR 0x0A) [CHR 0x5C, CHR ''n'']
       (replace_char (CHR 0x22) [CHR 0x5C, CHR 0x22] (replace_char (CHR 0x5C) [CHR 0x5C, CHR 0x5C] v))"

definition format_labels :: "labels \<Rightarrow> string" where
  "format_labels ls =
     (if ls = [] then []
      else ''{'' @ join_with '','' (map (\<lambda>(k, v). k @ ''='' @ [CHR 0x22] @ escape_label v @ [CHR 0x22]) ls) @ ''}'')"

definition quantile :: "pyfloat list \<Rightarrow> pyfloat \<Rightarrow> pyfloat" where
  "quantile xs q = (if length xs = 1 then hd xs else xs ! nat (round_half_even (of_nat (length xs - 1) * q)))"

definition quantiles :: "(string \<times> pyfloat) list" where
  "quantiles = [(''0.5'', 1 / 2), (''0.95'', 95 / 100), (''0.99'', 99 / 100)]"

fun counter_lines :: "(pyfloat \<Rightarrow> string) \<Rightarrow> string list \<Rightarrow> (metric_key \<times> pyfloat) list \<Rightarrow> string list" where
  "counter_lines fmt seen [] = []"
| "counter_lines fmt seen (((name, ls), v) # r) =
     (if name \<in> set seen then [] else [''# TYPE '' @ name @ '' counter'']) @
     [name @ format_labels ls @ '' '' @ fmt v] @ counter_lines fmt (name # seen) r"

definition summary_lines :: "(pyfloat \<Rightarrow> string) \<Rightarrow> string \<Rightarrow> labels \<Rightarrow> pyfloat list \<Rightarrow> pyfloat \<Rightarrow> string list" where
  "summary_lines fmt name ls values tot =
     (let xs = sort values
      in map (\<lambda>(txt, q). name @ format_labels (ls @ [(''quantile'', txt)]) @ '' '' @ fmt (quantile xs q)) quantiles @
         [name @ ''_count'' @ format_labels ls @ '' '' @ show_nat (length xs),
          name @ ''_sum'' @ format_labels ls @ '' '' @ fmt tot,
          name @ ''_min'' @ format_labels ls @ '' '' @ fmt (hd xs),
          name @ ''_max'' @ format_labels ls @ '' '' @ fmt (last xs)])"

fun sample_lines :: "(pyfloat \<Rightarrow> string) \<Rightarrow> (metric_key \<times> pyfloat) list \<Rightarrow> string list \<Rightarrow> (metric_key \<times> pyfloat list) list \<Rightarrow> string list" where
  "sample_lines fmt tots seen [] = []"
| "sample_lines fmt tots seen (((name, ls), values) # r) =
     (if values = [] then sample_lines fmt tots seen r
      else (if name \<in> set seen then [] else [''# TYPE '' @ name @ '' summary'']) @
           summary_lines fmt name ls values (value_at 0 tots (name, ls)) @ sample_lines fmt tots (name # seen) r)"

definition render_prometheus :: "(pyfloat \<Rightarrow> string) \<Rightarrow> registry \<Rightarrow> string list" where
  "render_prometheus fmt r =
     [''# HELP rag_build_info Static application build metadata.'', ''# TYPE rag_build_info gauge'',
      ''rag_build_info{service='' @ [CHR 0x22] @ ''production-rag'' @ [CHR 0x22] @ ''} 1''] @
     counter_lines fmt [] (sort_key fst (mr_counters r)) @
     sample_lines fmt (mr_sums r) [] (sort_key fst (mr_samples r))"

section \<open>Timing, tokens, log entries\<close>

datatype block_end = BlockReturned | BlockRaised | BlockCancelled

text \<open>Only exceptions are caught, not cancellations; the result is the registry after the block.\<close>

definition timed_metrics :: "nat \<Rightarrow> string \<Rightarrow> block_end \<Rightarrow> pyfloat \<Rightarrow> registry \<Rightarrow> registry" where
  "timed_metrics n operation e ms r =
     (let record = (\<lambda>status. snd (observe n ''rag_operation_duration_ms'' ms [(''operation'', operation), (''status'', status)]
                      (increment ''rag_operation_total'' [(''operation'', operation), (''status'', status)] 1 r)))
      in case e of BlockReturned \<Rightarrow> record ''success'' | BlockRaised \<Rightarrow> record ''error'' | BlockCancelled \<Rightarrow> r)"

text \<open>The tally of a request; \<open>None\<close> when no request is tracked. A float that is not finite raises.\<close>

datatype token_error = ValueErrorNan | OverflowErrorInfinite

fun add_tokens :: "json \<Rightarrow> int option \<Rightarrow> token_error + int option" where
  "add_tokens v None = Inr None"
| "add_tokens (JInt i) (Some n) = Inr (Some (n + i))"
| "add_tokens (JBool b) (Some n) = Inr (Some (n + (if b then 1 else 0)))"
| "add_tokens (JFloat x) (Some n) = Inr (Some (n + py_int x))"
| "add_tokens JNan (Some n) = Inl ValueErrorNan"
| "add_tokens (JInfinite _) (Some n) = Inl OverflowErrorInfinite"
| "add_tokens _ (Some n) = Inr (Some n)"

definition get_token_total :: "int option \<Rightarrow> int" where
  "get_token_total c = (case c of Some n \<Rightarrow> n | None \<Rightarrow> 0)"

text \<open>The fields of a structured log line, in the order they are written.\<close>

definition log_entry :: "string list \<Rightarrow> string \<Rightarrow> string \<Rightarrow> string \<Rightarrow> string \<Rightarrow> string option \<Rightarrow> (string \<rightharpoonup> json) \<Rightarrow> (string \<times> json) list" where
  "log_entry extra_fields ts level logger msg exc attrs =
     [(''ts'', JStr ts), (''level'', JStr level), (''logger'', JStr logger), (''msg'', JStr msg)] @
     (case exc of Some e \<Rightarrow> [(''exc'', JStr e)] | None \<Rightarrow> []) @
     List.map_filter (\<lambda>k. case attrs k of
         None \<Rightarrow> None | Some JNull \<Rightarrow> None
       | Some v \<Rightarrow> if k = ''trace_id'' \<and> v = JStr ''-'' then None else Some (k, v)) extra_fields"

section \<open>What a registry reports\<close>

datatype metric_op = Inc string labels pyfloat | Obs string labels pyfloat

fun apply_metric :: "nat \<Rightarrow> metric_op \<Rightarrow> registry \<Rightarrow> registry" where
  "apply_metric n (Inc name ls a) r = increment name ls a r"
| "apply_metric n (Obs name ls v) r = snd (observe n name v ls r)"

definition counted :: "metric_key \<Rightarrow> metric_op \<Rightarrow> pyfloat list" where
  "counted k op = (case op of Inc name ls a \<Rightarrow> if (name, normalise_labels ls) = k then [a] else [] | _ \<Rightarrow> [])"

definition observed :: "metric_key \<Rightarrow> metric_op \<Rightarrow> pyfloat list" where
  "observed k op = (case op of Obs name ls v \<Rightarrow> if (name, normalise_labels ls) = k then [v] else [] | _ \<Rightarrow> [])"

definition last_n :: "nat \<Rightarrow> 'a list \<Rightarrow> 'a list" where
  "last_n n xs = drop (length xs - n) xs"

lemma last_n_append: "0 < n \<Longrightarrow> deque_append n (last_n n xs) x = last_n n (xs @ [x])"
  by (cases "n \<le> length xs") (simp_all add: deque_append_def last_n_def Suc_diff_le)

lemma length_last_n [simp]: "length (last_n n xs) = min n (length xs)"
  by (simp add: last_n_def)

lemma last_n_full: "length xs < n \<Longrightarrow> last_n n (xs @ [x]) = xs @ [x]"
  by (simp add: last_n_def)

lemma sum_last_n:
  assumes "0 < n"
  shows "sum_list (last_n n (xs @ [x])) =
    sum_list (last_n n xs) - (if length (last_n n xs) = n then hd (last_n n xs) else 0) + (x :: pyfloat)"
proof (cases "n \<le> length xs")
  case True
  let ?d = "length xs - n"
  have "?d < length xs" using assms True by simp
  then have h: "drop ?d xs = xs ! ?d # drop (Suc ?d) xs" by (simp add: Cons_nth_drop_Suc)
  have "last_n n (xs @ [x]) = drop (Suc ?d) xs @ [x]"
    using True assms by (simp add: last_n_def Suc_diff_le)
  then show ?thesis using True h assms by (simp add: last_n_def)
next
  case False
  then show ?thesis by (simp add: last_n_def)
qed

definition reports :: "nat \<Rightarrow> metric_op list \<Rightarrow> registry \<Rightarrow> bool" where
  "reports n ops r \<longleftrightarrow>
     (\<forall>k. value_at 0 (mr_counters r) k = sum_list (concat (map (counted k) ops)) \<and>
          value_at [] (mr_samples r) k = last_n n (concat (map (observed k) ops)) \<and>
          value_at 0 (mr_sums r) k = sum_list (last_n n (concat (map (observed k) ops))))"

lemma value_at_update: "value_at d (AList.update k v xs) k' = (if k' = k then v else value_at d xs k')"
  by (simp add: value_at_def update_conv)

lemma observe_eq:
  assumes "0 < n"
  shows "observe n name v ls r = (True, snd (observe n name v ls r))"
    "mr_counters (snd (observe n name v ls r)) = mr_counters r"
    "value_at [] (mr_samples (snd (observe n name v ls r))) k =
       (if k = (name, normalise_labels ls) then deque_append n (value_at [] (mr_samples r) k) v else value_at [] (mr_samples r) k)"
    "(map_of (mr_samples r) (name, normalise_labels ls) = None \<Longrightarrow> value_at 0 (mr_sums r) (name, normalise_labels ls) = 0) \<Longrightarrow>
     value_at 0 (mr_sums (snd (observe n name v ls r))) k =
       (if k = (name, normalise_labels ls)
        then value_at 0 (mr_sums r) k - (if length (value_at [] (mr_samples r) k) = n then hd (value_at [] (mr_samples r) k) else 0) + v
        else value_at 0 (mr_sums r) k)"
  using assms by (auto simp: observe_def Let_def value_at_update) (auto simp: value_at_def)

lemma reports_empty: "reports n [] empty_registry"
  by (simp add: reports_def empty_registry_def value_at_def last_n_def)

lemma reports_step:
  assumes "0 < n" "reports n ops r"
  shows "reports n (ops @ [op]) (apply_metric n op r)"
proof (cases op)
  case (Inc name ls a)
  then show ?thesis using assms(2)
    by (simp add: reports_def increment_def Let_def value_at_update counted_def observed_def)
next
  case (Obs name ls v)
  let ?k = "(name, normalise_labels ls)"
  note s = assms(2)[unfolded reports_def, rule_format]
  have z: "value_at 0 (mr_sums r) ?k = 0" if "map_of (mr_samples r) ?k = None"
  proof -
    have "value_at [] (mr_samples r) ?k = []" using that by (simp add: value_at_def)
    then show ?thesis using s[of ?k] by (metis sum_list.Nil)
  qed
  show ?thesis
    unfolding reports_def
    using Obs observe_eq[OF assms(1), where name = name and v = v and ls = ls and r = r] z s
    by (auto simp: counted_def observed_def last_n_append[OF assms(1)] sum_last_n[OF assms(1)])
qed

lemma fold_reports: "0 < n \<Longrightarrow> reports n ops r \<Longrightarrow> reports n (ops @ ops') (fold (apply_metric n) ops' r)"
proof (induction ops' arbitrary: ops r)
  case (Cons op ops')
  from Cons.IH[OF Cons.prems(1) reports_step[OF Cons.prems], of op] show ?case by simp
qed simp

text \<open>The registry reports exactly what was recorded: after any sequence of increments and observations, in
  any interleaving of names and labels, a counter is the sum of its increments, a summary holds the last
  observations of its key up to the window, and its running sum is the sum of that window.\<close>

theorem registry_reports_operations:
  assumes "0 < n"
  shows "value_at 0 (mr_counters (fold (apply_metric n) ops empty_registry)) k = sum_list (concat (map (counted k) ops)) \<and>
     value_at [] (mr_samples (fold (apply_metric n) ops empty_registry)) k = last_n n (concat (map (observed k) ops)) \<and>
     value_at 0 (mr_sums (fold (apply_metric n) ops empty_registry)) k = sum_list (last_n n (concat (map (observed k) ops)))"
  using fold_reports[OF assms reports_empty, of ops] unfolding reports_def append_Nil by (rule spec)

theorem registry_reports_operations_witness:
  "value_at 0 (mr_sums (fold (apply_metric 2) [Obs ''m'' [] 1, Inc ''c'' [] 1, Obs ''m'' [] 2, Obs ''m'' [] 5] empty_registry)) (''m'', []) = 7"
  using registry_reports_operations[of 2 "[Obs ''m'' [] 1, Inc ''c'' [] 1, Obs ''m'' [] 2, Obs ''m'' [] 5]" "(''m'', [])"]
  by (simp add: observed_def normalise_labels_def last_n_def)

section \<open>Label values\<close>

text \<open>A label value is recovered from its escaped form, so distinct series are rendered distinctly.\<close>

fun unescape_label :: "string \<Rightarrow> string" where
  "unescape_label (b # c # r) =
     (if b = CHR 0x5C then (if c = CHR ''n'' then CHR 0x0A else c) # unescape_label r else b # unescape_label (c # r))"
| "unescape_label r = r"

lemma escape_label_Cons:
  "escape_label (c # s) =
     (if c = CHR 0x5C then [CHR 0x5C, CHR 0x5C] else if c = CHR 0x22 then [CHR 0x5C, CHR 0x22]
      else if c = CHR 0x0A then [CHR 0x5C, CHR ''n''] else [c]) @ escape_label s"
  by (simp add: escape_label_def replace_char_def)

lemma unescape_escape: "unescape_label (escape_label s) = s"
proof (induction s)
  case (Cons c s)
  show ?case
  proof (cases "c \<in> {CHR 0x5C, CHR 0x22, CHR 0x0A}")
    case True
    then show ?thesis using Cons by (auto simp: escape_label_Cons)
  next
    case False
    then show ?thesis using Cons by (cases "escape_label s") (auto simp: escape_label_Cons)
  qed
qed (simp add: escape_label_def replace_char_def)

lemma escape_label_inject: "escape_label v = escape_label w \<longleftrightarrow> v = w"
  using unescape_escape[of v] unescape_escape[of w] by metis

end
