(* ===== verification/Tracing.thy ===== *)
theory Tracing
  imports Metrics "HOL-Library.While_Combinator"
begin

text \<open>
  Capture of execution traces, \<open>observability_tracing\<close>: the bounded buffer (\<open>buffers.py\<close>), the sampling
  decision (\<open>sampler.py\<close>), the context variables and their propagation into threads
  (\<open>context.py\<close>), and the span recorder (\<open>recorder.py\<close>). A block under \<open>start_trace\<close> or
  \<open>record_span\<close> is a list of steps: nested blocks, annotations of the current span, and raising. Fresh
  identifiers, the clock and \<open>str\<close> of a value are arguments, read at the ticks of a counter.
\<close>

section \<open>Spans\<close>

datatype span_status = SpanSuccess | SpanError

record span =
  sp_id :: ident
  sp_parent :: "ident option"
  sp_operation :: string
  sp_begin :: int
  sp_duration :: int
  sp_status :: span_status
  sp_attributes :: "(string \<times> json) list"
  sp_trace :: "ident option"
  sp_route :: "string option"
  sp_config :: "(ident option \<times> (string \<times> json) list) option"

section \<open>Buffers\<close>

record 'a buffer =
  bf_capacity :: nat
  bf_items :: "'a list"
  bf_dropped :: nat

definition make_buffer :: "int \<Rightarrow> 'a buffer option" where
  "make_buffer capacity = (if capacity < 1 then None else Some \<lparr>bf_capacity = nat capacity, bf_items = [], bf_dropped = 0\<rparr>)"

definition offer :: "'a \<Rightarrow> 'a buffer \<Rightarrow> bool \<times> 'a buffer" where
  "offer x b =
     (if bf_capacity b \<le> length (bf_items b) then (False, b\<lparr>bf_dropped := bf_dropped b + 1\<rparr>)
      else (True, b\<lparr>bf_items := bf_items b @ [x]\<rparr>))"

definition drain :: "'a buffer \<Rightarrow> 'a list \<times> 'a buffer" where
  "drain b = (bf_items b, b\<lparr>bf_items := []\<rparr>)"

definition offer_all :: "'a list \<Rightarrow> 'a buffer \<Rightarrow> 'a buffer" where
  "offer_all xs b = fold (\<lambda>x b. snd (offer x b)) xs b"

definition buffer_ok :: "'a buffer \<Rightarrow> bool" where
  "buffer_ok b \<longleftrightarrow> length (bf_items b) \<le> bf_capacity b"

section \<open>Sampling and context\<close>

definition should_record :: "bool \<Rightarrow> pyfloat \<Rightarrow> pyfloat \<Rightarrow> bool \<Rightarrow> bool" where
  "should_record enabled rate draw has_header \<longleftrightarrow> (if \<not> enabled then False else if has_header then True else draw < rate)"

record trace_ctx =
  cx_trace :: "ident option"
  cx_span :: "ident option"
  cx_recording :: bool

definition null_context :: trace_ctx where
  "null_context = \<lparr>cx_trace = None, cx_span = None, cx_recording = False\<rparr>"

section \<open>The recorder\<close>

record trace_env =
  tv_fresh :: "nat \<Rightarrow> ident"
  tv_now :: "nat \<Rightarrow> int"
  tv_elapsed :: "nat \<Rightarrow> pyfloat"
  tv_str :: "json \<Rightarrow> string option"
  tv_window :: nat

record recorder =
  rc_ctx :: trace_ctx
  rc_active :: "ident list"
  rc_buffer :: "span buffer"
  rc_metrics :: registry
  rc_tick :: nat

fun scalar :: "json \<Rightarrow> bool" where
  "scalar JNull = False"
| "scalar (JArr _) = False"
| "scalar (JObj _) = False"
| "scalar _ = True"

text \<open>\<open>False\<close>: \<open>str\<close> of a value raised; the attributes before it are set.\<close>

fun set_attributes :: "trace_env \<Rightarrow> (string \<times> json) list \<Rightarrow> (string \<times> json) list \<Rightarrow> bool \<times> (string \<times> json) list" where
  "set_attributes env [] attrs = (True, attrs)"
| "set_attributes env ((k, v) # kvs) attrs =
     (if scalar v then set_attributes env kvs (AList.update k v attrs)
      else case tv_str env v of
             None \<Rightarrow> (False, attrs)
           | Some t \<Rightarrow> set_attributes env kvs (AList.update k (JStr t) attrs))"

definition noop_span :: "trace_env \<Rightarrow> nat \<Rightarrow> span" where
  "noop_span env t = \<lparr>sp_id = [], sp_parent = None, sp_operation = [], sp_begin = tv_now env t, sp_duration = 0,
     sp_status = SpanSuccess, sp_attributes = [], sp_trace = None, sp_route = None, sp_config = None\<rparr>"

definition max_exception_message_length :: nat where "max_exception_message_length = 4096"

type_synonym exn = "string \<times> string"

definition record_exception :: "exn \<Rightarrow> (string \<times> json) list \<Rightarrow> (string \<times> json) list" where
  "record_exception e attrs =
     AList.update ''exception.message'' (JStr (take max_exception_message_length (snd e)))
       (AList.update ''exception.type'' (JStr (fst e)) attrs)"

definition status_text :: "span_status \<Rightarrow> string" where
  "status_text s = (case s of SpanSuccess \<Rightarrow> ''success'' | SpanError \<Rightarrow> ''error'')"

definition emit_operation_metrics :: "nat \<Rightarrow> string \<Rightarrow> span_status \<Rightarrow> pyfloat \<Rightarrow> registry \<Rightarrow> registry" where
  "emit_operation_metrics n operation s ms r =
     (let ls = [(''operation'', operation), (''status'', status_text s)]
      in snd (observe n ''rag_operation_duration_ms'' ms ls (increment ''rag_operation_total'' ls 1 r)))"

text \<open>The finished span, from the elapsed time and how its block ended.\<close>

definition finish_span :: "pyfloat \<Rightarrow> exn option \<Rightarrow> span \<Rightarrow> span" where
  "finish_span ms e sp =
     sp\<lparr>sp_duration := max 0 (round_half_even ms), sp_status := (if e = None then SpanSuccess else SpanError),
        sp_attributes := (case e of None \<Rightarrow> sp_attributes sp | Some x \<Rightarrow> record_exception x (sp_attributes sp))\<rparr>"

text \<open>Closing a span: metrics, the parent's context, the active identifiers, the buffer.\<close>

definition close_span :: "trace_env \<Rightarrow> span \<Rightarrow> string \<Rightarrow> exn option \<Rightarrow> trace_ctx \<Rightarrow> ident option \<Rightarrow> recorder \<Rightarrow> recorder" where
  "close_span env sp operation e ctx release r =
     (let ms = tv_elapsed env (rc_tick r);
          sp' = finish_span ms e sp
      in r\<lparr>rc_ctx := ctx,
           rc_active := (case release of None \<Rightarrow> rc_active r | Some t \<Rightarrow> removeAll t (rc_active r)),
           rc_buffer := snd (offer sp' (rc_buffer r)),
           rc_metrics := emit_operation_metrics (tv_window env) operation (sp_status sp') ms (rc_metrics r),
           rc_tick := rc_tick r + 1\<rparr>)"

datatype block_step =
    Nested string "(string \<times> json) list" "block_step list" bool
  | Annotate "(string \<times> json) list"
  | Stamp "ident option" "(string \<times> json) list"
  | Raise exn

text \<open>\<open>set_trace_config\<close>: the attributes it sets and the pair it attaches for the flush worker; it raises
  when the settings have no text.\<close>

definition set_trace_config :: "trace_env \<Rightarrow> ident option \<Rightarrow> (string \<times> json) list \<Rightarrow> span \<Rightarrow> bool \<times> span" where
  "set_trace_config env version settings sp =
     (let attrs = AList.update ''ai_configuration_version_id''
                    (JStr (case or_none version of Some v \<Rightarrow> v | None \<Rightarrow> ''unresolved'')) (sp_attributes sp)
      in case tv_str env (JObj settings) of
           None \<Rightarrow> (False, sp\<lparr>sp_attributes := attrs\<rparr>)
         | Some t \<Rightarrow> (True, sp\<lparr>sp_attributes := AList.update ''_resolved_settings'' (JStr t) attrs, sp_config := Some (version, settings)\<rparr>))"

text \<open>A block's steps run until one raises; a nested block marked as caught contains what it raises. The
  span being annotated is passed along. When the context does not record, nothing is built.\<close>

fun run_block :: "trace_env \<Rightarrow> block_step list \<Rightarrow> span \<Rightarrow> recorder \<Rightarrow> exn option \<times> span \<times> recorder" where
  "run_block env [] cur r = (None, cur, r)"
| "run_block env (Annotate kvs # rest) cur r =
     (case set_attributes env kvs (sp_attributes cur) of
        (ok, attrs) \<Rightarrow>
          if ok then run_block env rest (cur\<lparr>sp_attributes := attrs\<rparr>) r
          else (Some (''Exception'', []), cur\<lparr>sp_attributes := attrs\<rparr>, r))"
| "run_block env (Stamp version settings # rest) cur r =
     (case set_trace_config env version settings cur of
        (ok, cur') \<Rightarrow> if ok then run_block env rest cur' r else (Some (''Exception'', []), cur', r))"
| "run_block env (Raise e # rest) cur r = (Some e, cur, r)"
| "run_block env (Nested operation kvs body caught # rest) cur r =
     (let (e, r') =
        (if \<not> cx_recording (rc_ctx r)
         then (case run_block env body (noop_span env (rc_tick r)) r of (e, _, r') \<Rightarrow> (e, r'))
         else (let sp = \<lparr>sp_id = tv_fresh env (rc_tick r), sp_parent = cx_span (rc_ctx r), sp_operation = operation,
                         sp_begin = tv_now env (rc_tick r), sp_duration = 0, sp_status = SpanSuccess, sp_attributes = [],
                         sp_trace = cx_trace (rc_ctx r), sp_route = None, sp_config = None\<rparr>;
                   r1 = r\<lparr>rc_tick := rc_tick r + 1\<rparr>
               in (case set_attributes env kvs [] of
                     (False, _) \<Rightarrow> (case run_block env body (noop_span env (rc_tick r)) r1 of (e, _, r') \<Rightarrow> (e, r'))
                   | (True, attrs) \<Rightarrow>
                       (case run_block env body (sp\<lparr>sp_attributes := attrs\<rparr>)
                               (r1\<lparr>rc_ctx := (rc_ctx r)\<lparr>cx_span := Some (sp_id sp)\<rparr>\<rparr>) of
                          (e, sp', r2) \<Rightarrow> (e, close_span env sp' operation e (rc_ctx r) None r2)))))
      in if e \<noteq> None \<and> \<not> caught then (e, cur, r') else run_block env rest cur r')"

text \<open>A trace identifier: the candidate, or the first fresh one no open trace uses. \<open>None\<close> is a loop that
  never ends.\<close>

definition resolve_trace_id :: "trace_env \<Rightarrow> ident option \<Rightarrow> recorder \<Rightarrow> (ident \<times> recorder) option" where
  "resolve_trace_id env candidate r =
     (case candidate of
        Some i \<Rightarrow> Some (i, r\<lparr>rc_active := List.insert i (rc_active r)\<rparr>)
      | None \<Rightarrow>
          map_option (\<lambda>t. (tv_fresh env t, r\<lparr>rc_active := List.insert (tv_fresh env t) (rc_active r), rc_tick := t + 1\<rparr>))
            (while_option (\<lambda>t. tv_fresh env t \<in> set (rc_active r)) Suc (rc_tick r)))"

definition start_trace :: "trace_env \<Rightarrow> bool \<Rightarrow> pyfloat \<Rightarrow> pyfloat \<Rightarrow> ident option \<Rightarrow> string \<Rightarrow> block_step list \<Rightarrow> recorder
    \<Rightarrow> (exn option \<times> recorder) option" where
  "start_trace env enabled rate draw trace_id route body r =
     (let effective = (case or_none trace_id of Some i \<Rightarrow> Some i | None \<Rightarrow> cx_trace (rc_ctx r))
      in if \<not> should_record enabled rate draw (trace_id \<noteq> None)
         then (case run_block env body (noop_span env (rc_tick r)) (r\<lparr>rc_ctx := (rc_ctx r)\<lparr>cx_recording := False\<rparr>\<rparr>) of
                 (e, _, r') \<Rightarrow> Some (e, r'\<lparr>rc_ctx := (rc_ctx r')\<lparr>cx_recording := cx_recording (rc_ctx r)\<rparr>\<rparr>))
         else (case resolve_trace_id env effective r of
                 None \<Rightarrow> None
               | Some (i, r1) \<Rightarrow>
                   (let sp = \<lparr>sp_id = tv_fresh env (rc_tick r1), sp_parent = None, sp_operation = ''Root_Span'',
                              sp_begin = tv_now env (rc_tick r1), sp_duration = 0, sp_status = SpanSuccess, sp_attributes = [],
                              sp_trace = Some i, sp_route = Some route, sp_config = None\<rparr>
                    in (case run_block env body sp
                               (r1\<lparr>rc_tick := rc_tick r1 + 1, rc_ctx := \<lparr>cx_trace = Some i, cx_span = Some (sp_id sp), cx_recording = True\<rparr>\<rparr>) of
                          (e, sp', r2) \<Rightarrow> Some (e, close_span env sp' ''Root_Span'' e (rc_ctx r1) (Some i) r2)))))"

text \<open>The wrapped function runs in the captured context, or in the null one when the capture failed; the
  pooled thread keeps its own.\<close>

definition propagate_into_thread :: "trace_ctx option \<Rightarrow> (recorder \<Rightarrow> 'a \<times> recorder) \<Rightarrow> recorder \<Rightarrow> 'a \<times> recorder" where
  "propagate_into_thread captured f r =
     (case f (r\<lparr>rc_ctx := (case captured of Some c \<Rightarrow> c | None \<Rightarrow> null_context)\<rparr>) of
        (x, r') \<Rightarrow> (x, r'\<lparr>rc_ctx := rc_ctx r\<rparr>))"

section \<open>Attributes of the stages\<close>

definition unavailable :: json where "unavailable = JStr ''unavailable''"

definition no_score :: json where "no_score = JStr ''no score''"

definition int_or_unavailable :: "int option \<Rightarrow> json" where
  "int_or_unavailable n = (case n of Some i \<Rightarrow> JInt i | None \<Rightarrow> unavailable)"

definition text_or_unavailable :: "string option \<Rightarrow> json" where
  "text_or_unavailable s = (case s of Some t \<Rightarrow> JStr t | None \<Rightarrow> unavailable)"

definition generation_attributes :: "string option \<Rightarrow> int option \<Rightarrow> int option \<Rightarrow> int option \<Rightarrow> (string \<times> json) list" where
  "generation_attributes model prompt completion tot =
     [(''model_id'', text_or_unavailable model), (''prompt_tokens'', int_or_unavailable prompt),
      (''completion_tokens'', int_or_unavailable completion), (''total_tokens'', int_or_unavailable tot)]"

definition retrieval_attributes :: "string \<Rightarrow> int \<Rightarrow> pyfloat option \<Rightarrow> (string \<times> json) list" where
  "retrieval_attributes mode hits best =
     [(''retrieval_mode'', JStr mode), (''hit_count'', JInt hits),
      (''top_score'', if hits = 0 then no_score else case best of None \<Rightarrow> no_score | Some x \<Rightarrow> JFloat x)]"

definition answer_attributes :: "string \<Rightarrow> int \<Rightarrow> (string \<times> json) list" where
  "answer_attributes status citations = [(''evidence_status'', JStr status), (''citation_count'', JInt citations)]"

definition ingestion_attributes :: "string option \<Rightarrow> string option \<Rightarrow> string option \<Rightarrow> (string \<times> json) list" where
  "ingestion_attributes document version filename =
     [(''document_id'', text_or_unavailable document), (''document_version'', text_or_unavailable version),
      (''source_filename'', text_or_unavailable filename)]"

definition max_question_length :: nat where "max_question_length = 500"

text \<open>The ellipsis is one character, passed as an argument because it is not an ASCII one.\<close>

definition trimmed_question :: "char \<Rightarrow> string \<Rightarrow> string" where
  "trimmed_question ellipsis q =
     (let s = py_strip q
      in if max_question_length < length s
         then rstrip_by is_space (take (max_question_length - 1) s) @ [ellipsis] else s)"

definition query_summary_attributes :: "char \<Rightarrow> string \<Rightarrow> pyfloat option \<Rightarrow> int option \<Rightarrow> (string \<times> json) list" where
  "query_summary_attributes ellipsis q confidence tokens =
     [(''summary_kind'', JStr ''query''), (''question'', JStr (trimmed_question ellipsis q)),
      (''confidence_score'', case confidence of Some x \<Rightarrow> JFloat x | None \<Rightarrow> unavailable),
      (''total_tokens'', int_or_unavailable tokens)]"

lemma trimmed_question_bound: "length (trimmed_question ellipsis q) \<le> max_question_length"
  using length_rstrip_by[of is_space "take (max_question_length - 1) (py_strip q)"]
  by (auto simp: trimmed_question_def Let_def max_question_length_def)

section \<open>Buffers lose only what does not fit\<close>

lemma offer_fields [simp]:
  "bf_capacity (snd (offer x b)) = bf_capacity b"
  by (simp add: offer_def)

lemma offer_all_simps [simp]:
  "offer_all [] b = b" "offer_all (x # xs) b = offer_all xs (snd (offer x b))"
  "offer_all (xs @ ys) b = offer_all ys (offer_all xs b)"
  by (simp_all add: offer_all_def)

lemma offer_all_eq:
  assumes "buffer_ok b"
  shows "bf_items (offer_all xs b) = bf_items b @ take (bf_capacity b - length (bf_items b)) xs \<and>
    bf_dropped (offer_all xs b) = bf_dropped b + (length xs - (bf_capacity b - length (bf_items b))) \<and>
    bf_capacity (offer_all xs b) = bf_capacity b"
  using assms
proof (induction xs arbitrary: b)
  case (Cons x xs)
  have ok: "buffer_ok (snd (offer x b))" using Cons.prems by (auto simp: buffer_ok_def offer_def)
  show ?case
  proof (cases "bf_capacity b \<le> length (bf_items b)")
    case True
    then show ?thesis using Cons.IH[OF ok] by (simp add: offer_def)
  next
    case False
    then have "bf_capacity b - length (bf_items b) = Suc (bf_capacity b - Suc (length (bf_items b)))" by simp
    then show ?thesis using False Cons.IH[OF ok] by (simp add: offer_def)
  qed
qed simp

section \<open>The spans of a trace form a tree\<close>

text \<open>Every span's parent is \<open>p\<close> or a span that closes later.\<close>

fun parents_later :: "ident option \<Rightarrow> span list \<Rightarrow> bool" where
  "parents_later p [] \<longleftrightarrow> True"
| "parents_later p (x # xs) \<longleftrightarrow> (sp_parent x = p \<or> sp_parent x \<in> Some ` sp_id ` set xs) \<and> parents_later p xs"

lemma parents_later_append: "parents_later p xs \<Longrightarrow> parents_later p ys \<Longrightarrow> parents_later p (xs @ ys)"
  by (induction xs) auto

lemma parents_later_close:
  "parents_later (Some (sp_id sp)) xs \<Longrightarrow> sp_parent sp = p \<Longrightarrow> parents_later p (xs @ [sp])"
  by (induction xs) (auto simp: image_iff)

text \<open>What running steps under an active span adds.\<close>

definition own_span :: "trace_env \<Rightarrow> trace_ctx \<Rightarrow> nat \<Rightarrow> nat \<Rightarrow> span \<Rightarrow> bool" where
  "own_span env ctx lo hi s \<longleftrightarrow>
     sp_trace s = cx_trace ctx \<and> sp_route s = None \<and> 0 \<le> sp_duration s \<and> sp_id s \<in> tv_fresh env ` {lo..<hi}"

definition emitted :: "trace_env \<Rightarrow> recorder \<Rightarrow> recorder \<Rightarrow> span list \<Rightarrow> bool" where
  "emitted env r r' new \<longleftrightarrow>
     rc_ctx r' = rc_ctx r \<and> rc_active r' = rc_active r \<and> rc_tick r \<le> rc_tick r' \<and> rc_buffer r' = offer_all new (rc_buffer r) \<and>
     parents_later (cx_span (rc_ctx r)) new \<and> distinct (map sp_id new) \<and>
     (\<forall>s \<in> set new. own_span env (rc_ctx r) (rc_tick r) (rc_tick r') s)"

lemma own_span_mono: "own_span env ctx lo hi s \<Longrightarrow> lo' \<le> lo \<Longrightarrow> hi \<le> hi' \<Longrightarrow> own_span env ctx lo' hi' s"
  by (auto simp: own_span_def)

lemma own_span_apart:
  "inj (tv_fresh env) \<Longrightarrow> own_span env ctx a b x \<Longrightarrow> own_span env ctx' b c y \<Longrightarrow> sp_id x \<noteq> sp_id y"
  by (auto simp: own_span_def inj_eq)

lemma emitted_refl: "emitted env r r []"
  by (simp add: emitted_def)

lemma emitted_trans:
  assumes "inj (tv_fresh env)" "emitted env r r1 xs" "emitted env r1 r2 ys"
  shows "emitted env r r2 (xs @ ys)"
proof -
  note a = assms(2,3)[unfolded emitted_def]
  have "sp_id x \<noteq> sp_id y" if "x \<in> set xs" "y \<in> set ys" for x y
    using own_span_apart[OF assms(1)] a that by metis
  then have "distinct (map sp_id (xs @ ys))" using a by (auto simp: image_iff)
  moreover have "\<forall>s \<in> set (xs @ ys). own_span env (rc_ctx r) (rc_tick r) (rc_tick r2) s"
    using a own_span_mono[of env "rc_ctx r" "rc_tick r" "rc_tick r1" _ "rc_tick r" "rc_tick r2"]
      own_span_mono[of env "rc_ctx r" "rc_tick r1" "rc_tick r2" _ "rc_tick r" "rc_tick r2"] by auto
  ultimately show ?thesis using a by (simp add: emitted_def parents_later_append)
qed

lemma run_silent: "\<not> cx_recording (rc_ctx r) \<Longrightarrow> snd (snd (run_block env steps cur r)) = r"
proof (induction env steps cur r rule: run_block.induct)
  case (2 env kvs rest cur r)
  then show ?case by (cases "set_attributes env kvs (sp_attributes cur)") auto
next
  case (3 env version settings rest cur r)
  then show ?case by (cases "set_trace_config env version settings cur") auto
next
  case (5 env operation kvs body caught rest cur r)
  obtain e c r' where b: "run_block env body (noop_span env (rc_tick r)) r = (e, c, r')" by (cases "run_block env body (noop_span env (rc_tick r)) r")
  have "r' = r" using 5 b by simp
  then show ?case using 5 b by simp
qed simp_all

text \<open>The closed span of a block is the last one it emits.\<close>

text \<open>What closing a span does not touch, a block does not touch.\<close>

lemma run_block_keeps:
  assumes "\<And>r t. f (r\<lparr>rc_tick := t\<rparr>) = f r" "\<And>r c. f (r\<lparr>rc_ctx := c\<rparr>) = f r"
    "\<And>sp operation e ctx release r. f (close_span env sp operation e ctx release r) = f r"
  shows "f (snd (snd (run_block env steps cur r))) = f r"
proof (induction steps arbitrary: cur r rule: measure_induct_rule[where f = "size_list size"])
  case (less steps)
  show ?case
  proof (cases steps)
    case (Cons st rest)
    have rest: "f (snd (snd (run_block env rest c r0))) = f r0" for c r0 using less.IH[of rest c r0] Cons by simp
    show ?thesis
    proof (cases st)
      case (Nested operation kvs body caught)
      have "f (snd (snd (run_block env body c r0))) = f r0" for c r0 using less.IH[of body c r0] Cons Nested by simp
      then show ?thesis using Cons Nested by (simp add: Let_def case_prod_beta assms rest split: bool.split)
    qed (simp_all add: Cons rest case_prod_beta)
  qed simp
qed

lemma finish_span_fields [simp]:
  "sp_id (finish_span ms e sp) = sp_id sp" "sp_parent (finish_span ms e sp) = sp_parent sp"
  "sp_trace (finish_span ms e sp) = sp_trace sp" "sp_route (finish_span ms e sp) = sp_route sp" "0 \<le> sp_duration (finish_span ms e sp)"
  by (simp_all add: finish_span_def)

lemma set_trace_config_fields:
  "set_trace_config env v st sp = (ok, sp') \<Longrightarrow>
   sp_id sp' = sp_id sp \<and> sp_parent sp' = sp_parent sp \<and> sp_trace sp' = sp_trace sp \<and> sp_route sp' = sp_route sp"
  by (auto simp: set_trace_config_def Let_def split: option.splits)

definition same_identity :: "span \<Rightarrow> span \<Rightarrow> bool" where
  "same_identity s s' \<longleftrightarrow> sp_id s' = sp_id s \<and> sp_parent s' = sp_parent s \<and> sp_trace s' = sp_trace s \<and> sp_route s' = sp_route s"

lemma run_identity: "same_identity cur (fst (snd (run_block env steps cur r)))"
proof (induction env steps cur r rule: run_block.induct)
  case (2 env kvs rest cur r)
  then show ?case by (cases "set_attributes env kvs (sp_attributes cur)") (auto simp: same_identity_def)
next
  case (3 env version settings rest cur r)
  then show ?case
    by (cases "set_trace_config env version settings cur") (auto simp: same_identity_def dest!: set_trace_config_fields)
next
  case (5 env operation kvs body caught rest cur r)
  then show ?case by (simp add: Let_def same_identity_def split: prod.split)
qed (simp_all add: same_identity_def)
lemma emitted_close:
  assumes "inj (tv_fresh env)"
    "emitted env (r\<lparr>rc_tick := rc_tick r + 1, rc_ctx := (rc_ctx r)\<lparr>cx_span := Some (tv_fresh env (rc_tick r))\<rparr>\<rparr>) r2 inner"
    "sp_id sp = tv_fresh env (rc_tick r)" "sp_parent sp = cx_span (rc_ctx r)" "sp_trace sp = cx_trace (rc_ctx r)" "sp_route sp = None"
  shows "emitted env r (close_span env sp operation e (rc_ctx r) None r2) (inner @ [finish_span (tv_elapsed env (rc_tick r2)) e sp])"
proof -
  note a = assms(2)[unfolded emitted_def, simplified]
  let ?sp = "finish_span (tv_elapsed env (rc_tick r2)) e sp"
  have own: "own_span env (rc_ctx r) (Suc (rc_tick r)) (rc_tick r2) s" if "s \<in> set inner" for s
    using a that by (auto simp: own_span_def)
  have "own_span env (rc_ctx r) (rc_tick r) (Suc (rc_tick r)) ?sp" using assms(3,5,6) by (simp add: own_span_def)
  then have "sp_id sp \<noteq> sp_id s" if "s \<in> set inner" for s
    using own_span_apart[OF assms(1) _ own[OF that]] by fastforce
  then have "sp_id sp \<notin> sp_id ` set inner" by (metis imageE)
  then have "distinct (map sp_id (inner @ [?sp]))" using a by auto
  moreover have "\<forall>s \<in> set (inner @ [?sp]). own_span env (rc_ctx r) (rc_tick r) (Suc (rc_tick r2)) s"
    using own a assms(3,5,6) own_span_mono[OF own, of _ "rc_tick r" "Suc (rc_tick r2)"] by (auto simp: own_span_def)
  moreover have "parents_later (cx_span (rc_ctx r)) (inner @ [?sp])"
    using a assms(3,4) by (intro parents_later_close) auto
  ultimately show ?thesis using a by (simp add: emitted_def close_span_def Let_def)
qed

lemma emitted_tick:
  "emitted env (r\<lparr>rc_tick := Suc (rc_tick r)\<rparr>) r' new \<Longrightarrow> emitted env r r' new"
  unfolding emitted_def using own_span_mono[of env "rc_ctx r" "Suc (rc_tick r)" "rc_tick r'" _ "rc_tick r" "rc_tick r'"] by auto

lemma emitted_nested:
  assumes "inj (tv_fresh env)" "cx_recording (rc_ctx r)"
    "\<And>r0 c. cx_recording (rc_ctx r0) \<Longrightarrow> \<exists>new. emitted env r0 (snd (snd (run_block env body c r0))) new"
  shows "\<exists>e r' new. emitted env r r' new \<and>
    run_block env (Nested operation kvs body caught # rest) cur r =
      (if e \<noteq> None \<and> \<not> caught then (e, cur, r') else run_block env rest cur r')"
proof -
  let ?id = "tv_fresh env (rc_tick r)"
  define sp where "sp = \<lparr>sp_id = ?id, sp_parent = cx_span (rc_ctx r), sp_operation = operation,
      sp_begin = tv_now env (rc_tick r), sp_duration = 0, sp_status = SpanSuccess, sp_attributes = [],
      sp_trace = cx_trace (rc_ctx r), sp_route = None, sp_config = None\<rparr>"
  obtain ok attrs where sa: "set_attributes env kvs [] = (ok, attrs)" by (cases "set_attributes env kvs []")
  define blk where "blk =
    (if ok then (case run_block env body (sp\<lparr>sp_attributes := attrs\<rparr>)
                   (r\<lparr>rc_tick := rc_tick r + 1, rc_ctx := (rc_ctx r)\<lparr>cx_span := Some ?id\<rparr>\<rparr>) of
                   (e, sp', r2) \<Rightarrow> (e, close_span env sp' operation e (rc_ctx r) None r2))
     else (case run_block env body (noop_span env (rc_tick r)) (r\<lparr>rc_tick := rc_tick r + 1\<rparr>) of (e, _, r') \<Rightarrow> (e, r')))"
  obtain e r' where blk': "blk = (e, r')" by (cases blk)
  have run: "run_block env (Nested operation kvs body caught # rest) cur r =
      (if e \<noteq> None \<and> \<not> caught then (e, cur, r') else run_block env rest cur r')"
    using assms(2) blk' sa unfolding blk_def sp_def by (cases ok) (simp_all add: Let_def)
  have "\<exists>new. emitted env r r' new"
  proof (cases ok)
    case True
    let ?r1 = "r\<lparr>rc_tick := rc_tick r + 1, rc_ctx := (rc_ctx r)\<lparr>cx_span := Some ?id\<rparr>\<rparr>"
    obtain e0 sp' r2 where b: "run_block env body (sp\<lparr>sp_attributes := attrs\<rparr>) ?r1 = (e0, sp', r2)"
      by (cases "run_block env body (sp\<lparr>sp_attributes := attrs\<rparr>) ?r1")
    have "same_identity (sp\<lparr>sp_attributes := attrs\<rparr>) sp'" using run_identity[of "sp\<lparr>sp_attributes := attrs\<rparr>" env body ?r1] b by simp
    then have i: "sp_id sp' = ?id" "sp_parent sp' = cx_span (rc_ctx r)" "sp_trace sp' = cx_trace (rc_ctx r)" "sp_route sp' = None"
      by (simp_all add: same_identity_def sp_def)
    obtain inner where "emitted env ?r1 r2 inner" using assms(3)[of ?r1 "sp\<lparr>sp_attributes := attrs\<rparr>"] assms(2) b by auto
    from emitted_close[OF assms(1) this i] show ?thesis using True blk' b by (auto simp: blk_def)
  next
    case False
    obtain e0 sp' r2 where b: "run_block env body (noop_span env (rc_tick r)) (r\<lparr>rc_tick := rc_tick r + 1\<rparr>) = (e0, sp', r2)"
      by (cases "run_block env body (noop_span env (rc_tick r)) (r\<lparr>rc_tick := rc_tick r + 1\<rparr>)")
    obtain inner where "emitted env (r\<lparr>rc_tick := rc_tick r + 1\<rparr>) r2 inner"
      using assms(3)[of "r\<lparr>rc_tick := rc_tick r + 1\<rparr>" "noop_span env (rc_tick r)"] assms(2) b by auto
    then show ?thesis using emitted_tick[of env r r2 inner] False blk' b by (auto simp: blk_def)
  qed
  then show ?thesis using run by blast
qed

lemma emitted_run:
  assumes "inj (tv_fresh env)" "cx_recording (rc_ctx r)"
  shows "\<exists>new. emitted env r (snd (snd (run_block env steps cur r))) new"
  using assms(2)
proof (induction steps arbitrary: cur r rule: measure_induct_rule[where f = "size_list size"])
  case (less steps)
  show ?case
  proof (cases steps)
    case Nil
    then show ?thesis using emitted_refl by auto
  next
    case (Cons st rest)
    have rest: "\<exists>new. emitted env r0 (snd (snd (run_block env rest c r0))) new" if "cx_recording (rc_ctx r0)" for c r0
      using less.IH[of rest r0 c] that Cons by simp
    show ?thesis
    proof (cases st)
      case (Annotate kvs)
      then show ?thesis using Cons rest[OF less.prems] emitted_refl
        by (cases "set_attributes env kvs (sp_attributes cur)") auto
    next
      case (Stamp version settings)
      then show ?thesis using Cons rest[OF less.prems] emitted_refl
        by (cases "set_trace_config env version settings cur") auto
    next
      case (Raise e)
      then show ?thesis using Cons emitted_refl by auto
    next
      case (Nested operation kvs body caught)
      have body: "\<exists>new. emitted env r0 (snd (snd (run_block env body c r0))) new" if "cx_recording (rc_ctx r0)" for c r0
        using less.IH[of body r0 c] that Cons Nested by simp
      obtain e r' new where n: "emitted env r r' new"
        "run_block env steps cur r = (if e \<noteq> None \<and> \<not> caught then (e, cur, r') else run_block env rest cur r')"
        using emitted_nested[OF assms(1) less.prems body] Cons Nested by blast
      show ?thesis
      proof (cases "e \<noteq> None \<and> \<not> caught")
        case True
        then show ?thesis using n by auto
      next
        case False
        have "cx_recording (rc_ctx r')" using n(1) less.prems by (simp add: emitted_def)
        then obtain more where "emitted env r' (snd (snd (run_block env rest cur r'))) more" using rest by blast
        then show ?thesis using emitted_trans[OF assms(1) n(1)] False n(2) by auto
      qed
    qed
  qed
qed
lemma parents_later_no_root: "parents_later (Some p) xs \<Longrightarrow> s \<in> set xs \<Longrightarrow> sp_parent s \<noteq> None"
  by (induction xs) auto

section \<open>Trace identifiers\<close>

lemma fresh_loop_ends:
  assumes "inj (tv_fresh env)"
  shows "\<exists>t. while_option (\<lambda>t. tv_fresh env t \<in> set used) Suc k = Some t"
proof -
  have "finite {t. tv_fresh env t \<in> set used}"
    using finite_vimageI[OF finite_set assms, of used] by (simp add: vimage_def)
  then obtain m where m: "\<And>t. tv_fresh env t \<in> set used \<Longrightarrow> t < m"
    unfolding finite_nat_set_iff_bounded by blast
  show ?thesis
    by (rule measure_while_option_Some[where P = "\<lambda>_. True" and f = "\<lambda>t. m - t"]) (auto dest!: m)
qed

lemma resolve_trace_id_props:
  assumes "resolve_trace_id env candidate r = Some (i, r1)"
  shows "rc_ctx r1 = rc_ctx r \<and> rc_buffer r1 = rc_buffer r \<and> rc_tick r \<le> rc_tick r1 \<and> set (rc_active r1) = insert i (set (rc_active r)) \<and>
     (case candidate of Some c \<Rightarrow> i = c | None \<Rightarrow> i \<notin> set (rc_active r))"
proof (cases candidate)
  case (Some c)
  then show ?thesis using assms by (auto simp: resolve_trace_id_def)
next
  case None
  then obtain t where t: "while_option (\<lambda>t. tv_fresh env t \<in> set (rc_active r)) Suc (rc_tick r) = Some t"
    and i: "i = tv_fresh env t" "r1 = r\<lparr>rc_active := List.insert (tv_fresh env t) (rc_active r), rc_tick := t + 1\<rparr>"
    using assms by (auto simp: resolve_trace_id_def)
  have "rc_tick r \<le> t"
    by (rule while_option_rule[OF _ t, of "\<lambda>t. rc_tick r \<le> t"]) auto
  then show ?thesis using while_option_stop[OF t] i None by simp
qed

text \<open>Opening a trace always ends: whatever identifiers other traces use, a free one is found, so that the
  block of every trace runs.\<close>

theorem start_trace_ends:
  assumes "inj (tv_fresh env)"
  shows "start_trace env enabled rate draw trace_id route body r \<noteq> None"
proof -
  obtain t where "while_option (\<lambda>t. tv_fresh env t \<in> set (rc_active r)) Suc (rc_tick r) = Some t"
    using fresh_loop_ends[OF assms] by blast
  then show ?thesis
    by (simp add: start_trace_def resolve_trace_id_def Let_def case_prod_beta split: option.split)
qed

lemma start_trace_tree:
  assumes "inj (tv_fresh env)" "start_trace env enabled rate draw trace_id route body r = Some (e, r')"
  shows "if should_record enabled rate draw (trace_id \<noteq> None)
    then \<exists>i root new. rc_buffer r' = offer_all (new @ [root]) (rc_buffer r) \<and>
       {s \<in> set (new @ [root]). sp_parent s = None} = {root} \<and> parents_later None (new @ [root]) \<and>
       distinct (map sp_id (new @ [root])) \<and> sp_trace ` set (new @ [root]) = {Some i} \<and>
       sp_route root = Some route \<and> sp_status root = (if e = None then SpanSuccess else SpanError) \<and>
       rc_ctx r' = rc_ctx r \<and> set (rc_active r') = set (rc_active r) - {i}
    else r' = r"
proof (cases "should_record enabled rate draw (trace_id \<noteq> None)")
  case False
  then show ?thesis using assms(2) run_silent[of "r\<lparr>rc_ctx := (rc_ctx r)\<lparr>cx_recording := False\<rparr>\<rparr>" env body "noop_span env (rc_tick r)"]
    by (auto simp: start_trace_def Let_def case_prod_beta)
next
  case True
  obtain i r1 where id: "resolve_trace_id env (case or_none trace_id of Some i \<Rightarrow> Some i | None \<Rightarrow> cx_trace (rc_ctx r)) r = Some (i, r1)"
    using True assms(2) by (auto simp: start_trace_def Let_def split: option.splits)
  note p = resolve_trace_id_props[OF id]
  define sp where "sp = \<lparr>sp_id = tv_fresh env (rc_tick r1), sp_parent = None, sp_operation = ''Root_Span'',
      sp_begin = tv_now env (rc_tick r1), sp_duration = 0, sp_status = SpanSuccess, sp_attributes = [],
      sp_trace = Some i, sp_route = Some route, sp_config = None\<rparr>"
  let ?r2 = "r1\<lparr>rc_tick := rc_tick r1 + 1, rc_ctx := \<lparr>cx_trace = Some i, cx_span = Some (sp_id sp), cx_recording = True\<rparr>\<rparr>"
  obtain e' sp' r3 where run: "run_block env body sp ?r2 = (e', sp', r3)" by (cases "run_block env body sp ?r2")
  have r': "e' = e" "r' = close_span env sp' ''Root_Span'' e (rc_ctx r1) (Some i) r3"
    using True assms(2) id run by (auto simp: start_trace_def Let_def sp_def)
  have same: "same_identity sp sp'" using run_identity[of sp env body ?r2] run by simp
  obtain new where new: "emitted env ?r2 r3 new" using emitted_run[OF assms(1), of ?r2 body sp] run by auto
  let ?root = "finish_span (tv_elapsed env (rc_tick r3)) e sp'"
  note em = new[unfolded emitted_def, simplified]
  have root: "sp_id ?root = tv_fresh env (rc_tick r1)" "sp_parent ?root = None" "sp_trace ?root = Some i" "sp_route ?root = Some route"
    "sp_status ?root = (if e = None then SpanSuccess else SpanError)"
    using same by (simp_all add: same_identity_def sp_def finish_span_def)
  have own: "own_span env \<lparr>cx_trace = Some i, cx_span = Some (sp_id sp), cx_recording = True\<rparr> (Suc (rc_tick r1)) (rc_tick r3) s" if "s \<in> set new" for s
    using em that by blast
  have "sp_id ?root \<notin> sp_id ` set new"
  proof
    assume "sp_id ?root \<in> sp_id ` set new"
    then obtain s where "s \<in> set new" "sp_id s = tv_fresh env (rc_tick r1)" using root(1) by auto
    then show False using own[of s] assms(1) by (auto simp: own_span_def inj_eq)
  qed
  moreover have "{s \<in> set (new @ [?root]). sp_parent s = None} = {?root}"
    using parents_later_no_root[of "sp_id sp" new] em root(2) by (fastforce simp del: finish_span_fields)
  moreover have "parents_later None (new @ [?root])"
    using em root(1,2) by (intro parents_later_close) (simp_all add: sp_def)
  moreover have "sp_trace ` set (new @ [?root]) = {Some i}" using own root(3) by (auto simp: own_span_def)
  moreover have "rc_buffer r' = offer_all (new @ [?root]) (rc_buffer r)" "rc_ctx r' = rc_ctx r" "set (rc_active r') = set (rc_active r) - {i}"
    using em p r'(2) by (auto simp: close_span_def Let_def)
  ultimately show ?thesis unfolding if_P[OF True] using em root(4,5) by (intro exI[of _ i] exI[of _ ?root] exI[of _ new]) simp
qed

text \<open>C24. A recorded trace is a tree under one root: however its block ends, by return or by an exception in
  any nested block, the buffer is offered exactly its closed spans, all under one trace identifier, with
  distinct identifiers, every parent closing after its children, and the root, alone without a parent,
  last and with the status of the block; the context is as before and the identifier is free again. A
  trace that is not sampled changes nothing.\<close>

theorem trace_is_tree:
  assumes "inj (tv_fresh env)" "start_trace env enabled rate draw trace_id route body r = Some (e, r')"
  shows "if should_record enabled rate draw (trace_id \<noteq> None)
    then \<exists>i root new. rc_buffer r' = offer_all (new @ [root]) (rc_buffer r) \<and>
       {s \<in> set (new @ [root]). sp_parent s = None} = {root} \<and> parents_later None (new @ [root]) \<and>
       distinct (map sp_id (new @ [root])) \<and> sp_trace ` set (new @ [root]) = {Some i} \<and>
       sp_route root = Some route \<and> sp_status root = (if e = None then SpanSuccess else SpanError) \<and>
       rc_ctx r' = rc_ctx r \<and> set (rc_active r') = set (rc_active r) - {i}
    else r' = r"
  by (rule start_trace_tree[OF assms])

definition demo_trace_env :: trace_env where
  "demo_trace_env = \<lparr>tv_fresh = (\<lambda>t. replicate t CHR ''x''), tv_now = int, tv_elapsed = (\<lambda>_. 1), tv_str = (\<lambda>_. Some ''v''), tv_window = 1000\<rparr>"

definition demo_recorder :: recorder where
  "demo_recorder = \<lparr>rc_ctx = null_context, rc_active = [], rc_buffer = \<lparr>bf_capacity = 10, bf_items = [], bf_dropped = 0\<rparr>,
     rc_metrics = empty_registry, rc_tick = 0\<rparr>"

lemma demo_fresh [simp]: "inj (tv_fresh demo_trace_env)"
  by (auto simp: demo_trace_env_def inj_def dest!: arg_cong[of _ _ length])

theorem start_trace_ends_witness:
  "start_trace demo_trace_env True 1 0 None ''GET /'' [Nested ''retrieve'' [] [] False] demo_recorder \<noteq> None"
  by (rule start_trace_ends) simp

theorem trace_is_tree_witness:
  "\<exists>e r' i root new. start_trace demo_trace_env True 1 0 None ''GET /'' [Nested ''retrieve'' [] [Raise (''E'', ''m'')] False] demo_recorder = Some (e, r') \<and>
     rc_buffer r' = offer_all (new @ [root]) (rc_buffer demo_recorder) \<and> sp_trace ` set (new @ [root]) = {Some i}"
proof -
  obtain e r' where s: "start_trace demo_trace_env True 1 0 None ''GET /'' [Nested ''retrieve'' [] [Raise (''E'', ''m'')] False] demo_recorder = Some (e, r')"
    using start_trace_ends[OF demo_fresh] by (metis not_None_eq surj_pair)
  have rec: "should_record True 1 0 (None \<noteq> (None :: ident option))" by (simp add: should_record_def)
  show ?thesis using trace_is_tree[OF demo_fresh s, unfolded if_P[OF rec]] s by metis
qed

end
