(* ===== verification/Retention.thy ===== *)
theory Retention
  imports Prelude "HOL-Library.List_Lexorder" "HOL-Library.Char_ord"
begin

text \<open>
  The retention cycle that \<open>trace_store.py\<close> and \<open>log_store.py\<close> share: one bulk deletion of the rows that
  are too old and, when it fails, one transaction per row, noting the rows that stay. The table is given by its
  rows, their keys and its deletion; the locale \<open>row_table\<close> states what a deletion promises and what
  the cycle therefore does.
\<close>

text \<open>A bulk statement fails when the database is down or refuses one of the rows.\<close>

definition try_delete :: "('s \<Rightarrow> 'r list) \<Rightarrow> ('r \<Rightarrow> 'k) \<Rightarrow> (('r \<Rightarrow> bool) \<Rightarrow> 's \<Rightarrow> 's) \<Rightarrow> bool \<Rightarrow> ('k \<Rightarrow> bool) \<Rightarrow> ('r \<Rightarrow> bool) \<Rightarrow> 's \<Rightarrow> 's option" where
  "try_delete rows key delete up refused p s =
     (if \<not> up \<or> list_ex (\<lambda>r. p r \<and> refused (key r)) (rows s) then None else Some (delete p s))"

text \<open>The errors of a cycle are the keys of the rows that could not be deleted; \<open>None\<close>: not even the
  candidates could be read. \<open>up n\<close>: the database answers the \<open>n\<close>-th transaction.\<close>

fun delete_each :: "('s \<Rightarrow> 'r list) \<Rightarrow> ('r \<Rightarrow> 'k) \<Rightarrow> (('r \<Rightarrow> bool) \<Rightarrow> 's \<Rightarrow> 's) \<Rightarrow> (nat \<Rightarrow> bool) \<Rightarrow> ('k \<Rightarrow> bool) \<Rightarrow> nat
    \<Rightarrow> 'k list \<Rightarrow> 's \<Rightarrow> 'k option list \<times> 's" where
  "delete_each rows key delete up refused n [] s = ([], s)"
| "delete_each rows key delete up refused n (k # ks) s =
     (case try_delete rows key delete (up n) refused (\<lambda>r. key r = k) s of
        None \<Rightarrow> (case delete_each rows key delete up refused (n + 1) ks s of (es, s') \<Rightarrow> (Some k # es, s'))
      | Some t \<Rightarrow> delete_each rows key delete up refused (n + 1) ks t)"

definition retention_per_row :: "('s \<Rightarrow> 'r list) \<Rightarrow> ('r \<Rightarrow> 'k :: linorder) \<Rightarrow> (('r \<Rightarrow> bool) \<Rightarrow> 's \<Rightarrow> 's) \<Rightarrow> (nat \<Rightarrow> bool) \<Rightarrow> ('k \<Rightarrow> bool)
    \<Rightarrow> ('r \<Rightarrow> bool) \<Rightarrow> 's \<Rightarrow> 'k option list \<times> 's" where
  "retention_per_row rows key delete up refused old s =
     (if \<not> up 1 then ([None], s) else delete_each rows key delete up refused 2 (sort (map key (filter old (rows s)))) s)"

definition retention_cycle :: "('s \<Rightarrow> 'r list) \<Rightarrow> ('r \<Rightarrow> 'k :: linorder) \<Rightarrow> (('r \<Rightarrow> bool) \<Rightarrow> 's \<Rightarrow> 's) \<Rightarrow> (nat \<Rightarrow> bool) \<Rightarrow> ('k \<Rightarrow> bool)
    \<Rightarrow> ('r \<Rightarrow> bool) \<Rightarrow> 's \<Rightarrow> 'k option list \<times> 's" where
  "retention_cycle rows key delete up refused old s =
     (case try_delete rows key delete (up 0) refused old s of
        Some t \<Rightarrow> ([], t)
      | None \<Rightarrow> retention_per_row rows key delete up refused old s)"

locale row_table =
  fixes rows :: "'s \<Rightarrow> 'r list" and key :: "'r \<Rightarrow> 'k :: linorder" and delete :: "('r \<Rightarrow> bool) \<Rightarrow> 's \<Rightarrow> 's"
  assumes rows_delete: "rows (delete p s) = filter (\<lambda>r. \<not> p r) (rows s)"
    and delete_delete: "delete q (delete p s) = delete (\<lambda>r. p r \<or> q r) s"
    and delete_none: "delete (\<lambda>_. False) s = s"
    and delete_cong: "(\<And>r. r \<in> set (rows s) \<Longrightarrow> p r = q r) \<Longrightarrow> delete p s = delete q s"
begin

lemma each_deletes:
  assumes "\<And>n. up n" "distinct ks" "set ks \<subseteq> key ` set (rows s)"
  shows "delete_each rows key delete up refused n ks s =
    (map Some (filter refused ks), delete (\<lambda>r. key r \<in> set ks \<and> \<not> refused (key r)) s)"
  using assms(2,3)
proof (induction ks arbitrary: n s)
  case Nil
  then show ?case by (simp add: delete_none)
next
  case (Cons k ks)
  show ?case
  proof (cases "refused k")
    case True
    then have "try_delete rows key delete (up n) refused (\<lambda>r. key r = k) s = None"
      using Cons.prems by (auto simp: try_delete_def list_ex_iff)
    then show ?thesis using Cons True by (auto intro!: delete_cong)
  next
    case False
    then have t: "try_delete rows key delete (up n) refused (\<lambda>r. key r = k) s = Some (delete (\<lambda>r. key r = k) s)"
      using assms(1) by (auto simp: try_delete_def list_ex_iff)
    have "set ks \<subseteq> key ` set (rows (delete (\<lambda>r. key r = k) s))"
    proof
      fix t assume "t \<in> set ks"
      then show "t \<in> key ` set (rows (delete (\<lambda>r. key r = k) s))"
        using Cons.prems by (force simp: rows_delete)
    qed
    then show ?thesis using Cons t False by (auto simp: delete_delete intro!: delete_cong)
  qed
qed

text \<open>With the database up, the cycle removes exactly the old rows it is not refused and notes the others.\<close>

lemma cycle_exact:
  assumes "\<And>n. up n" "distinct (map key (rows s))"
  shows "retention_cycle rows key delete up refused old s =
    (map Some (sort (map key (filter (\<lambda>r. old r \<and> refused (key r)) (rows s)))), delete (\<lambda>r. old r \<and> \<not> refused (key r)) s)"
proof (cases "list_ex (\<lambda>r. old r \<and> refused (key r)) (rows s)")
  case False
  then have none: "\<And>r. r \<in> set (rows s) \<Longrightarrow> old r \<Longrightarrow> \<not> refused (key r)" by (auto simp: list_ex_iff)
  then have "filter (\<lambda>r. old r \<and> refused (key r)) (rows s) = []" by (auto simp: filter_empty_conv)
  moreover have "delete old s = delete (\<lambda>r. old r \<and> \<not> refused (key r)) s" using none by (auto intro!: delete_cong)
  ultimately show ?thesis using assms(1) False by (simp add: retention_cycle_def try_delete_def)
next
  case True
  let ?ks = "sort (map key (filter old (rows s)))"
  have d: "distinct ?ks" using assms(2) by (simp add: distinct_map_filter)
  have f: "filter refused ?ks = sort (map key (filter (\<lambda>r. old r \<and> refused (key r)) (rows s)))"
    by (simp add: filter_sort filter_map comp_def conj_commute)
  have "key r \<in> set ?ks \<longleftrightarrow> old r" if "r \<in> set (rows s)" for r
    using that assms(2) by (auto simp: distinct_map inj_on_def)
  then have "delete (\<lambda>r. key r \<in> set ?ks \<and> \<not> refused (key r)) s = delete (\<lambda>r. old r \<and> \<not> refused (key r)) s"
    by (intro delete_cong) auto
  moreover have "set ?ks \<subseteq> key ` set (rows s)" by auto
  ultimately show ?thesis
    using True each_deletes[where up = up and s = s and refused = refused, OF assms(1) d] assms(1) f
    by (simp add: retention_cycle_def retention_per_row_def try_delete_def)
qed

text \<open>Whatever fails, no row that is not old is removed, and every old row that stays is noted.\<close>

lemma each_reports:
  "delete_each rows key delete up refused n ks s = (es, s') \<Longrightarrow>
   \<exists>q. s' = delete q s \<and> (\<forall>r. q r \<longrightarrow> key r \<in> set ks) \<and>
     (\<forall>r \<in> set (rows s). key r \<in> set ks \<longrightarrow> q r \<or> Some (key r) \<in> set es)"
proof (induction ks arbitrary: n s es s')
  case Nil
  then show ?case using delete_none by (intro exI[of _ "\<lambda>_. False"]) auto
next
  case (Cons k ks)
  show ?case
  proof (cases "try_delete rows key delete (up n) refused (\<lambda>r. key r = k) s")
    case None
    obtain fs t where r: "delete_each rows key delete up refused (n + 1) ks s = (fs, t)"
      by (cases "delete_each rows key delete up refused (n + 1) ks s")
    with Cons.prems None have e: "es = Some k # fs" "s' = t" by simp_all
    from Cons.IH[OF r] e show ?thesis by fastforce
  next
    case (Some t)
    then have t: "t = delete (\<lambda>r. key r = k) s" by (auto simp: try_delete_def split: if_splits)
    from Cons.prems Some have "delete_each rows key delete up refused (n + 1) ks t = (es, s')" by simp
    from Cons.IH[OF this] obtain q where q: "s' = delete q t" "\<forall>r. q r \<longrightarrow> key r \<in> set ks"
      "\<forall>r \<in> set (rows t). key r \<in> set ks \<longrightarrow> q r \<or> Some (key r) \<in> set es" by blast
    then show ?thesis using t by (intro exI[of _ "\<lambda>r. key r = k \<or> q r"]) (auto simp: delete_delete rows_delete)
  qed
qed

lemma cycle_reports:
  assumes "retention_cycle rows key delete up refused old s = (es, s')" "distinct (map key (rows s))"
  shows "set (rows s') \<subseteq> set (rows s) \<and> {r \<in> set (rows s). \<not> old r} \<subseteq> set (rows s') \<and>
    {r \<in> set (rows s'). old r} \<subseteq> {r. None \<in> set es \<or> Some (key r) \<in> set es}"
proof (cases "try_delete rows key delete (up 0) refused old s")
  case (Some t)
  then show ?thesis using assms(1) by (auto simp: retention_cycle_def try_delete_def rows_delete split: if_splits)
next
  case None
  show ?thesis
  proof (cases "up 1")
    case False
    then show ?thesis using assms(1) None by (auto simp: retention_cycle_def retention_per_row_def)
  next
    case True
    let ?ks = "sort (map key (filter old (rows s)))"
    have "delete_each rows key delete up refused 2 ?ks s = (es, s')"
      using assms(1) None True by (simp add: retention_cycle_def retention_per_row_def)
    from each_reports[OF this] obtain q where q: "s' = delete q s" "\<forall>r. q r \<longrightarrow> key r \<in> set ?ks"
      "\<forall>r \<in> set (rows s). key r \<in> set ?ks \<longrightarrow> q r \<or> Some (key r) \<in> set es" by blast
    have "old r" if "r \<in> set (rows s)" "key r \<in> set ?ks" for r
      using that assms(2) by (auto simp: distinct_map inj_on_def)
    then show ?thesis using q by (auto simp: rows_delete)
  qed
qed

end

end
