(* ===== verification/TraceStore.thy ===== *)
theory TraceStore
  imports Tracing Retention
begin

text \<open>
  The durable stores, \<open>observability_tracing/trace_store.py\<close> and \<open>log_store.py\<close>: the rows of the tables of
  \<open>schema.py\<close>, the statements each operation executes, all in one transaction, reading, searching and
  retention with its fallback. A transaction fails when the database is down or refuses a row; which
  deletions it refuses is an argument. Ties that a query leaves open follow the order of the table.
\<close>

section \<open>Traces\<close>

record trace =
  tr_id :: ident
  tr_route :: string
  tr_start :: int
  tr_duration :: int
  tr_status :: span_status
  tr_spans :: "span list"
  tr_version :: "ident option"
  tr_settings :: "(string \<times> json) list"

section \<open>Tables\<close>

record trace_row =
  tw_id :: ident
  tw_route :: string
  tw_start :: int
  tw_duration :: int
  tw_status :: span_status
  tw_version :: "ident option"
  tw_settings :: "(string \<times> json) list"

record span_row =
  sw_trace :: ident
  sw_id :: ident
  sw_parent :: "ident option"
  sw_operation :: string
  sw_start :: int
  sw_duration :: int
  sw_status :: span_status
  sw_attributes :: "(string \<times> json) list"

record trace_db =
  td_traces :: "trace_row list"
  td_spans :: "span_row list"

definition empty_trace_db :: trace_db where
  "empty_trace_db = \<lparr>td_traces = [], td_spans = []\<rparr>"

text \<open>What the database accepts: text without the zero character, JSON numbers that are numbers.\<close>

definition storable_text :: "string \<Rightarrow> bool" where
  "storable_text s \<longleftrightarrow> list_all (\<lambda>c. c \<noteq> CHR 0x00) s"

fun storable_json :: "json \<Rightarrow> bool" where
  "storable_json (JStr s) = storable_text s"
| "storable_json (JArr xs) = list_all storable_json xs"
| "storable_json (JObj kvs) = list_all (\<lambda>(k, v). storable_text k \<and> storable_json v) kvs"
| "storable_json JNan = False"
| "storable_json (JInfinite _) = False"
| "storable_json _ = True"

definition storable_trace :: "trace_row \<Rightarrow> bool" where
  "storable_trace t \<longleftrightarrow> storable_text (tw_id t) \<and> storable_text (tw_route t) \<and> 0 \<le> tw_duration t \<and>
     (case tw_version t of Some v \<Rightarrow> storable_text v | None \<Rightarrow> True) \<and> storable_json (JObj (tw_settings t))"

definition storable_span :: "span_row \<Rightarrow> bool" where
  "storable_span s \<longleftrightarrow> storable_text (sw_id s) \<and> (case sw_parent s of Some p \<Rightarrow> storable_text p | None \<Rightarrow> True) \<and>
     storable_text (sw_operation s) \<and> 0 \<le> sw_duration s \<and> storable_json (JObj (sw_attributes s))"

text \<open>\<open>INSERT_TRACE_SQL\<close>: a conflict updates the row but never clears the configuration version.\<close>

definition upsert_trace :: "trace_row \<Rightarrow> trace_row list \<Rightarrow> trace_row list" where
  "upsert_trace x rows =
     (if list_ex (\<lambda>t. tw_id t = tw_id x) rows
      then map (\<lambda>t. if tw_id t = tw_id x
                    then x\<lparr>tw_version := (case tw_version x of Some v \<Rightarrow> Some v | None \<Rightarrow> tw_version t),
                           tw_settings := (if tw_version x \<noteq> None then tw_settings x else tw_settings t)\<rparr>
                    else t) rows
      else rows @ [x])"

text \<open>\<open>INSERT_SPAN_SQL\<close>: a conflict does nothing.\<close>

definition insert_span :: "span_row \<Rightarrow> span_row list \<Rightarrow> span_row list" where
  "insert_span x rows = (if list_ex (\<lambda>s. sw_trace s = sw_trace x \<and> sw_id s = sw_id x) rows then rows else rows @ [x])"

section \<open>Writing\<close>

definition trace_row_of :: "trace \<Rightarrow> trace_row" where
  "trace_row_of t = \<lparr>tw_id = tr_id t, tw_route = tr_route t, tw_start = tr_start t, tw_duration = tr_duration t,
     tw_status = tr_status t, tw_version = tr_version t, tw_settings = (if tr_version t = None then [] else tr_settings t)\<rparr>"

definition span_row_of :: "ident \<Rightarrow> span \<Rightarrow> span_row" where
  "span_row_of i s = \<lparr>sw_trace = i, sw_id = sp_id s, sw_parent = sp_parent s, sw_operation = sp_operation s,
     sw_start = sp_begin s, sw_duration = sp_duration s, sw_status = sp_status s, sw_attributes = sp_attributes s\<rparr>"

definition write_atomically :: "bool \<Rightarrow> trace \<Rightarrow> trace_db \<Rightarrow> trace_db option" where
  "write_atomically up t db =
     (let x = trace_row_of t; xs = map (span_row_of (tr_id t)) (tr_spans t)
      in if up \<and> storable_trace x \<and> list_all storable_span xs
         then Some (db\<lparr>td_traces := upsert_trace x (td_traces db), td_spans := fold insert_span xs (td_spans db)\<rparr>) else None)"

text \<open>Persisting never raises: a failure counts and discards.\<close>

record obs_store =
  ob_db :: trace_db
  ob_metrics :: registry
  ob_errors :: "ident option list"

definition persist_trace :: "bool \<Rightarrow> trace \<Rightarrow> obs_store \<Rightarrow> obs_store" where
  "persist_trace up t s =
     (case write_atomically up t (ob_db s) of
        None \<Rightarrow> s\<lparr>ob_metrics := increment ''rag_trace_store_write_failures_total'' [(''route'', tr_route t)] 1 (ob_metrics s)\<rparr>
      | Some db \<Rightarrow> s\<lparr>ob_db := db, ob_metrics := increment ''rag_traces_persisted_total'' [(''route'', tr_route t)] 1 (ob_metrics s)\<rparr>)"

section \<open>Reading\<close>

definition row_to_span :: "span_row \<Rightarrow> span" where
  "row_to_span s = \<lparr>sp_id = sw_id s, sp_parent = sw_parent s, sp_operation = sw_operation s, sp_begin = sw_start s,
     sp_duration = sw_duration s, sp_status = sw_status s, sp_attributes = sw_attributes s, sp_trace = None, sp_route = None, sp_config = None\<rparr>"

definition row_to_trace :: "trace_row \<Rightarrow> span list \<Rightarrow> trace" where
  "row_to_trace t spans = \<lparr>tr_id = tw_id t, tr_route = tw_route t, tr_start = tw_start t, tr_duration = tw_duration t,
     tr_status = tw_status t, tr_spans = spans, tr_version = tw_version t, tr_settings = tw_settings t\<rparr>"

definition spans_of :: "trace_db \<Rightarrow> ident \<Rightarrow> span list" where
  "spans_of db i = map row_to_span (sort_key (\<lambda>s. (sw_start s, sw_id s)) (filter (\<lambda>s. sw_trace s = i) (td_spans db)))"

definition get_trace :: "trace_db \<Rightarrow> ident \<Rightarrow> trace option" where
  "get_trace db i = map_option (\<lambda>t. row_to_trace t (spans_of db i)) (find (\<lambda>t. tw_id t = i) (td_traces db))"

record trace_filters =
  tf_start :: "int option"
  tf_end :: "int option"
  tf_route :: "string option"
  tf_status :: "string option"
  tf_min_duration :: "int option"
  tf_limit :: "int option"

definition effective_limit :: "int option \<Rightarrow> nat" where
  "effective_limit l = (case l of None \<Rightarrow> 100 | Some n \<Rightarrow> nat (min (max 0 n) 1000))"

definition if_given :: "'a option \<Rightarrow> ('a \<Rightarrow> bool) \<Rightarrow> bool" where
  "if_given x p \<longleftrightarrow> (case x of None \<Rightarrow> True | Some a \<Rightarrow> p a)"

definition trace_selected :: "trace_filters \<Rightarrow> trace_row \<Rightarrow> bool" where
  "trace_selected f t \<longleftrightarrow>
     if_given (tf_start f) (\<lambda>a. a \<le> tw_start t) \<and> if_given (tf_end f) (\<lambda>b. tw_start t \<le> b) \<and>
     if_given (tf_route f) (\<lambda>r. tw_route t = r) \<and> if_given (tf_status f) (\<lambda>s. status_text (tw_status t) = s) \<and>
     if_given (tf_min_duration f) (\<lambda>d. d \<le> tw_duration t)"

text \<open>Spans of all selected traces come in one query and are grouped by trace.\<close>

definition search_traces :: "trace_db \<Rightarrow> trace_filters \<Rightarrow> trace list" where
  "search_traces db f =
     (let rows = take (effective_limit (tf_limit f)) (sort_key (\<lambda>t. - tw_start t) (filter (trace_selected f) (td_traces db)));
          spans = sort_key (\<lambda>s. (sw_trace s, sw_start s, sw_id s)) (filter (\<lambda>s. sw_trace s \<in> set (map tw_id rows)) (td_spans db))
      in map (\<lambda>t. row_to_trace t (map row_to_span (filter (\<lambda>s. sw_trace s = tw_id t) spans))) rows)"

section \<open>Retention\<close>

text \<open>Deleting a trace removes its spans by the foreign key.\<close>

definition delete_traces :: "(trace_row \<Rightarrow> bool) \<Rightarrow> trace_db \<Rightarrow> trace_db" where
  "delete_traces p db =
     (let gone = map tw_id (filter p (td_traces db))
      in \<lparr>td_traces = filter (\<lambda>t. \<not> p t) (td_traces db), td_spans = filter (\<lambda>s. sw_trace s \<notin> set gone) (td_spans db)\<rparr>)"

definition count_errors :: "string \<Rightarrow> nat \<Rightarrow> registry \<Rightarrow> registry" where
  "count_errors name n = (increment name [] 1) ^^ n"

definition enforce_trace_retention :: "(nat \<Rightarrow> bool) \<Rightarrow> (ident \<Rightarrow> bool) \<Rightarrow> int \<Rightarrow> int option \<Rightarrow> obs_store \<Rightarrow> obs_store" where
  "enforce_trace_retention up refused now max_age s =
     (case max_age of
        None \<Rightarrow> s
      | Some a \<Rightarrow>
          (case retention_cycle td_traces tw_id delete_traces up refused (\<lambda>t. tw_start t < now - a) (ob_db s) of
             (es, db) \<Rightarrow> s\<lparr>ob_db := db, ob_errors := es,
                ob_metrics := count_errors ''rag_trace_store_retention_failures_total'' (length es) (ob_metrics s)\<rparr>))"

section \<open>Well-formed tables\<close>

definition trace_db_ok :: "trace_db \<Rightarrow> bool" where
  "trace_db_ok db \<longleftrightarrow> distinct (map tw_id (td_traces db)) \<and> distinct (map (\<lambda>s. (sw_trace s, sw_id s)) (td_spans db)) \<and>
     sw_trace ` set (td_spans db) \<subseteq> tw_id ` set (td_traces db)"

lemma upsert_ids: "map tw_id (upsert_trace x rows) = (if tw_id x \<in> tw_id ` set rows then map tw_id rows else map tw_id rows @ [tw_id x])"
  by (auto simp: upsert_trace_def list_ex_iff comp_def image_iff intro!: map_cong) metis

lemma insert_span_keys:
  "map (\<lambda>s. (sw_trace s, sw_id s)) (insert_span x rows) =
     (if (sw_trace x, sw_id x) \<in> (\<lambda>s. (sw_trace s, sw_id s)) ` set rows then map (\<lambda>s. (sw_trace s, sw_id s)) rows
      else map (\<lambda>s. (sw_trace s, sw_id s)) rows @ [(sw_trace x, sw_id x)])"
  by (auto simp: insert_span_def list_ex_iff image_iff) metis+

lemma insert_spans_ok:
  "distinct (map (\<lambda>s. (sw_trace s, sw_id s)) rows) \<Longrightarrow>
   distinct (map (\<lambda>s. (sw_trace s, sw_id s)) (fold insert_span xs rows)) \<and>
   sw_trace ` set (fold insert_span xs rows) = sw_trace ` set rows \<union> sw_trace ` set xs"
proof (induction xs arbitrary: rows)
  case (Cons x xs)
  have "distinct (map (\<lambda>s. (sw_trace s, sw_id s)) (insert_span x rows))"
    using Cons.prems by (subst insert_span_keys) auto
  moreover have "sw_trace ` set (insert_span x rows) = insert (sw_trace x) (sw_trace ` set rows)"
    by (auto simp: insert_span_def list_ex_iff) (metis imageI)
  ultimately show ?case using Cons.IH by simp
qed simp

lemma write_atomically_ok:
  assumes "write_atomically up t db = Some db'" "trace_db_ok db"
  shows "trace_db_ok db'"
proof -
  let ?xs = "map (span_row_of (tr_id t)) (tr_spans t)"
  have db': "db' = db\<lparr>td_traces := upsert_trace (trace_row_of t) (td_traces db), td_spans := fold insert_span ?xs (td_spans db)\<rparr>"
    using assms(1) by (auto simp: write_atomically_def Let_def split: if_splits)
  have ids: "tw_id ` set (upsert_trace (trace_row_of t) (td_traces db)) = insert (tr_id t) (tw_id ` set (td_traces db))"
    using arg_cong[OF upsert_ids[of "trace_row_of t" "td_traces db"], of set] by (auto simp: trace_row_of_def)
  have "distinct (map tw_id (upsert_trace (trace_row_of t) (td_traces db)))"
    using assms(2) by (subst upsert_ids) (auto simp: trace_db_ok_def)
  moreover have "sw_trace ` set ?xs \<subseteq> {tr_id t}" by (auto simp: span_row_of_def)
  ultimately show ?thesis
    using insert_spans_ok[of "td_spans db" ?xs] assms(2) ids unfolding trace_db_ok_def db' by auto
qed

interpretation trace_table: row_table td_traces tw_id delete_traces
proof
  fix p q :: "trace_row \<Rightarrow> bool" and s :: trace_db
  show "td_traces (delete_traces p s) = filter (\<lambda>r. \<not> p r) (td_traces s)" by (simp add: delete_traces_def Let_def)
  show "delete_traces q (delete_traces p s) = delete_traces (\<lambda>r. p r \<or> q r) s"
    by (auto simp: delete_traces_def Let_def intro!: filter_cong)
  show "delete_traces (\<lambda>_. False) s = s" by (simp add: delete_traces_def Let_def)
  assume "\<And>r. r \<in> set (td_traces s) \<Longrightarrow> p r = q r"
  then have "filter p (td_traces s) = filter q (td_traces s)" "filter (\<lambda>r. \<not> p r) (td_traces s) = filter (\<lambda>r. \<not> q r) (td_traces s)"
    by (auto intro!: filter_cong)
  then show "delete_traces p s = delete_traces q s" by (simp add: delete_traces_def Let_def)
qed

section \<open>Reading back\<close>

definition stored_form :: "span \<Rightarrow> span" where
  "stored_form s = s\<lparr>sp_trace := None, sp_route := None, sp_config := None\<rparr>"

lemma row_to_span_of: "row_to_span (span_row_of i s) = stored_form s"
  by (simp add: row_to_span_def span_row_of_def stored_form_def)

lemma fold_insert_new:
  "distinct (map sp_id ss) \<Longrightarrow> i \<notin> sw_trace ` set rows \<Longrightarrow> sp_id ` set ss \<inter> sp_id ` set ts = {} \<Longrightarrow>
   fold insert_span (map (span_row_of i) ss) (rows @ map (span_row_of i) ts) = rows @ map (span_row_of i) (ts @ ss)"
proof (induction ss arbitrary: ts)
  case (Cons s ss)
  have "insert_span (span_row_of i s) (rows @ map (span_row_of i) ts) = rows @ map (span_row_of i) (ts @ [s])"
  proof -
    have "\<forall>r \<in> set rows. sw_trace r \<noteq> i" using Cons.prems(2) by (metis imageI)
    moreover have "\<forall>x \<in> set ts. sp_id x \<noteq> sp_id s" using Cons.prems(3) by (metis disjoint_iff image_eqI list.set_intros(1))
    ultimately have "\<not> list_ex (\<lambda>r. sw_trace r = sw_trace (span_row_of i s) \<and> sw_id r = sw_id (span_row_of i s)) (rows @ map (span_row_of i) ts)"
      by (simp add: list_ex_iff span_row_of_def ball_Un)
    then show ?thesis by (simp add: insert_span_def)
  qed
  then show ?case using Cons.prems Cons.IH[of "ts @ [s]"] by auto
qed simp

lemma write_new_eq:
  assumes "write_atomically up t db = Some db'" "trace_db_ok db" "tr_id t \<notin> tw_id ` set (td_traces db)" "distinct (map sp_id (tr_spans t))"
  shows "db' = \<lparr>td_traces = td_traces db @ [trace_row_of t], td_spans = td_spans db @ map (span_row_of (tr_id t)) (tr_spans t)\<rparr>"
proof -
  have "tr_id t \<notin> sw_trace ` set (td_spans db)" using assms(2,3) by (auto simp: trace_db_ok_def)
  then have "fold insert_span (map (span_row_of (tr_id t)) (tr_spans t)) (td_spans db) = td_spans db @ map (span_row_of (tr_id t)) (tr_spans t)"
    using fold_insert_new[OF assms(4), of "tr_id t" "td_spans db" "[]"] by simp
  moreover have new: "\<forall>r \<in> set (td_traces db). tw_id r \<noteq> tr_id t" using assms(3) by force
  moreover have "upsert_trace (trace_row_of t) (td_traces db) = td_traces db @ [trace_row_of t]"
    using assms(3) by (auto simp: upsert_trace_def list_ex_iff trace_row_of_def dest: bspec[OF new])
  ultimately show ?thesis using assms(1) by (auto simp: write_atomically_def Let_def split: if_splits)
qed

lemma spans_of_map: "spans_of db i = sort_key (\<lambda>s. (sp_begin s, sp_id s)) (map row_to_span (filter (\<lambda>s. sw_trace s = i) (td_spans db)))"
  using map_sort_key[of row_to_span "\<lambda>s. (sp_begin s, sp_id s)" "filter (\<lambda>s. sw_trace s = i) (td_spans db)"]
  by (simp add: spans_of_def row_to_span_def)

section \<open>Properties\<close>

lemma read_back_new:
  assumes "trace_db_ok db" "write_atomically up t db = Some db'" "tr_id t \<notin> tw_id ` set (td_traces db)" "distinct (map sp_id (tr_spans t))"
  shows "get_trace db' (tr_id t) = Some (t\<lparr>tr_spans := sort_key (\<lambda>s. (sp_begin s, sp_id s)) (map stored_form (tr_spans t)),
       tr_settings := (if tr_version t = None then [] else tr_settings t)\<rparr>) \<and>
     (\<forall>i. i \<noteq> tr_id t \<longrightarrow> get_trace db' i = get_trace db i)"
proof -
  let ?t = "t\<lparr>tr_spans := sort_key (\<lambda>s. (sp_begin s, sp_id s)) (map stored_form (tr_spans t)),
       tr_settings := (if tr_version t = None then [] else tr_settings t)\<rparr>"
  note db' = write_new_eq[OF assms(2,1,3,4)]
  have old: "filter (\<lambda>s. sw_trace s = tr_id t) (td_spans db) = []"
    using assms(1,3) unfolding trace_db_ok_def filter_empty_conv by (metis imageI subsetD)
  have "find (\<lambda>r. tw_id r = tr_id t) (td_traces db') = Some (trace_row_of t)"
  proof -
    have "find (\<lambda>r. tw_id r = tr_id t) (td_traces db) = None" using assms(3) by (simp add: find_None_iff) (metis imageI)
    then show ?thesis by (simp add: db' find_append) (simp add: trace_row_of_def)
  qed
  moreover have "spans_of db' (tr_id t) = sort_key (\<lambda>s. (sp_begin s, sp_id s)) (map stored_form (tr_spans t))"
    using old by (simp add: spans_of_map db' comp_def row_to_span_of filter_map, simp add: span_row_of_def)
  ultimately have "get_trace db' (tr_id t) = Some ?t"
    by (simp add: get_trace_def row_to_trace_def trace_row_of_def)
  moreover have "get_trace db' i = get_trace db i" if "i \<noteq> tr_id t" for i
  proof -
    have "find (\<lambda>r. tw_id r = i) (td_traces db') = find (\<lambda>r. tw_id r = i) (td_traces db)"
      using that by (auto simp: db' find_append trace_row_of_def split: option.split)
    moreover have "spans_of db' i = spans_of db i"
      using that by (simp add: spans_of_map db' filter_map comp_def) (simp add: span_row_of_def)
    ultimately show ?thesis by (simp add: get_trace_def)
  qed
  ultimately show ?thesis by auto
qed

text \<open>A trace that is persisted is read back whole: in well-formed tables, after a successful write of a new
  trace its reading has the route, the times, the status, the configuration and exactly its spans,
  ordered by start and identifier, and every other trace reads as before.\<close>

theorem persisted_trace_read_back:
  assumes "trace_db_ok db" "write_atomically up t db = Some db'" "tr_id t \<notin> tw_id ` set (td_traces db)" "distinct (map sp_id (tr_spans t))"
  shows "get_trace db' (tr_id t) = Some (t\<lparr>tr_spans := sort_key (\<lambda>s. (sp_begin s, sp_id s)) (map stored_form (tr_spans t)),
       tr_settings := (if tr_version t = None then [] else tr_settings t)\<rparr>) \<and>
     (\<forall>i. i \<noteq> tr_id t \<longrightarrow> get_trace db' i = get_trace db i)"
  by (rule read_back_new[OF assms])

text \<open>A search returns whole traces, newest first: its results are exactly what reading each selected
  trace returns, for the selected rows ordered by start, cut at the clamped limit.\<close>

theorem search_is_reading:
  assumes "trace_db_ok db"
  shows "map Some (search_traces db f) =
      map (\<lambda>r. get_trace db (tw_id r)) (take (effective_limit (tf_limit f)) (sort_key (\<lambda>r. - tw_start r) (filter (trace_selected f) (td_traces db))))"
proof -
  let ?rows = "take (effective_limit (tf_limit f)) (sort_key (\<lambda>r. - tw_start r) (filter (trace_selected f) (td_traces db)))"
  have "get_trace db (tw_id r) = Some (row_to_trace r (map row_to_span (filter (\<lambda>s. sw_trace s = tw_id r)
      (sort_key (\<lambda>s. (sw_trace s, sw_start s, sw_id s)) (filter (\<lambda>s. sw_trace s \<in> set (map tw_id ?rows)) (td_spans db))))))"
    (is "_ = Some (?whole r)") if r: "r \<in> set ?rows" for r
  proof -
    have "r \<in> set (td_traces db)" using in_set_takeD[OF r] by simp
    then have "find (\<lambda>y. tw_id y = tw_id r) (td_traces db) = Some r" using assms by (simp add: trace_db_ok_def find_distinct)
    moreover have "filter (\<lambda>s. sw_trace s = tw_id r) (filter (\<lambda>s. sw_trace s \<in> set (map tw_id ?rows)) (td_spans db))
        = filter (\<lambda>s. sw_trace s = tw_id r) (td_spans db)"
      using r by (auto simp: filter_filter intro!: filter_cong)
    moreover have "sort_key (\<lambda>s. (sw_trace s, sw_start s, sw_id s)) (filter (\<lambda>s. sw_trace s = tw_id r) (td_spans db))
        = sort_key (\<lambda>s. (sw_start s, sw_id s)) (filter (\<lambda>s. sw_trace s = tw_id r) (td_spans db))"
      by (rule sort_key_cong_on) auto
    ultimately show ?thesis by (simp only: get_trace_def spans_of_def filter_sort option.map)
  qed
  then have "map (\<lambda>r. get_trace db (tw_id r)) ?rows = map (\<lambda>r. Some (?whole r)) ?rows" by (intro map_cong refl)
  then show ?thesis by (simp only: search_traces_def Let_def map_map comp_def)
qed

text \<open>Retention removes exactly what is too old: with the database up, whether the bulk deletion works or
  the fallback runs, the rows left are those not older than the limit and those whose deletion is
  refused, which are the ones reported; their spans stay and the spans of the removed traces go.\<close>

theorem retention_exact:
  assumes "\<And>n. up n" "trace_db_ok (ob_db s)"
  shows "td_traces (ob_db (enforce_trace_retention up refused now (Some a) s)) =
       filter (\<lambda>r. now - tw_start r \<le> a \<or> refused (tw_id r)) (td_traces (ob_db s)) \<and>
     ob_errors (enforce_trace_retention up refused now (Some a) s) =
       map Some (sort (map tw_id (filter (\<lambda>r. a < now - tw_start r \<and> refused (tw_id r)) (td_traces (ob_db s))))) \<and>
     td_spans (ob_db (enforce_trace_retention up refused now (Some a) s)) =
       filter (\<lambda>x. sw_trace x \<in> tw_id ` {r \<in> set (td_traces (ob_db s)). now - tw_start r \<le> a \<or> refused (tw_id r)}) (td_spans (ob_db s))"
proof -
  let ?old = "\<lambda>r. tw_start r < now - a"
  let ?db = "ob_db s"
  have d: "distinct (map tw_id (td_traces ?db))" using assms(2) by (simp add: trace_db_ok_def)
  have eq: "enforce_trace_retention up refused now (Some a) s = s\<lparr>
      ob_db := delete_traces (\<lambda>r. ?old r \<and> \<not> refused (tw_id r)) ?db,
      ob_errors := map Some (sort (map tw_id (filter (\<lambda>r. ?old r \<and> refused (tw_id r)) (td_traces ?db)))),
      ob_metrics := count_errors ''rag_trace_store_retention_failures_total''
        (length (filter (\<lambda>r. ?old r \<and> refused (tw_id r)) (td_traces ?db))) (ob_metrics s)\<rparr>"
    using trace_table.cycle_exact[where up = up, OF assms(1) d, of refused ?old] by (simp add: enforce_trace_retention_def)
  have k: "sw_trace x \<notin> tw_id ` {r \<in> set (td_traces ?db). ?old r \<and> \<not> refused (tw_id r)} \<longleftrightarrow>
      sw_trace x \<in> tw_id ` {r \<in> set (td_traces ?db). now - tw_start r \<le> a \<or> refused (tw_id r)}" if x: "x \<in> set (td_spans ?db)" for x
  proof -
    obtain r where r: "r \<in> set (td_traces ?db)" "sw_trace x = tw_id r" using x assms(2) by (auto simp: trace_db_ok_def)
    have u: "r' = r" if "r' \<in> set (td_traces ?db)" "tw_id r' = tw_id r" for r'
      using that r(1) d by (auto simp: distinct_map inj_on_def)
    have pick: "tw_id r \<in> tw_id ` {r \<in> set (td_traces ?db). P r} \<longleftrightarrow> P r" for P
      using r(1) u by (smt (verit) imageE imageI mem_Collect_eq)
    show ?thesis unfolding r(2) pick by linarith
  qed
  have "td_spans (delete_traces (\<lambda>r. ?old r \<and> \<not> refused (tw_id r)) ?db) =
      filter (\<lambda>x. sw_trace x \<in> tw_id ` {r \<in> set (td_traces ?db). now - tw_start r \<le> a \<or> refused (tw_id r)}) (td_spans ?db)"
    unfolding delete_traces_def Let_def by (simp add: k[simplified] cong: filter_cong)
  moreover have "td_traces (delete_traces (\<lambda>r. ?old r \<and> \<not> refused (tw_id r)) ?db) =
      filter (\<lambda>r. now - tw_start r \<le> a \<or> refused (tw_id r)) (td_traces ?db)"
    by (auto simp: delete_traces_def Let_def intro!: filter_cong)
  moreover have "filter (\<lambda>r. ?old r \<and> refused (tw_id r)) (td_traces ?db) = filter (\<lambda>r. a < now - tw_start r \<and> refused (tw_id r)) (td_traces ?db)"
    by (auto intro!: filter_cong)
  ultimately show ?thesis unfolding eq by simp
qed
definition demo_stored_trace :: "int \<Rightarrow> ident \<Rightarrow> trace" where
  "demo_stored_trace t i = \<lparr>tr_id = i, tr_route = ''GET /'', tr_start = t, tr_duration = 5, tr_status = SpanSuccess,
     tr_spans = [\<lparr>sp_id = ''s'', sp_parent = None, sp_operation = ''Root_Span'', sp_begin = t, sp_duration = 5,
       sp_status = SpanSuccess, sp_attributes = [], sp_trace = Some i, sp_route = Some ''GET /'', sp_config = None\<rparr>],
     tr_version = None, tr_settings = []\<rparr>"

definition demo_trace_db :: trace_db where
  "demo_trace_db = \<lparr>td_traces = [trace_row_of (demo_stored_trace 10 ''a''), trace_row_of (demo_stored_trace 20 ''b'')],
     td_spans = map (span_row_of ''a'') (tr_spans (demo_stored_trace 10 ''a''))\<rparr>"

lemma demo_trace_db_ok: "trace_db_ok demo_trace_db"
  by (simp add: trace_db_ok_def demo_trace_db_def trace_row_of_def span_row_of_def demo_stored_trace_def)

theorem persisted_trace_read_back_witness:
  "\<exists>db' t'. write_atomically True (demo_stored_trace 30 ''c'') demo_trace_db = Some db' \<and> get_trace db' ''c'' = Some t' \<and>
     tr_route t' = ''GET /'' \<and> length (tr_spans t') = 1"
proof -
  obtain db' where w: "write_atomically True (demo_stored_trace 30 ''c'') demo_trace_db = Some db'"
    by (simp add: write_atomically_def demo_stored_trace_def trace_row_of_def span_row_of_def storable_trace_def storable_span_def
        storable_text_def Let_def)
  have "tr_id (demo_stored_trace 30 ''c'') \<notin> tw_id ` set (td_traces demo_trace_db)"
    by (simp add: demo_stored_trace_def demo_trace_db_def trace_row_of_def)
  from persisted_trace_read_back[OF demo_trace_db_ok w this] show ?thesis using w by (auto simp: demo_stored_trace_def)
qed

theorem search_is_reading_witness:
  "length (search_traces demo_trace_db \<lparr>tf_start = None, tf_end = None, tf_route = None, tf_status = None,
     tf_min_duration = Some 1, tf_limit = Some 1\<rparr>) = 1"
  using arg_cong[OF search_is_reading[OF demo_trace_db_ok, of "\<lparr>tf_start = None, tf_end = None, tf_route = None, tf_status = None,
     tf_min_duration = Some 1, tf_limit = Some 1\<rparr>"], of length]
  by (simp add: demo_trace_db_def trace_row_of_def demo_stored_trace_def effective_limit_def trace_selected_def if_given_def)

theorem retention_exact_witness:
  "map tw_id (td_traces (ob_db (enforce_trace_retention (\<lambda>_. True) (\<lambda>i. i = ''b'') 100 (Some 5)
     \<lparr>ob_db = demo_trace_db, ob_metrics = empty_registry, ob_errors = []\<rparr>))) = [''b'']"
  using retention_exact[of "\<lambda>_. True" "\<lparr>ob_db = demo_trace_db, ob_metrics = empty_registry, ob_errors = []\<rparr>" "\<lambda>i. i = ''b''" 100 5]
    demo_trace_db_ok
  by (simp add: demo_trace_db_def trace_row_of_def demo_stored_trace_def)

end
