(* ===== verification/LogStore.thy ===== *)
theory LogStore
  imports TraceStore "HOL-Library.Multiset"
begin

text \<open>
  Structured logs: capture by the logging handler (\<open>log_handler.py\<close>) and the durable store with its queries
  and retention (\<open>log_store.py\<close>). A record of the logging library is its creation time, level, logger,
  message and attributes; formatting a message, a value or an exception may raise, which is \<open>None\<close>.
\<close>

section \<open>Records and their table\<close>

record log_record =
  lg_time :: int
  lg_level :: string
  lg_logger :: string
  lg_message :: string
  lg_trace :: "ident option"
  lg_exc :: "string option"
  lg_extra :: "(string \<times> json) list"
  lg_seq :: int

record log_row =
  lw_id :: int
  lw_log :: log_record

record log_db =
  ld_rows :: "log_row list"
  ld_next :: int

definition empty_log_db :: log_db where
  "empty_log_db = \<lparr>ld_rows = [], ld_next = 1\<rparr>"

section \<open>Capture\<close>

record log_event =
  ev_created :: int
  ev_level :: string
  ev_logger :: string
  ev_message :: "string option"
  ev_trace :: "json option"
  ev_exc :: "string option"
  ev_attrs :: "string \<rightharpoonup> json"

text \<open>The correlation identifier: the record's, else the context's; the placeholder of the filter is none.\<close>

definition event_trace :: "(json \<Rightarrow> string option) \<Rightarrow> ident option \<Rightarrow> json option \<Rightarrow> ident option option" where
  "event_trace str ctx raw =
     (let raw1 = (case raw of None \<Rightarrow> map_option JStr ctx | Some JNull \<Rightarrow> map_option JStr ctx
                  | Some v \<Rightarrow> if v = JStr ''-'' then map_option JStr ctx else Some v)
      in case raw1 of
           None \<Rightarrow> Some None
         | Some JNull \<Rightarrow> Some None
         | Some (JStr s) \<Rightarrow> Some (if s = ''-'' then None else Some s)
         | Some v \<Rightarrow> map_option Some (str v))"

fun event_extra :: "(json \<Rightarrow> string option) \<Rightarrow> string list \<Rightarrow> (string \<rightharpoonup> json) \<Rightarrow> (string \<times> json) list option" where
  "event_extra str [] attrs = Some []"
| "event_extra str (k # ks) attrs =
     (case (if k = ''trace_id'' then None else attrs k) of
        None \<Rightarrow> event_extra str ks attrs
      | Some v \<Rightarrow>
          if v = JNull then event_extra str ks attrs
          else if scalar v then map_option ((#) (k, v)) (event_extra str ks attrs)
          else (case str v of None \<Rightarrow> None | Some t \<Rightarrow> map_option ((#) (k, JStr t)) (event_extra str ks attrs)))"

definition build_log_model :: "(json \<Rightarrow> string option) \<Rightarrow> string list \<Rightarrow> ident option \<Rightarrow> int \<Rightarrow> log_event \<Rightarrow> log_record option" where
  "build_log_model str names ctx seq e =
     (case ev_message e of
        None \<Rightarrow> None
      | Some msg \<Rightarrow>
          (case event_trace str ctx (ev_trace e) of
             None \<Rightarrow> None
           | Some tid \<Rightarrow>
               map_option (\<lambda>extra. \<lparr>lg_time = ev_created e, lg_level = ev_level e, lg_logger = ev_logger e, lg_message = msg,
                   lg_trace = tid, lg_exc = ev_exc e, lg_extra = extra, lg_seq = seq\<rparr>)
                 (event_extra str names (ev_attrs e))))"

text \<open>\<open>emit\<close> never raises; the sequence number is taken last, so a record that cannot be built takes none.\<close>

definition emit_log :: "(json \<Rightarrow> string option) \<Rightarrow> string list \<Rightarrow> ident option \<Rightarrow> log_event \<Rightarrow> int \<times> log_record buffer \<Rightarrow> int \<times> log_record buffer" where
  "emit_log str names ctx e h =
     (case build_log_model str names ctx (fst h) e of
        None \<Rightarrow> h
      | Some m \<Rightarrow> (fst h + 1, snd (offer m (snd h))))"

section \<open>Store\<close>

definition storable_log :: "log_record \<Rightarrow> bool" where
  "storable_log r \<longleftrightarrow> storable_text (lg_level r) \<and> storable_text (lg_logger r) \<and> storable_text (lg_message r) \<and>
     (case lg_trace r of Some t \<Rightarrow> storable_text t | None \<Rightarrow> True) \<and> (case lg_exc r of Some t \<Rightarrow> storable_text t | None \<Rightarrow> True) \<and>
     storable_json (JObj (lg_extra r))"

record log_store =
  ls_db :: log_db
  ls_metrics :: registry
  ls_errors :: "int option list"

definition insert_log :: "log_record \<Rightarrow> log_db \<Rightarrow> log_db" where
  "insert_log r db = \<lparr>ld_rows = ld_rows db @ [\<lparr>lw_id = ld_next db, lw_log = r\<rparr>], ld_next = ld_next db + 1\<rparr>"

definition persist_log :: "bool \<Rightarrow> log_record \<Rightarrow> log_store \<Rightarrow> log_store" where
  "persist_log up r s =
     (if up \<and> storable_log r then s\<lparr>ls_db := insert_log r (ls_db s)\<rparr>
      else s\<lparr>ls_metrics := increment ''rag_log_store_write_failures_total'' [] 1 (ls_metrics s)\<rparr>)"

definition row_to_log :: "log_row \<Rightarrow> log_record" where
  "row_to_log w = (lw_log w)\<lparr>lg_seq := lw_id w\<rparr>"

definition newest_first :: "log_row list \<Rightarrow> log_row list" where
  "newest_first = sort_key (\<lambda>w. (- lg_time (lw_log w), - lw_id w))"

definition get_logs_by_trace :: "log_db \<Rightarrow> ident \<Rightarrow> log_record list" where
  "get_logs_by_trace db i = map row_to_log (newest_first (filter (\<lambda>w. lg_trace (lw_log w) = Some i) (ld_rows db)))"

record log_filters =
  lf_start :: "int option"
  lf_end :: "int option"
  lf_level :: "string option"
  lf_trace :: "ident option"
  lf_limit :: "int option"

definition log_selected :: "log_filters \<Rightarrow> log_row \<Rightarrow> bool" where
  "log_selected f w \<longleftrightarrow>
     if_given (lf_start f) (\<lambda>a. a \<le> lg_time (lw_log w)) \<and> if_given (lf_end f) (\<lambda>b. lg_time (lw_log w) \<le> b) \<and>
     if_given (lf_level f) (\<lambda>l. lg_level (lw_log w) = l) \<and> if_given (lf_trace f) (\<lambda>t. lg_trace (lw_log w) = Some t)"

definition search_logs :: "log_db \<Rightarrow> log_filters \<Rightarrow> log_record list" where
  "search_logs db f = map row_to_log (take (effective_limit (lf_limit f)) (newest_first (filter (log_selected f) (ld_rows db))))"

section \<open>Retention\<close>

definition delete_logs :: "(log_row \<Rightarrow> bool) \<Rightarrow> log_db \<Rightarrow> log_db" where
  "delete_logs p db = db\<lparr>ld_rows := filter (\<lambda>w. \<not> p w) (ld_rows db)\<rparr>"

definition enforce_log_retention :: "(nat \<Rightarrow> bool) \<Rightarrow> (int \<Rightarrow> bool) \<Rightarrow> int \<Rightarrow> int option \<Rightarrow> log_store \<Rightarrow> log_store" where
  "enforce_log_retention up refused now max_age s =
     (case max_age of
        None \<Rightarrow> s
      | Some a \<Rightarrow>
          (case retention_cycle ld_rows lw_id delete_logs up refused (\<lambda>w. lg_time (lw_log w) < now - a) (ls_db s) of
             (es, db) \<Rightarrow> s\<lparr>ls_db := db, ls_errors := es,
                ls_metrics := count_errors ''rag_log_store_retention_failures_total'' (length es) (ls_metrics s)\<rparr>))"

interpretation log_table: row_table ld_rows lw_id delete_logs
proof
  fix p q :: "log_row \<Rightarrow> bool" and s :: log_db
  show "ld_rows (delete_logs p s) = filter (\<lambda>r. \<not> p r) (ld_rows s)" by (simp add: delete_logs_def)
  show "delete_logs q (delete_logs p s) = delete_logs (\<lambda>r. p r \<or> q r) s" by (simp add: delete_logs_def)
  show "delete_logs (\<lambda>_. False) s = s" by (simp add: delete_logs_def)
  assume "\<And>r. r \<in> set (ld_rows s) \<Longrightarrow> p r = q r"
  then have "filter (\<lambda>r. \<not> p r) (ld_rows s) = filter (\<lambda>r. \<not> q r) (ld_rows s)" by (auto intro!: filter_cong)
  then show "delete_logs p s = delete_logs q s" by (simp add: delete_logs_def)
qed

section \<open>Insertion order\<close>

definition log_db_ok :: "log_db \<Rightarrow> bool" where
  "log_db_ok db \<longleftrightarrow> sorted_wrt (<) (map lw_id (ld_rows db)) \<and> (\<forall>w \<in> set (ld_rows db). lw_id w < ld_next db)"

lemma insert_log_ok: "log_db_ok db \<Longrightarrow> log_db_ok (insert_log r db)"
  by (auto simp: log_db_ok_def insert_log_def sorted_wrt_append)

lemma persist_log_ok: "log_db_ok (ls_db s) \<Longrightarrow> log_db_ok (ls_db (persist_log up r s))"
  by (simp add: persist_log_def insert_log_ok)

lemma delete_logs_ok: "log_db_ok db \<Longrightarrow> log_db_ok (delete_logs p db)"
  by (auto simp: log_db_ok_def delete_logs_def sorted_wrt_map sorted_wrt_filter)

lemma log_db_distinct: "log_db_ok db \<Longrightarrow> distinct (map lw_id (ld_rows db))"
  unfolding log_db_ok_def by (auto simp: strict_sorted_iff)

text \<open>Retention of logs fails safe: whichever transactions and rows the database refuses, a record that is
  not too old is never removed, nothing is added, and each record that is too old and stays is reported,
  or the report says that the candidates could not be read.\<close>

theorem log_retention_fails_safe:
  assumes "log_db_ok (ls_db s)"
  shows "set (ld_rows (ls_db (enforce_log_retention up refused now (Some a) s))) \<subseteq> set (ld_rows (ls_db s)) \<and>
    {w \<in> set (ld_rows (ls_db s)). now - lg_time (lw_log w) \<le> a} \<subseteq> set (ld_rows (ls_db (enforce_log_retention up refused now (Some a) s))) \<and>
    {w \<in> set (ld_rows (ls_db (enforce_log_retention up refused now (Some a) s))). a < now - lg_time (lw_log w)} \<subseteq>
      {w. None \<in> set (ls_errors (enforce_log_retention up refused now (Some a) s)) \<or>
          Some (lw_id w) \<in> set (ls_errors (enforce_log_retention up refused now (Some a) s))}"
proof -
  obtain es db where c: "retention_cycle ld_rows lw_id delete_logs up refused (\<lambda>w. lg_time (lw_log w) < now - a) (ls_db s) = (es, db)"
    by (cases "retention_cycle ld_rows lw_id delete_logs up refused (\<lambda>w. lg_time (lw_log w) < now - a) (ls_db s)")
  have e: "ls_db (enforce_log_retention up refused now (Some a) s) = db" "ls_errors (enforce_log_retention up refused now (Some a) s) = es"
    using c by (simp_all add: enforce_log_retention_def)
  have *: "\<And>w. (\<not> lg_time (lw_log w) < now - a) = (now - lg_time (lw_log w) \<le> a)" "\<And>w. (lg_time (lw_log w) < now - a) = (a < now - lg_time (lw_log w))"
    by auto
  show ?thesis using log_table.cycle_reports[OF c log_db_distinct[OF assms]] unfolding e * by (simp add: not_less)
qed

definition demo_log :: "int \<Rightarrow> log_record" where
  "demo_log t = \<lparr>lg_time = t, lg_level = ''INFO'', lg_logger = ''l'', lg_message = ''m'', lg_trace = Some ''t'', lg_exc = None,
     lg_extra = [], lg_seq = 0\<rparr>"

definition demo_log_store :: log_store where
  "demo_log_store = \<lparr>ls_db = insert_log (demo_log 90) (insert_log (demo_log 10) empty_log_db), ls_metrics = empty_registry, ls_errors = []\<rparr>"

lemma demo_log_store_ok: "log_db_ok (ls_db demo_log_store)"
  unfolding demo_log_store_def log_store.simps by (intro insert_log_ok) (simp add: log_db_ok_def empty_log_db_def)

theorem log_retention_fails_safe_witness:
  "\<lparr>lw_id = 2, lw_log = demo_log 90\<rparr> \<in> set (ld_rows (ls_db (enforce_log_retention (\<lambda>n. n \<noteq> 0) (\<lambda>i. i = 1) 100 (Some 20) demo_log_store)))"
proof -
  have "\<lparr>lw_id = 2, lw_log = demo_log 90\<rparr> \<in> {w \<in> set (ld_rows (ls_db demo_log_store)). 100 - lg_time (lw_log w) \<le> 20}"
    by (simp add: demo_log_store_def insert_log_def empty_log_db_def demo_log_def)
  then show ?thesis using log_retention_fails_safe[OF demo_log_store_ok, where up = "\<lambda>n. n \<noteq> 0" and refused = "\<lambda>i. i = 1" and now = 100 and a = 20] by blast
qed

lemma newest_first_sorted:
  assumes "distinct (map lw_id ws)"
  shows "sorted_wrt (\<lambda>x y. lg_time y < lg_time x \<or> lg_time x = lg_time y \<and> lg_seq y < lg_seq x) (map row_to_log (newest_first ws))"
proof -
  let ?k = "\<lambda>w. (- lg_time (lw_log w), - lw_id w)"
  have "distinct (map lw_id (newest_first ws))" using assms by (simp add: newest_first_def distinct_map)
  moreover have "sorted (map ?k (newest_first ws))" by (simp add: newest_first_def)
  ultimately have "sorted_wrt (\<lambda>v w. lw_id v \<noteq> lw_id w \<and> ?k v \<le> ?k w) (newest_first ws)"
    by (induction "newest_first ws") (auto simp: sorted_wrt_iff_nth_less nth_eq_iff_index_eq distinct_conv_nth)
  then show ?thesis unfolding sorted_wrt_map by (rule sorted_wrt_mono_rel[rotated]) (auto simp: row_to_log_def less_eq_prod_def)
qed

text \<open>What is logged is found: after a record was accepted, reading its trace returns it among the trace's
  records, newest first with later insertions before earlier ones at the same time, and reading any
  other trace is unchanged.\<close>

theorem persisted_log_found:
  assumes "log_db_ok (ls_db s)" "up" "storable_log r" "lg_trace r = Some i"
  shows "mset (get_logs_by_trace (ls_db (persist_log up r s)) i) = add_mset (r\<lparr>lg_seq := ld_next (ls_db s)\<rparr>) (mset (get_logs_by_trace (ls_db s) i)) \<and>
     sorted_wrt (\<lambda>x y. lg_time y < lg_time x \<or> lg_time x = lg_time y \<and> lg_seq y < lg_seq x) (get_logs_by_trace (ls_db (persist_log up r s)) i) \<and>
     (\<forall>j. j \<noteq> i \<longrightarrow> get_logs_by_trace (ls_db (persist_log up r s)) j = get_logs_by_trace (ls_db s) j)"
proof -
  have eq: "ls_db (persist_log up r s) = insert_log r (ls_db s)" using assms(2,3) by (simp add: persist_log_def)
  have d: "distinct (map lw_id (filter p (ld_rows (insert_log r (ls_db s)))))" for p
    using log_db_distinct[OF insert_log_ok[OF assms(1)]] by (simp add: distinct_map_filter)
  have "get_logs_by_trace (insert_log r (ls_db s)) j = get_logs_by_trace (ls_db s) j" if "j \<noteq> i" for j
    using that assms(4) by (simp add: get_logs_by_trace_def insert_log_def)
  moreover have "mset (get_logs_by_trace (insert_log r (ls_db s)) i) = add_mset (r\<lparr>lg_seq := ld_next (ls_db s)\<rparr>) (mset (get_logs_by_trace (ls_db s) i))"
    using assms(4) by (simp add: get_logs_by_trace_def insert_log_def newest_first_def row_to_log_def)
  ultimately show ?thesis unfolding eq using newest_first_sorted[OF d] by (simp add: get_logs_by_trace_def)
qed

theorem persisted_log_found_witness:
  "demo_log 50\<lparr>lg_seq := 3\<rparr> \<in> set (get_logs_by_trace (ls_db (persist_log True (demo_log 50) demo_log_store)) ''t'')"
proof -
  have "storable_log (demo_log 50)" "lg_trace (demo_log 50) = Some ''t''" "ld_next (ls_db demo_log_store) = 3"
    by (simp_all add: demo_log_def storable_log_def storable_text_def demo_log_store_def insert_log_def empty_log_db_def)
  note found = conjunct1[OF persisted_log_found[OF demo_log_store_ok _ this(1,2)], of True]
  show ?thesis using arg_cong[OF found, of set_mset] \<open>ld_next (ls_db demo_log_store) = 3\<close> by auto
qed

end
