(* ===== verification/FlushWorker.thy ===== *)
theory FlushWorker
  imports LogStore
begin

text \<open>
  The background flush, \<open>flush_workers.py\<close>: grouping drained spans by trace, one drain with its retained
  entries, and the two workers. The locale \<open>flush_plan\<close> states what a plan of batches promises and
  what one cycle does for a store that raises and for one that does not; both workers interpret it.
  What other threads offer between the drain and the retention is an argument.
\<close>

section \<open>Grouping\<close>

definition attributable :: "span \<Rightarrow> bool" where
  "attributable s \<longleftrightarrow> (case sp_trace s of Some t \<Rightarrow> t \<noteq> [] | None \<Rightarrow> False)"

definition add_to_group :: "span \<Rightarrow> (ident \<times> span list) list \<Rightarrow> (ident \<times> span list) list" where
  "add_to_group s gs =
     (case sp_trace s of
        None \<Rightarrow> gs
      | Some t \<Rightarrow> if t = [] then gs else AList.update t (value_at [] gs t @ [s]) gs)"

definition span_groups :: "span list \<Rightarrow> (ident \<times> span list) list" where
  "span_groups spans = fold add_to_group spans []"

text \<open>The first span with the least start.\<close>

fun earliest_span :: "span \<Rightarrow> span list \<Rightarrow> span" where
  "earliest_span s [] = s"
| "earliest_span s (t # r) = earliest_span (if sp_begin t < sp_begin s then t else s) r"

definition anchor_of :: "span list \<Rightarrow> span" where
  "anchor_of g = (case find (\<lambda>s. sp_parent s = None) g of Some r \<Rightarrow> r | None \<Rightarrow> earliest_span (hd g) (tl g))"

definition trace_of_group :: "ident \<times> span list \<Rightarrow> trace" where
  "trace_of_group tg =
     (let a = anchor_of (snd tg)
      in \<lparr>tr_id = fst tg, tr_route = (case or_none (sp_route a) of Some r \<Rightarrow> r | None \<Rightarrow> sp_operation a), tr_start = sp_begin a,
          tr_duration = sp_duration a, tr_status = sp_status a, tr_spans = snd tg,
          tr_version = (case sp_config a of Some (v, _) \<Rightarrow> v | None \<Rightarrow> None),
          tr_settings = (case sp_config a of Some (_, st) \<Rightarrow> st | None \<Rightarrow> [])\<rparr>)"

definition group_spans_by_trace :: "span list \<Rightarrow> trace list" where
  "group_spans_by_trace spans = map trace_of_group (span_groups spans)"

section \<open>One cycle\<close>

text \<open>Persisting a payload yields whether it raised, and the store.\<close>

fun persist_batches :: "('p \<Rightarrow> 's \<Rightarrow> bool \<times> 's) \<Rightarrow> ('p \<times> 'i list) list \<Rightarrow> 's \<Rightarrow> nat \<times> 'i list \<times> 's" where
  "persist_batches persist [] s = (0, [], s)"
| "persist_batches persist ((p, src) # r) s =
     (case persist p s of
        (raised, s1) \<Rightarrow>
          (case persist_batches persist r s1 of
             (n, retained, s2) \<Rightarrow> if raised then (n, src @ retained, s2) else (n + 1, retained, s2)))"

definition flush_once :: "('i list \<Rightarrow> ('p \<times> 'i list) list) \<Rightarrow> ('p \<Rightarrow> 's \<Rightarrow> bool \<times> 's) \<Rightarrow> 'i list \<Rightarrow> 'i buffer \<Rightarrow> 's
    \<Rightarrow> nat \<times> 'i buffer \<times> 's" where
  "flush_once plan persist others b s =
     (case drain b of
        (items, b1) \<Rightarrow>
          if items = [] then (0, b1, s)
          else (case persist_batches persist (plan items) s of
                  (n, retained, s') \<Rightarrow> (n, offer_all retained (offer_all others b1), s')))"

locale flush_plan =
  fixes plan :: "'i list \<Rightarrow> ('p \<times> 'i list) list" and keep :: "'i \<Rightarrow> bool"
  assumes plan_sources: "mset (concat (map snd (plan items))) = mset (filter keep items)"
begin

lemma silent_store_retains_nothing:
  assumes "\<And>p s. \<not> fst (persist p s)"
  shows "persist_batches persist bs s = (length bs, [], fold (\<lambda>b s. snd (persist (fst b) s)) bs s)"
proof (induction bs arbitrary: s)
  case (Cons b bs)
  obtain p src where b: "b = (p, src)" by (cases b)
  obtain s1 where "persist p s = (False, s1)" using assms[of p s] by (metis prod.collapse)
  then show ?case using Cons b by simp
qed simp

lemma raising_store_retains_all:
  assumes "\<And>p s. persist p s = (True, s)"
  shows "persist_batches persist bs s = (0, concat (map snd bs), s)"
  by (induction bs) (auto simp: assms)

text \<open>When persisting raises for everything and leaves the store alone, the cycle puts every entry it can
  attribute back, as far as the buffer has room.\<close>

lemma flush_retains:
  assumes "\<And>p s. persist p s = (True, s)" "bf_items b \<noteq> []" "length (bf_items b) \<le> bf_capacity b"
  shows "\<exists>b'. flush_once plan persist [] b s = (0, b', s) \<and> mset (bf_items b') = mset (filter keep (bf_items b))"
proof -
  let ?r = "concat (map snd (plan (bf_items b)))"
  have len: "length ?r \<le> bf_capacity b"
  proof -
    have "length ?r = length (filter keep (bf_items b))" using plan_sources[of "bf_items b"] by (metis size_mset)
    then show ?thesis using assms(3) length_filter_le[of keep "bf_items b"] by linarith
  qed
  have "bf_items (offer_all ?r (b\<lparr>bf_items := []\<rparr>)) = ?r"
    using offer_all_eq[of "b\<lparr>bf_items := []\<rparr>" ?r] len by (simp add: buffer_ok_def)
  then show ?thesis using plan_sources[of "bf_items b"] assms(2)
    by (simp add: flush_once_def drain_def raising_store_retains_all[OF assms(1)])
qed

text \<open>When persisting never raises, nothing is put back.\<close>

lemma flush_forgets:
  assumes "\<And>p s. \<not> fst (persist p s)" "bf_items b \<noteq> []"
  shows "flush_once plan persist others b s =
    (length (plan (bf_items b)), offer_all others (b\<lparr>bf_items := []\<rparr>), fold (\<lambda>x s. snd (persist (fst x) s)) (plan (bf_items b)) s)"
  using assms(2) by (simp add: flush_once_def drain_def silent_store_retains_nothing[OF assms(1)])

end

section \<open>The workers\<close>

datatype flush_item = SpanItem span | TraceItem trace

fun item_trace :: "flush_item \<Rightarrow> trace option" where
  "item_trace (TraceItem t) = Some t"
| "item_trace (SpanItem s) = None"

fun item_span :: "flush_item \<Rightarrow> span option" where
  "item_span (SpanItem s) = Some s"
| "item_span (TraceItem t) = None"

definition plan_traces :: "flush_item list \<Rightarrow> (trace \<times> flush_item list) list" where
  "plan_traces items =
     map (\<lambda>t. (t, [TraceItem t])) (List.map_filter item_trace items) @
     map (\<lambda>t. (t, map SpanItem (tr_spans t))) (group_spans_by_trace (List.map_filter item_span items))"

definition plan_logs :: "log_record list \<Rightarrow> (log_record \<times> log_record list) list" where
  "plan_logs items = map (\<lambda>r. (r, [r])) items"

definition flush_traces :: "bool \<Rightarrow> flush_item list \<Rightarrow> flush_item buffer \<Rightarrow> obs_store \<Rightarrow> nat \<times> flush_item buffer \<times> obs_store" where
  "flush_traces up = flush_once plan_traces (\<lambda>t s. (False, persist_trace up t s))"

definition flush_logs :: "bool \<Rightarrow> log_record list \<Rightarrow> log_record buffer \<Rightarrow> log_store \<Rightarrow> nat \<times> log_record buffer \<times> log_store" where
  "flush_logs up = flush_once plan_logs (\<lambda>r s. (False, persist_log up r s))"

section \<open>Groups partition the spans\<close>

lemma mset_update_group:
  "distinct (map fst gs) \<Longrightarrow>
   mset (concat (map snd (AList.update t (value_at [] gs t @ [s]) gs))) = add_mset s (mset (concat (map snd gs)))"
proof (induction gs)
  case (Cons g gs)
  show ?case
  proof (cases "fst g = t")
    case True
    then show ?thesis by (cases g) (simp add: value_at_def)
  next
    case False
    then have "value_at [] (g # gs) t = value_at [] gs t" by (cases g) (simp add: value_at_def)
    then show ?thesis using Cons False by (cases g) auto
  qed
qed (simp add: value_at_def)

definition groups_ok :: "(ident \<times> span list) list \<Rightarrow> bool" where
  "groups_ok gs \<longleftrightarrow> distinct (map fst gs) \<and> (\<forall>(t, g) \<in> set gs. g \<noteq> [] \<and> (\<forall>s \<in> set g. sp_trace s = Some t))"

lemma update_set: "distinct (map fst gs) \<Longrightarrow> set (AList.update t v gs) = insert (t, v) {g \<in> set gs. fst g \<noteq> t}"
  by (induction gs) (auto simp: image_iff)

lemma value_at_group: "groups_ok gs \<Longrightarrow> s \<in> set (value_at [] gs t) \<Longrightarrow> sp_trace s = Some t"
  by (auto simp: groups_ok_def value_at_def split: option.splits dest!: map_of_SomeD)

lemma add_to_group_ok:
  assumes "groups_ok gs"
  shows "groups_ok (add_to_group s gs) \<and>
    mset (concat (map snd (add_to_group s gs))) = mset (filter attributable [s]) + mset (concat (map snd gs))"
proof (cases "attributable s")
  case True
  then obtain t where t: "sp_trace s = Some t" "t \<noteq> []" by (auto simp: attributable_def split: option.splits)
  have d: "distinct (map fst gs)" using assms by (simp add: groups_ok_def)
  have "groups_ok (AList.update t (value_at [] gs t @ [s]) gs)"
    using assms t value_at_group[OF assms, of _ t] d
    by (auto simp: groups_ok_def update_set distinct_update)
  then show ?thesis using True t mset_update_group[OF d] by (simp add: add_to_group_def)
next
  case False
  then have "add_to_group s gs = gs" by (auto simp: add_to_group_def attributable_def split: option.splits)
  then show ?thesis using assms False by simp
qed

lemma fold_groups:
  "groups_ok gs \<Longrightarrow> groups_ok (fold add_to_group spans gs) \<and>
   mset (concat (map snd (fold add_to_group spans gs))) = mset (filter attributable spans) + mset (concat (map snd gs))"
proof (induction spans arbitrary: gs)
  case (Cons s spans)
  then show ?case using Cons.IH[of "add_to_group s gs"] add_to_group_ok[OF Cons.prems, of s] by (auto simp: ac_simps)
qed simp

lemma span_groups_ok: "groups_ok (span_groups spans)"
  and span_groups_mset: "mset (concat (map snd (span_groups spans))) = mset (filter attributable spans)"
  using fold_groups[of "[]" spans] by (simp_all add: span_groups_def groups_ok_def)

lemma trace_of_group_fields [simp]: "tr_id (trace_of_group g) = fst g" "tr_spans (trace_of_group g) = snd g"
  by (simp_all add: trace_of_group_def Let_def)

definition item_kept :: "flush_item \<Rightarrow> bool" where
  "item_kept i \<longleftrightarrow> (case i of SpanItem s \<Rightarrow> attributable s | TraceItem t \<Rightarrow> True)"

lemma split_items:
  "mset (filter item_kept items) =
     mset (map TraceItem (List.map_filter item_trace items)) + mset (map SpanItem (filter attributable (List.map_filter item_span items)))"
proof (induction items)
  case (Cons i items)
  then show ?case by (cases i) (simp_all add: item_kept_def map_filter_simps)
qed (simp add: map_filter_simps)

lemma mset_concat_image: "mset (concat (map (\<lambda>g. map f (h g)) gs)) = image_mset f (mset (concat (map h gs)))"
  by (induction gs) simp_all

interpretation trace_plan: flush_plan plan_traces item_kept
proof
  fix items
  have "mset (concat (map snd (map (\<lambda>t. (t, map SpanItem (tr_spans t))) (group_spans_by_trace spans)))) = mset (map SpanItem (filter attributable spans))" for spans
    using mset_concat_image[of SpanItem snd "span_groups spans"] span_groups_mset[of spans]
    by (simp add: group_spans_by_trace_def comp_def)
  moreover have "concat (map snd (map (\<lambda>t. (t, [TraceItem t])) ts)) = map TraceItem ts" for ts by (induction ts) simp_all
  ultimately show "mset (concat (map snd (plan_traces items))) = mset (filter item_kept items)"
    by (simp only: plan_traces_def map_append concat_append mset_append split_items)
qed

interpretation log_plan: flush_plan plan_logs "\<lambda>_. True"
proof
  fix items :: "log_record list"
  show "mset (concat (map snd (plan_logs items))) = mset (filter (\<lambda>_. True) items)"
    by (induction items) (simp_all add: plan_logs_def)
qed

section \<open>Properties\<close>

text \<open>An outage loses what it should keep: while the database is down a flush of the trace worker empties
  the buffer, puts nothing back, writes nothing, and reports every batch as persisted; the worker would
  retain all of them if persisting raised, which the store never does.\<close>

theorem outage_loses_spans:
  assumes "buffer_ok b" "bf_items b \<noteq> []"
  shows "(case flush_traces False [] b s of
       (n, b', s') \<Rightarrow> n = length (plan_traces (bf_items b)) \<and> bf_items b' = [] \<and> bf_dropped b' = bf_dropped b \<and> ob_db s' = ob_db s) \<and>
     (case flush_once plan_traces (\<lambda>t s. (True, s)) [] b s of
       (n, b', s') \<Rightarrow> n = 0 \<and> s' = s \<and> mset (bf_items b') = mset (filter item_kept (bf_items b)))"
proof -
  have down: "ob_db (fold (\<lambda>x s. snd (False, persist_trace False (fst x) s)) bs s) = ob_db s" for bs :: "(trace \<times> flush_item list) list"
    by (induction bs arbitrary: s) (simp_all add: persist_trace_def write_atomically_def Let_def)
  have "flush_traces False [] b s = (length (plan_traces (bf_items b)), b\<lparr>bf_items := []\<rparr>,
      fold (\<lambda>x s. snd (False, persist_trace False (fst x) s)) (plan_traces (bf_items b)) s)"
    unfolding flush_traces_def using trace_plan.flush_forgets[of "\<lambda>t s. (False, persist_trace False t s)" b "[]" s] assms(2) by simp
  moreover have "\<exists>b'. flush_once plan_traces (\<lambda>t s. (True, s)) [] b s = (0, b', s) \<and> mset (bf_items b') = mset (filter item_kept (bf_items b))"
    using trace_plan.flush_retains[of "\<lambda>t s. (True, s)" b s] assms by (simp add: buffer_ok_def)
  ultimately show ?thesis using down[of "plan_traces (bf_items b)"] by auto
qed

text \<open>One cycle of the log worker with the handler attached to the root logger: the warning about each
  record that could not be written is captured in turn.\<close>

definition failed_write_warning :: "int \<Rightarrow> string \<Rightarrow> log_record \<Rightarrow> log_event" where
  "failed_write_warning now err r =
     \<lparr>ev_created = now, ev_level = ''WARNING'', ev_logger = ''rag_system.observability_tracing.log_store'',
      ev_message = Some (''Failed to persist log record (trace '' @ (case lg_trace r of Some t \<Rightarrow> t | None \<Rightarrow> ''None'') @ ''); discarding: '' @ err),
      ev_trace = map_option JStr (lg_trace r), ev_exc = None,
      ev_attrs = (\<lambda>k. if k = ''trace_id'' then map_option JStr (lg_trace r) else None)\<rparr>"

definition log_cycle :: "(json \<Rightarrow> string option) \<Rightarrow> string list \<Rightarrow> int \<Rightarrow> string \<Rightarrow> bool \<Rightarrow> int \<times> log_record buffer \<Rightarrow> log_store
    \<Rightarrow> (int \<times> log_record buffer) \<times> log_store" where
  "log_cycle str names now err up h s =
     (case flush_logs up [] (snd h) s of
        (_, b, s') \<Rightarrow>
          (fold (\<lambda>r. emit_log str names None (failed_write_warning now err r))
             (filter (\<lambda>r. \<not> (up \<and> storable_log r)) (bf_items (snd h))) (fst h, b), s'))"

lemma event_extra_none: "(\<And>k. k \<in> set ks \<Longrightarrow> k = ''trace_id'' \<or> attrs k = None) \<Longrightarrow> event_extra str ks attrs = Some []"
proof (induction ks)
  case (Cons k ks)
  then have "k = ''trace_id'' \<or> attrs k = None" "event_extra str ks attrs = Some []" by simp_all
  then show ?case by (cases "attrs k") auto
qed simp

lemma warning_built: "\<exists>m. build_log_model str names None seq (failed_write_warning now err r) = Some m \<and> lg_level m = ''WARNING''"
proof -
  have "event_extra str names (ev_attrs (failed_write_warning now err r)) = Some []"
    by (rule event_extra_none) (simp add: failed_write_warning_def)
  moreover have "event_trace str None (ev_trace (failed_write_warning now err r)) \<noteq> None"
    by (auto simp: failed_write_warning_def event_trace_def Let_def split: option.splits)
  ultimately show ?thesis by (auto simp: build_log_model_def) (simp_all add: failed_write_warning_def)
qed

lemma warnings_buffered:
  "length (bf_items b) + length rs \<le> bf_capacity b \<Longrightarrow>
   \<exists>ws. bf_items (snd (fold (\<lambda>r. emit_log str names None (failed_write_warning now err r)) rs (seq, b))) = bf_items b @ ws \<and>
     length ws = length rs \<and> lg_level ` set ws \<subseteq> {''WARNING''}"
proof (induction rs arbitrary: seq b)
  case (Cons r rs)
  obtain m where m: "build_log_model str names None seq (failed_write_warning now err r) = Some m" "lg_level m = ''WARNING''"
    using warning_built by blast
  have "offer m b = (True, b\<lparr>bf_items := bf_items b @ [m]\<rparr>)" using Cons.prems by (simp add: offer_def)
  then have e: "emit_log str names None (failed_write_warning now err r) (seq, b) = (seq + 1, b\<lparr>bf_items := bf_items b @ [m]\<rparr>)"
    using m by (simp add: emit_log_def)
  obtain ws where "bf_items (snd (fold (\<lambda>r. emit_log str names None (failed_write_warning now err r)) rs (seq + 1, b\<lparr>bf_items := bf_items b @ [m]\<rparr>)))
      = bf_items b @ [m] @ ws" "length ws = length rs" "lg_level ` set ws \<subseteq> {''WARNING''}"
    using Cons.IH[of "b\<lparr>bf_items := bf_items b @ [m]\<rparr>" "seq + 1"] Cons.prems by auto
  then show ?case using e m(2) by (intro exI[of _ "m # ws"]) simp
qed simp

text \<open>A log outage feeds itself: with the capturing handler attached, every record a flush cannot write is
  lost and a warning takes its place, so while the database is down a cycle that drained \<open>n\<close> records
  writes nothing and leaves exactly \<open>n\<close> warnings in the buffer for the next cycle.\<close>

theorem log_outage_feeds_itself:
  assumes "buffer_ok (snd h)"
  shows "length (bf_items (snd (fst (log_cycle str names now err False h s)))) = length (bf_items (snd h)) \<and>
     lg_level ` set (bf_items (snd (fst (log_cycle str names now err False h s)))) \<subseteq> {''WARNING''} \<and>
     ls_db (snd (log_cycle str names now err False h s)) = ls_db s"
proof (cases "bf_items (snd h) = []")
  case True
  then show ?thesis by (simp add: log_cycle_def flush_logs_def flush_once_def drain_def)
next
  case False
  have down: "ls_db (fold (\<lambda>x s. snd (False, persist_log False (fst x) s)) bs s) = ls_db s" for bs :: "(log_record \<times> log_record list) list"
    by (induction bs arbitrary: s) (simp_all add: persist_log_def)
  let ?b = "(snd h)\<lparr>bf_items := []\<rparr>"
  have f: "flush_logs False [] (snd h) s = (length (plan_logs (bf_items (snd h))), ?b,
      fold (\<lambda>x s. snd (False, persist_log False (fst x) s)) (plan_logs (bf_items (snd h))) s)"
    unfolding flush_logs_def using log_plan.flush_forgets[of "\<lambda>r s. (False, persist_log False r s)" "snd h" "[]" s] False by simp
  obtain ws where "bf_items (snd (fold (\<lambda>r. emit_log str names None (failed_write_warning now err r)) (bf_items (snd h)) (fst h, ?b))) = ws"
    "length ws = length (bf_items (snd h))" "lg_level ` set ws \<subseteq> {''WARNING''}"
    using warnings_buffered[of ?b "bf_items (snd h)" str names now err "fst h"] assms by (auto simp: buffer_ok_def)
  then show ?thesis using f down[of "plan_logs (bf_items (snd h))"] by (simp add: log_cycle_def)
qed

section \<open>Traces across flushes\<close>

lemma earliest_span_mem: "earliest_span s ss \<in> set (s # ss)"
proof (induction ss arbitrary: s)
  case (Cons t ss)
  then show ?case using Cons[of t] Cons[of s] by auto
qed simp

text \<open>The last batch decides what a trace says of itself: when a later flush brings spans of a trace without its
  root, the stored route, start, duration and status become those of the earliest of these spans, although
  the root was written before; only the configuration version and the spans survive.\<close>

theorem later_batch_replaces_trace:
  assumes "trace_db_ok db" "write_atomically True t1 db = Some db1" "span_groups spans = [(tr_id t1, spans)]"
    "list_all (\<lambda>s. sp_parent s \<noteq> None \<and> sp_route s = None \<and> sp_config s = None) spans" "write_atomically True (trace_of_group (tr_id t1, spans)) db1 = Some db2"
  shows "\<exists>x. get_trace db2 (tr_id t1) = Some x \<and> tr_route x = sp_operation (earliest_span (hd spans) (tl spans)) \<and>
     tr_status x = sp_status (earliest_span (hd spans) (tl spans)) \<and> tr_start x = sp_begin (earliest_span (hd spans) (tl spans))"
proof -
  let ?e = "earliest_span (hd spans) (tl spans)"
  have ne: "spans \<noteq> []" using span_groups_ok[of spans] assms(3) by (simp add: groups_ok_def)
  have e: "?e \<in> set spans" using earliest_span_mem[of "hd spans" "tl spans"] ne by simp
  have "find (\<lambda>s. sp_parent s = None) spans = None" using assms(4) by (simp add: find_None_iff list_all_iff)
  then have tr: "tr_route (trace_of_group (tr_id t1, spans)) = sp_operation ?e" "tr_status (trace_of_group (tr_id t1, spans)) = sp_status ?e"
    "tr_start (trace_of_group (tr_id t1, spans)) = sp_begin ?e"
    using assms(4) e by (simp_all add: trace_of_group_def anchor_of_def Let_def list_all_iff or_none_def)
  have in1: "tr_id t1 \<in> tw_id ` set (td_traces db1)"
    using assms(2) arg_cong[OF upsert_ids[of "trace_row_of t1" "td_traces db"], of set]
    by (auto simp: write_atomically_def Let_def trace_row_of_def split: if_splits)
  let ?x = "trace_row_of (trace_of_group (tr_id t1, spans))"
  have db2: "td_traces db2 = upsert_trace ?x (td_traces db1)"
    using assms(5) by (auto simp: write_atomically_def Let_def split: if_splits)
  have "\<exists>r. find (\<lambda>r. tw_id r = tr_id t1) (upsert_trace ?x (td_traces db1)) = Some r \<and> tw_route r = tw_route ?x \<and> tw_status r = tw_status ?x \<and> tw_start r = tw_start ?x"
  proof -
    have "tw_id ?x = tr_id t1" by (simp add: trace_row_of_def)
    moreover have "list_ex (\<lambda>r. tw_id r = tw_id ?x) rows \<Longrightarrow> \<exists>r. find (\<lambda>r. tw_id r = tw_id ?x) (map (\<lambda>t. if tw_id t = tw_id ?x
            then ?x\<lparr>tw_version := v t, tw_settings := w t\<rparr> else t) rows) = Some r \<and> tw_route r = tw_route ?x \<and> tw_status r = tw_status ?x \<and> tw_start r = tw_start ?x" for rows v w
      by (induction rows) auto
    moreover have "list_ex (\<lambda>r. tw_id r = tw_id ?x) (td_traces db1)" using in1 by (auto simp: list_ex_iff trace_row_of_def)
    ultimately show ?thesis by (simp add: upsert_trace_def)
  qed
  then show ?thesis using tr db2 by (auto simp: get_trace_def row_to_trace_def) (auto simp: trace_row_of_def)
qed
section \<open>From the recorder to the reader\<close>

lemma groups_same_trace:
  assumes "\<forall>s \<in> set ss. sp_trace s = Some i" "i \<noteq> []"
  shows "fold add_to_group ss [(i, g)] = [(i, g @ ss)]"
  using assms(1) by (induction ss arbitrary: g) (simp_all add: add_to_group_def value_at_def assms(2))

lemma span_groups_one:
  assumes "\<forall>s \<in> set ss. sp_trace s = Some i" "i \<noteq> []" "ss \<noteq> []"
  shows "span_groups ss = [(i, ss)]"
proof (cases ss)
  case (Cons s r)
  then have "add_to_group s [] = [(i, [s])]" using assms(1,2) by (simp add: add_to_group_def value_at_def)
  then show ?thesis using groups_same_trace[of r i "[s]"] assms(1,2) Cons by (simp add: span_groups_def)
qed (use assms(3) in simp)

lemma span_items [simp]:
  "List.map_filter item_trace (map SpanItem ss) = []" "List.map_filter item_span (map SpanItem ss) = ss"
  by (induction ss) (simp_all add: map_filter_simps)

lemma find_unique: "{x \<in> set xs. p x} = {r} \<Longrightarrow> find p xs = Some r"
proof -
  assume u: "{x \<in> set xs. p x} = {r}"
  then have "\<exists>x. find p xs = Some x" by (metis (mono_tags, lifting) find_None_iff mem_Collect_eq not_None_eq singletonI)
  then obtain x where x: "find p xs = Some x" ..
  then have "x \<in> {x \<in> set xs. p x}" by (auto simp: find_Some_iff)
  then show ?thesis using u x by simp
qed


section \<open>Witnesses\<close>

definition demo_items :: "flush_item buffer" where
  "demo_items = \<lparr>bf_capacity = 4, bf_items = map SpanItem (tr_spans (demo_stored_trace 30 ''c'')), bf_dropped = 0\<rparr>"

definition demo_store :: obs_store where
  "demo_store = \<lparr>ob_db = demo_trace_db, ob_metrics = empty_registry, ob_errors = []\<rparr>"

theorem outage_loses_spans_witness:
  "ob_db (snd (snd (flush_traces False [] demo_items demo_store))) = demo_trace_db \<and> bf_items (fst (snd (flush_traces False [] demo_items demo_store))) = []"
proof -
  have "buffer_ok demo_items" "bf_items demo_items \<noteq> []" by (simp_all add: demo_items_def buffer_ok_def demo_stored_trace_def)
  from outage_loses_spans[OF this, of demo_store] show ?thesis by (simp add: case_prod_beta) (simp add: demo_store_def)
qed

theorem log_outage_feeds_itself_witness:
  "length (bf_items (snd (fst (log_cycle (\<lambda>_. None) [''trace_id''] 7 ''down'' False (0, \<lparr>bf_capacity = 4, bf_items = [demo_log 1, demo_log 2], bf_dropped = 0\<rparr>) demo_log_store)))) = 2"
  using log_outage_feeds_itself[of "(0, \<lparr>bf_capacity = 4, bf_items = [demo_log 1, demo_log 2], bf_dropped = 0\<rparr>)" "\<lambda>_. None" "[''trace_id'']" 7 "''down''" demo_log_store]
  by (simp add: buffer_ok_def)

definition demo_child :: span where
  "demo_child = \<lparr>sp_id = ''s2'', sp_parent = Some ''s'', sp_operation = ''generate'', sp_begin = 12, sp_duration = 1,
     sp_status = SpanError, sp_attributes = [], sp_trace = Some ''a'', sp_route = None, sp_config = None\<rparr>"

theorem later_batch_replaces_trace_witness:
  "\<exists>db1 db2 x. write_atomically True (demo_stored_trace 10 ''a'') demo_trace_db = Some db1 \<and>
     write_atomically True (trace_of_group (''a'', [demo_child])) db1 = Some db2 \<and>
     get_trace db2 ''a'' = Some x \<and> tr_route x = ''generate'' \<and> tr_status x = SpanError"
proof -
  have i: "tr_id (demo_stored_trace 10 ''a'') = ''a''" by (simp add: demo_stored_trace_def)
  obtain db1 where w1: "write_atomically True (demo_stored_trace 10 ''a'') demo_trace_db = Some db1"
    by (simp add: write_atomically_def demo_stored_trace_def trace_row_of_def span_row_of_def storable_trace_def storable_span_def
        storable_text_def Let_def)
  obtain db2 where w2: "write_atomically True (trace_of_group (''a'', [demo_child])) db1 = Some db2"
    by (simp add: write_atomically_def demo_child_def trace_of_group_def anchor_of_def trace_row_of_def span_row_of_def storable_trace_def
        storable_span_def storable_text_def or_none_def Let_def)
  have g: "span_groups [demo_child] = [(tr_id (demo_stored_trace 10 ''a''), [demo_child])]"
    by (simp add: i span_groups_def add_to_group_def demo_child_def value_at_def)
  have "list_all (\<lambda>s. sp_parent s \<noteq> None \<and> sp_route s = None \<and> sp_config s = None) [demo_child]" by (simp add: demo_child_def)
  from later_batch_replaces_trace[OF demo_trace_db_ok w1 g this] w1 w2 show ?thesis by (auto simp: i demo_child_def)
qed
lemma demo_recorded:
  "\<exists>r' s1 s2. start_trace demo_trace_env True 1 0 (Some ''t'') ''GET /'' [Nested ''retrieve'' [] [Raise (''E'', ''m'')] False] demo_recorder = Some (Some (''E'', ''m''), r') \<and>
     rc_buffer r' = \<lparr>bf_capacity = 10, bf_items = [s1, s2], bf_dropped = 0\<rparr> \<and> sp_trace s1 = Some ''t'' \<and> sp_trace s2 = Some ''t'' \<and>
     storable_trace (trace_row_of (trace_of_group (''t'', [s1, s2]))) \<and> list_all storable_span (map (span_row_of ''t'') [s1, s2])"
  by (simp add: start_trace_def should_record_def or_none_def resolve_trace_id_def demo_recorder_def demo_trace_env_def close_span_def
      finish_span_def record_exception_def offer_def null_context_def Let_def trace_of_group_def anchor_of_def trace_row_of_def
      span_row_of_def storable_trace_def storable_span_def storable_text_def max_exception_message_length_def)


end
