(* ===== verification/TraceFormat.thy ===== *)
theory TraceFormat
  imports FlushWorker AiConfig
begin

text \<open>
  Representations of traces and logs: redaction of configuration settings (\<open>config_redaction.py\<close>), the stored
  form of a trace (\<open>serializer.py\<close>) and of a log record (\<open>log_serializer.py\<close>), each way. A mapping is
  the list of its items; \<open>isoformat\<close> and \<open>fromisoformat\<close> of an instant are arguments, the latter with the text of
  its error.
\<close>

section \<open>Redaction\<close>

definition redacted_placeholder :: string where "redacted_placeholder = ''***REDACTED***''"

definition sensitive_key_patterns :: "string list" where
  "sensitive_key_patterns = [''api_key'', ''secret'', ''token'', ''credential'', ''password'']"

definition is_sensitive_key :: "string \<Rightarrow> bool" where
  "is_sensitive_key key \<longleftrightarrow> list_ex (\<lambda>p. contains_text p (py_lower key)) sensitive_key_patterns"

fun redact_settings :: "(string \<times> json) list \<Rightarrow> (string \<times> json) list" where
  "redact_settings [] = []"
| "redact_settings ((k, JObj kvs) # r) =
     (k, if is_sensitive_key k then JStr redacted_placeholder else JObj (redact_settings kvs)) # redact_settings r"
| "redact_settings ((k, v) # r) =
     (k, if is_sensitive_key k then JStr redacted_placeholder else v) # redact_settings r"

text \<open>The payload for a trace; the schema of a version is kept as the text of a JSON value.\<close>

definition build_trace_config_payload :: "(string \<Rightarrow> json) \<Rightarrow> resolved_config \<Rightarrow> ident \<times> (string \<times> json) list" where
  "build_trace_config_payload schema c =
     (rs_version c,
      if \<not> rs_resolved c then []
      else redact_settings
             [(''prompt'', JStr (rs_prompt c)), (''model'', JStr (rs_model c)), (''output_schema'', schema (rs_schema c)),
              (''router_threshold'', JFloat (rs_threshold c)),
              (''retrieval_settings'', JObj (map (\<lambda>(k, v). (k, JStr v)) (rs_retrieval c)))])"

section \<open>Stored traces\<close>

record instant_text =
  it_render :: "int \<Rightarrow> string"
  it_parse :: "string \<Rightarrow> string + int"

definition opt_str :: "string option \<Rightarrow> json" where
  "opt_str s = (case s of None \<Rightarrow> JNull | Some t \<Rightarrow> JStr t)"

definition serialize_span :: "instant_text \<Rightarrow> span \<Rightarrow> json" where
  "serialize_span it s =
     JObj [(''span_id'', JStr (sp_id s)), (''parent_span_id'', opt_str (sp_parent s)), (''operation'', JStr (sp_operation s)),
           (''start_ts'', JStr (it_render it (sp_begin s))), (''duration_ms'', JInt (sp_duration s)),
           (''status'', JStr (status_text (sp_status s))), (''attributes'', JObj (sp_attributes s))]"

definition serialize_trace :: "instant_text \<Rightarrow> trace \<Rightarrow> json" where
  "serialize_trace it t =
     JObj ([(''trace_id'', JStr (tr_id t)), (''route'', JStr (tr_route t)), (''start_ts'', JStr (it_render it (tr_start t))),
            (''duration_ms'', JInt (tr_duration t)), (''root_status'', JStr (status_text (tr_status t))),
            (''spans'', JArr (map (serialize_span it) (tr_spans t)))] @
           (case tr_version t of
              None \<Rightarrow> []
            | Some v \<Rightarrow> [(''ai_configuration_version_id'', JStr v), (''resolved_settings'', JObj (tr_settings t))]))"

record format_error =
  fe_reason :: string
  fe_trace :: "ident option"

definition malformed :: "string \<Rightarrow> ident option \<Rightarrow> format_error + 'a" where
  "malformed reason i = Inl \<lparr>fe_reason = reason, fe_trace = i\<rparr>"

definition missing :: "string \<Rightarrow> ident option \<Rightarrow> format_error + 'a" where
  "missing field i = malformed (''missing required field: '' @ field) i"

text \<open>The validators; a stored \<open>null\<close> counts as missing.\<close>

definition require_timestamp :: "instant_text \<Rightarrow> json option \<Rightarrow> ident \<Rightarrow> string \<Rightarrow> format_error + int" where
  "require_timestamp it v i field =
     (case v of
        None \<Rightarrow> missing field (Some i)
      | Some JNull \<Rightarrow> missing field (Some i)
      | Some (JStr s) \<Rightarrow>
          (case it_parse it s of Inl why \<Rightarrow> malformed (''unparseable '' @ field @ '': '' @ why) (Some i) | Inr t \<Rightarrow> Inr t)
      | Some _ \<Rightarrow> malformed (''unparseable '' @ field @ '': expected ISO-8601 string'') (Some i))"

definition require_duration :: "json option \<Rightarrow> ident \<Rightarrow> string \<Rightarrow> format_error + int" where
  "require_duration v i field =
     (case v of
        None \<Rightarrow> missing field (Some i)
      | Some JNull \<Rightarrow> missing field (Some i)
      | Some (JInt n) \<Rightarrow>
          if n < 0 then malformed (''invalid '' @ field @ '': expected a non-negative integer'') (Some i) else Inr n
      | Some _ \<Rightarrow> malformed (''invalid '' @ field @ '': expected a non-negative integer'') (Some i))"

definition require_status :: "json option \<Rightarrow> ident \<Rightarrow> string \<Rightarrow> format_error + span_status" where
  "require_status v i field =
     (if v = None \<or> v = Some JNull then missing field (Some i)
      else if v = Some (JStr ''success'') then Inr SpanSuccess
      else if v = Some (JStr ''error'') then Inr SpanError
      else malformed (''invalid '' @ field @ '': expected one of success, error'') (Some i))"

definition require_text :: "json option \<Rightarrow> ident \<Rightarrow> string \<Rightarrow> format_error + string" where
  "require_text v i field = (case v of Some (JStr s) \<Rightarrow> Inr s | _ \<Rightarrow> missing field (Some i))"

definition of_span :: "ident \<Rightarrow> string" where "of_span i = '' (span '' @ i @ '')''"

definition deserialize_span :: "instant_text \<Rightarrow> ident \<Rightarrow> json \<Rightarrow> format_error + span" where
  "deserialize_span it i raw =
     (case raw of
        JObj kvs \<Rightarrow>
          (case j_get ''span_id'' kvs of
             Some (JStr (c # cs)) \<Rightarrow>
               (let sid = c # cs; w = of_span sid
                in bind_result
                     (case j_get ''parent_span_id'' kvs of
                        None \<Rightarrow> missing (''parent_span_id'' @ w) (Some i)
                      | Some JNull \<Rightarrow> Inr None
                      | Some (JStr p) \<Rightarrow> Inr (Some p)
                      | Some _ \<Rightarrow> malformed (''invalid parent_span_id'' @ w) (Some i)) (\<lambda>parent.
                   bind_result (require_text (j_get ''operation'' kvs) i (''operation'' @ w)) (\<lambda>operation.
                   bind_result (require_timestamp it (j_get ''start_ts'' kvs) i (''start_ts'' @ w)) (\<lambda>start.
                   bind_result (require_duration (j_get ''duration_ms'' kvs) i (''duration_ms'' @ w)) (\<lambda>dur.
                   bind_result (require_status (j_get ''status'' kvs) i (''status'' @ w)) (\<lambda>st.
                   bind_result (case j_get ''attributes'' kvs of
                                  None \<Rightarrow> Inr []
                                | Some (JObj attrs) \<Rightarrow> Inr attrs
                                | Some _ \<Rightarrow> malformed (''invalid attributes'' @ w) (Some i)) (\<lambda>attrs.
                     Inr \<lparr>sp_id = sid, sp_parent = parent, sp_operation = operation, sp_begin = start, sp_duration = dur,
                          sp_status = st, sp_attributes = attrs, sp_trace = None, sp_route = None, sp_config = None\<rparr>)))))))
           | _ \<Rightarrow> missing ''span_id'' (Some i))
      | _ \<Rightarrow> malformed ''span entry is not a mapping'' (Some i))"

fun all_results :: "('a \<Rightarrow> 'e + 'b) \<Rightarrow> 'a list \<Rightarrow> 'e + 'b list" where
  "all_results f [] = Inr []"
| "all_results f (x # xs) = bind_result (f x) (\<lambda>y. map_sum id ((#) y) (all_results f xs))"

definition deserialize_trace :: "instant_text \<Rightarrow> json \<Rightarrow> format_error + trace" where
  "deserialize_trace it stored =
     (case stored of
        JObj kvs \<Rightarrow>
          (case j_get ''trace_id'' kvs of
             Some (JStr (c # cs)) \<Rightarrow>
               (let i = c # cs
                in bind_result (require_text (j_get ''route'' kvs) i ''route'') (\<lambda>route.
                   bind_result (require_timestamp it (j_get ''start_ts'' kvs) i ''start_ts'') (\<lambda>start.
                   bind_result (require_duration (j_get ''duration_ms'' kvs) i ''duration_ms'') (\<lambda>dur.
                   bind_result (require_status (j_get ''root_status'' kvs) i ''root_status'') (\<lambda>st.
                   bind_result (case j_list (j_get ''spans'' kvs) of
                                  None \<Rightarrow> missing ''spans'' (Some i)
                                | Some raws \<Rightarrow> all_results (deserialize_span it i) raws) (\<lambda>spans.
                     Inr \<lparr>tr_id = i, tr_route = route, tr_start = start, tr_duration = dur, tr_status = st, tr_spans = spans,
                          tr_version = j_str (j_get ''ai_configuration_version_id'' kvs),
                          tr_settings = (case j_get ''resolved_settings'' kvs of Some (JObj st) \<Rightarrow> st | _ \<Rightarrow> [])\<rparr>))))))
           | Some (JStr []) \<Rightarrow> missing ''trace_id'' (Some [])
           | _ \<Rightarrow> missing ''trace_id'' None)
      | _ \<Rightarrow> malformed ''stored trace representation is not a mapping'' None)"

section \<open>Stored log records\<close>

definition serialize_log :: "instant_text \<Rightarrow> log_record \<Rightarrow> json" where
  "serialize_log it r =
     JObj [(''timestamp'', JStr (it_render it (lg_time r))), (''level'', JStr (lg_level r)), (''logger'', JStr (lg_logger r)),
           (''message'', JStr (lg_message r)), (''trace_id'', opt_str (lg_trace r)), (''exc_text'', opt_str (lg_exc r)),
           (''extra'', JObj (lg_extra r)), (''insertion_seq'', JInt (lg_seq r))]"

definition nullable_text :: "string \<Rightarrow> ident option \<Rightarrow> json option \<Rightarrow> format_error + string option" where
  "nullable_text field i v =
     (case v of
        None \<Rightarrow> Inr None
      | Some JNull \<Rightarrow> Inr None
      | Some (JStr s) \<Rightarrow> Inr (Some s)
      | Some _ \<Rightarrow> malformed (''invalid '' @ field @ '': expected a string or null'') i)"

definition log_text :: "ident option \<Rightarrow> (string \<times> json) list \<Rightarrow> string \<Rightarrow> format_error + string" where
  "log_text i kvs field = (case j_get field kvs of Some (JStr s) \<Rightarrow> Inr s | _ \<Rightarrow> missing field i)"

definition deserialize_log :: "instant_text \<Rightarrow> json \<Rightarrow> format_error + log_record" where
  "deserialize_log it stored =
     (case stored of
        JObj kvs \<Rightarrow>
          bind_result (nullable_text ''trace_id'' None (j_get ''trace_id'' kvs)) (\<lambda>i.
          bind_result (log_text i kvs ''level'') (\<lambda>level.
          bind_result (log_text i kvs ''logger'') (\<lambda>logger.
          bind_result (log_text i kvs ''message'') (\<lambda>msg.
          bind_result (nullable_text ''exc_text'' i (j_get ''exc_text'' kvs)) (\<lambda>exc.
          bind_result (case j_get ''timestamp'' kvs of
                         None \<Rightarrow> missing ''timestamp'' i
                       | Some (JStr s) \<Rightarrow>
                           (case it_parse it s of Inl why \<Rightarrow> malformed (''unparseable timestamp: '' @ why) i | Inr t \<Rightarrow> Inr t)
                       | Some _ \<Rightarrow> malformed ''unparseable timestamp: expected ISO-8601 string'' i) (\<lambda>t.
          bind_result (case j_get ''extra'' kvs of
                         None \<Rightarrow> Inr [] | Some (JObj x) \<Rightarrow> Inr x | Some _ \<Rightarrow> malformed ''invalid extra: expected a mapping'' i) (\<lambda>extra.
          bind_result (case j_get ''insertion_seq'' kvs of
                         None \<Rightarrow> Inr 0 | Some (JInt n) \<Rightarrow> Inr n | Some _ \<Rightarrow> malformed ''invalid insertion_seq: expected an integer'' i) (\<lambda>n.
            Inr \<lparr>lg_time = t, lg_level = level, lg_logger = logger, lg_message = msg, lg_trace = i, lg_exc = exc,
                 lg_extra = extra, lg_seq = n\<rparr>))))))))
      | _ \<Rightarrow> malformed ''stored log representation is not a mapping'' None)"

section \<open>Lemmas on redaction\<close>

text \<open>The value a path of keys leads to through nested mappings.\<close>

fun lookup_path :: "string list \<Rightarrow> (string \<times> json) list \<Rightarrow> json option" where
  "lookup_path [] kvs = None"
| "lookup_path [k] kvs = map_of kvs k"
| "lookup_path (k # k' # ks) kvs = (case map_of kvs k of Some (JObj inner) \<Rightarrow> lookup_path (k' # ks) inner | _ \<Rightarrow> None)"

definition redact_value :: "json \<Rightarrow> json" where
  "redact_value v = (case v of JObj kvs \<Rightarrow> JObj (redact_settings kvs) | _ \<Rightarrow> v)"

lemma redact_Cons: "redact_settings ((k, v) # r) = (k, if is_sensitive_key k then JStr redacted_placeholder else redact_value v) # redact_settings r"
  by (cases v) (simp_all add: redact_value_def)

lemma map_of_redact:
  "map_of (redact_settings kvs) k = map_option (\<lambda>v. if is_sensitive_key k then JStr redacted_placeholder else redact_value v) (map_of kvs k)"
  by (induction kvs) (auto simp: redact_Cons simp del: redact_settings.simps(2,3))

lemma lookup_redact_plain:
  "list_all (\<lambda>k. \<not> is_sensitive_key k) p \<Longrightarrow> lookup_path p (redact_settings kvs) = map_option redact_value (lookup_path p kvs)"
proof (induction p kvs rule: lookup_path.induct)
  case (3 k k' ks kvs)
  then show ?case by (auto simp: map_of_redact redact_value_def split: option.splits json.splits)
qed (simp_all add: map_of_redact)

lemma lookup_redact_sensitive:
  "lookup_path p (redact_settings kvs) = Some v \<Longrightarrow> list_ex is_sensitive_key p \<Longrightarrow>
     is_sensitive_key (last p) \<and> v = JStr redacted_placeholder"
  by (induction p kvs rule: lookup_path.induct)
    (auto simp: map_of_redact redact_value_def split: option.splits json.splits if_splits)


text \<open>Redaction stops at lists: a mapping inside a list is kept verbatim, with the secrets it names, so the
  settings of a trace can carry them.\<close>

theorem redaction_skips_lists:
  assumes "map_of kvs k = Some (JArr xs)" "\<not> is_sensitive_key k"
  shows "map_of (redact_settings kvs) k = Some (JArr xs)"
  using assms by (simp add: map_of_redact redact_value_def)

theorem redaction_skips_lists_witness:
  "map_of (redact_settings [(''providers'', JArr [JObj [(''api_key'', JStr ''hunter2'')]])]) ''providers'' =
     Some (JArr [JObj [(''api_key'', JStr ''hunter2'')]])"
  by (rule redaction_skips_lists, simp, code_simp)
section \<open>Lemmas on the stored forms\<close>

definition span_ok :: "span \<Rightarrow> bool" where
  "span_ok s \<longleftrightarrow> sp_id s \<noteq> [] \<and> 0 \<le> sp_duration s"

definition trace_ok :: "trace \<Rightarrow> bool" where
  "trace_ok t \<longleftrightarrow> tr_id t \<noteq> [] \<and> 0 \<le> tr_duration t \<and> list_all span_ok (tr_spans t)"

lemma status_text_read: "require_status (Some (JStr (status_text st))) i field = Inr st"
  by (cases st) (simp_all add: require_status_def status_text_def)

lemma bind_result_Inl_iff: "bind_result r f = Inl e \<longleftrightarrow> r = Inl e \<or> (\<exists>x. r = Inr x \<and> f x = Inl e)"
  by (cases r) auto

lemma span_round_trip:
  assumes "\<And>t. it_parse it (it_render it t) = Inr t" "span_ok s"
  shows "deserialize_span it i (serialize_span it s) = Inr (stored_form s)"
proof -
  obtain c cs where id: "sp_id s = c # cs" using assms(2) by (cases "sp_id s") (simp_all add: span_ok_def)
  show ?thesis using assms
    by (cases "sp_parent s") (simp_all add: deserialize_span_def serialize_span_def j_get_def id opt_str_def require_text_def
      require_timestamp_def require_duration_def status_text_read stored_form_def span_ok_def Let_def)
qed

lemma all_results_map: "(\<And>x. x \<in> set xs \<Longrightarrow> f (g x) = Inr (h x)) \<Longrightarrow> all_results f (map g xs) = Inr (map h xs)"
  by (induction xs) simp_all

lemma all_results_Inr: "all_results f xs = Inr ys \<Longrightarrow> list_all2 (\<lambda>x y. f x = Inr y) xs ys"
proof (induction xs arbitrary: ys)
  case (Cons x xs)
  then show ?case by (cases "f x"; cases "all_results f xs") auto
qed simp

lemma all_results_Inl: "all_results f xs = Inl e \<Longrightarrow> \<exists>x \<in> set xs. f x = Inl e"
proof (induction xs)
  case (Cons x xs)
  then show ?case by (cases "f x"; cases "all_results f xs") auto
qed simp

named_theorems reader_defs \<open>the validators of the stored forms\<close>

declare require_text_def [reader_defs] require_timestamp_def [reader_defs] require_duration_def [reader_defs]
  require_status_def [reader_defs] missing_def [reader_defs] malformed_def [reader_defs]

lemma duration_read: "require_duration v i field = Inr n \<Longrightarrow> 0 \<le> n"
  by (auto simp: reader_defs split: option.splits json.splits if_splits)

lemma reader_errors:
  "require_text v i field = Inl e \<Longrightarrow> fe_trace e = Some i"
  "require_timestamp it v i field = Inl e \<Longrightarrow> fe_trace e = Some i"
  "require_duration v i field = Inl e \<Longrightarrow> fe_trace e = Some i"
  "require_status v i field = Inl e \<Longrightarrow> fe_trace e = Some i"
  by (auto simp: reader_defs split: option.splits json.splits if_splits sum.splits)

lemma span_read:
  assumes "deserialize_span it i raw = Inr s"
  shows "span_ok s"
  using assms unfolding deserialize_span_def Let_def
  by (auto simp: bind_result_Inr_iff malformed_def missing_def span_ok_def dest!: duration_read
      split: json.splits option.splits list.splits)

lemma span_error:
  assumes "deserialize_span it i raw = Inl e"
  shows "fe_trace e = Some i"
  using assms unfolding deserialize_span_def Let_def
  by (auto simp: bind_result_Inl_iff malformed_def missing_def dest!: reader_errors
      split: json.splits option.splits list.splits)

section \<open>Properties of the stored forms\<close>


text \<open>C28. What is read is well formed: whatever is stored, deserializing yields a trace with an identifier, durations
  that are not negative and only well-formed spans, or an error; an error about a trace whose identifier
  is a non-empty text names it.\<close>

theorem read_trace_well_formed:
  "case deserialize_trace it stored of
     Inr t \<Rightarrow> trace_ok t \<and> (\<exists>kvs. stored = JObj kvs \<and> j_get ''trace_id'' kvs = Some (JStr (tr_id t)))
   | Inl e \<Rightarrow> (case stored of
       JObj kvs \<Rightarrow> (case j_get ''trace_id'' kvs of Some (JStr i) \<Rightarrow> fe_trace e = Some i | _ \<Rightarrow> fe_trace e = None)
     | _ \<Rightarrow> fe_trace e = None)"
proof (cases stored)
  case (JObj kvs)
  show ?thesis
  proof (cases "\<exists>c cs. j_get ''trace_id'' kvs = Some (JStr (c # cs))")
    case True
    then obtain c cs where id: "j_get ''trace_id'' kvs = Some (JStr (c # cs))" by blast
    show ?thesis
    proof (cases "deserialize_trace it stored")
      case (Inl e)
      then have "fe_trace e = Some (c # cs)"
        by (auto simp: JObj id deserialize_trace_def Let_def bind_result_Inl_iff missing_def malformed_def
            dest!: reader_errors all_results_Inl span_error split: option.splits)
      then show ?thesis using Inl by (simp add: JObj id)
    next
      case (Inr t)
      then obtain raws where t: "tr_id t = c # cs" "0 \<le> tr_duration t" "all_results (deserialize_span it (c # cs)) raws = Inr (tr_spans t)"
        by (auto simp: JObj id deserialize_trace_def Let_def bind_result_Inr_iff missing_def malformed_def dest!: duration_read split: option.splits)
      have "list_all span_ok (tr_spans t)"
        using all_results_Inr[OF t(3)] span_read by (auto simp: list_all2_conv_all_nth list_all_length)
      then show ?thesis using t Inr by (simp add: JObj id trace_ok_def)
    qed
  next
    case False
    then show ?thesis
      by (auto simp: JObj deserialize_trace_def missing_def malformed_def split: option.splits json.splits list.splits)
  qed
qed (simp_all add: deserialize_trace_def malformed_def)

text \<open>A stored log record is read back unchanged, and a record without a sequence number reads as number 0.\<close>

theorem stored_log_round_trip:
  assumes "\<And>t. it_parse it (it_render it t) = Inr t"
  shows "deserialize_log it (serialize_log it r) = Inr r"
  using assms
  by (cases "lg_trace r"; cases "lg_exc r")
    (simp_all add: deserialize_log_def serialize_log_def j_get_def opt_str_def nullable_text_def log_text_def)

definition demo_instants :: instant_text where
  "demo_instants = \<lparr>it_render = (\<lambda>t. replicate (nat (abs t)) CHR ''I'' @ (if t < 0 then ''-'' else '''')),
     it_parse = (\<lambda>s. Inr (if s \<noteq> [] \<and> last s = CHR ''-'' then 1 - int (length s) else int (length s)))\<rparr>"

lemma demo_instants_inverse: "it_parse demo_instants (it_render demo_instants t) = Inr t"
  by (auto simp: demo_instants_def last_conv_nth)


theorem stored_log_round_trip_witness: "deserialize_log demo_instants (serialize_log demo_instants (demo_log 5)) = Inr (demo_log 5)"
  by (rule stored_log_round_trip[OF demo_instants_inverse])

end
