(* ===== verification/TraceApi.thy ===== *)
theory TraceApi
  imports TraceFormat AuthHttp
begin

text \<open>
  The observability side of \<open>api.py\<close>: the middleware around every request, the configuration stamp, the gate of
  the metrics endpoint, the endpoints that read traces and logs, and the shared router that is rebuilt
  while the copilot is unavailable. A request's handler is the block of steps it records with the status of
  its response; clock, fresh identifiers and the random draw are arguments.
\<close>

section \<open>The middleware\<close>

definition is_hex :: "char \<Rightarrow> bool" where
  "is_hex c \<longleftrightarrow> (let n = (of_char c :: nat) in 48 \<le> n \<and> n \<le> 57 \<or> 97 \<le> n \<and> n \<le> 102)"

definition trace_id_matches :: "string \<Rightarrow> bool" where
  "trace_id_matches s \<longleftrightarrow> length s = 32 \<and> list_all is_hex s"

definition resolve_inbound_trace_id :: "ident \<Rightarrow> string option \<Rightarrow> ident" where
  "resolve_inbound_trace_id fresh header =
     (case header of Some h \<Rightarrow> if trace_id_matches h then h else fresh | None \<Rightarrow> fresh)"

definition ask_stream_path :: string where "ask_stream_path = ''/ask/stream''"

definition answer_trace_paths :: "string list" where "answer_trace_paths = [''/ask'', ''/query'']"

text \<open>The stamp, whose failure is logged: the attribute is set even when the settings have no text.\<close>

definition stamp_trace_config :: "trace_env \<Rightarrow> (string \<Rightarrow> json) \<Rightarrow> resolved_config \<Rightarrow> block_step list" where
  "stamp_trace_config env schema c =
     (case build_trace_config_payload schema c of
        (v, st) \<Rightarrow>
          if tv_str env (JObj st) = None
          then [Annotate [(''ai_configuration_version_id'', JStr (if v = [] then ''unresolved'' else v))]]
          else [Stamp (Some v) st])"

definition metric_path_label :: "string option \<Rightarrow> string" where
  "metric_path_label template = (case or_none template of Some t \<Rightarrow> t | None \<Rightarrow> ''__unmatched__'')"

record http_call =
  hc_method :: string
  hc_path :: string
  hc_header :: "string option"
  hc_template :: "string option"
  hc_status :: nat

text \<open>Cancellation and the other exceptions outside \<open>Exception\<close> pass the handler by.\<close>

definition is_exception :: "exn \<Rightarrow> bool" where
  "is_exception e \<longleftrightarrow> fst e \<notin> {''CancelledError'', ''KeyboardInterrupt'', ''SystemExit'', ''GeneratorExit''}"

definition request_labels :: "http_call \<Rightarrow> nat \<Rightarrow> labels" where
  "request_labels h code =
     [(''method'', hc_method h), (''path'', metric_path_label (hc_template h)), (''status_code'', show_nat code)]"

definition count_request :: "nat \<Rightarrow> http_call \<Rightarrow> nat \<Rightarrow> pyfloat \<Rightarrow> registry \<Rightarrow> registry" where
  "count_request n h code ms r =
     (let ls = request_labels h code
      in snd (observe n ''rag_http_request_duration_ms'' ms ls (increment ''rag_http_requests_total'' ls 1 r)))"

definition handle_request :: "trace_env \<Rightarrow> bool \<Rightarrow> pyfloat \<Rightarrow> pyfloat \<Rightarrow> (string \<Rightarrow> json) \<Rightarrow> resolved_config \<Rightarrow> http_call
    \<Rightarrow> block_step list \<Rightarrow> ident \<Rightarrow> recorder \<Rightarrow> (exn option \<times> recorder) option" where
  "handle_request env enabled rate draw schema c h body i r =
     (if hc_path h = ask_stream_path
      then (case run_block env body (noop_span env (rc_tick r)) r of (e, _, r') \<Rightarrow> Some (e, r'))
      else start_trace env enabled rate draw (Some i) (hc_path h)
             ((if hc_path h \<in> set answer_trace_paths then stamp_trace_config env schema c else []) @ body) r)"

text \<open>The outcome is the exception that goes on, or the status and the trace identifier sent back.\<close>

definition log_requests :: "trace_env \<Rightarrow> bool \<Rightarrow> pyfloat \<Rightarrow> pyfloat \<Rightarrow> (string \<Rightarrow> json) \<Rightarrow> resolved_config \<Rightarrow> http_call
    \<Rightarrow> block_step list \<Rightarrow> ident \<Rightarrow> pyfloat \<Rightarrow> recorder \<Rightarrow> ((exn + nat \<times> ident) \<times> recorder) option" where
  "log_requests env enabled rate draw schema c h body fresh ms r =
     (let i = resolve_inbound_trace_id fresh (hc_header h);
          close = (\<lambda>code r'. r'\<lparr>rc_metrics := count_request (tv_window env) h code ms (rc_metrics r'),
                                rc_ctx := (rc_ctx r')\<lparr>cx_trace := cx_trace (rc_ctx r)\<rparr>\<rparr>)
      in case handle_request env enabled rate draw schema c h body i (r\<lparr>rc_ctx := (rc_ctx r)\<lparr>cx_trace := Some i\<rparr>\<rparr>) of
           None \<Rightarrow> None
         | Some (None, r') \<Rightarrow> Some (Inr (hc_status h, i), close (hc_status h) r')
         | Some (Some e, r') \<Rightarrow> Some (Inl e, if is_exception e then close 500 r' else r'))"

section \<open>The gate of the metrics endpoint\<close>

text \<open>\<open>compare_digest\<close> refuses text outside ASCII.\<close>

definition is_ascii :: "string \<Rightarrow> bool" where "is_ascii s \<longleftrightarrow> list_all (\<lambda>c. (of_char c :: nat) < 128) s"

definition compare_digest :: "string \<Rightarrow> string \<Rightarrow> bool option" where
  "compare_digest a b = (if is_ascii a \<and> is_ascii b then Some (a = b) else None)"

definition verify_metrics_access :: "crypto \<Rightarrow> auth_settings \<Rightarrow> string option \<Rightarrow> string option \<Rightarrow> nat + unit" where
  "verify_metrics_access c st metrics_token authorization =
     (let provided = (case authorization of Some a \<Rightarrow> a | None \<Rightarrow> [])
      in case or_none metrics_token of
           Some t \<Rightarrow>
             (case compare_digest provided (''Bearer '' @ t) of
                None \<Rightarrow> Inl 500 | Some ok \<Rightarrow> if ok then Inr () else Inl 401)
         | None \<Rightarrow>
             if \<not> as_enabled st then Inr ()
             else if \<not> py_startswith provided ''Bearer '' then Inl 401
             else (case decode_token c st (drop 7 provided) of
                     Inl (TokenError _) \<Rightarrow> Inl 401 | Inl _ \<Rightarrow> Inl 500 | Inr _ \<Rightarrow> Inr ()))"

section \<open>The query endpoints\<close>

text \<open>A parsed timestamp may lack its zone; comparing one that does with one that does not raises.\<close>

record moment =
  mo_aware :: bool
  mo_time :: int

definition check_range :: "moment option \<Rightarrow> moment option \<Rightarrow> nat option" where
  "check_range start fin =
     (case (start, fin) of
        (Some a, Some b) \<Rightarrow>
          if mo_aware a \<noteq> mo_aware b then Some 500 else if mo_time b < mo_time a then Some 400 else None
      | _ \<Rightarrow> None)"

definition check_limit :: "int option \<Rightarrow> nat option" where
  "check_limit limit = (case limit of Some n \<Rightarrow> if 1 \<le> n \<and> n \<le> 1000 then None else Some 400 | None \<Rightarrow> None)"

definition max_duration_ms :: int where "max_duration_ms = 86400000"

definition get_trace_endpoint :: "trace_db \<Rightarrow> ident \<Rightarrow> nat + trace" where
  "get_trace_endpoint db i =
     (if \<not> trace_id_matches i then Inl 400
      else case get_trace db i of None \<Rightarrow> Inl 404 | Some t \<Rightarrow> Inr t)"

definition search_traces_endpoint :: "trace_db \<Rightarrow> moment option \<Rightarrow> moment option \<Rightarrow> string option \<Rightarrow> string option
    \<Rightarrow> int option \<Rightarrow> int option \<Rightarrow> nat + trace list" where
  "search_traces_endpoint db start fin route status min_duration limit =
     (case check_range start fin of
        Some code \<Rightarrow> Inl code
      | None \<Rightarrow>
          (case check_limit limit of
             Some code \<Rightarrow> Inl code
           | None \<Rightarrow>
               if (case min_duration of Some n \<Rightarrow> \<not> (0 \<le> n \<and> n \<le> max_duration_ms) | None \<Rightarrow> False) then Inl 400
               else Inr (search_traces db
                 \<lparr>tf_start = map_option mo_time start, tf_end = map_option mo_time fin, tf_route = route, tf_status = status,
                  tf_min_duration = min_duration, tf_limit = Some (case limit of Some n \<Rightarrow> n | None \<Rightarrow> 100)\<rparr>)))"

definition logs_by_trace_endpoint :: "log_db \<Rightarrow> ident \<Rightarrow> nat + log_record list" where
  "logs_by_trace_endpoint db i = (if \<not> trace_id_matches i then Inl 400 else Inr (get_logs_by_trace db i))"

definition search_logs_endpoint :: "log_db \<Rightarrow> moment option \<Rightarrow> moment option \<Rightarrow> string option \<Rightarrow> ident option
    \<Rightarrow> int option \<Rightarrow> nat + log_record list" where
  "search_logs_endpoint db start fin level i limit =
     (case check_range start fin of
        Some code \<Rightarrow> Inl code
      | None \<Rightarrow>
          (case check_limit limit of
             Some code \<Rightarrow> Inl code
           | None \<Rightarrow> Inr (search_logs db
               \<lparr>lf_start = map_option mo_time start, lf_end = map_option mo_time fin, lf_level = level, lf_trace = i,
                lf_limit = Some (case limit of Some n \<Rightarrow> n | None \<Rightarrow> 100)\<rparr>)))"

section \<open>The shared router\<close>

record 'r router_state =
  rt_router :: "'r option"
  rt_available :: bool
  rt_checked_at :: pyfloat

definition initial_router_state :: "'r router_state" where
  "initial_router_state = \<lparr>rt_router = None, rt_available = False, rt_checked_at = 0\<rparr>"

definition router_recheck_seconds :: pyfloat where "router_recheck_seconds = 300"

text \<open>Building yields a router and whether its copilot is available; the flag says that it was built.\<close>

definition get_router :: "pyfloat \<Rightarrow> 'r \<times> bool \<Rightarrow> 'r router_state \<Rightarrow> 'r \<times> bool \<times> 'r router_state" where
  "get_router now built st =
     (let rebuild = (fst built, True, st\<lparr>rt_router := Some (fst built), rt_available := snd built, rt_checked_at := now\<rparr>)
      in case rt_router st of
           Some r \<Rightarrow>
             if rt_available st then (r, False, st)
             else if now - rt_checked_at st < router_recheck_seconds then (r, False, st) else rebuild
         | None \<Rightarrow> rebuild)"
section \<open>What a block does to the metrics\<close>

lemma observe_counters [simp]: "mr_counters (snd (observe n name v ls r)) = mr_counters r"
  by (simp add: observe_def Let_def)

lemma counter_increment:
  "value_at 0 (mr_counters (increment name ls a r)) k = value_at 0 (mr_counters r) k + (if k = (name, normalise_labels ls) then a else 0)"
  by (simp add: increment_def Let_def value_at_update)

lemma close_span_counters [simp]:
  assumes "name \<noteq> ''rag_operation_total''"
  shows "value_at 0 (mr_counters (rc_metrics (close_span env sp operation e ctx release r))) (name, ls) = value_at 0 (mr_counters (rc_metrics r)) (name, ls)"
  using assms by (simp add: close_span_def Let_def emit_operation_metrics_def counter_increment)

lemma run_block_counters:
  assumes "name \<noteq> ''rag_operation_total''"
  shows "value_at 0 (mr_counters (rc_metrics (snd (snd (run_block env steps cur r))))) (name, ls) = value_at 0 (mr_counters (rc_metrics r)) (name, ls)"
  by (rule run_block_keeps[where f = "\<lambda>r. value_at 0 (mr_counters (rc_metrics r)) (name, ls)"]) (simp_all add: assms)

lemma start_trace_counters:
  assumes "name \<noteq> ''rag_operation_total''" "start_trace env enabled rate draw i route body r = Some (e, r')"
  shows "value_at 0 (mr_counters (rc_metrics r')) (name, ls) = value_at 0 (mr_counters (rc_metrics r)) (name, ls)"
proof -
  have "rc_metrics r1 = rc_metrics r" if "resolve_trace_id env c r = Some (j, r1)" for c j r1
    using that by (auto simp: resolve_trace_id_def split: option.splits)
  then show ?thesis using assms run_block_counters[OF assms(1)]
    by (auto simp: start_trace_def Let_def case_prod_beta split: if_splits option.splits)
qed

lemma handle_request_counters:
  assumes "name \<noteq> ''rag_operation_total''" "handle_request env enabled rate draw schema c h body i r = Some (e, r')"
  shows "value_at 0 (mr_counters (rc_metrics r')) (name, ls) = value_at 0 (mr_counters (rc_metrics r)) (name, ls)"
  using assms run_block_counters[OF assms(1), of env body "noop_span env (rc_tick r)" r ls] start_trace_counters[OF assms(1)]
  by (auto simp: handle_request_def case_prod_beta split: if_splits)

lemma count_request_counters:
  "value_at 0 (mr_counters (count_request n h code ms r)) (''rag_http_requests_total'', ls) =
     value_at 0 (mr_counters r) (''rag_http_requests_total'', ls) + (if ls = normalise_labels (request_labels h code) then 1 else 0)"
  by (simp add: count_request_def Let_def counter_increment)

section \<open>Properties of the middleware\<close>

definition reported_status :: "http_call \<Rightarrow> exn + nat \<times> ident \<Rightarrow> nat" where
  "reported_status h out = (case out of Inl _ \<Rightarrow> 500 | Inr (code, _) \<Rightarrow> code)"

text \<open>Every request is counted once: whatever its handler records or raises, short of a cancellation, exactly
  one series of the request counter grows, by one, the one with the method, the route template and the
  status sent; the response carries the handler's status and the trace identifier, and the context's
  identifier is the one from before the request.\<close>

theorem request_counted_once:
  assumes "log_requests env enabled rate draw schema c h body fresh ms r = Some (out, r')" "case out of Inl e \<Rightarrow> is_exception e | Inr _ \<Rightarrow> True"
  shows "value_at 0 (mr_counters (rc_metrics r')) (''rag_http_requests_total'', ls) =
      value_at 0 (mr_counters (rc_metrics r)) (''rag_http_requests_total'', ls) +
        (if ls = normalise_labels (request_labels h (reported_status h out)) then 1 else 0) \<and>
    (case out of Inl _ \<Rightarrow> True | Inr (code, i) \<Rightarrow> code = hc_status h \<and> i = resolve_inbound_trace_id fresh (hc_header h)) \<and>
    cx_trace (rc_ctx r') = cx_trace (rc_ctx r)"
proof -
  let ?i = "resolve_inbound_trace_id fresh (hc_header h)" and ?n = "''rag_http_requests_total''"
  let ?r = "r\<lparr>rc_ctx := (rc_ctx r)\<lparr>cx_trace := Some ?i\<rparr>\<rparr>"
  obtain e r1 where run: "handle_request env enabled rate draw schema c h body ?i ?r = Some (e, r1)"
    using assms(1) by (auto simp: log_requests_def Let_def split: option.splits)
  have m: "value_at 0 (mr_counters (rc_metrics r1)) (?n, ls) = value_at 0 (mr_counters (rc_metrics r)) (?n, ls)"
    using handle_request_counters[OF _ run, of ?n ls] by simp
  show ?thesis using assms run m
    by (cases e) (auto simp: log_requests_def Let_def count_request_counters reported_status_def)
qed

text \<open>The sample rate has no effect on requests: outside the streaming path the recorder is always given an
  identifier, which counts as one sent by the client, so with tracing on the request's trace is captured
  whatever the rate and the draw.\<close>

theorem sample_rate_ignored:
  assumes "inj (tv_fresh env)" "hc_path h \<noteq> ask_stream_path" "log_requests env True rate draw schema c h body fresh ms r = Some (out, r')"
  shows "log_requests env True rate' draw' schema c h body fresh ms r = Some (out, r') \<and>
    (\<exists>root new. rc_buffer r' = offer_all (new @ [root]) (rc_buffer r) \<and> sp_route root = Some (hc_path h) \<and>
       sp_status root = (case out of Inl _ \<Rightarrow> SpanError | Inr _ \<Rightarrow> SpanSuccess))"
proof -
  let ?i = "resolve_inbound_trace_id fresh (hc_header h)"
  let ?r = "r\<lparr>rc_ctx := (rc_ctx r)\<lparr>cx_trace := Some ?i\<rparr>\<rparr>"
  have always: "should_record True a b True" for a b by (simp add: should_record_def)
  have same: "handle_request env True rate draw schema c h body ?i ?r = handle_request env True rate' draw' schema c h body ?i ?r"
    by (simp add: handle_request_def start_trace_def always)
  obtain e r1 where run: "handle_request env True rate draw schema c h body ?i ?r = Some (e, r1)"
    using assms(3) by (auto simp: log_requests_def Let_def split: option.splits)
  have "rc_buffer r' = rc_buffer r1" "out = (case e of None \<Rightarrow> Inr (hc_status h, ?i) | Some x \<Rightarrow> Inl x)"
    using assms(3) run by (auto simp: log_requests_def Let_def split: option.splits if_splits)
  moreover obtain body' where "start_trace env True rate draw (Some ?i) (hc_path h) body' ?r = Some (e, r1)"
    using run assms(2) by (auto simp: handle_request_def)
  then have st: "start_trace env True rate draw (Some ?i) (hc_path h) body' ?r = Some (e, r1)" .
  have rec: "should_record True rate draw (Some ?i \<noteq> None)" by (simp add: always)
  from start_trace_tree[OF assms(1) st, unfolded if_P[OF rec]]
  obtain j root new where "rc_buffer r1 = offer_all (new @ [root]) (rc_buffer ?r)" "sp_route root = Some (hc_path h)"
    "sp_status root = (if e = None then SpanSuccess else SpanError)"
    by (elim exE conjE) (rule that; assumption)
  moreover have "log_requests env True rate' draw' schema c h body fresh ms r = Some (out, r')"
    using assms(3) unfolding log_requests_def Let_def same .
  ultimately show ?thesis by (intro conjI exI[of _ root] exI[of _ new]) (simp_all split: option.split)
qed

section \<open>Properties of the endpoints\<close>

lemma startswith_drop: "py_startswith a p \<longleftrightarrow> a = p @ drop (length p) a"
  unfolding py_startswith_def by (metis append_take_drop_id append_eq_conv_conj)

text \<open>Who may read the metrics: exactly a caller with the metrics token where one is set, and where none is set
  a caller with a valid user token, or anybody when authentication is off.\<close>

theorem metrics_access_exact:
  "verify_metrics_access c st token authorization = Inr () \<longleftrightarrow>
     (case or_none token of
        Some t \<Rightarrow> is_ascii t \<and> authorization = Some (''Bearer '' @ t)
      | None \<Rightarrow> \<not> as_enabled st \<or> (\<exists>tok claims. authorization = Some (''Bearer '' @ tok) \<and> decode_token c st tok = Inr claims))"
proof -
  have start: "py_startswith a ''Bearer '' \<longleftrightarrow> a = ''Bearer '' @ drop 7 a" for a
  proof -
    have seven: "(7::nat) = length ''Bearer ''" by simp
    show ?thesis unfolding seven by (rule startswith_drop)
  qed
  show ?thesis
  proof (cases "or_none token")
    case (Some t)
    have "is_ascii (''Bearer '' @ t) \<longleftrightarrow> is_ascii t" by (simp add: is_ascii_def)
    then show ?thesis using Some
      by (cases authorization) (auto simp: verify_metrics_access_def compare_digest_def is_ascii_def Let_def)
  next
    case None
    show ?thesis
    proof (cases authorization)
      case (Some a)
      show ?thesis
      proof (cases "py_startswith a ''Bearer ''")
        case True
        then obtain b where a: "a = ''Bearer '' @ b" using start by blast
        show ?thesis
          by (cases "decode_token c st b") (auto simp: verify_metrics_access_def Let_def None Some a py_startswith_def split: auth_error.splits)
      next
        case False
        then have "a \<noteq> ''Bearer '' @ b" for b using py_startswith_append by metis
        then show ?thesis using False by (auto simp: verify_metrics_access_def Let_def None Some)
      qed
    qed (use None in \<open>auto simp: verify_metrics_access_def py_startswith_def\<close>)
  qed
qed

text \<open>A token that is not ASCII breaks the gate: where a metrics token is set, a request whose header has a
  character outside ASCII gets status 500, and not the 401 of every other wrong token.\<close>

theorem metrics_gate_crashes:
  assumes "or_none token = Some t" "\<not> is_ascii a"
  shows "verify_metrics_access c st token (Some a) = Inl 500"
  using assms by (simp add: verify_metrics_access_def compare_digest_def Let_def)

theorem metrics_gate_crashes_witness:
  "verify_metrics_access demo_crypto demo_settings (Some ''t'') (Some [CHR 0xE9]) = Inl 500"
  by (rule metrics_gate_crashes[of _ "''t''"]) (simp_all add: or_none_def is_ascii_def)

text \<open>A range with one bound that names its zone and one that does not is a server error, in the search for
  traces and in the search for logs.\<close>

theorem mixed_range_crashes:
  assumes "mo_aware a \<noteq> mo_aware b"
  shows "search_traces_endpoint tdb (Some a) (Some b) route status dur limit = Inl 500 \<and>
    search_logs_endpoint ldb (Some a) (Some b) level i limit = Inl 500"
  using assms by (simp add: search_traces_endpoint_def search_logs_endpoint_def check_range_def)

theorem mixed_range_crashes_witness:
  "search_traces_endpoint demo_trace_db (Some \<lparr>mo_aware = True, mo_time = 1\<rparr>) (Some \<lparr>mo_aware = False, mo_time = 2\<rparr>) None None None None = Inl 500"
  using mixed_range_crashes[of "\<lparr>mo_aware = True, mo_time = 1\<rparr>" "\<lparr>mo_aware = False, mo_time = 2\<rparr>" demo_trace_db] by simp
section \<open>Searching\<close>

lemma map_trace_ids: "map tr_id (search_traces db f) =
    map tw_id (take (effective_limit (tf_limit f)) (sort_key (\<lambda>t. - tw_start t) (filter (trace_selected f) (td_traces db))))"
  by (simp add: search_traces_def Let_def row_to_trace_def)

lemma search_rows:
  "list_all2 (\<lambda>t r. tr_id t = tw_id r \<and> tr_start t = tw_start r \<and> tr_route t = tw_route r \<and> tr_status t = tw_status r \<and> tr_duration t = tw_duration r)
     (search_traces db f) (take (effective_limit (tf_limit f)) (sort_key (\<lambda>t. - tw_start t) (filter (trace_selected f) (td_traces db))))"
  by (simp add: search_traces_def Let_def row_to_trace_def list_all2_conv_all_nth)

lemma sorted_by_neg: "sorted (map (\<lambda>t. - f t) xs) \<Longrightarrow> sorted_wrt (\<lambda>x y. f y \<le> (f x :: int)) xs"
  by (simp add: sorted_map)

definition requested_limit :: "int option \<Rightarrow> nat" where
  "requested_limit limit = (case limit of Some l \<Rightarrow> nat l | None \<Rightarrow> 100)"

definition wanted_trace :: "moment option \<Rightarrow> moment option \<Rightarrow> string option \<Rightarrow> string option \<Rightarrow> int option \<Rightarrow> trace_row \<Rightarrow> bool" where
  "wanted_trace start fin route status dur t \<longleftrightarrow>
     if_given start (\<lambda>a. mo_time a \<le> tw_start t) \<and> if_given fin (\<lambda>b. tw_start t \<le> mo_time b) \<and> if_given route (\<lambda>r. tw_route t = r) \<and>
     if_given status (\<lambda>s. status_text (tw_status t) = s) \<and> if_given dur (\<lambda>d. d \<le> tw_duration t)"

lemma if_given_map: "if_given (map_option f x) p = if_given x (\<lambda>a. p (f a))"
  by (simp add: if_given_def split: option.split)

text \<open>What a search returns: with bounds of one kind, the right way round, and numbers in range, the result is at
  most \<open>limit\<close> traces (100 by default), newest first, each with the route, the status and a
  duration and start within the bounds; and if no more than \<open>limit\<close> stored traces match, all of them.
  Otherwise the status says what is wrong and nothing is read.\<close>

theorem search_endpoint_exact:
  assumes "trace_db_ok db"
  shows "case search_traces_endpoint db start fin route status dur limit of
      Inr ts \<Rightarrow> length ts \<le> requested_limit limit \<and> requested_limit limit \<le> 1000 \<and> sorted_wrt (\<lambda>x y. tr_start y \<le> tr_start x) ts \<and>
        (\<exists>rows. set rows \<subseteq> set (filter (wanted_trace start fin route status dur) (td_traces db)) \<and>
           list_all2 (\<lambda>t r. tr_id t = tw_id r \<and> tr_start t = tw_start r \<and> tr_route t = tw_route r \<and> tr_status t = tw_status r \<and> tr_duration t = tw_duration r) ts rows) \<and>
        (if length (filter (wanted_trace start fin route status dur) (td_traces db)) \<le> requested_limit limit then mset (map tr_id ts) = mset (map tw_id (filter (wanted_trace start fin route status dur) (td_traces db))) else length ts = requested_limit limit)
    | Inl code \<Rightarrow> code = 500 \<and> (\<exists>a b. start = Some a \<and> fin = Some b \<and> mo_aware a \<noteq> mo_aware b) \<or>
        code = 400 \<and> ((\<exists>a b. start = Some a \<and> fin = Some b \<and> mo_time b < mo_time a) \<or> (\<exists>l. limit = Some l \<and> l \<notin> {1..1000}) \<or>
          (\<exists>d. dur = Some d \<and> d \<notin> {0..max_duration_ms}))"
proof (cases "search_traces_endpoint db start fin route status dur limit")
  case (Inl code)
  then show ?thesis
    by (auto simp: search_traces_endpoint_def check_range_def check_limit_def split: option.splits if_splits)
next
  case (Inr ts)
  define n where "n = requested_limit limit"
  define wanted where "wanted = wanted_trace start fin route status dur"
  define f where "f = \<lparr>tf_start = map_option mo_time start, tf_end = map_option mo_time fin, tf_route = route, tf_status = status,
                  tf_min_duration = dur, tf_limit = Some (case limit of Some n \<Rightarrow> n | None \<Rightarrow> 100)\<rparr>"
  have ts: "ts = search_traces db f" "check_limit limit = None"
    using Inr by (auto simp: search_traces_endpoint_def f_def split: option.splits if_splits)
  have n: "effective_limit (tf_limit f) = n" "n \<le> 1000"
    using ts(2) by (auto simp: n_def requested_limit_def f_def effective_limit_def check_limit_def split: option.splits if_splits)
  have w: "trace_selected f = wanted" by (rule ext) (simp add: if_given_map wanted_def wanted_trace_def f_def trace_selected_def)
  define rows where "rows = take n (sort_key (\<lambda>t. - tw_start t) (filter wanted (td_traces db)))"
  have all: "list_all2 (\<lambda>t r. tr_id t = tw_id r \<and> tr_start t = tw_start r \<and> tr_route t = tw_route r \<and> tr_status t = tw_status r \<and> tr_duration t = tw_duration r) ts rows"
    using search_rows[of db f] by (simp add: ts rows_def n w)
  have len: "length ts = length rows" by (rule list_all2_lengthD[OF all])
  have "sorted (map (\<lambda>t. - tw_start t) rows)" unfolding rows_def take_map[symmetric] by (rule sorted_wrt_take) simp
  then have "sorted_wrt (\<lambda>x y. tw_start y \<le> tw_start x) rows" by (rule sorted_by_neg)
  then have "sorted_wrt (\<lambda>x y. tr_start y \<le> tr_start x) ts"
    using all by (simp add: sorted_wrt_iff_nth_less list_all2_conv_all_nth)
  moreover have "set rows \<subseteq> set (filter wanted (td_traces db))" using set_take_subset by (fastforce simp: rows_def)
  moreover have "mset (map tr_id ts) = mset (map tw_id (filter wanted (td_traces db)))" if "length (filter wanted (td_traces db)) \<le> n"
    using that map_trace_ids[of db f] by (simp add: ts n w)
  moreover have "length ts = n" if "\<not> length (filter wanted (td_traces db)) \<le> n" using that by (simp add: len rows_def)
  moreover have "length ts \<le> n" by (simp add: len rows_def)
  ultimately show ?thesis unfolding Inr sum.case n_def wanted_def using n(2) all by (auto simp: n_def wanted_def)
qed

section \<open>The shared router\<close>

text \<open>A sequence of calls, each with its time and what building would yield then; the times of the rebuilds.\<close>

fun router_rebuilds :: "(pyfloat \<times> 'r \<times> bool) list \<Rightarrow> 'r router_state \<Rightarrow> (pyfloat \<times> bool) list" where
  "router_rebuilds [] st = []"
| "router_rebuilds ((now, built) # r) st =
     (case get_router now built st of
        (_, rebuilt, st') \<Rightarrow> (if rebuilt then [(now, snd built)] else []) @ router_rebuilds r st')"

lemma router_available_stable: "rt_router st = Some r \<Longrightarrow> rt_available st \<Longrightarrow> router_rebuilds calls st = []"
  by (induction calls) (auto simp: get_router_def Let_def)

lemma router_rebuilds_spaced:
  assumes "sorted_wrt (\<le>) (map fst calls)" "rt_router st = Some r" "\<not> rt_available st"
  shows "sorted_wrt (\<lambda>x y. \<not> snd x \<and> fst x + router_recheck_seconds \<le> fst y) (router_rebuilds calls st) \<and>
    (\<forall>x \<in> set (router_rebuilds calls st). rt_checked_at st + router_recheck_seconds \<le> fst x)"
  using assms
proof (induction calls arbitrary: st r)
  case (Cons c calls)
  obtain now built avail where c: "c = (now, built, avail)" by (cases c)
  show ?case
  proof (cases "now - rt_checked_at st < router_recheck_seconds")
    case True
    then show ?thesis using Cons c by (simp add: get_router_def Let_def)
  next
    case False
    let ?st = "st\<lparr>rt_router := Some built, rt_available := avail, rt_checked_at := now\<rparr>"
    have g: "get_router now (built, avail) st = (built, True, ?st)" using False Cons.prems by (simp add: get_router_def Let_def)
    show ?thesis
    proof (cases avail)
      case True
      then have "router_rebuilds calls ?st = []" using router_available_stable[of ?st built calls] by simp
      then show ?thesis using c g False by simp
    next
      case False
      then show ?thesis using Cons.IH[of ?st built] Cons.prems c g \<open>\<not> now - rt_checked_at st < router_recheck_seconds\<close>
        by (fastforce simp: router_recheck_seconds_def)
    qed
  qed
qed simp

text \<open>The router is rebuilt rarely and only while degraded: over calls at times that do not decrease, the first
  call builds, rebuilds are at least the recheck interval apart, and a build with an available copilot is
  the last; while it is degraded, a call after the interval does rebuild.\<close>

theorem router_rebuild_bound:
  assumes "sorted_wrt (\<le>) (map fst calls)"
  shows "sorted_wrt (\<lambda>x y. \<not> snd x \<and> fst x + router_recheck_seconds \<le> fst y) (router_rebuilds calls initial_router_state) \<and>
    (calls \<noteq> [] \<longrightarrow> router_rebuilds calls initial_router_state \<noteq> [] \<and>
       fst (hd (router_rebuilds calls initial_router_state)) = fst (hd calls)) \<and>
    (\<forall>st now built. \<not> rt_available st \<and> rt_checked_at st + router_recheck_seconds \<le> now \<longrightarrow>
       get_router now built st = (fst built, True, st\<lparr>rt_router := Some (fst built), rt_available := snd built, rt_checked_at := now\<rparr>))"
proof -
  have "sorted_wrt (\<lambda>x y. \<not> snd x \<and> fst x + router_recheck_seconds \<le> fst y) (router_rebuilds calls initial_router_state) \<and>
    (calls \<noteq> [] \<longrightarrow> router_rebuilds calls initial_router_state \<noteq> [] \<and> fst (hd (router_rebuilds calls initial_router_state)) = fst (hd calls))"
  proof (cases calls)
    case (Cons c cs)
    obtain now built avail where c: "c = (now, built, avail)" by (cases c)
    let ?st = "initial_router_state\<lparr>rt_router := Some built, rt_available := avail, rt_checked_at := now\<rparr>"
    have r: "router_rebuilds calls initial_router_state = (now, avail) # router_rebuilds cs ?st"
      by (simp add: Cons c get_router_def initial_router_state_def Let_def)
    show ?thesis
    proof (cases avail)
      case True
      then show ?thesis using r router_available_stable[of ?st built cs] by (simp add: Cons c)
    next
      case False
      then show ?thesis using r router_rebuilds_spaced[of cs ?st built] assms by (simp add: Cons c)
    qed
  qed simp
  then show ?thesis by (auto simp: get_router_def Let_def split: option.split)
qed

section \<open>Witnesses\<close>

definition demo_call :: http_call where
  "demo_call = \<lparr>hc_method = ''GET'', hc_path = ''/health'', hc_header = None, hc_template = Some ''/health'', hc_status = 200\<rparr>"

lemma demo_logged:
  "\<exists>r'. log_requests demo_trace_env True 0 1 (\<lambda>_. JNull) (unresolved_config ''default'') demo_call [] ''i'' 1 demo_recorder = Some (Inr (200, ''i''), r')"
proof -
  have a: "''/health'' \<noteq> ask_stream_path" "''/health'' \<notin> set answer_trace_paths" by (simp_all add: ask_stream_path_def answer_trace_paths_def)
  obtain e r' where "start_trace demo_trace_env True 0 1 (Some ''i'') ''/health'' []
      (demo_recorder\<lparr>rc_ctx := (rc_ctx demo_recorder)\<lparr>cx_trace := Some ''i''\<rparr>\<rparr>) = Some (e, r')" "e = None"
    by (simp add: start_trace_def should_record_def or_none_def resolve_trace_id_def Let_def)
  then show ?thesis using a
    by (simp add: log_requests_def handle_request_def demo_call_def resolve_inbound_trace_id_def Let_def)
qed

theorem request_counted_once_witness:
  "\<exists>r'. log_requests demo_trace_env True 0 1 (\<lambda>_. JNull) (unresolved_config ''default'') demo_call [] ''i'' 1 demo_recorder = Some (Inr (200, ''i''), r') \<and>
     value_at 0 (mr_counters (rc_metrics r')) (''rag_http_requests_total'', normalise_labels (request_labels demo_call 200)) = 1"
proof -
  obtain r' where r': "log_requests demo_trace_env True 0 1 (\<lambda>_. JNull) (unresolved_config ''default'') demo_call [] ''i'' 1 demo_recorder = Some (Inr (200, ''i''), r')"
    using demo_logged by blast
  from request_counted_once[OF r', of "normalise_labels (request_labels demo_call 200)"] r'
  show ?thesis by (simp add: reported_status_def demo_recorder_def empty_registry_def value_at_def)
qed

theorem sample_rate_ignored_witness:
  "\<exists>r' root new. log_requests demo_trace_env True (9 / 10) (5 / 10) (\<lambda>_. JNull) (unresolved_config ''default'') demo_call [] ''i'' 1 demo_recorder = Some (Inr (200, ''i''), r') \<and>
     rc_buffer r' = offer_all (new @ [root]) (rc_buffer demo_recorder)"
proof -
  obtain r' where r': "log_requests demo_trace_env True 0 1 (\<lambda>_. JNull) (unresolved_config ''default'') demo_call [] ''i'' 1 demo_recorder = Some (Inr (200, ''i''), r')"
    using demo_logged by blast
  have p: "hc_path demo_call \<noteq> ask_stream_path" by (simp add: demo_call_def ask_stream_path_def)
  show ?thesis using sample_rate_ignored[OF demo_fresh p r', where rate' = "9 / 10" and draw' = "5 / 10"] by blast
qed

theorem search_endpoint_exact_witness:
  "\<exists>ts. search_traces_endpoint demo_trace_db None None None None None (Some 1) = Inr ts \<and> length ts = 1"
proof -
  obtain ts where ts: "search_traces_endpoint demo_trace_db None None None None None (Some 1) = Inr ts"
    by (simp add: search_traces_endpoint_def check_range_def check_limit_def)
  have two: "length (filter (wanted_trace None None None None None) (td_traces demo_trace_db)) = 2"
    by (simp add: wanted_trace_def if_given_def demo_trace_db_def)
  show ?thesis
    using search_endpoint_exact[OF demo_trace_db_ok, where start = None and fin = None and route = None and status = None and dur = None and limit = "Some 1"]
    unfolding ts sum.case two by (simp add: ts requested_limit_def)
qed

theorem router_rebuild_bound_witness:
  "sorted_wrt (\<lambda>x y. \<not> snd x \<and> fst x + router_recheck_seconds \<le> fst y)
     (router_rebuilds [(0, ''a'', False), (10, ''b'', True), (400, ''c'', True), (900, ''d'', True)] initial_router_state)"
  by (rule conjunct1[OF router_rebuild_bound]) simp

end
