(* ===== verification/Daemon.thy ===== *)
theory Daemon
  imports FlushWorker
begin

text \<open>
  The background loops: the flush workers (\<open>flush_workers.py\<close>), the retention scheduler
  (\<open>retention_scheduler.py\<close>) and the clean-up of refresh tokens (\<open>auth/cleanup.py\<close>) share one life cycle, an event
  that asks the loop to stop, a handle on its thread, and a loop that looks at the event before every
  cycle. It is a step relation: the owner starts and stops the loop (setting the event, then joining the
  thread with or without a timeout), and the threads move on their own. A thread is waiting or inside
  a cycle.
\<close>

section \<open>Intervals\<close>

definition max_drain_latency :: pyfloat where "max_drain_latency = 30"

definition max_interval_hours :: pyfloat where "max_interval_hours = 24"

text \<open>\<open>None\<close> is the \<open>ValueError\<close>.\<close>

definition flush_interval :: "pyfloat \<Rightarrow> pyfloat option" where
  "flush_interval i = (if i \<le> 0 then None else if max_drain_latency < i then None else Some i)"

definition scheduler_interval :: "pyfloat \<Rightarrow> pyfloat option" where
  "scheduler_interval h = (if h \<le> 0 then None else Some (min h max_interval_hours))"

section \<open>The life cycle\<close>

datatype thread_phase = Waiting | Cycling

datatype owner_phase = Idle | Joining

record daemon =
  dm_stop :: bool
  dm_handle :: "nat option"
  dm_threads :: "(nat \<times> thread_phase) list"
  dm_next :: nat
  dm_cycles :: nat
  dm_owner :: owner_phase

definition new_daemon :: daemon where
  "new_daemon = \<lparr>dm_stop = False, dm_handle = None, dm_threads = [], dm_next = 0, dm_cycles = 0, dm_owner = Idle\<rparr>"

definition thread_alive :: "nat option \<Rightarrow> daemon \<Rightarrow> bool" where
  "thread_alive h d \<longleftrightarrow> (case h of None \<Rightarrow> False | Some t \<Rightarrow> t \<in> fst ` set (dm_threads d))"

definition is_running :: "daemon \<Rightarrow> bool" where
  "is_running d = thread_alive (dm_handle d) d"

definition start_daemon :: "daemon \<Rightarrow> daemon" where
  "start_daemon d =
     (if is_running d then d
      else d\<lparr>dm_stop := False, dm_handle := Some (dm_next d), dm_threads := (dm_next d, Waiting) # dm_threads d,
             dm_next := dm_next d + 1\<rparr>)"

text \<open>Stopping ends when the thread has ended or the timeout is over; a worker asked to drain then runs one
  cycle itself.\<close>

definition finish_stop :: "bool \<Rightarrow> daemon \<Rightarrow> daemon" where
  "finish_stop final d =
     d\<lparr>dm_handle := None, dm_owner := Idle, dm_cycles := (if final then dm_cycles d + 1 else dm_cycles d)\<rparr>"

definition set_phase :: "nat \<Rightarrow> thread_phase \<Rightarrow> (nat \<times> thread_phase) list \<Rightarrow> (nat \<times> thread_phase) list" where
  "set_phase t p xs = map (\<lambda>x. (fst x, if fst x = t then p else snd x)) xs"

text \<open>What a thread does next: it looks at the event, and runs one cycle, whose exceptions are caught.\<close>

definition thread_step :: "nat \<times> thread_phase \<Rightarrow> daemon \<Rightarrow> daemon" where
  "thread_step tp d =
     (case snd tp of
        Waiting \<Rightarrow>
          if dm_stop d then d\<lparr>dm_threads := filter (\<lambda>x. fst x \<noteq> fst tp) (dm_threads d)\<rparr>
          else d\<lparr>dm_threads := set_phase (fst tp) Cycling (dm_threads d)\<rparr>
      | Cycling \<Rightarrow>
          d\<lparr>dm_threads := set_phase (fst tp) Waiting (dm_threads d), dm_cycles := dm_cycles d + 1\<rparr>)"

inductive daemon_step :: "bool \<Rightarrow> daemon \<Rightarrow> daemon \<Rightarrow> bool" for patient where
  start: "dm_owner d = Idle \<Longrightarrow> daemon_step patient d (start_daemon d)"
| ask: "dm_owner d = Idle \<Longrightarrow> daemon_step patient d (d\<lparr>dm_stop := True, dm_owner := Joining\<rparr>)"
| joined: "dm_owner d = Joining \<Longrightarrow> \<not> thread_alive (dm_handle d) d \<Longrightarrow> daemon_step patient d (finish_stop final d)"
| gave_up: "dm_owner d = Joining \<Longrightarrow> \<not> patient \<Longrightarrow> daemon_step patient d (finish_stop final d)"
| thread: "tp \<in> set (dm_threads d) \<Longrightarrow> daemon_step patient d (thread_step tp d)"

inductive_cases daemon_stepE: "daemon_step patient d d'"

text \<open>The cycle of the retention scheduler; \<open>timedelta\<close> of too many hours raises, which is caught.\<close>

definition hours_as_age :: "pyfloat \<Rightarrow> int option" where
  "hours_as_age h = (let us = round_half_even (h * 3600000000) in if abs us div 86400000000 \<le> 999999999 then Some us else None)"

definition enforce_cycle :: "(int option \<Rightarrow> obs_store \<Rightarrow> obs_store) \<Rightarrow> (int option \<Rightarrow> log_store \<Rightarrow> log_store) \<Rightarrow> pyfloat option \<Rightarrow> pyfloat option
    \<Rightarrow> obs_store \<times> log_store \<Rightarrow> obs_store \<times> log_store" where
  "enforce_cycle traces logs trace_hours log_hours s =
     (case trace_hours of
        None \<Rightarrow> fst s
      | Some h \<Rightarrow> (case hours_as_age h of None \<Rightarrow> fst s | Some a \<Rightarrow> traces (Some a) (fst s)),
      case log_hours of
        None \<Rightarrow> snd s
      | Some h \<Rightarrow> (case hours_as_age h of None \<Rightarrow> snd s | Some a \<Rightarrow> logs (Some a) (snd s)))"

section \<open>Lemmas\<close>

lemma set_phase_keys [simp]: "map fst (set_phase t p xs) = map fst xs" "fst ` set (set_phase t p xs) = fst ` set xs"
  "length (set_phase t p xs) = length xs"
  by (simp_all add: set_phase_def comp_def image_image)

lemma thread_step_keys:
  "fst ` set (dm_threads (thread_step tp d)) \<subseteq> fst ` set (dm_threads d)"
  "distinct (map fst (dm_threads d)) \<Longrightarrow> distinct (map fst (dm_threads (thread_step tp d)))"
  by (simp_all add: thread_step_def distinct_map_filter split: thread_phase.split) auto

lemma thread_step_fields [simp]:
  "dm_stop (thread_step tp d) = dm_stop d" "dm_handle (thread_step tp d) = dm_handle d"
  "dm_next (thread_step tp d) = dm_next d" "dm_owner (thread_step tp d) = dm_owner d"
  by (simp_all add: thread_step_def split: thread_phase.split)

text \<open>With patient joins every thread is the one the handle names, and none is left over.\<close>

definition one_thread :: "daemon \<Rightarrow> bool" where
  "one_thread d \<longleftrightarrow> distinct (map fst (dm_threads d)) \<and> (\<forall>t \<in> fst ` set (dm_threads d). dm_handle d = Some t)"

lemma one_thread_length: "one_thread d \<Longrightarrow> length (dm_threads d) \<le> 1"
proof -
  assume o: "one_thread d"
  then have "set (map fst (dm_threads d)) \<subseteq> set_option (dm_handle d)" by (auto simp: one_thread_def)
  then have "card (set (map fst (dm_threads d))) \<le> card (set_option (dm_handle d))" by (intro card_mono) simp
  moreover have "card (set_option (dm_handle d)) \<le> 1" by (cases "dm_handle d") simp_all
  ultimately show ?thesis using o distinct_card[of "map fst (dm_threads d)"] by (simp add: one_thread_def)
qed

lemma daemon_step_one_thread:
  assumes "daemon_step True d d'" "one_thread d"
  shows "one_thread d'"
  using assms
proof (cases rule: daemon_step.cases)
  case start
  show ?thesis
  proof (cases "is_running d")
    case False
    then have "dm_threads d = []" using assms(2) by (cases "dm_threads d") (auto simp: one_thread_def is_running_def thread_alive_def)
    then show ?thesis using start False by (simp add: start_daemon_def one_thread_def)
  qed (use start assms(2) in \<open>simp add: start_daemon_def\<close>)
next
  case (joined final)
  then have "dm_threads d = []" using assms(2) by (cases "dm_threads d") (auto simp: one_thread_def thread_alive_def)
  then show ?thesis using joined by (simp add: finish_stop_def one_thread_def)
next
  case (thread tp)
  then show ?thesis using assms(2) thread_step_keys(1)[of tp d] thread_step_keys(2)[of d tp]
    unfolding one_thread_def by (metis subsetD thread_step_fields(2))
qed (use assms(2) in \<open>auto simp: one_thread_def\<close>)

text \<open>Once stopping was asked for, each thread has at most the rest of its cycle left.\<close>

definition work_left :: "daemon \<Rightarrow> nat" where
  "work_left d = length (filter (\<lambda>x. snd x = Cycling) (dm_threads d))"

definition moves_left :: "daemon \<Rightarrow> nat" where
  "moves_left d = length (dm_threads d) + work_left d"

lemma filter_all_but: "distinct (map fst xs) \<Longrightarrow> x \<in> set xs \<Longrightarrow> length (filter (\<lambda>y. fst y \<noteq> fst x) xs) < length xs"
  by (rule length_filter_less) auto

lemma set_phase_other: "t \<notin> fst ` set xs \<Longrightarrow> set_phase t p xs = xs"
  by (induction xs) (auto simp: set_phase_def)

lemma count_changed:
  "distinct (map fst xs) \<Longrightarrow> (t, Cycling) \<in> set xs \<Longrightarrow>
   Suc (length (filter (\<lambda>x. snd x = Cycling) (set_phase t Waiting xs))) = length (filter (\<lambda>x. snd x = Cycling) xs)"
proof (induction xs)
  case (Cons x xs)
  show ?case
  proof (cases "fst x = t")
    case True
    then have t: "t \<notin> fst ` set xs" using Cons.prems(1) by simp
    then have "(t, Cycling) \<notin> set xs" by (metis fst_conv image_eqI)
    then have "snd x = Cycling" using Cons.prems(2) by auto
    then show ?thesis using True set_phase_other[OF t, of Waiting] by (simp add: set_phase_def)
  next
    case False
    then have "(t, Cycling) \<in> set xs" using Cons.prems(2) by auto
    then show ?thesis using Cons.IH Cons.prems(1) False by (simp add: set_phase_def)
  qed
qed simp

lemma cycling_filter: "length (filter (\<lambda>x. snd x = Cycling) (filter p xs)) \<le> length (filter (\<lambda>x. snd x = Cycling) xs)"
  by (induction xs) simp_all

lemma thread_step_stopping:
  assumes "dm_stop d" "distinct (map fst (dm_threads d))" "tp \<in> set (dm_threads d)"
  shows "moves_left (thread_step tp d) < moves_left d \<and>
    dm_cycles (thread_step tp d) + work_left (thread_step tp d) \<le> dm_cycles d + work_left d"
proof (cases "snd tp")
  case Waiting
  have "length (filter (\<lambda>x. snd x = Cycling) (filter (\<lambda>x. fst x \<noteq> fst tp) (dm_threads d))) \<le> length (filter (\<lambda>x. snd x = Cycling) (dm_threads d))"
    by (rule cycling_filter)
  then show ?thesis using Waiting assms(1) filter_all_but[OF assms(2,3)]
    by (simp add: thread_step_def moves_left_def work_left_def)
next
  case Cycling
  then have "(fst tp, Cycling) \<in> set (dm_threads d)" using assms(3) by (metis prod.collapse)
  from count_changed[OF assms(2) this] show ?thesis using Cycling
    by (simp add: thread_step_def moves_left_def work_left_def)
qed

section \<open>Properties\<close>

text \<open>One loop at a time: when every join waits for the thread, however often the loop is started and stopped,
  at most one thread is alive, and it is the one the handle names.\<close>

theorem one_loop_at_a_time:
  assumes "(daemon_step True)\<^sup>*\<^sup>* new_daemon d"
  shows "length (dm_threads d) \<le> 1 \<and> (dm_threads d \<noteq> [] \<longrightarrow> is_running d)"
proof -
  have "one_thread d" using assms
  proof (induction rule: rtranclp_induct)
    case base
    show ?case by (simp add: one_thread_def new_daemon_def)
  next
    case (step d d')
    show ?case by (rule daemon_step_one_thread[OF step.hyps(2) step.IH])
  qed
  then have "is_running d" if "dm_threads d \<noteq> []"
    using that unfolding one_thread_def is_running_def thread_alive_def by (metis hd_in_set image_eqI option.simps(5))
  then show ?thesis using one_thread_length[OF \<open>one_thread d\<close>] by blast
qed

text \<open>A run of the threads alone.\<close>

inductive threads_run :: "nat \<Rightarrow> daemon \<Rightarrow> daemon \<Rightarrow> bool" where
  halt: "threads_run 0 d d"
| move: "tp \<in> set (dm_threads d) \<Longrightarrow> threads_run n (thread_step tp d) d' \<Longrightarrow> threads_run (Suc n) d d'"


text \<open>A join that gives up leaves a second loop behind: after a stop that timed out while a cycle was running,
  starting again clears the event the old thread was to see, and both run on.\<close>

theorem impatient_stop_doubles_loop:
  "\<exists>d. (daemon_step False)\<^sup>*\<^sup>* new_daemon d \<and> dm_owner d = Idle \<and> \<not> dm_stop d \<and> length (dm_threads d) = 2"
proof -
  let ?d1 = "start_daemon new_daemon"
  let ?d2 = "thread_step (0, Waiting) ?d1"
  let ?d3 = "?d2\<lparr>dm_stop := True, dm_owner := Joining\<rparr>"
  let ?d4 = "finish_stop False ?d3"
  let ?d5 = "start_daemon ?d4"
  have e: "?d2 = \<lparr>dm_stop = False, dm_handle = Some 0, dm_threads = [(0, Cycling)], dm_next = 1, dm_cycles = 0, dm_owner = Idle\<rparr>"
    by (simp add: start_daemon_def new_daemon_def is_running_def thread_alive_def thread_step_def set_phase_def)
  have "daemon_step False new_daemon ?d1" by (rule daemon_step.start) (simp add: new_daemon_def)
  moreover have "daemon_step False ?d1 ?d2"
    by (rule daemon_step.thread) (simp add: start_daemon_def new_daemon_def is_running_def thread_alive_def)
  moreover have "daemon_step False ?d2 ?d3" by (rule daemon_step.ask) (simp add: e)
  moreover have "daemon_step False ?d3 ?d4" by (rule daemon_step.gave_up) simp_all
  moreover have "daemon_step False ?d4 ?d5" by (rule daemon_step.start) (simp add: finish_stop_def)
  ultimately have "(daemon_step False)\<^sup>*\<^sup>* new_daemon ?d5" by (meson converse_rtranclp_into_rtranclp rtranclp.rtrancl_refl)
  moreover have "dm_owner ?d5 = Idle \<and> \<not> dm_stop ?d5 \<and> length (dm_threads ?d5) = 2"
    unfolding e by (simp add: finish_stop_def start_daemon_def is_running_def thread_alive_def)
  ultimately show ?thesis by blast
qed

theorem one_loop_at_a_time_witness:
  "length (dm_threads (start_daemon new_daemon)) \<le> 1"
proof -
  have "daemon_step True new_daemon (start_daemon new_daemon)" by (rule daemon_step.start) (simp add: new_daemon_def)
  then show ?thesis using one_loop_at_a_time by blast
qed


end
