(* ===== verification/Generation.thy ===== *)
theory Generation
  imports Routing Metrics QueryTraces
begin

text \<open>
  Grounded answers (\<open>generation.py\<close>): the prompts, the reading of a model's answer, the validation of its
  citations, the batch answer and the streamed one. The model, \<open>str\<close> of a JSON value and what the index
  stores beside the text of a chunk are arguments; lines of the log are left out, the metrics are kept as
  the list of operations on the registry.
\<close>

section \<open>Prompts\<close>

definition is_blank :: "char \<Rightarrow> bool" where "is_blank c \<longleftrightarrow> c = CHR '' '' \<or> c = CHR 0x09"

definition text_of_lines :: "string list \<Rightarrow> string" where "text_of_lines ls = join_with [CHR 0x0A] ls"

text \<open>\<open>textwrap.dedent\<close>: lines of blanks become empty and the margin common to the others is removed.\<close>

definition margin_of :: "string list \<Rightarrow> string" where
  "margin_of ls = (case map (takeWhile is_blank) (filter (\<lambda>l. l \<noteq> []) ls) of
     [] \<Rightarrow> [] | m # ms \<Rightarrow> foldl longest_common_prefix m ms)"

definition dedent :: "string \<Rightarrow> string" where
  "dedent s =
     (let ls = map (\<lambda>l. if list_all is_blank l then [] else l) (py_split (CHR 0x0A) s); m = margin_of ls
      in text_of_lines (map (\<lambda>l. if py_startswith l m then drop (length m) l else l) ls))"

definition meta_marker :: string where "meta_marker = ''###META###''"

definition evidence_or_none :: "string \<Rightarrow> string" where
  "evidence_or_none context = (if py_strip context = [] then ''No retrieved evidence.'' else context)"

text \<open>The body of a triple-quoted literal, whose lines the source indents by eight.\<close>

definition literal :: "string list \<Rightarrow> string" where
  "literal ls = text_of_lines ([] # map (\<lambda>l. if l = [] then [] else ''        '' @ l) ls @ [''        ''])"

definition build_grounded_prompt :: "string \<Rightarrow> string \<Rightarrow> string" where
  "build_grounded_prompt question context =
     py_strip (dedent (literal
       [''You are answering questions over a private business PDF corpus.'',
        ''Use only the provided context. If the context is insufficient, say that the available documents do not contain enough evidence.'',
        ''Cite evidence only by using chunk_id values that appear in the context.'',
        [],
        ''Question:'',
        question,
        [],
        ''Context:'',
        evidence_or_none context,
        [],
        ''Return only JSON with this exact shape:'',
        ''{'',
        ''  \"answer\": \"direct answer grounded in the context\",'',
        ''  \"used_citation_ids\": [\"chunk_id from context\"],'',
        ''  \"confidence\": \"high|medium|low\",'',
        ''  \"insufficient_evidence_reason\": null'',
        ''}'',
        [],
        ''If the context is insufficient, use an empty used_citation_ids list, set confidence to \"low\", and explain why in insufficient_evidence_reason.'',
        ''Do not invent facts outside the context.'']))"

definition build_grounded_stream_prompt :: "string \<Rightarrow> string \<Rightarrow> string" where
  "build_grounded_stream_prompt question context =
     py_strip (dedent (literal
       [''You are answering questions over a private business PDF corpus.'',
        ''Use only the provided context. If the context is insufficient, say that the available documents do not contain enough evidence.'',
        [],
        ''First, write the answer for the user in clear plain prose. Do not use JSON or any preamble for the answer.'',
        ''After the complete answer, output a single line containing exactly:'',
        meta_marker,
        ''and immediately after it a single-line JSON object with this exact shape:'',
        ''{\"used_citation_ids\": [\"chunk_id from context\"], \"confidence\": \"high|medium|low\", \"insufficient_evidence_reason\": null}'',
        [],
        ''Cite evidence only by using chunk_id values that appear in the context.'',
        ''If the context is insufficient, write that in the prose answer, then set used_citation_ids to an empty list, confidence to \"low\", and explain why in insufficient_evidence_reason.'',
        ''Do not invent facts outside the context.'',
        [],
        ''Question:'',
        question,
        [],
        ''Context:'',
        evidence_or_none context]))"

section \<open>Reading the answer\<close>

text \<open>What the index keeps of a chunk beside its text: its pages and the title of its document.\<close>

record chunk_meta =
  me_page_start :: "int option"
  me_page_end :: "int option"
  me_title :: "string option"

record citation =
  ct_document_id :: ident
  ct_chunk_id :: ident
  ct_meta :: chunk_meta

definition opt_json :: "('a \<Rightarrow> json) \<Rightarrow> 'a option \<Rightarrow> json" where
  "opt_json f v = (case v of Some x \<Rightarrow> f x | None \<Rightarrow> JNull)"

definition citation_json :: "citation \<Rightarrow> json" where
  "citation_json c = JObj
     [(''document_id'', JStr (ct_document_id c)), (''chunk_id'', JStr (ct_chunk_id c)),
      (''page_start'', opt_json JInt (me_page_start (ct_meta c))), (''page_end'', opt_json JInt (me_page_end (ct_meta c))),
      (''title'', opt_json JStr (me_title (ct_meta c)))]"

definition extract_used_citation_ids :: "(json \<Rightarrow> string) \<Rightarrow> (string \<times> json) list \<Rightarrow> ident list" where
  "extract_used_citation_ids str payload =
     (let raw = (case j_get ''used_citation_ids'' payload of
                   Some v \<Rightarrow> v
                 | None \<Rightarrow> (case j_get ''used_citations'' payload of Some v \<Rightarrow> v | None \<Rightarrow> JArr []))
      in filter (\<lambda>i. i \<noteq> []) (map (\<lambda>v. py_strip (str v)) (case raw of JNull \<Rightarrow> [] | JArr vs \<Rightarrow> vs | v \<Rightarrow> [v])))"

definition normalise_confidence :: "(json \<Rightarrow> string) \<Rightarrow> json option \<Rightarrow> string" where
  "normalise_confidence str v =
     (let c = py_lower (py_strip (case v of Some x \<Rightarrow> if j_truthy x then str x else ''medium'' | None \<Rightarrow> ''medium''))
      in if c \<in> {''high'', ''medium'', ''low''} then c else ''medium'')"

text \<open>The dict of the candidates keeps the last of those that share an identifier.\<close>

definition by_chunk_id :: "citation list \<Rightarrow> ident \<rightharpoonup> citation" where
  "by_chunk_id cs = map_of (rev (map (\<lambda>c. (ct_chunk_id c, c)) cs))"

fun validate_citations :: "(ident \<rightharpoonup> citation) \<Rightarrow> ident list \<Rightarrow> ident list \<Rightarrow> citation list" where
  "validate_citations table seen [] = []"
| "validate_citations table seen (i # ids) =
     (if i \<in> set seen then validate_citations table seen ids
      else (case table i of
              None \<Rightarrow> validate_citations table (i # seen) ids
            | Some c \<Rightarrow> c # validate_citations table (i # seen) ids))"

definition answer_evidence :: "'h list \<Rightarrow> 'c list \<Rightarrow> string option \<Rightarrow> string" where
  "answer_evidence hits citations reason =
     (if hits = [] then ''insufficient_evidence''
      else if citations \<noteq> [] \<and> or_none reason = None then ''grounded''
      else if citations \<noteq> [] then ''partially_grounded''
      else ''insufficient_evidence'')"

section \<open>The generator\<close>

record gen_env =
  gn_loads :: json_loads
  gn_str :: "json \<Rightarrow> string"
  gn_model_id :: string
  gn_generate :: "string \<Rightarrow> (string \<times> (string \<times> pyfloat) list) option"
  gn_stream :: "string \<Rightarrow> string list \<times> bool"
  gn_meta :: "ident \<Rightarrow> chunk_meta"
  gn_claims :: claim_llm
  gn_schedule :: "(nat \<times> nat) list \<Rightarrow> (nat \<times> nat) list"

text \<open>\<open>gn_generate\<close> is \<open>None\<close> when the call raises after its retries; \<open>gn_stream\<close> gives the pieces and
  whether the stream ended or raised after them.\<close>

definition model_label :: "gen_env \<Rightarrow> labels" where "model_label env = [(''model_id'', gn_model_id env)]"

definition candidate_citations :: "(ident \<Rightarrow> chunk_meta) \<Rightarrow> hit list \<Rightarrow> citation list" where
  "candidate_citations meta hits = map (\<lambda>h. \<lparr>ct_document_id = ck_document_id (h_chunk h), ct_chunk_id = ck_id (h_chunk h),
     ct_meta = meta (ck_id (h_chunk h))\<rparr>) hits"

definition page_text :: "int option \<Rightarrow> string" where
  "page_text p = (case p of Some n \<Rightarrow> show_int n | None \<Rightarrow> ''None'')"

definition evidence_context :: "(ident \<Rightarrow> chunk_meta) \<Rightarrow> hit list \<Rightarrow> string" where
  "evidence_context meta hits =
     join_with two_newlines (map (\<lambda>(n, h).
       (let c = h_chunk h; e = meta (ck_id c)
        in ''['' @ show_nat n @ ''] chunk_id='' @ ck_id c @ '' document='' @ ck_document_id c @
           '' pages='' @ page_text (me_page_start e) @ ''-'' @ page_text (me_page_end e) @ [CHR 0x0A] @ ck_text c))
       (zip [1..<Suc (length hits)] hits))"

definition no_evidence_text :: string where
  "no_evidence_text = ''The available documents do not contain enough evidence.''"

definition unverified_reason :: string where
  "unverified_reason = ''Model response could not be validated against the required schema, so no citations were verified.''"

text \<open>What is read of the metadata: the cited identifiers, the confidence and the reason. Output that does
  not parse cites nothing.\<close>

definition read_metadata :: "gen_env \<Rightarrow> (string \<times> json) list option \<Rightarrow> (ident list \<times> string \<times> string option) \<times> metric_op list" where
  "read_metadata env parsed =
     (case parsed of
        None \<Rightarrow> (([], ''low'', Some unverified_reason), [Inc ''rag_generation_unparseable_output_total'' (model_label env) 1])
      | Some p \<Rightarrow>
          ((extract_used_citation_ids (gn_str env) p, normalise_confidence (gn_str env) (j_get ''confidence'' p),
            (case j_get ''insufficient_evidence_reason'' p of
               Some v \<Rightarrow> if j_truthy v then Some (py_strip (gn_str env v)) else None
             | None \<Rightarrow> None)), []))"

definition run_claim_mapping :: "gen_env \<Rightarrow> string \<Rightarrow> hit list \<Rightarrow> ident \<Rightarrow> claim_mapping" where
  "run_claim_mapping env answer hits trace_id =
     (case map_claims (gn_claims env) (gn_schedule env) answer hits trace_id of
        Some m \<Rightarrow> m
      | None \<Rightarrow> \<lparr>mp_claims = [], mp_failed = True, mp_conflicting = {}\<rparr>)"

text \<open>The last half of both answers, from the validated citations on.\<close>

definition compose_answer :: "gen_env \<Rightarrow> hit list \<Rightarrow> ident \<Rightarrow> string \<Rightarrow> citation list \<Rightarrow> string \<Rightarrow> string option \<Rightarrow> pyfloat option
    \<Rightarrow> rag_response \<times> metric_op list" where
  "compose_answer env hits trace_id answer citations confidence reason logprob =
     (let status = answer_evidence hits citations reason;
          score = rag_confidence_score
            \<lparr>rs_evidence = Some status, rs_label = Some confidence, rs_scores = Some (map h_score hits), rs_citations = length citations,
             rs_hits = length hits, rs_insufficient = (or_none reason \<noteq> None), rs_logprob = logprob\<rparr>;
          m = run_claim_mapping env answer hits trace_id
      in (\<lparr>rr_answer = answer, rr_citations = map citation_json citations, rr_evidence_status = status, rr_trace_id = trace_id,
           rr_confidence = Some confidence, rr_score = Some score, rr_reason = reason, rr_claims = mp_claims m,
           rr_failed = mp_failed m, rr_scores = map h_score hits\<rparr>,
          [Obs ''rag_generation_confidence_score'' (model_label env @ [(''evidence_status'', status)]) score]))"

definition generate_answer :: "gen_env \<Rightarrow> string \<Rightarrow> hit list \<Rightarrow> ident \<Rightarrow> rag_response option \<times> metric_op list" where
  "generate_answer env question hits trace_id =
     (let candidates = candidate_citations (gn_meta env) hits;
          context = evidence_context (gn_meta env) hits;
          prompt = build_grounded_prompt question context;
          sizes = [Obs ''rag_generation_prompt_chars'' (model_label env) (real (length prompt)),
                   Obs ''rag_generation_context_chars'' (model_label env) (real (length context)),
                   Obs ''rag_generation_citation_count'' (model_label env) (real (length candidates))]
      in case gn_generate env prompt of
           None \<Rightarrow> (None, sizes)
         | Some (raw, usage) \<Rightarrow>
             (let tokens = map (\<lambda>(k, v). Obs ''rag_generation_tokens'' (model_label env @ [(''token_type'', k)]) v) usage;
                  parsed = parse_json_object (gn_loads env) raw;
                  ((ids, confidence, reason), noted) = read_metadata env parsed;
                  body = (case parsed of
                            None \<Rightarrow> py_strip raw
                          | Some p \<Rightarrow> py_strip (case j_get ''answer'' p of Some v \<Rightarrow> if j_truthy v then gn_str env v else [] | None \<Rightarrow> []));
                  answer = (if body = [] then no_evidence_text else body);
                  citations = validate_citations (by_chunk_id candidates) [] ids;
                  invalid = card (set ids) - length citations;
                  (r, scored) = compose_answer env hits trace_id answer citations confidence reason (map_of usage ''avgLogprob'')
              in (Some r, sizes @ tokens @ noted @
                    (if invalid \<noteq> 0 then [Obs ''rag_generation_invalid_citation_count'' (model_label env) (real invalid)] else []) @
                    scored)))"

section \<open>Streaming\<close>

text \<open>What may be forwarded of the text received so far: up to the marker when it is there, else all but
  the last characters, which may be the beginning of one (below zero the source's bound forwards nothing,
  as here).\<close>

definition forwardable :: "string \<Rightarrow> nat" where
  "forwardable buffer =
     (case cut_at meta_marker buffer of Some (a, _) \<Rightarrow> length a | None \<Rightarrow> length buffer - (length meta_marker - 1))"

fun forward_pieces :: "string list \<Rightarrow> string \<Rightarrow> nat \<Rightarrow> string list \<times> string \<times> nat" where
  "forward_pieces [] buffer emitted = ([], buffer, emitted)"
| "forward_pieces (p # ps) buffer emitted =
     (let b = buffer @ p; upto = forwardable b
      in if emitted < upto
         then (let (ds, r) = forward_pieces ps b upto in (take (upto - emitted) (drop emitted b) # ds, r))
         else forward_pieces ps b emitted)"

datatype gen_event = GenDelta string | GenFinal rag_response

text \<open>What follows the last piece: the answer and its metadata are read from the whole text.\<close>

definition finish_stream :: "gen_env \<Rightarrow> hit list \<Rightarrow> ident \<Rightarrow> string \<Rightarrow> rag_response \<times> metric_op list" where
  "finish_stream env hits trace_id buffer =
     (let (body, meta_raw) = (case cut_at meta_marker buffer of Some (a, b) \<Rightarrow> (py_strip a, py_strip b) | None \<Rightarrow> (py_strip buffer, []));
          parsed = (if meta_raw = [] then None else parse_json_object (gn_loads env) meta_raw);
          ((ids, confidence, reason), noted) = read_metadata env parsed;
          answer = (if body = [] then no_evidence_text else body);
          citations = validate_citations (by_chunk_id (candidate_citations (gn_meta env) hits)) [] ids;
          (r, scored) = compose_answer env hits trace_id answer citations confidence reason None
      in (r, noted @ scored))"

definition answer_stream :: "gen_env \<Rightarrow> string \<Rightarrow> hit list \<Rightarrow> ident \<Rightarrow> gen_event list \<times> bool \<times> metric_op list" where
  "answer_stream env question hits trace_id =
     (let (pieces, ended) = gn_stream env (build_grounded_stream_prompt question (evidence_context (gn_meta env) hits));
          (ds, buffer, emitted) = forward_pieces pieces [] 0
      in if \<not> ended then (map GenDelta ds, False, [])
         else
           (let rest = (if cut_at meta_marker buffer = None \<and> emitted < length buffer then [drop emitted buffer] else []);
                (r, ops) = finish_stream env hits trace_id buffer
            in (map GenDelta (ds @ rest) @ [GenFinal r], True, ops)))"

section \<open>What is streamed\<close>

definition before_marker :: "string \<Rightarrow> string" where
  "before_marker s = (case cut_at meta_marker s of Some (a, _) \<Rightarrow> a | None \<Rightarrow> s)"

lemma cut_at_append: "cut_at p s = Some (a, b) \<Longrightarrow> p \<noteq> [] \<Longrightarrow> cut_at p (s @ x) = Some (a, b @ x)"
proof (induction p s arbitrary: a b rule: cut_at.induct)
  case (2 p c cs)
  show ?case
  proof (cases "py_startswith (c # cs) p")
    case True
    then have "take (length p) (c # cs) = p" by (simp add: py_startswith_def)
    then have l: "length p \<le> length (c # cs)" by (metis length_take min.absorb_iff2 nat_le_linear take_all_iff)
    then have "take (length p) ((c # cs) @ x) = take (length p) (c # cs)" "drop (length p) ((c # cs) @ x) = drop (length p) (c # cs) @ x"
      by (simp_all only: take_append drop_append) simp_all
    then show ?thesis using 2(2) True by (simp add: py_startswith_def)
  next
    case False
    then obtain a' where a': "cut_at p cs = Some (a', b)" "a = c # a'" using 2(2) by (auto split: if_splits)
    have "\<not> py_startswith (c # (cs @ x)) p"
    proof
      assume "py_startswith (c # (cs @ x)) p"
      moreover have "length p \<le> length cs" using cut_at_sound[OF a'(1)] by simp
      moreover from this have "take (length p) ((c # cs) @ x) = take (length p) (c # cs)" by (simp only: take_append) simp
      ultimately show False using False by (simp add: py_startswith_def)
    qed
    then show ?thesis using 2(1)[OF False a'(1) 2(3)] a'(2) by simp
  qed
qed (simp split: if_splits)

lemma meta_marker_length [simp]: "length meta_marker = 10" "meta_marker \<noteq> []"
  by (simp_all add: meta_marker_def)

lemma forwardable_bound: "forwardable b \<le> length (before_marker (b @ x))"
proof (cases "cut_at meta_marker b")
  case (Some ar)
  then obtain a r where "cut_at meta_marker b = Some (a, r)" by (cases ar) auto
  then show ?thesis using cut_at_append[of meta_marker b a r x] by (simp add: forwardable_def before_marker_def)
next
  case None
  show ?thesis
  proof (cases "cut_at meta_marker (b @ x)")
    case (Some ar)
    then obtain a r where ar: "cut_at meta_marker (b @ x) = Some (a, r)" by (cases ar) auto
    have "length b < length a + 10"
    proof (rule ccontr)
      assume "\<not> length b < length a + 10"
      then have "b = take (length b) (a @ meta_marker @ r)" "length (a @ meta_marker) \<le> length b"
        using cut_at_sound[OF ar] by (simp_all add: append_eq_conv_conj)
      then have "b = a @ meta_marker @ take (length b - length (a @ meta_marker)) r" by simp
      then show False using cut_at_None[OF None] by blast
    qed
    then show ?thesis using None ar by (simp add: forwardable_def before_marker_def)
  qed (simp add: None forwardable_def before_marker_def)
qed

lemma before_marker_prefix: "prefix (before_marker s) s"
  using cut_at_sound[of meta_marker s] by (fastforce simp: before_marker_def split: option.split)

lemma forwardable_mono: "forwardable b \<le> forwardable (b @ x)"
proof (cases "cut_at meta_marker (b @ x)")
  case None
  then have "cut_at meta_marker b = None" using cut_at_append[of meta_marker b _ _ x] by (cases "cut_at meta_marker b") auto
  then show ?thesis using None by (simp add: forwardable_def)
next
  case (Some ar)
  then have "forwardable (b @ x) = length (before_marker (b @ x))" by (simp add: forwardable_def before_marker_def split: prod.split)
  then show ?thesis using forwardable_bound[of b x] by simp
qed

lemma forwardable_length: "forwardable b \<le> length b"
  using forwardable_bound[of b "[]"] prefix_length_le[OF before_marker_prefix[of b]] by simp

lemma forward_pieces_eq:
  "forward_pieces ps b (forwardable b) = (ds, buffer, emitted) \<Longrightarrow>
   buffer = b @ concat ps \<and> emitted = forwardable buffer \<and> take (forwardable b) b @ concat ds = take emitted buffer"
proof (induction ps arbitrary: b ds buffer emitted)
  case (Cons p ps)
  let ?e = "forwardable b" and ?f = "forwardable (b @ p)"
  obtain ds' buffer' emitted' where r: "forward_pieces ps (b @ p) ?f = (ds', buffer', emitted')"
    by (cases "forward_pieces ps (b @ p) ?f") auto
  note ih = Cons.IH[OF r]
  have e: "take ?e b = take ?e (b @ p)" using forwardable_length[of b] by simp
  show ?case
  proof (cases "?e < ?f")
    case True
    have t: "take ?e b @ take (?f - ?e) (drop ?e (b @ p)) = take ?f (b @ p)"
      unfolding e by (subst take_add[symmetric]) (use True in simp)
    have d: "ds = take (?f - ?e) (drop ?e (b @ p)) # ds'" "buffer = buffer'" "emitted = emitted'"
      using Cons.prems r True by (simp_all add: Let_def)
    have "take ?e b @ concat ds = (take ?e b @ take (?f - ?e) (drop ?e (b @ p))) @ concat ds'"
      by (simp only: d(1) concat.simps append_assoc)
    then have "take ?e b @ concat ds = take emitted' buffer'" by (simp only: t ih)
    then show ?thesis using ih d(2,3) by (simp only: concat.simps append_assoc simp_thms)
  next
    case False
    then have ef: "?e = ?f" using forwardable_mono[of b p] by simp
    then have "forward_pieces (p # ps) b ?e = forward_pieces ps (b @ p) ?f" by (simp only: forward_pieces.simps Let_def less_irrefl if_False)
    then have d: "ds = ds'" "buffer = buffer'" "emitted = emitted'" using Cons.prems r by simp_all
    have "take ?e b @ concat ds = take ?f (b @ p) @ concat ds'" by (simp only: d(1) e) (simp only: ef)
    then show ?thesis using ih d(2,3) by (simp only: concat.simps append_assoc simp_thms)
  qed
qed simp

definition deltas :: "gen_event list \<Rightarrow> string" where
  "deltas es = concat (List.map_filter (\<lambda>e. case e of GenDelta s \<Rightarrow> Some s | GenFinal _ \<Rightarrow> None) es)"

definition finals :: "gen_event list \<Rightarrow> rag_response list" where
  "finals es = List.map_filter (\<lambda>e. case e of GenDelta _ \<Rightarrow> None | GenFinal r \<Rightarrow> Some r) es"

lemma deltas_simps [simp]: "deltas [] = []" "deltas (GenDelta s # es) = s @ deltas es" "deltas (GenFinal r # es) = deltas es"
  "deltas (es @ fs) = deltas es @ deltas fs" "deltas (map GenDelta ds) = concat ds"
  by (simp_all add: deltas_def map_filter_def comp_def)

lemma finals_simps [simp]: "finals [] = []" "finals (GenDelta s # es) = finals es" "finals (GenFinal r # es) = r # finals es"
  "finals (es @ fs) = finals es @ finals fs" "finals (map GenDelta ds) = []"
  by (simp_all add: finals_def map_filter_def comp_def)

lemma marker_gone: "\<not> contains_text meta_marker (before_marker s)"
proof (cases "cut_at meta_marker s")
  case (Some ar)
  then obtain a r where ar: "cut_at meta_marker s = Some (a, r)" by (cases ar) auto
  have "cut_at meta_marker a = None"
  proof (rule ccontr)
    assume "cut_at meta_marker a \<noteq> None"
    then obtain u v where uv: "cut_at meta_marker a = Some (u, v)" by fastforce
    from cut_at_append[OF uv, of "meta_marker @ r"] cut_at_sound[OF ar] ar cut_at_sound[OF uv] show False by simp
  qed
  then show ?thesis using ar by (simp add: before_marker_def contains_text_def)
qed (simp add: before_marker_def contains_text_def)

lemma compose_answer_env: "compose_answer (env\<lparr>gn_stream := st\<rparr>) = compose_answer env"
  by (simp add: fun_eq_iff compose_answer_def run_claim_mapping_def model_label_def)

lemma read_metadata_env: "read_metadata (env\<lparr>gn_stream := st\<rparr>) = read_metadata env"
  by (simp add: fun_eq_iff read_metadata_def model_label_def split: option.split)

lemma finish_stream_env: "finish_stream (env\<lparr>gn_stream := st\<rparr>) hits t s = finish_stream env hits t s"
  by (simp add: finish_stream_def compose_answer_env read_metadata_env case_prod_beta)

lemma finish_stream_answer:
  "rr_answer (fst (finish_stream env hits t s)) =
     (if py_strip (before_marker s) = [] then no_evidence_text else py_strip (before_marker s))"
  by (simp add: finish_stream_def before_marker_def compose_answer_def Let_def case_prod_beta split: option.split)

lemma answer_stream_shape:
  assumes "gn_stream env (build_grounded_stream_prompt question (evidence_context (gn_meta env) hits)) = (pieces, ended)"
  shows "case answer_stream env question hits t of (es, ok, ops) \<Rightarrow>
    ok = ended \<and> prefix (deltas es) (before_marker (concat pieces)) \<and>
    (if ended then deltas es = before_marker (concat pieces) \<and> finals es = [fst (finish_stream env hits t (concat pieces))] \<and>
       ops = snd (finish_stream env hits t (concat pieces)) else finals es = [] \<and> ops = [])"
proof -
  obtain ds buffer emitted where f: "forward_pieces pieces [] 0 = (ds, buffer, emitted)" by (cases "forward_pieces pieces [] 0") auto
  have "forwardable [] = 0" by (simp add: forwardable_def meta_marker_def)
  then have e: "buffer = concat pieces" "emitted = forwardable buffer" "concat ds = take emitted buffer"
    using forward_pieces_eq[of pieces "[]" ds buffer emitted] f by simp_all
  have "take (forwardable buffer) buffer = take (forwardable buffer) (before_marker buffer)"
    using forwardable_bound[of buffer "[]"] before_marker_prefix[of buffer] by (auto elim!: prefixE) (metis append_Nil2 take_append take_eq_Nil2 diff_is_0_eq)
  then have p: "prefix (concat ds) (before_marker buffer)" by (simp add: e take_is_prefix)
  show ?thesis
  proof (cases "cut_at meta_marker buffer")
    case None
    then have "before_marker buffer = buffer" by (simp add: before_marker_def)
    then show ?thesis using p None e assms f by (auto simp: answer_stream_def Let_def case_prod_beta)
  next
    case (Some ar)
    then obtain a r where ar: "cut_at meta_marker buffer = Some (a, r)" by (cases ar) auto
    then have "forwardable buffer = length a" "before_marker buffer = a" "take (length a) buffer = a"
      using cut_at_sound[OF ar] by (simp_all add: forwardable_def before_marker_def)
    then show ?thesis using p ar e assms f by (simp add: answer_stream_def Let_def case_prod_beta)
  qed
qed

lemma contains_prefix: "prefix s t \<Longrightarrow> contains_text p s \<Longrightarrow> contains_text p t"
  unfolding contains_text_iff prefix_def by (metis append.assoc)

text \<open>C30. What the reader is shown does not depend on how the model's output is cut into pieces, and the
  metadata never shows.\<close>

theorem streamed_prose_exact:
  "let (es, ok, ops) = answer_stream env question hits t;
       (pieces, ended) = gn_stream env (build_grounded_stream_prompt question (evidence_context (gn_meta env) hits));
       prose = before_marker (concat pieces);
       (es1, ok1, ops1) = answer_stream (env\<lparr>gn_stream := (\<lambda>_. ([concat pieces], ended))\<rparr>) question hits t
   in ok = ended \<and> \<not> contains_text meta_marker (deltas es) \<and> prefix (deltas es) prose \<and>
      finals es = finals es1 \<and> ops = ops1 \<and>
      (if ended then deltas es = prose \<and> (\<exists>r. finals es = [r] \<and> rr_answer r = (if py_strip prose = [] then no_evidence_text else py_strip prose))
       else finals es = [])"
proof -
  let ?prompt = "build_grounded_stream_prompt question (evidence_context (gn_meta env) hits)"
  obtain pieces ended where s: "gn_stream env ?prompt = (pieces, ended)" by (cases "gn_stream env ?prompt") auto
  let ?prose = "before_marker (concat pieces)" and ?env1 = "env\<lparr>gn_stream := (\<lambda>_. ([concat pieces], ended))\<rparr>"
  note a = answer_stream_shape[OF s, of t]
  have "gn_stream ?env1 (build_grounded_stream_prompt question (evidence_context (gn_meta ?env1) hits)) = ([concat pieces], ended)" by simp
  note b = answer_stream_shape[OF this, of t]
  obtain es ok ops where x: "answer_stream env question hits t = (es, ok, ops)" by (cases "answer_stream env question hits t") auto
  obtain es1 ok1 ops1 where y: "answer_stream ?env1 question hits t = (es1, ok1, ops1)" by (cases "answer_stream ?env1 question hits t") auto
  have "finish_stream ?env1 hits t (concat pieces) = finish_stream env hits t (concat pieces)" by (rule finish_stream_env)
  moreover have "\<not> contains_text meta_marker (deltas es)"
    using marker_gone[of "concat pieces"] contains_prefix[of "deltas es" ?prose meta_marker] a x by (simp add: x) blast
  ultimately show ?thesis using a b finish_stream_answer[of env hits t "concat pieces"]
    by (simp add: s x y) (auto split: if_splits)
qed

section \<open>What an answer cites\<close>

text \<open>The citations are hits, one for each identifier that the metadata names and retrieval returned; the
  status follows from them and the reason; without metadata there are none, and with a reason the score
  is low.\<close>

definition verified_answer :: "gen_env \<Rightarrow> hit list \<Rightarrow> (string \<times> json) list option \<Rightarrow> rag_response \<Rightarrow> bool" where
  "verified_answer env hits parsed r \<longleftrightarrow>
     (\<exists>cs. rr_citations r = map citation_json cs \<and> set cs \<subseteq> set (candidate_citations (gn_meta env) hits) \<and> distinct (map ct_chunk_id cs) \<and>
       set (map ct_chunk_id cs) = (case parsed of None \<Rightarrow> {}
         | Some p \<Rightarrow> set (extract_used_citation_ids (gn_str env) p) \<inter> set (map (\<lambda>h. ck_id (h_chunk h)) hits)) \<and>
       (rr_evidence_status r = ''grounded'' \<longleftrightarrow> cs \<noteq> [] \<and> or_none (rr_reason r) = None) \<and>
       (rr_evidence_status r = ''insufficient_evidence'' \<longleftrightarrow> cs = [])) \<and>
     (parsed = None \<longrightarrow> rr_confidence r = Some ''low'' \<and> rr_reason r = Some unverified_reason) \<and>
     (or_none (rr_reason r) \<noteq> None \<longrightarrow> (\<exists>s. rr_score r = Some s \<and> s \<le> 35 / 100))"

lemma validate_citations_props:
  "set (validate_citations table seen ids) \<subseteq> ran table \<and>
   ((\<forall>i c. table i = Some c \<longrightarrow> ct_chunk_id c = i) \<longrightarrow>
      distinct (map ct_chunk_id (validate_citations table seen ids)) \<and>
      set (map ct_chunk_id (validate_citations table seen ids)) = (set ids - set seen) \<inter> dom table)"
proof (induction table seen ids rule: validate_citations.induct)
  case (2 table seen i ids)
  show ?case
  proof (cases "i \<in> set seen")
    case True
    then show ?thesis using 2(1) by auto
  next
    case False
    show ?thesis
    proof (cases "table i")
      case None
      then show ?thesis using 2(2)[OF False None] False by auto
    next
      case (Some c)
      then show ?thesis using 2(3)[OF False Some] False by (auto simp: ran_def)
    qed
  qed
qed simp

lemma by_chunk_id_props:
  "by_chunk_id cs i = Some c \<Longrightarrow> c \<in> set cs \<and> ct_chunk_id c = i" "dom (by_chunk_id cs) = ct_chunk_id ` set cs"
proof -
  show "by_chunk_id cs i = Some c \<Longrightarrow> c \<in> set cs \<and> ct_chunk_id c = i" unfolding by_chunk_id_def by (auto dest: map_of_SomeD)
  show "dom (by_chunk_id cs) = ct_chunk_id ` set cs" by (simp add: by_chunk_id_def dom_map_of_conv_image_fst image_image)
qed

lemma insufficient_score: "rs_insufficient q \<Longrightarrow> rag_confidence_score q * 20 \<le> 7"
proof -
  assume "rs_insufficient q"
  let ?x = "clamp (min (case weighted_average (rag_components q) of None \<Rightarrow> 4 / 10 | Some s \<Rightarrow> s) (35 / 100)) min_score max_score"
  have "of_int 50 / 1000 \<le> ?x" "?x \<le> of_int 350 / 1000" by (simp_all add: clamp_def min_score_def max_score_def)
  from round3_bounds[OF this] show ?thesis using \<open>rs_insufficient q\<close> by (simp add: rag_confidence_score_def Let_def)
qed

lemma composed_verified:
  assumes "read_metadata env parsed = ((ids, confidence, reason), noted)"
  shows "verified_answer env hits parsed (fst (compose_answer env hits t answer
    (validate_citations (by_chunk_id (candidate_citations (gn_meta env) hits)) [] ids) confidence reason lp))"
proof -
  let ?cands = "candidate_citations (gn_meta env) hits"
  let ?cs = "validate_citations (by_chunk_id ?cands) [] ids"
  have ran: "ran (by_chunk_id ?cands) \<subseteq> set ?cands" using by_chunk_id_props(1) by (auto simp: ran_def)
  have ids: "ct_chunk_id ` set ?cands = set (map (\<lambda>h. ck_id (h_chunk h)) hits)" by (simp add: candidate_citations_def image_image)
  note v = validate_citations_props[of "by_chunk_id ?cands" "[]" ids]
  have "set ?cs \<subseteq> set ?cands" "distinct (map ct_chunk_id ?cs)" "set (map ct_chunk_id ?cs) = set ids \<inter> set (map (\<lambda>h. ck_id (h_chunk h)) hits)"
    using v ran by_chunk_id_props(1) by (auto simp: by_chunk_id_props(2) ids)
  moreover have "?cs = []" if "hits = []" using calculation(1) that by (simp add: candidate_citations_def)
  moreover have "set ids = (case parsed of None \<Rightarrow> {} | Some p \<Rightarrow> set (extract_used_citation_ids (gn_str env) p))"
    "parsed = None \<longrightarrow> confidence = ''low'' \<and> reason = Some unverified_reason"
    using assms by (auto simp: read_metadata_def split: option.splits)
  ultimately show ?thesis
    unfolding verified_answer_def
    by (intro conjI exI[where x = ?cs])
      (auto simp: compose_answer_def Let_def answer_evidence_def insufficient_score split: option.splits)
qed

definition streamed_metadata :: "gen_env \<Rightarrow> string \<Rightarrow> (string \<times> json) list option" where
  "streamed_metadata env s = (case cut_at meta_marker s of
     Some (_, b) \<Rightarrow> if py_strip b = [] then None else parse_json_object (gn_loads env) (py_strip b) | None \<Rightarrow> None)"

lemma finish_stream_verified: "verified_answer env hits (streamed_metadata env s) (fst (finish_stream env hits t s))"
proof -
  obtain ids confidence reason noted where r: "read_metadata env (streamed_metadata env s) = ((ids, confidence, reason), noted)"
    by (cases "read_metadata env (streamed_metadata env s)") auto
  show ?thesis using composed_verified[OF r] r
    by (cases "cut_at meta_marker s") (auto simp: finish_stream_def streamed_metadata_def Let_def case_prod_beta)
qed

lemma generated_verified:
  assumes "generate_answer env question hits t = (Some r, ops)"
  shows "\<exists>raw usage. gn_generate env (build_grounded_prompt question (evidence_context (gn_meta env) hits)) = Some (raw, usage) \<and>
    verified_answer env hits (parse_json_object (gn_loads env) raw) r \<and> rr_trace_id r = t"
proof (cases "gn_generate env (build_grounded_prompt question (evidence_context (gn_meta env) hits))")
  case (Some out)
  obtain raw usage where o: "out = (raw, usage)" by (cases out) auto
  obtain ids confidence reason noted where r: "read_metadata env (parse_json_object (gn_loads env) raw) = ((ids, confidence, reason), noted)"
    by (cases "read_metadata env (parse_json_object (gn_loads env) raw)") auto
  have "rr_trace_id (fst (compose_answer env hits t answer cs c rs lp)) = t" for answer cs c rs lp by (simp add: compose_answer_def Let_def)
  then show ?thesis using composed_verified[OF r] Some o r assms by (auto simp: generate_answer_def Let_def case_prod_beta)
qed (use assms in \<open>simp add: generate_answer_def Let_def\<close>)

lemma streamed_verified:
  assumes "answer_stream env question hits t = (es, ended, ops)" "finals es = r # rs"
  shows "rs = [] \<and> rr_trace_id r = t \<and> verified_answer env hits (streamed_metadata env
    (concat (fst (gn_stream env (build_grounded_stream_prompt question (evidence_context (gn_meta env) hits)))))) r"
proof -
  let ?s = "gn_stream env (build_grounded_stream_prompt question (evidence_context (gn_meta env) hits))"
  have "?s = (fst ?s, snd ?s)" by simp
  from answer_stream_shape[OF this, of t] have "r = fst (finish_stream env hits t (concat (fst ?s)))" "rs = []"
    using assms by (auto split: if_splits)
  moreover have "rr_trace_id (fst (finish_stream env hits t s)) = t" for s
    by (simp add: finish_stream_def compose_answer_def Let_def case_prod_beta)
  ultimately show ?thesis using finish_stream_verified by simp
qed

text \<open>C31. No answer, whole or streamed, claims evidence that was not checked: its citations are hits, one for each
  retrieved identifier that the model's metadata names, the status says whether there are any and whether
  the model gave a reason, and output without readable metadata is left without citations, with low
  confidence and a low score.\<close>

theorem answers_fail_closed:
  "(case generate_answer env question hits t of
      (Some r, _) \<Rightarrow> (\<exists>raw usage. gn_generate env (build_grounded_prompt question (evidence_context (gn_meta env) hits)) = Some (raw, usage) \<and>
        verified_answer env hits (parse_json_object (gn_loads env) raw) r)
    | (None, _) \<Rightarrow> gn_generate env (build_grounded_prompt question (evidence_context (gn_meta env) hits)) = None) \<and>
   (case finals (fst (answer_stream env question hits t)) of
      [] \<Rightarrow> True
    | r # rs \<Rightarrow> rs = [] \<and> verified_answer env hits (streamed_metadata env
        (concat (fst (gn_stream env (build_grounded_stream_prompt question (evidence_context (gn_meta env) hits)))))) r)"
proof
  show "case generate_answer env question hits t of
      (Some r, _) \<Rightarrow> (\<exists>raw usage. gn_generate env (build_grounded_prompt question (evidence_context (gn_meta env) hits)) = Some (raw, usage) \<and>
        verified_answer env hits (parse_json_object (gn_loads env) raw) r)
    | (None, _) \<Rightarrow> gn_generate env (build_grounded_prompt question (evidence_context (gn_meta env) hits)) = None"
    using generated_verified[of env question hits t]
    by (cases "gn_generate env (build_grounded_prompt question (evidence_context (gn_meta env) hits))")
      (auto simp: generate_answer_def Let_def case_prod_beta split: option.splits)
  show "case finals (fst (answer_stream env question hits t)) of
      [] \<Rightarrow> True
    | r # rs \<Rightarrow> rs = [] \<and> verified_answer env hits (streamed_metadata env
        (concat (fst (gn_stream env (build_grounded_stream_prompt question (evidence_context (gn_meta env) hits)))))) r"
    using streamed_verified[of env question hits t]
    by (cases "answer_stream env question hits t"; cases "finals (fst (answer_stream env question hits t))") auto
qed
end
