(* ===== verification/Parsing.thy ===== *)
theory Parsing
  imports Publication "HOL-Library.Char_ord"
begin

text \<open>
  From a file to vectors: the choice of a parser and the markdown tables of \<open>parsing.py\<close>, chunking with stable
  identifiers, page ranges and section paths of \<open>chunking.py\<close>, and the unit vectors of \<open>embedding.py\<close>. The
  sentence splitter, the hash and the embedding model are arguments; text is ASCII where the code looks
  at letters and digits.
\<close>

section \<open>Formats\<close>

definition llamaparse_extensions :: "string list" where
  "llamaparse_extensions = [''.pdf'', ''.docx'', ''.doc'', ''.pptx'', ''.ppt'', ''.odt'', ''.rtf'', ''.epub'', ''.xls'', ''.xml'',
     ''.jpg'', ''.jpeg'', ''.png'', ''.tiff'', ''.tif'', ''.bmp'', ''.webp'', ''.gif'']"

definition spreadsheet_extensions :: "string list" where "spreadsheet_extensions = [''.xlsx'', ''.csv'']"

definition html_extensions :: "string list" where "html_extensions = [''.html'', ''.htm'']"

definition text_extensions :: "string list" where "text_extensions = [''.txt'', ''.md'', ''.markdown'', ''.rst'']"

definition supported_extensions :: "string list" where
  "supported_extensions = llamaparse_extensions @ spreadsheet_extensions @ html_extensions @ text_extensions"

datatype parser_type = Llamaparse | Spreadsheet | Html | PlainText

text \<open>\<open>Path(s).suffix\<close>: the last dot of the final component, unless it is its first or last character.\<close>

definition path_name :: "string \<Rightarrow> string" where
  "path_name s = (case rev (filter (\<lambda>p. p \<noteq> [] \<and> p \<noteq> ''.'') (py_split CHR ''/'' s)) of [] \<Rightarrow> [] | c # _ \<Rightarrow> c)"

definition after_dot :: "string \<Rightarrow> string" where
  "after_dot s = rev (takeWhile (\<lambda>c. c \<noteq> CHR ''.'') (rev s))"

definition path_suffix :: "string \<Rightarrow> string" where
  "path_suffix s =
     (let n = path_name s; e = after_dot n
      in if CHR ''.'' \<in> set n \<and> e \<noteq> [] \<and> length e + 1 < length n then CHR ''.'' # e else [])"

definition detect_parser_type :: "string \<Rightarrow> parser_type option" where
  "detect_parser_type filename =
     (let ext = py_lower (path_suffix filename)
      in if ext \<in> set llamaparse_extensions then Some Llamaparse
         else if ext \<in> set spreadsheet_extensions then Some Spreadsheet
         else if ext \<in> set html_extensions then Some Html
         else if ext \<in> set text_extensions then Some PlainText else None)"

text \<open>The extension the upload endpoint looks at: from the last dot of the whole name.\<close>

definition upload_extension :: "string \<Rightarrow> string" where
  "upload_extension filename = (if CHR ''.'' \<in> set filename then py_lower (CHR ''.'' # after_dot filename) else [])"

section \<open>Tables\<close>

definition cell_text :: "string option \<Rightarrow> string" where "cell_text c = (case c of Some s \<Rightarrow> s | None \<Rightarrow> [])"

definition table_line :: "string list \<Rightarrow> string" where "table_line cells = ''| '' @ join_with '' | '' cells @ '' |''"

definition fit_row :: "nat \<Rightarrow> string list \<Rightarrow> string list" where
  "fit_row n cells = take n (cells @ replicate n [])"

text \<open>The lines of the table.\<close>

definition rows_to_markdown_table :: "string option list list \<Rightarrow> string list" where
  "rows_to_markdown_table rows =
     (case rows of
        [] \<Rightarrow> []
      | header # rest \<Rightarrow>
          [table_line (map cell_text header), table_line (replicate (length header) ''---'')] @
          map (\<lambda>r. table_line (fit_row (length header) (map cell_text r))) rest)"

section \<open>Chunks\<close>

record page_chunk = chunk +
  pc_pages :: "(nat \<times> nat) option"
  pc_sections :: "string list"
  pc_index :: nat
  pc_tokens :: nat

text \<open>The index is padded to six digits.\<close>

definition pad_index :: "nat \<Rightarrow> string" where
  "pad_index n = replicate (6 - length (show_nat n)) CHR ''0'' @ show_nat n"

definition stable_chunk_id :: "(string \<Rightarrow> string) \<Rightarrow> ident \<Rightarrow> string \<Rightarrow> nat \<Rightarrow> string \<Rightarrow> ident" where
  "stable_chunk_id sha d v index body = d @ '':'' @ v @ '':'' @ pad_index index @ '':'' @ take 16 (sha body)"

text \<open>A match of the page pattern at the start of the text: its digits and what follows.\<close>

definition match_page :: "string \<Rightarrow> (string \<times> string) option" where
  "match_page s =
     (let u = (if py_lower (take 4 s) = ''page'' then Some (drop 4 s)
               else if py_lower (take 2 s) = ''p.'' then Some (drop 2 s) else None)
      in case u of
           None \<Rightarrow> None
         | Some u \<Rightarrow>
             (let w = dropWhile is_space u; ds = takeWhile is_digit w
              in if w = u \<or> ds = [] then None else Some (ds, drop (length ds) w)))"

lemma match_page_shorter: "match_page s = Some (ds, r) \<Longrightarrow> length r < length s"
proof -
  assume m: "match_page s = Some (ds, r)"
  then obtain u where u: "u = drop 4 s \<or> u = drop 2 s" "ds = takeWhile is_digit (dropWhile is_space u)" "ds \<noteq> []"
    "r = drop (length ds) (dropWhile is_space u)"
    by (auto simp: match_page_def Let_def split: if_splits)
  have "length (dropWhile is_space u) \<le> length u" by (rule length_dropWhile_le)
  moreover have "length u \<le> length s" using u(1) by auto
  moreover have "dropWhile is_space u \<noteq> []" using u(2,3) by (metis takeWhile.simps(1))
  ultimately have "0 < length (dropWhile is_space u)" "length (dropWhile is_space u) \<le> length s" by simp_all
  moreover have "0 < length ds" using u(3) by simp
  ultimately show ?thesis unfolding u(4) length_drop by linarith
qed

function page_digits :: "string \<Rightarrow> string list" where
  "page_digits [] = []"
| "page_digits (c # s) = (case match_page (c # s) of Some (ds, r) \<Rightarrow> ds # page_digits r | None \<Rightarrow> page_digits s)"
  by pat_completeness auto
termination by (relation "measure length") (auto dest!: match_page_shorter)

text \<open>\<open>int\<close> refuses more than 4300 digits.\<close>

definition infer_page_range :: "string \<Rightarrow> string + (nat \<times> nat) option" where
  "infer_page_range s =
     (let ds = page_digits s
      in if list_ex (\<lambda>d. 4300 < length d) ds then Inl ''Exceeds the limit (4300 digits) for integer string conversion''
         else if ds = [] then Inr None
         else Inr (Some (Min (set (map read_nat ds)), Max (set (map read_nat ds)))))"

definition is_line_end :: "char \<Rightarrow> bool" where
  "is_line_end c \<longleftrightarrow> (let n = (of_char c :: nat) in n \<in> {10, 11, 12, 13, 28, 29, 30, 133})"

text \<open>\<open>splitlines\<close>; a carriage return with a line feed is one end.\<close>

fun splitlines_from :: "string \<Rightarrow> string \<Rightarrow> string list" where
  "splitlines_from line [] = (if line = [] then [] else [rev line])"
| "splitlines_from line (c # s) =
     (if is_line_end c
      then rev line # splitlines_from [] (if c = CHR 0x0D \<and> s \<noteq> [] \<and> hd s = CHR 0x0A then tl s else s)
      else splitlines_from (c # line) s)"

definition infer_section_path :: "string \<Rightarrow> string list" where
  "infer_section_path s =
     take 4 (map (\<lambda>l. py_strip (lstrip_by (\<lambda>c. c = CHR ''#'') l)) (filter (\<lambda>l. py_startswith l ''#'') (splitlines_from [] s)))"

fun chunk_nodes :: "(string \<Rightarrow> string) \<Rightarrow> ident \<Rightarrow> string \<Rightarrow> nat \<Rightarrow> string list \<Rightarrow> string + page_chunk list" where
  "chunk_nodes sha d v index [] = Inr []"
| "chunk_nodes sha d v index (node # nodes) =
     (let body = py_strip node
      in if body = [] then chunk_nodes sha d v (index + 1) nodes
         else bind_result (infer_page_range body) (\<lambda>pages.
              map_sum id
                ((#) \<lparr>ck_id = stable_chunk_id sha d v index body, ck_document_id = d, ck_version = v, ck_text = body,
                      pc_pages = pages, pc_sections = infer_section_path body, pc_index = index, pc_tokens = max 1 (length body div 4)\<rparr>)
                (chunk_nodes sha d v (index + 1) nodes)))"

definition chunk_document :: "(string \<Rightarrow> string) \<Rightarrow> (string \<Rightarrow> string list) \<Rightarrow> ident \<Rightarrow> string \<Rightarrow> string \<Rightarrow> string + page_chunk list" where
  "chunk_document sha splitter d v markdown = chunk_nodes sha d v 0 (splitter markdown)"

section \<open>Embeddings\<close>

definition l2_normalize :: "pyfloat list \<Rightarrow> pyfloat list" where
  "l2_normalize xs = (let n = sqrt (sum_list (map (\<lambda>x. x * x) xs)) in if n = 0 then xs else map (\<lambda>x. x / n) xs)"

definition embed_chunks :: "(string \<Rightarrow> pyfloat list) \<Rightarrow> 'c chunk_scheme list \<Rightarrow> ('c chunk_scheme \<times> pyfloat list) list" where
  "embed_chunks model cs = zip cs (map (\<lambda>c. l2_normalize (model (ck_text c))) cs)"

section \<open>Lemmas\<close>

lemma py_split_not_Nil [simp]: "py_split c s \<noteq> []"
  by (induction s) (auto split: list.splits)

lemma py_split_last: "\<exists>fs. py_split c s = fs @ [rev (takeWhile (\<lambda>x. x \<noteq> c) (rev s))]"
proof (induction s)
  case (Cons x s)
  then obtain fs where fs: "py_split c s = fs @ [rev (takeWhile (\<lambda>x. x \<noteq> c) (rev s))]" by (elim exE)
  show ?case
  proof (cases "c \<in> set s")
    case True
    then have t: "takeWhile (\<lambda>x. x \<noteq> c) (rev s @ [x]) = takeWhile (\<lambda>x. x \<noteq> c) (rev s)" by (intro takeWhile_append1) auto
    have "fs \<noteq> []"
    proof
      assume "fs = []"
      then have "py_split c s = [rev (takeWhile (\<lambda>x. x \<noteq> c) (rev s))]" using fs by simp
      moreover have "length (py_split c s) \<noteq> 1" using True
        by (induction s) (auto simp: length_Suc_conv split: list.splits)
      ultimately show False by simp
    qed
    then show ?thesis using fs t by (cases fs) auto
  next
    case False
    then have s: "takeWhile (\<lambda>x. x \<noteq> c) (rev s) = rev s" by (intro takeWhile_eq_all_conv[THEN iffD2]) auto
    have "py_split c s = [s]" using False by (induction s) auto
    moreover have "takeWhile (\<lambda>x. x \<noteq> c) (rev s @ [x]) = rev s @ (if x = c then [] else [x])"
      using False by (subst takeWhile_append2) auto
    ultimately show ?thesis by auto
  qed
qed simp

lemma path_name_last: "py_split CHR ''/'' s = fs @ [l] \<Longrightarrow> l \<noteq> [] \<Longrightarrow> l \<noteq> ''.'' \<Longrightarrow> path_name s = l"
  by (simp only: path_name_def filter_append filter.simps rev_append rev.simps append_Nil append_Cons list.case if_True simp_thms)

lemma path_name_eq:
  assumes "rev (takeWhile (\<lambda>x. x \<noteq> CHR ''/'') (rev s)) \<notin> {[], ''.''}"
  shows "path_name s = rev (takeWhile (\<lambda>x. x \<noteq> CHR ''/'') (rev s))"
proof -
  obtain fs where "py_split CHR ''/'' s = fs @ [rev (takeWhile (\<lambda>x. x \<noteq> CHR ''/'') (rev s))]"
    using py_split_last[of "CHR ''/''" s] by (elim exE)
  then show ?thesis using assms by (intro path_name_last) blast+
qed

lemma takeWhile_stop: "c \<notin> set q \<Longrightarrow> takeWhile (\<lambda>x. x \<noteq> c) (q @ c # r) = q"
  by (induction q) auto

lemma after_dot_append: "CHR ''.'' \<notin> set e \<Longrightarrow> after_dot (p @ CHR ''.'' # e) = e"
  using takeWhile_stop[of "CHR ''.''" "rev e" "rev p"] by (simp add: after_dot_def)

lemma after_dot_split: "CHR ''.'' \<in> set s \<Longrightarrow> \<exists>p. s = p @ CHR ''.'' # after_dot s \<and> CHR ''.'' \<notin> set (after_dot s)"
  using after_dot_append by (metis split_list_last)

lemma supported_plain: "ext \<in> set supported_extensions \<Longrightarrow> CHR ''/'' \<notin> set ext \<and> 2 \<le> length ext"
  by (auto simp: supported_extensions_def llamaparse_extensions_def spreadsheet_extensions_def html_extensions_def text_extensions_def)

lemma slash_lower: "CHR ''/'' \<in> set s \<Longrightarrow> CHR ''/'' \<in> set (py_lower s)"
proof -
  assume "CHR ''/'' \<in> set s"
  moreover have "lower_char CHR ''/'' = CHR ''/''" by code_simp
  ultimately show ?thesis unfolding py_lower_def by (metis image_eqI list.set_map)
qed

lemma detect_supported: "detect_parser_type f = None \<longleftrightarrow> py_lower (path_suffix f) \<notin> set supported_extensions"
  by (simp add: detect_parser_type_def Let_def supported_extensions_def)

section \<open>Properties\<close>

text \<open>The two checks of a file's format: of the names the upload endpoint accepts, the parser has a reader for
  exactly those whose last component is more than the extension; a file named like \<open>.pdf\<close> is accepted
  and its ingestion fails.\<close>

theorem accepted_name_has_parser:
  assumes "upload_extension f \<in> set supported_extensions"
  shows "detect_parser_type f \<noteq> None \<longleftrightarrow>
    length (upload_extension f) < length f \<and> f ! (length f - length (upload_extension f) - 1) \<noteq> CHR ''/''"
proof -
  have "upload_extension f \<noteq> []" using supported_plain[OF assms] by auto
  then have dot: "CHR ''.'' \<in> set f" by (metis upload_extension_def)
  then obtain p where f: "f = p @ CHR ''.'' # after_dot f" "CHR ''.'' \<notin> set (after_dot f)" using after_dot_split by blast
  define e where "e = after_dot f"
  have ext: "upload_extension f = py_lower (CHR ''.'' # e)" using dot by (simp add: upload_extension_def e_def)
  have e: "CHR ''/'' \<notin> set e" "e \<noteq> []" using supported_plain[OF assms] slash_lower[of "CHR ''.'' # e"] by (auto simp: ext)
  define q where "q = rev (takeWhile (\<lambda>x. x \<noteq> CHR ''/'') (rev p))"
  have last: "rev (takeWhile (\<lambda>x. x \<noteq> CHR ''/'') (rev f)) = q @ CHR ''.'' # e"
  proof -
    have "rev f = (rev e @ [CHR ''.'']) @ rev p" using f(1) e_def by (metis rev.simps(2) rev_append)
    then have "takeWhile (\<lambda>x. x \<noteq> CHR ''/'') (rev f) = (rev e @ [CHR ''.'']) @ takeWhile (\<lambda>x. x \<noteq> CHR ''/'') (rev p)"
      using e(1) by (simp only:) (rule takeWhile_append2, auto)
    then show ?thesis by (simp add: q_def)
  qed
  have name: "path_name f = q @ CHR ''.'' # e" using path_name_eq[of f] last e(2) by (cases q) auto
  have "path_suffix f = (if q \<noteq> [] then CHR ''.'' # e else [])"
    using e(2) f(2) by (simp add: path_suffix_def name after_dot_append e_def Let_def)
  moreover have "py_lower [] \<notin> set supported_extensions" using supported_plain[of "[]"] by (auto simp: py_lower_def)
  ultimately have d: "detect_parser_type f \<noteq> None \<longleftrightarrow> q \<noteq> []" using assms by (simp add: detect_supported ext)
  have len: "length f = length p + length (upload_extension f)" using f(1) by (simp add: ext e_def) (metis add_Suc_right length_Cons length_append)
  have "q \<noteq> [] \<longleftrightarrow> p \<noteq> [] \<and> last p \<noteq> CHR ''/''"
    by (cases p rule: rev_cases) (simp_all add: q_def)
  moreover have "p \<noteq> [] \<Longrightarrow> f ! (length f - length (upload_extension f) - 1) = last p"
    using f(1) len by (metis One_nat_def add_diff_cancel_right' diff_less last_conv_nth length_greater_0_conv lessI nth_append)
  ultimately show ?thesis using d len by auto
qed

theorem accepted_name_has_parser_witness:
  "detect_parser_type ''.pdf'' = None \<and> detect_parser_type ''Report.PDF'' \<noteq> None"
proof -
  have "upload_extension ''.pdf'' \<in> set supported_extensions" "upload_extension ''Report.PDF'' \<in> set supported_extensions" by code_simp+
  moreover have "length (upload_extension ''.pdf'') = 4" "length (upload_extension ''Report.PDF'') = 4" by code_simp+
  ultimately show ?thesis using accepted_name_has_parser[of "''.pdf''"] accepted_name_has_parser[of "''Report.PDF''"] by simp
qed

text \<open>A table keeps the columns of its first row: every line after the first two shows the leading cells of its
  row, as many as the first row has, missing ones empty; so when the first row is blank the whole table
  is lost.\<close>

theorem table_keeps_header_columns:
  "length (rows_to_markdown_table rows) = (if rows = [] then 0 else length rows + 1) \<and>
   (\<forall>i < length rows. 0 < i \<longrightarrow>
      rows_to_markdown_table rows ! (i + 1) = table_line (fit_row (length (hd rows)) (map cell_text (rows ! i)))) \<and>
   (rows \<noteq> [] \<and> hd rows = [] \<longrightarrow> set (rows_to_markdown_table rows) = {''|  |''})"
proof (cases rows)
  case (Cons h r)
  have "rows_to_markdown_table rows ! (i + 1) = table_line (fit_row (length h) (map cell_text (rows ! i)))" if "i < length rows" "0 < i" for i
    using that Cons by (cases i) (simp_all add: rows_to_markdown_table_def)
  then show ?thesis using Cons by (auto simp: rows_to_markdown_table_def table_line_def fit_row_def)
qed (simp add: rows_to_markdown_table_def)

text \<open>Identifiers of vectors that name their document and version, neither with a colon in it.\<close>

definition well_keyed :: "(ident \<rightharpoonup> chunk) \<Rightarrow> bool" where
  "well_keyed vs \<longleftrightarrow> (\<forall>i c. vs i = Some c \<longrightarrow>
     CHR '':'' \<notin> set (ck_document_id c) \<and> CHR '':'' \<notin> set (ck_version c) \<and>
     (\<exists>r. i = ck_document_id c @ '':'' @ ck_version c @ '':'' @ r))"

lemma split_at_colon: "CHR '':'' \<notin> set a \<Longrightarrow> CHR '':'' \<notin> set b \<Longrightarrow> a @ CHR '':'' # x = b @ CHR '':'' # y \<Longrightarrow> a = b \<and> x = y"
proof (induction a arbitrary: b)
  case Nil
  then show ?case by (cases b) auto
next
  case (Cons u a)
  then show ?case by (cases b) auto
qed

lemma pad_index_digits: "c \<in> set (pad_index n) \<Longrightarrow> is_digit c"
  using show_nat_digits[of c n] by (auto simp: pad_index_def is_digit_def)

lemma read_zeros: "read_nat (replicate k CHR ''0'' @ s) = read_nat s"
  by (induction k) (simp_all add: read_nat_def digit_val_def)

lemma pad_index_inject: "pad_index m = pad_index n \<Longrightarrow> m = n"
  using read_zeros[of _ "show_nat m"] read_zeros[of _ "show_nat n"] by (metis pad_index_def read_show_nat)

lemma stable_chunk_id_inject:
  assumes "stable_chunk_id sha d v i b = stable_chunk_id sha d v j b'"
  shows "i = j"
proof -
  have "CHR '':'' \<notin> set (pad_index k)" for k using pad_index_digits[of "CHR '':''" k] by (auto simp: is_digit_def)
  moreover have "pad_index i @ CHR '':'' # take 16 (sha b) = pad_index j @ CHR '':'' # take 16 (sha b')"
    using assms by (simp add: stable_chunk_id_def)
  ultimately show ?thesis using split_at_colon pad_index_inject by blast
qed

lemma chunk_nodes_props:
  assumes "chunk_nodes sha d v index nodes = Inr cs"
  shows "map ck_text cs = filter (\<lambda>b. b \<noteq> []) (map py_strip nodes) \<and> sorted_wrt (<) (map pc_index cs) \<and>
    (\<forall>c \<in> set cs. index \<le> pc_index c \<and> ck_document_id c = d \<and> ck_version c = v \<and>
       ck_id c = stable_chunk_id sha d v (pc_index c) (ck_text c) \<and> length (pc_sections c) \<le> 4 \<and>
       (case pc_pages c of Some (a, b) \<Rightarrow> a \<le> b | None \<Rightarrow> True))"
  using assms
proof (induction sha d v index nodes arbitrary: cs rule: chunk_nodes.induct)
  case (2 sha d v index node nodes)
  show ?case
  proof (cases "py_strip node = []")
    case True
    then show ?thesis using 2 by (fastforce simp: Let_def)
  next
    case False
    obtain pages cs' where r: "infer_page_range (py_strip node) = Inr pages" "chunk_nodes sha d v (index + 1) nodes = Inr cs'"
      using 2(3) False by (cases "infer_page_range (py_strip node)"; cases "chunk_nodes sha d v (index + 1) nodes") (auto simp: Let_def)
    have "case pages of Some (a, b) \<Rightarrow> a \<le> b | None \<Rightarrow> True"
      using r(1) by (auto simp: infer_page_range_def Let_def Min_le_iff split: if_splits)
    moreover have "length (infer_section_path x) \<le> 4" for x by (simp add: infer_section_path_def)
    ultimately show ?thesis using 2(2)[OF refl False r(2)] 2(3) False r by (fastforce simp: Let_def)
  qed
qed simp

text \<open>Chunks never take another version's place: chunking yields the non-blank stripped pieces in order, with
  distinct identifiers under their document and version, ordered page ranges and at most four sections,
  and over an index whose vectors carry such identifiers they only ever overwrite vectors of the same
  document and version, which is what publication relies on.\<close>

theorem chunks_stay_in_version:
  assumes "chunk_document sha splitter d v markdown = Inr cs" "CHR '':'' \<notin> set d" "CHR '':'' \<notin> set v" "well_keyed vs"
  shows "map ck_text cs = filter (\<lambda>b. b \<noteq> []) (map py_strip (splitter markdown)) \<and> distinct (map ck_id cs) \<and>
    chunks_ok d v (map chunk.truncate cs) vs \<and> well_keyed (put_vectors (map chunk.truncate cs) vs)"
proof -
  note p = chunk_nodes_props[OF assms(1)[unfolded chunk_document_def]]
  have key: "ck_id c = d @ '':'' @ v @ '':'' @ pad_index (pc_index c) @ '':'' @ take 16 (sha (ck_text c))" if "c \<in> set cs" for c
    using p that by (simp add: stable_chunk_id_def)
  have "distinct (map pc_index cs)" using p strict_sorted_imp_sorted by (simp add: strict_sorted_iff)
  then have "distinct (map ck_id cs)"
    using p stable_chunk_id_inject unfolding distinct_map inj_on_def by metis
  moreover have "chunks_ok d v (map chunk.truncate cs) vs"
  proof -
    have "ck_document_id old = d \<and> ck_version old = v" if c: "c \<in> set cs" "vs (ck_id c) = Some old" for c old
    proof -
      obtain r where "ck_id c = ck_document_id old @ '':'' @ ck_version old @ '':'' @ r" and n: "CHR '':'' \<notin> set (ck_document_id old)"
        "CHR '':'' \<notin> set (ck_version old)" using assms(4) c(2) unfolding well_keyed_def by metis
      then have e: "d @ CHR '':'' # (v @ CHR '':'' # (pad_index (pc_index c) @ CHR '':'' # take 16 (sha (ck_text c)))) =
        ck_document_id old @ CHR '':'' # (ck_version old @ CHR '':'' # r)" using key[OF c(1)] by (simp only: append_Cons append_Nil)
      note first = split_at_colon[OF assms(2) n(1) e]
      from split_at_colon[OF assms(3) n(2) conjunct2[OF first]] conjunct1[OF first] show ?thesis by (elim conjE) (intro conjI; rule sym; assumption)
    qed
    then show ?thesis using p by (auto simp: chunks_ok_def chunk.truncate_def split: option.split)
  qed
  moreover have "well_keyed (put_vectors (map chunk.truncate cs') vs)" if "set cs' \<subseteq> set cs" for cs'
    using that assms(4)
  proof (induction cs' arbitrary: vs)
    case (Cons c cs')
    have "well_keyed (vs(ck_id c \<mapsto> chunk.truncate c))"
      using Cons.prems p key[of c] assms(2,3) by (auto simp: well_keyed_def chunk.truncate_def)
    then show ?case using Cons by (simp add: put_vectors_def chunk.truncate_def)
  qed (simp add: put_vectors_def)
  ultimately show ?thesis using p by auto
qed

text \<open>Embeddings are paired in order and have unit length: each chunk is paired with the scaled answer of the
  model for its text, whose squares add up to one unless all components are zero.\<close>

theorem embeddings_are_units:
  "map fst (embed_chunks model cs) = cs \<and>
   (\<forall>(c, x) \<in> set (embed_chunks model cs). x = l2_normalize (model (ck_text c)) \<and>
      (if list_all (\<lambda>y. y = 0) (model (ck_text c)) then x = model (ck_text c) else sum_list (map (\<lambda>y. y * y) x) = 1))"
proof -
  have z: "sum_list (map (\<lambda>y. y * y) xs) = 0 \<longleftrightarrow> list_all (\<lambda>y. y = 0) xs" for xs :: "real list"
    by (subst sum_list_nonneg_eq_0_iff) (auto simp: list_all_iff)
  have d: "sum_list (map (\<lambda>y. y / n * (y / n)) xs) = sum_list (map (\<lambda>y. y * y) xs) / (n * n)" for xs and n :: real
    by (induction xs) (simp_all add: add_divide_distrib)
  have nn: "0 \<le> sum_list (map (\<lambda>y. y * y) xs)" for xs :: "real list" by (induction xs) simp_all
  have "sum_list (map (\<lambda>y. y * y) (l2_normalize xs)) = 1" if "\<not> list_all (\<lambda>y. y = 0) xs" for xs
  proof -
    let ?s = "sum_list (map (\<lambda>x. x * x) xs)"
    have "?s \<noteq> 0" using that z by blast
    moreover have "sum_list (map (\<lambda>y. y * y) (l2_normalize xs)) = ?s / (sqrt ?s * sqrt ?s)"
      using calculation d[of "sqrt ?s" xs] by (simp add: l2_normalize_def Let_def comp_def)
    ultimately show ?thesis using nn[of xs] by simp
  qed
  moreover have "l2_normalize xs = xs" if "list_all (\<lambda>y. y = 0) xs" for xs using z[of xs] that by (simp add: l2_normalize_def Let_def)
  ultimately show ?thesis by (auto simp: embed_chunks_def set_zip)
qed

theorem chunks_stay_in_version_witness:
  "\<exists>cs. chunk_document (\<lambda>_. ''h'') (\<lambda>s. [s, '' '']) ''d'' ''v'' ''see page 3'' = Inr cs \<and> distinct (map ck_id cs) \<and> map ck_text cs = [''see page 3'']"
proof -
  have "infer_page_range ''see page 3'' = Inr (Some (3, 3))" "py_strip ''see page 3'' = ''see page 3''" "py_strip '' '' = []" by code_simp+
  then obtain cs where cs: "chunk_document (\<lambda>_. ''h'') (\<lambda>s. [s, '' '']) ''d'' ''v'' ''see page 3'' = Inr cs"
    by (simp add: chunk_document_def Let_def)
  have "well_keyed Map.empty" by (simp add: well_keyed_def)
  from chunks_stay_in_version[OF cs(1) _ _ this] show ?thesis
    using cs \<open>py_strip ''see page 3'' = ''see page 3''\<close> \<open>py_strip '' '' = []\<close> by auto
qed

end
