(* ===== verification/RagQuery.thy ===== *)
theory RagQuery
  imports Generation Parsing
begin

text \<open>
  The question-answering half of the RAG service (\<open>service.py\<close>, with \<open>embedding.py\<close> and \<open>retrieval.py\<close>):
  embedding, search and the version gate, the batch and the streamed query, the metrics they leave, the
  query trace they hand to the background writer, and the listing of documents. The embedding model, the
  sparse encoder and the vector engine are arguments; spans are modelled in Tracing.
\<close>

section \<open>State\<close>

record rag_env =
  rq_gen :: gen_env
  rq_embed :: "string \<Rightarrow> pyfloat list option"
  rq_sparse :: "string \<Rightarrow> (nat \<times> pyfloat) list"
  rq_engine :: "pyfloat list \<Rightarrow> (nat \<times> pyfloat) list option \<Rightarrow> engine option"
  rq_sparse_on :: bool
  rq_top_k :: nat
  rq_context_k :: nat
  rq_low_top :: "pyfloat option"
  rq_embedding_model :: "string option"
  rq_generation_model :: "string option"
  rq_index_name :: "string option"
  rq_process :: nat
  rq_readable :: "ident \<Rightarrow> bool"
  rq_unified :: bool
  rq_elapsed :: pyfloat

text \<open>The world: the corpus, what was noted in the metrics, the traces in the store, those handed to the
  background pool, and the query summaries recorded on the trace.\<close>

record rag_world =
  rw_corpus :: corpus
  rw_metrics :: "metric_op list"
  rw_traces :: "query_trace obj_store"
  rw_pending :: "query_trace list"
  rw_summaries :: "(string \<times> pyfloat option) list"

definition note_metrics :: "metric_op list \<Rightarrow> rag_world \<Rightarrow> rag_world" where
  "note_metrics ops w = w\<lparr>rw_metrics := rw_metrics w @ ops\<rparr>"

section \<open>Retrieval\<close>

definition embed_query :: "rag_env \<Rightarrow> string \<Rightarrow> (pyfloat list \<times> metric_op list) option" where
  "embed_query env query =
     map_option (\<lambda>v. let x = l2_normalize v; ls = (case rq_embedding_model env of Some m \<Rightarrow> [(''model_id'', m)] | None \<Rightarrow> [(''model_id'', ''None'')])
       in (x, [Inc ''rag_query_embedding_total'' ls 1, Obs ''rag_query_embedding_input_chars'' ls (real (length query)),
               Obs ''rag_query_embedding_dimension'' ls (real (length x))]))
       (rq_embed env query)"

definition encode_query :: "rag_env \<Rightarrow> string \<Rightarrow> (nat \<times> pyfloat) list \<times> metric_op list" where
  "encode_query env query =
     (let sv = rq_sparse env query in (sv, [Obs ''rag_sparse_query_terms'' [(''model_id'', ''bm25'')] (real (length sv))]))"

text \<open>What \<open>search\<close> measures; the mode is that of the vector it was given.\<close>

definition search_ops :: "pyfloat \<Rightarrow> nat \<Rightarrow> (nat \<times> pyfloat) list option \<Rightarrow> hit list \<Rightarrow> metric_op list" where
  "search_ops ms dims sparse hits =
     (let ls = [(''mode'', if sparse = None then ''dense'' else ''hybrid'')]; scores = map h_score hits
      in [Obs ''rag_pinecone_query_duration_ms'' ls ms, Obs ''rag_query_dense_dimension'' ls (real dims),
          Obs ''rag_query_sparse_terms'' ls (case sparse of Some sv \<Rightarrow> real (length sv) | None \<Rightarrow> 0)] @
         (case scores of [] \<Rightarrow> []
          | s # _ \<Rightarrow> [Obs ''rag_retrieval_top_score'' ls s, Obs ''rag_retrieval_min_score'' ls (Min (set scores)),
                    Obs ''rag_retrieval_avg_score'' ls (sum_list scores / real (length scores))]) @
         [Obs ''rag_retrieval_hit_count'' ls (real (length hits)),
          Obs ''rag_retrieval_unique_doc_count'' ls (real (length (remdups (map (\<lambda>h. ck_document_id (h_chunk h)) hits))))])"

text \<open>An empty scope is answered without asking the engine; \<open>None\<close> is a search that raised.\<close>

definition vector_search :: "rag_env \<Rightarrow> pyfloat list \<Rightarrow> (nat \<times> pyfloat) list option \<Rightarrow> ident list option \<Rightarrow> (ident \<rightharpoonup> chunk)
    \<Rightarrow> (hit list \<times> metric_op list) option" where
  "vector_search env v sparse documents vs =
     (if documents = Some [] then Some ([], [])
      else map_option (\<lambda>engine. let hits = index_search engine (rq_top_k env) documents vs
             in (hits, search_ops (rq_elapsed env) (length v) sparse hits)) (rq_engine env v sparse))"

definition retrieval_mode :: "rag_env \<Rightarrow> string" where
  "retrieval_mode env = (if rq_sparse_on env then ''hybrid'' else ''dense'')"

definition dominant_ratio :: "hit list \<Rightarrow> pyfloat" where
  "dominant_ratio hits =
     (let ds = map (\<lambda>h. ck_document_id (h_chunk h)) hits in real (Max (set (map (count_list ds) ds))) / real (length hits))"

definition observe_retrieval_quality :: "rag_env \<Rightarrow> hit list \<Rightarrow> metric_op list" where
  "observe_retrieval_quality env hits =
     (let ls = [(''mode'', retrieval_mode env)]
      in case hits of
           [] \<Rightarrow> [Inc ''rag_retrieval_zero_hit_total'' ls 1]
         | h # _ \<Rightarrow>
             (case rq_low_top env of
                Some t \<Rightarrow> if h_score h < t then [Inc ''rag_retrieval_low_top_score_total'' ls 1] else []
              | None \<Rightarrow> []) @ [Obs ''rag_retrieval_dominant_doc_ratio'' ls (dominant_ratio hits)])"

definition retrieve_hits :: "rag_env \<Rightarrow> string \<Rightarrow> ident list option \<Rightarrow> rag_world \<Rightarrow> hit list option \<times> rag_world" where
  "retrieve_hits env question documents w =
     (case embed_query env question of
        None \<Rightarrow> (None, w)
      | Some (v, embed_ops) \<Rightarrow>
          (let (sparse, sparse_ops) = (if rq_sparse_on env then (let (sv, ops) = encode_query env question in (Some sv, ops)) else (None, []));
               w1 = note_metrics (embed_ops @ sparse_ops) w
           in case vector_search env v sparse documents (kb_vectors (rw_corpus w1)) of
                None \<Rightarrow> (None, w1)
              | Some (raw, ops) \<Rightarrow>
                  (let (hits, c) = filter_to_active (rq_process env) (rq_readable env) raw Map.empty (rw_corpus w1);
                       dropped = length raw - length hits;
                       w2 = note_metrics (ops @ (if dropped = 0 then [] else [Obs ''rag_retrieval_non_active_hits_filtered'' [] (real dropped)]) @
                              observe_retrieval_quality env hits) (w1\<lparr>rw_corpus := c\<rparr>)
                   in (Some (take (rq_context_k env) hits), w2))))"

section \<open>Query traces\<close>

definition query_model_ids :: "rag_env \<Rightarrow> (string \<times> string) list" where
  "query_model_ids env =
     List.map_filter (\<lambda>(k, v). map_option (Pair k) (or_none v))
       ([(''embedding'', rq_embedding_model env), (''generation'', rq_generation_model env), (''pinecone_index'', rq_index_name env)] @
        (if rq_sparse_on env then [(''sparse'', Some ''bm25-msmarco-default'')] else []))"

definition trace_hit_of :: "hit \<Rightarrow> trace_hit" where
  "trace_hit_of h = \<lparr>th_chunk_id = ck_id (h_chunk h), th_document_id = ck_document_id (h_chunk h), th_score = h_score h\<rparr>"

fun cited_chunk :: "json \<Rightarrow> ident" where
  "cited_chunk (JObj kvs) = (case j_str (j_get ''chunk_id'' kvs) of Some i \<Rightarrow> i | None \<Rightarrow> [])"
| "cited_chunk _ = []"

text \<open>The record of a RAG answer: the claims of the response are not among the fields it is built from.\<close>

definition save_query_trace :: "string \<Rightarrow> ident list option \<Rightarrow> rag_response \<Rightarrow> hit list \<Rightarrow> query_trace" where
  "save_query_trace question documents r hits =
     \<lparr>qt_trace_id = rr_trace_id r, qt_question = question, qt_route = ''rag'', qt_document_ids = documents, qt_answer = rr_answer r,
      qt_evidence_status = rr_evidence_status r, qt_confidence = rr_confidence r, qt_score = rr_score r, qt_reason = rr_reason r,
      qt_citations = map cited_chunk (rr_citations r), qt_hits = map trace_hit_of hits, qt_sql = None, qt_claims = [], qt_abstention = None\<rparr>"

definition persist_unified_query_trace :: "(route \<Rightarrow> string) \<Rightarrow> string \<Rightarrow> ident list option \<Rightarrow> unified_response \<Rightarrow> query_trace" where
  "persist_unified_query_trace route_text question documents r =
     \<lparr>qt_trace_id = ur_trace_id r, qt_question = question, qt_route = route_text (ur_route r), qt_document_ids = documents,
      qt_answer = ur_answer r, qt_evidence_status = ur_evidence_status r, qt_confidence = ur_confidence r, qt_score = ur_score r,
      qt_reason = ur_reason r, qt_citations = map cited_chunk (ur_citations r), qt_hits = [], qt_sql = ur_sql r, qt_claims = ur_claims r,
      qt_abstention = None\<rparr>"

text \<open>Writing a trace; a store that is down is only logged.\<close>

definition store_trace :: "bool \<Rightarrow> pyfloat \<Rightarrow> query_trace \<Rightarrow> rag_world \<Rightarrow> rag_world" where
  "store_trace up ms tr w =
     (if \<not> up then w
      else note_metrics [Inc ''rag_query_traces_stored_total'' [(''route'', qt_route tr)] 1,
                         Obs ''rag_query_trace_latency_ms'' [(''route'', qt_route tr)] ms]
             (w\<lparr>rw_traces := write_query_trace tr (rw_traces w)\<rparr>))"

text \<open>Handing a trace to the pool; a pool that is already shut down makes the write happen at once.\<close>

definition submit_trace :: "bool \<Rightarrow> bool \<Rightarrow> pyfloat \<Rightarrow> query_trace \<Rightarrow> rag_world \<Rightarrow> rag_world" where
  "submit_trace pool_open up ms tr w =
     (if pool_open then w\<lparr>rw_pending := rw_pending w @ [tr]\<rparr> else store_trace up ms tr w)"

fun run_pending :: "(query_trace \<Rightarrow> bool) \<Rightarrow> pyfloat \<Rightarrow> query_trace list \<Rightarrow> rag_world \<Rightarrow> rag_world" where
  "run_pending up ms [] w = w"
| "run_pending up ms (tr # trs) w = run_pending up ms trs (store_trace (up tr) ms tr (w\<lparr>rw_pending := trs\<rparr>))"

section \<open>Queries\<close>

definition observe_answer_quality :: "rag_env \<Rightarrow> rag_response \<Rightarrow> hit list \<Rightarrow> metric_op list" where
  "observe_answer_quality env r hits =
     (let ls = [(''mode'', retrieval_mode env), (''evidence_status'', rr_evidence_status r)]
      in [Inc ''rag_evidence_status_total'' [(''status'', rr_evidence_status r)] 1,
          Obs ''rag_answer_citation_count'' ls (real (length (rr_citations r))), Obs ''rag_answer_context_hit_count'' ls (real (length hits))] @
         (if rr_citations r = [] then [Inc ''rag_answer_without_citations_total'' [(''mode'', retrieval_mode env)] 1] else []))"

text \<open>What both queries do once they have an answer.\<close>

definition finish_query :: "rag_env \<Rightarrow> bool \<Rightarrow> bool \<Rightarrow> string \<Rightarrow> ident list option \<Rightarrow> rag_response \<Rightarrow> hit list \<Rightarrow> rag_world \<Rightarrow> rag_world" where
  "finish_query env pool_open up question documents r hits w =
     (let w1 = note_metrics (observe_answer_quality env r hits)
                 (submit_trace pool_open up (rq_elapsed env) (save_query_trace question documents r hits) w)
      in if rq_unified env then w1 else w1\<lparr>rw_summaries := rw_summaries w1 @ [(question, rr_score r)]\<rparr>)"

definition rag_query :: "rag_env \<Rightarrow> bool \<Rightarrow> bool \<Rightarrow> ident \<Rightarrow> string \<Rightarrow> ident list option \<Rightarrow> rag_world \<Rightarrow> rag_response option \<times> rag_world" where
  "rag_query env pool_open up t question documents w =
     (let ls = [(''mode'', retrieval_mode env)];
          w1 = note_metrics [Inc ''rag_queries_total'' ls 1, Obs ''rag_query_length_chars'' ls (real (length question))] w
      in case retrieve_hits env question documents w1 of
           (None, w2) \<Rightarrow> (None, w2)
         | (Some hits, w2) \<Rightarrow>
             (case generate_answer (rq_gen env) question hits t of
                (None, ops) \<Rightarrow> (None, note_metrics ops w2)
              | (Some r, ops) \<Rightarrow> (Some r, finish_query env pool_open up question documents r hits (note_metrics ops w2))))"

datatype rag_event = RagStatus string | RagEvent gen_event

definition rag_query_stream :: "rag_env \<Rightarrow> bool \<Rightarrow> bool \<Rightarrow> ident \<Rightarrow> string \<Rightarrow> ident list option \<Rightarrow> rag_world
    \<Rightarrow> rag_event list \<times> rag_world" where
  "rag_query_stream env pool_open up t question documents w =
     (let w1 = note_metrics [Inc ''rag_queries_total'' [(''mode'', retrieval_mode env)] 1] w
      in case retrieve_hits env question documents w1 of
           (None, w2) \<Rightarrow> ([RagStatus ''retrieving''], w2)
         | (Some hits, w2) \<Rightarrow>
             (let (es, ended, ops) = answer_stream (rq_gen env) question hits t;
                  shown = filter (\<lambda>e. case e of GenFinal _ \<Rightarrow> False | GenDelta _ \<Rightarrow> True) es;
                  before = [RagStatus ''retrieving'', RagStatus ''generating''] @ map RagEvent shown
              in case finals es of
                   [] \<Rightarrow> (before, note_metrics ops w2)
                 | r # _ \<Rightarrow> (before @ [RagEvent (GenFinal r)],
                            finish_query env pool_open up question documents r hits (note_metrics ops w2))))"

section \<open>The list of documents\<close>

definition record_key_document :: "string \<Rightarrow> ident" where
  "record_key_document k = drop (length ''documents/'') (take (length k - length ''/record.json'') k)"

fun fetch_documents :: "nat \<Rightarrow> (ident \<Rightarrow> bool) \<Rightarrow> ident list \<Rightarrow> corpus \<Rightarrow> document_record list \<times> corpus" where
  "fetch_documents p readable [] c = ([], c)"
| "fetch_documents p readable (d # ds) c =
     (let (r, c1) = (if readable d then get_document p d c else (None, c)); (rs, c2) = fetch_documents p readable ds c1
      in (case r of Some x \<Rightarrow> x # rs | None \<Rightarrow> rs, c2))"

definition list_documents :: "nat \<Rightarrow> (ident \<Rightarrow> bool) \<Rightarrow> corpus \<Rightarrow> document_record list \<times> corpus" where
  "list_documents p readable c =
     (let (rs, c') = fetch_documents p readable (map record_key_document (list_document_record_keys (kb_records c))) c
      in (sort_key (\<lambda>r. py_lower (d_title r)) rs, c'))"

section \<open>Properties\<close>

definition engines_sound :: "rag_env \<Rightarrow> bool" where
  "engines_sound env \<longleftrightarrow> (\<forall>v sparse engine. rq_engine env v sparse = Some engine \<longrightarrow> engine_sound engine)"

lemma vector_search_eq:
  assumes "vector_search env v sparse documents vs = Some (raw, ops)" "engines_sound env"
  shows "\<exists>engine. engine_sound engine \<and> raw = index_search engine (rq_top_k env) documents vs"
proof (cases "documents = Some []")
  case True
  have "engine_sound (\<lambda>_ _ _. [])" by (simp add: engine_sound_def)
  moreover have "raw = index_search (\<lambda>_ _ _. []) (rq_top_k env) documents vs"
    using assms(1) True by (simp add: vector_search_def index_search_def)
  ultimately show ?thesis by blast
next
  case False
  then obtain engine where "rq_engine env v sparse = Some engine" "raw = index_search engine (rq_top_k env) documents vs"
    using assms(1) by (auto simp: vector_search_def Let_def)
  then show ?thesis using assms(2) unfolding engines_sound_def by blast
qed

lemma note_metrics_fields [simp]: "rw_corpus (note_metrics ops w) = rw_corpus w" "rw_pending (note_metrics ops w) = rw_pending w"
  "rw_traces (note_metrics ops w) = rw_traces w" "rw_summaries (note_metrics ops w) = rw_summaries w"
  by (simp_all add: note_metrics_def)

lemma retrieve_hits_eq:
  assumes "retrieve_hits env question documents w = (Some hits, w')" "engines_sound env"
  shows "\<exists>engine. engine_sound engine \<and>
    retrieve (rq_process env) (rq_readable env) engine (rq_top_k env) (rq_context_k env) documents (rw_corpus w) = (hits, rw_corpus w')"
    "rw_pending w' = rw_pending w" "rw_traces w' = rw_traces w"
proof -
  obtain v e_ops where v: "embed_query env question = Some (v, e_ops)"
    using assms(1) by (cases "embed_query env question") (auto simp: retrieve_hits_def)
  obtain sparse s_ops where s: "(if rq_sparse_on env then (let (sv, ops) = encode_query env question in (Some sv, ops)) else (None, [])) = (sparse, s_ops)"
    by fastforce
  obtain raw ops where raw: "vector_search env v sparse documents (kb_vectors (rw_corpus w)) = Some (raw, ops)"
    using assms(1) v s by (cases "vector_search env v sparse documents (kb_vectors (rw_corpus w))") (auto simp: retrieve_hits_def Let_def)
  obtain fs c where f: "filter_to_active (rq_process env) (rq_readable env) raw Map.empty (rw_corpus w) = (fs, c)" by fastforce
  have r: "hits = take (rq_context_k env) fs" "rw_corpus w' = c" "rw_pending w' = rw_pending w" "rw_traces w' = rw_traces w"
    using assms(1) v s raw f by (auto simp: retrieve_hits_def)
  then show "rw_pending w' = rw_pending w" "rw_traces w' = rw_traces w" by simp_all
  show "\<exists>engine. engine_sound engine \<and>
    retrieve (rq_process env) (rq_readable env) engine (rq_top_k env) (rq_context_k env) documents (rw_corpus w) = (hits, rw_corpus w')"
    using vector_search_eq[OF raw assms(2)] f r by (fastforce simp: retrieve_def)
qed

text \<open>A piece of evidence that may be shown: a chunk of the index, inside the scope, of the version that its
  document publishes.\<close>

definition published_evidence :: "rag_env \<Rightarrow> ident list option \<Rightarrow> corpus \<Rightarrow> json \<Rightarrow> bool" where
  "published_evidence env documents c j \<longleftrightarrow>
     (\<exists>ch. j = citation_json \<lparr>ct_document_id = ck_document_id ch, ct_chunk_id = ck_id ch, ct_meta = gn_meta (rq_gen env) (ck_id ch)\<rparr> \<and>
        kb_vectors c (ck_id ch) = Some ch \<and> (case documents of None \<Rightarrow> True | Some ds \<Rightarrow> ck_document_id ch \<in> set ds) \<and>
        (\<exists>r. believed_record (rq_process env) (ck_document_id ch) c = Some r \<and> d_status r \<noteq> Deleted \<and>
             published_version_of (Some r) = Some (ck_version ch)))"

lemma verified_published:
  assumes "retrieve_hits env question documents w = (Some hits, w')" "engines_sound env" "verified_answer (rq_gen env) hits parsed r"
  shows "list_all (published_evidence env documents (rw_corpus w)) (rr_citations r)"
proof -
  obtain engine where e: "engine_sound engine" "retrieve (rq_process env) (rq_readable env) engine (rq_top_k env) (rq_context_k env) documents
    (rw_corpus w) = (hits, rw_corpus w')" using retrieve_hits_eq(1)[OF assms(1,2)] by (elim exE conjE) (rule that; assumption)
  note sound = conjunct2[OF conjunct2[OF conjunct2[OF retrieve_sound[OF e]]]]
  obtain cs where cs: "rr_citations r = map citation_json cs" "set cs \<subseteq> set (candidate_citations (gn_meta (rq_gen env)) hits)"
    using assms(3) unfolding verified_answer_def by (elim exE conjE) (rule that; assumption)
  show ?thesis unfolding list_all_iff cs(1) ball_set_map
  proof
    fix x assume "x \<in> set cs"
    then obtain h where h: "h \<in> set hits" "x = \<lparr>ct_document_id = ck_document_id (h_chunk h), ct_chunk_id = ck_id (h_chunk h),
      ct_meta = gn_meta (rq_gen env) (ck_id (h_chunk h))\<rparr>" using cs(2) by (auto simp: candidate_citations_def)
    then show "published_evidence env documents (rw_corpus w) (citation_json x)"
      unfolding published_evidence_def using bspec[OF sound h(1)] by blast
  qed
qed

lemma rag_query_cites:
  assumes "engines_sound env" "rag_query env pool_open up t question documents w = (Some r, w')"
  shows "list_all (published_evidence env documents (rw_corpus w)) (rr_citations r)"
proof -
  define w1 where "w1 = note_metrics [Inc ''rag_queries_total'' [(''mode'', retrieval_mode env)] 1, Obs ''rag_query_length_chars'' [(''mode'', retrieval_mode env)] (real (length question))] w"
  have "rw_corpus w1 = rw_corpus w" by (simp add: w1_def)
  then show ?thesis using assms(2) verified_published[OF _ assms(1)] generated_verified
    by (fastforce simp: rag_query_def Let_def simp flip: w1_def split: prod.splits option.splits)
qed

text \<open>Answers rest on published evidence: every citation of an answer, returned or streamed, is a chunk of the
  index inside the requested scope, of the version its document publishes as the process sees it.\<close>

theorem answers_cite_published:
  assumes "engines_sound env"
  shows "(case rag_query env pool_open up t question documents w of
       (Some r, _) \<Rightarrow> list_all (published_evidence env documents (rw_corpus w)) (rr_citations r) | (None, _) \<Rightarrow> True) \<and>
     list_all (\<lambda>e. case e of RagEvent (GenFinal r) \<Rightarrow> list_all (published_evidence env documents (rw_corpus w)) (rr_citations r) | _ \<Rightarrow> True)
       (fst (rag_query_stream env pool_open up t question documents w))"
proof
  show "case rag_query env pool_open up t question documents w of
       (Some r, _) \<Rightarrow> list_all (published_evidence env documents (rw_corpus w)) (rr_citations r) | (None, _) \<Rightarrow> True"
    using rag_query_cites[OF assms] by (auto split: option.splits)
next
  define w1 where "w1 = note_metrics [Inc ''rag_queries_total'' [(''mode'', retrieval_mode env)] 1] w"
  have "rw_corpus w1 = rw_corpus w" by (simp add: w1_def)
  moreover have "list_all (\<lambda>e. case e of RagEvent (GenFinal r) \<Rightarrow> P r | _ \<Rightarrow> True)
    (map RagEvent (filter (\<lambda>e. case e of GenFinal _ \<Rightarrow> False | GenDelta _ \<Rightarrow> True) es))" for P es
    by (auto simp: list_all_iff split: gen_event.splits)
  ultimately show "list_all (\<lambda>e. case e of RagEvent (GenFinal r) \<Rightarrow> list_all (published_evidence env documents (rw_corpus w)) (rr_citations r) | _ \<Rightarrow> True)
       (fst (rag_query_stream env pool_open up t question documents w))"
    using verified_published[OF _ assms] streamed_verified
    by (fastforce simp: rag_query_stream_def Let_def simp flip: w1_def split: prod.splits option.splits list.splits)
qed

lemma pending_keeps:
  "t \<notin> qt_trace_id ` set trs \<Longrightarrow> get_query_trace t (rw_traces (run_pending up ms trs w)) = get_query_trace t (rw_traces w)"
  by (induction up ms trs w rule: run_pending.induct) (auto simp: store_trace_def)

lemma pending_last:
  "up tr \<Longrightarrow> get_query_trace (qt_trace_id tr) (rw_traces (run_pending up ms (trs @ [tr]) w)) = Some tr"
  by (induction trs arbitrary: w) (simp_all add: store_trace_def)


lemma set_map_filter_iff: "y \<in> set (List.map_filter f xs) \<longleftrightarrow> (\<exists>x \<in> set xs. f x = Some y)"
  by (force simp: map_filter_def)

lemma fetch_documents_eq:
  "fst (fetch_documents p readable ds c) =
   List.map_filter (\<lambda>d. if readable d then believed_record p d c else None) ds"
proof (induction ds arbitrary: c)
  case (Cons d ds)
  have "List.map_filter (\<lambda>d. if readable d then believed_record p d (snd (get_document p d0 c)) else None) ds =
    List.map_filter (\<lambda>d. if readable d then believed_record p d c else None) ds" for d0
    by (simp add: believed_record_stable cong: if_cong)
  then show ?case using Cons by (simp add: Let_def case_prod_beta believed_record_def map_filter_simps split: option.split)
qed (simp add: map_filter_simps)

text \<open>The listing shows every readable document once, by title: the records, sorted by lower-case title, of
  exactly the documents whose record key is in the store and whose record can be read; one that cannot
  be read hides no other.\<close>

theorem document_list_exact:
  assumes "finite_store (kb_records c)"
  shows "set (fst (list_documents p readable c)) =
      {r. \<exists>k d. k \<in> dom (os_objs (kb_records c)) \<and> prefix ''documents/'' k \<and> suffix ''/record.json'' k \<and> d = record_key_document k \<and>
         readable d \<and> believed_record p d c = Some r} \<and>
    sorted (map (\<lambda>r. py_lower (d_title r)) (fst (list_documents p readable c))) \<and>
    length (fst (list_documents p readable c)) \<le> card (dom (os_objs (kb_records c)))"
proof (intro conjI)
  let ?keys = "list_document_record_keys (kb_records c)"
  have f: "fst (list_documents p readable c) = sort_key (\<lambda>r. py_lower (d_title r))
      (List.map_filter (\<lambda>d. if readable d then believed_record p d c else None) (map record_key_document ?keys))"
    by (simp add: list_documents_def case_prod_beta fetch_documents_eq)
  have k: "set ?keys = {k \<in> dom (os_objs (kb_records c)). prefix ''documents/'' k \<and> suffix ''/record.json'' k}"
    using assms by (auto simp: list_document_record_keys_def set_list_keys py_endswith_iff)
  show "set (fst (list_documents p readable c)) =
      {r. \<exists>k d. k \<in> dom (os_objs (kb_records c)) \<and> prefix ''documents/'' k \<and> suffix ''/record.json'' k \<and> d = record_key_document k \<and>
         readable d \<and> believed_record p d c = Some r}"
    unfolding f set_sort set_map_filter_iff set_eq_iff set_map bex_simps mem_Collect_eq
    by (intro allI iffI; elim bexE exE conjE imageE) (use k in \<open>auto split: if_splits\<close>)
  show "sorted (map (\<lambda>r. py_lower (d_title r)) (fst (list_documents p readable c)))" by (simp add: f)
  have "length (fst (list_documents p readable c)) \<le> length ?keys" by (simp add: f map_filter_def le_trans[OF length_filter_le])
  also have "\<dots> = card (set ?keys)"
    by (rule distinct_card[symmetric]) (simp add: list_document_record_keys_def distinct_list_keys)
  also have "\<dots> \<le> card (dom (os_objs (kb_records c)))" using assms by (intro card_mono) (auto simp: k finite_store_def)
  finally show "length (fst (list_documents p readable c)) \<le> card (dom (os_objs (kb_records c)))" .
qed

section \<open>Concrete instances\<close>

definition demo_service :: rag_env where
  "demo_service = \<lparr>rq_gen = \<lparr>gn_loads = (\<lambda>_. Some (JObj [(''answer'', JStr ''yes''), (''used_citation_ids'', JArr [JStr ''a'', JStr ''zz''])])),
       gn_str = (\<lambda>v. case v of JStr s \<Rightarrow> s | _ \<Rightarrow> []), gn_model_id = ''m'', gn_generate = (\<lambda>_. Some (''{}'', [])),
       gn_stream = (\<lambda>_. ([''ye'', ''s###ME'', ''TA###{}''], True)), gn_meta = (\<lambda>_. \<lparr>me_page_start = Some 1, me_page_end = Some 2, me_title = None\<rparr>),
       gn_claims = demo_llm, gn_schedule = rev\<rparr>,
     rq_embed = (\<lambda>_. Some [1]), rq_sparse = (\<lambda>_. []), rq_engine = (\<lambda>_ _. Some demo_engine), rq_sparse_on = False, rq_top_k = 8,
     rq_context_k = 5, rq_low_top = None, rq_embedding_model = Some ''e'', rq_generation_model = Some ''g'', rq_index_name = None,
     rq_process = 0, rq_readable = (\<lambda>_. True), rq_unified = False, rq_elapsed = 1\<rparr>"

definition demo_service_world :: rag_world where
  "demo_service_world = \<lparr>rw_corpus = demo_corpus, rw_metrics = [], rw_traces = empty_store, rw_pending = [], rw_summaries = []\<rparr>"

lemma demo_service_sound: "engines_sound demo_service"
  by (auto simp: engines_sound_def demo_service_def engine_sound_def demo_engine_def demo_gate_hit_def demo_chunk_def)

lemma demo_service_hits: "\<exists>w'. retrieve_hits demo_service question (Some [''d'']) (note_metrics ops demo_service_world) = (Some [demo_gate_hit], w')"
proof -
  have "gate_open 0 (\<lambda>_. True) demo_corpus demo_gate_hit"
    using demo_ready by (simp add: ready_def demo_record_def believed_record_def get_document_def demo_gate_hit_def demo_chunk_def)
      (simp add: demo_corpus_def empty_corpus_def published_version_of_def or_none_def)
  moreover have "index_search demo_engine 8 (Some [''d'']) (kb_vectors demo_corpus) = [demo_gate_hit]"
    by (simp add: index_search_def demo_engine_def demo_corpus_def demo_chunk_def)
  ultimately have "fst (filter_to_active 0 (\<lambda>_. True) [demo_gate_hit] Map.empty demo_corpus) = [demo_gate_hit]"
    by (subst filter_to_active_eq) simp_all
  then show ?thesis
    by (simp add: retrieve_hits_def embed_query_def vector_search_def \<open>index_search _ _ _ _ = _\<close> demo_service_def demo_service_world_def Let_def case_prod_beta)
qed

lemma demo_service_claims: "case map_claims demo_llm rev ''yes'' [demo_gate_hit] ''t'' of Some m \<Rightarrow> length (mp_claims m) = 1 | None \<Rightarrow> False"
proof -
  have "case decompose demo_llm ''yes'' of ([d], False) \<Rightarrow> int_of_json (dc_start d) \<noteq> IntOverflow \<and> int_of_json (dc_end d) \<noteq> IntOverflow | _ \<Rightarrow> False"
    by code_simp
  then obtain d where d: "decompose demo_llm ''yes'' = ([d], False)" "int_of_json (dc_start d) \<noteq> IntOverflow" "int_of_json (dc_end d) \<noteq> IntOverflow"
    by (auto split: prod.splits list.splits bool.splits)
  then obtain m where m: "map_claims demo_llm rev ''yes'' [demo_gate_hit] ''t'' = Some m"
    using map_claims_None[of demo_llm rev "''yes''" "[demo_gate_hit]" "''t''"] by (cases "map_claims demo_llm rev ''yes'' [demo_gate_hit] ''t''") auto
  then show ?thesis using d(1) by (auto simp: map_claims_def Let_def all_some_Some)
qed

lemma demo_generated:
  "case fst (generate_answer (rq_gen demo_service) question [demo_gate_hit] ''t'') of None \<Rightarrow> False | Some r \<Rightarrow>
     rr_answer r = ''yes'' \<and> rr_evidence_status r = ''grounded'' \<and> length (rr_claims r) = 1 \<and>
     rr_citations r = [citation_json \<lparr>ct_document_id = ''d'', ct_chunk_id = ''a'', ct_meta = \<lparr>me_page_start = Some 1, me_page_end = Some 2, me_title = None\<rparr>\<rparr>]"
proof -
  obtain m where m: "map_claims demo_llm rev ''yes'' [demo_gate_hit] ''t'' = Some m" "length (mp_claims m) = 1"
    using demo_service_claims by (cases "map_claims demo_llm rev ''yes'' [demo_gate_hit] ''t''") auto
  have s: "py_strip ''yes'' = ''yes''" "py_strip ''a'' = ''a''" "py_strip ''zz'' = ''zz''" by code_simp+
  have "map_claims demo_llm rev ''yes'' [\<lparr>h_chunk = \<lparr>ck_id = ''a'', ck_document_id = ''d'', ck_version = ''v1'', ck_text = ''x''\<rparr>, h_score = 1, h_source = ''pinecone''\<rparr>] ''t'' = Some m"
    using m(1) by (simp add: demo_gate_hit_def demo_chunk_def)
  then show ?thesis using m(2)
    by (simp add: generate_answer_def demo_service_def Let_def parse_json_object_def read_metadata_def extract_used_citation_ids_def j_get_def
        compose_answer_def run_claim_mapping_def candidate_citations_def by_chunk_id_def demo_gate_hit_def demo_chunk_def s
        answer_evidence_def or_none_def)
qed

lemma demo_service_answered:
  "\<exists>r w'. rag_query demo_service True True ''t'' ''q'' (Some [''d'']) demo_service_world = (Some r, w') \<and> rr_answer r = ''yes'' \<and> length (rr_claims r) = 1 \<and>
     length (rr_citations r) = 1"
proof -
  define ops where "ops = [Inc ''rag_queries_total'' [(''mode'', retrieval_mode demo_service)] 1,
    Obs ''rag_query_length_chars'' [(''mode'', retrieval_mode demo_service)] (real (length ''q''))]"
  obtain w' where "retrieve_hits demo_service ''q'' (Some [''d'']) (note_metrics ops demo_service_world) = (Some [demo_gate_hit], w')"
    using demo_service_hits[of "''q''" ops] by (elim exE) (rule that; assumption)
  moreover obtain r gops where "generate_answer (rq_gen demo_service) ''q'' [demo_gate_hit] ''t'' = (Some r, gops)" "rr_answer r = ''yes''"
    "length (rr_claims r) = 1" "length (rr_citations r) = 1"
    using demo_generated[of "''q''"] by (cases "generate_answer (rq_gen demo_service) ''q'' [demo_gate_hit] ''t''") (auto split: option.splits)
  ultimately show ?thesis unfolding rag_query_def Let_def ops_def[symmetric] by simp
qed

theorem answers_cite_published_witness:
  "\<exists>r w'. rag_query demo_service True True ''t'' ''q'' (Some [''d'']) demo_service_world = (Some r, w') \<and> length (rr_citations r) = 1 \<and>
     list_all (published_evidence demo_service (Some [''d'']) demo_corpus) (rr_citations r)"
proof -
  obtain r w' where r: "rag_query demo_service True True ''t'' ''q'' (Some [''d'']) demo_service_world = (Some r, w')" "length (rr_citations r) = 1"
    using demo_service_answered by blast
  from conjunct1[OF answers_cite_published[OF demo_service_sound, where pool_open = True and up = True and t = "''t''" and question = "''q''" and
      documents = "Some [''d'']" and w = demo_service_world]] r
  show ?thesis by (simp add: demo_service_world_def)
qed


theorem document_list_exact_witness:
  "set (fst (list_documents 0 (\<lambda>_. True) demo_corpus)) = {demo_record}"
proof -
  have f: "finite_store (kb_records demo_corpus)" by (simp add: demo_corpus_def finite_store_def put_json_def empty_store_def)
  have k: "dom (os_objs (kb_records demo_corpus)) = {''documents/d/record.json''}"
    by (simp add: demo_corpus_def put_json_def empty_store_def document_record_key_def)
  have "record_key_document ''documents/d/record.json'' = ''d''" by code_simp
  moreover have "prefix ''documents/'' ''documents/d/record.json''" "suffix ''/record.json'' ''documents/d/record.json''"
    by (simp_all add: suffix_def)
  moreover have "believed_record 0 ''d'' demo_corpus = Some demo_record"
    using demo_ready by (simp add: ready_def demo_record_def believed_record_def get_document_def) (simp add: demo_corpus_def empty_corpus_def)
  ultimately show ?thesis using document_list_exact[OF f, of 0 "\<lambda>_. True"] unfolding k by auto
qed
end
