(* ===== verification/DocumentApi.thy ===== *)
theory DocumentApi
  imports AskApi RagQuery
begin

text \<open>
  The document endpoints (\<open>api.py\<close>): reading an upload within its limit, and uploading, replacing, deleting,
  reading, listing and restoring documents as the caller may. A failure inside the service is status 500.
\<close>

section \<open>Reading an upload\<close>

definition read_size :: nat where "read_size = 1048576"

text \<open>The reads of the body, the first empty one ending it. The second result is how many bytes were held at
  most.\<close>

fun read_bounded :: "nat \<Rightarrow> string list \<Rightarrow> string \<Rightarrow> (nat + string) \<times> nat" where
  "read_bounded limit [] buffer = (Inr buffer, length buffer)"
| "read_bounded limit (c # cs) buffer =
     (if c = [] then (Inr buffer, length buffer)
      else let b = buffer @ c in if limit < length b then (Inl 413, length b) else read_bounded limit cs b)"

definition read_document_upload :: "nat \<Rightarrow> string option \<Rightarrow> string option \<Rightarrow> string list \<Rightarrow> (nat + string) \<times> nat" where
  "read_document_upload limit filename content_length reads =
     (let name = (case filename of Some f \<Rightarrow> f | None \<Rightarrow> []); ext = upload_extension name
      in if ext = [] \<or> ext \<notin> set supported_extensions then (Inl 400, 0)
         else if (case content_length of None \<Rightarrow> False | Some t \<Rightarrow> (case int_of_string t of Some n \<Rightarrow> int limit < n | None \<Rightarrow> False)) then (Inl 413, 0)
         else (case read_bounded limit reads [] of
                 (Inl code, held) \<Rightarrow> (Inl code, held)
               | (Inr content, held) \<Rightarrow> (if content = [] then Inl 400 else Inr content, held)))"

section \<open>Endpoints\<close>

record document_env =
  de_process :: nat
  de_sha :: "string \<Rightarrow> string"
  de_enqueue_error :: "string option"
  de_index_error :: "string option"
  de_limit :: nat
  de_settings :: auth_settings

record upload =
  ul_filename :: "string option"
  ul_content_length :: "string option"
  ul_reads :: "string list"

definition stored_name :: "upload \<Rightarrow> string" where
  "stored_name u = (case or_none (ul_filename u) of Some f \<Rightarrow> f | None \<Rightarrow> ''document'')"

definition read_upload :: "document_env \<Rightarrow> upload \<Rightarrow> nat + string" where
  "read_upload env u = fst (read_document_upload (de_limit env) (ul_filename u) (ul_content_length u) (ul_reads u))"

definition found :: "(ing_error + 'a option) \<Rightarrow> nat + 'a" where
  "found r = (case r of Inl _ \<Rightarrow> Inl 500 | Inr None \<Rightarrow> Inl 404 | Inr (Some x) \<Rightarrow> Inr x)"

text \<open>The new identifier of an uploaded document is an argument.\<close>

definition upload_endpoint :: "document_env \<Rightarrow> user_public \<Rightarrow> ident \<Rightarrow> upload \<Rightarrow> corpus \<Rightarrow> (nat + document_record) \<times> corpus" where
  "upload_endpoint env u d up c =
     (case read_upload env up of
        Inl code \<Rightarrow> (Inl code, c)
      | Inr content \<Rightarrow>
          (case queue_document (de_process env) (de_sha env) (de_enqueue_error env) d (stored_name up) content (Some (up_email u)) c of
             (Inl _, c1) \<Rightarrow> (Inl 500, c1) | (Inr r, c1) \<Rightarrow> (Inr r, c1)))"

definition update_endpoint :: "document_env \<Rightarrow> user_public \<Rightarrow> ident \<Rightarrow> upload \<Rightarrow> corpus \<Rightarrow> (nat + document_record) \<times> corpus" where
  "update_endpoint env u d up c =
     (case read_upload env up of
        Inl code \<Rightarrow> (Inl code, c)
      | Inr content \<Rightarrow>
          (let (existing, c1) = get_document (de_process env) d c
           in case existing of
                None \<Rightarrow> (Inl 404, c1)
              | Some r \<Rightarrow>
                  if d_status r = Deleted \<or> \<not> user_can_access r u (de_settings env) then (Inl 404, c1)
                  else (case update_document (de_process env) (de_sha env) (de_enqueue_error env) d (stored_name up) content (Some (up_email u)) c1 of
                          (out, c2) \<Rightarrow> (found out, c2))))"

definition delete_endpoint :: "document_env \<Rightarrow> user_public \<Rightarrow> ident \<Rightarrow> corpus \<Rightarrow> (nat + document_record) \<times> corpus" where
  "delete_endpoint env u d c =
     (let (existing, c1) = get_document (de_process env) d c
      in case existing of
           None \<Rightarrow> (Inl 404, c1)
         | Some r \<Rightarrow>
             if \<not> user_can_access r u (de_settings env) then (Inl 404, c1)
             else (case delete_document (de_process env) (de_index_error env) d c1 of (out, c2) \<Rightarrow> (found out, c2)))"

definition get_endpoint :: "document_env \<Rightarrow> user_public \<Rightarrow> ident \<Rightarrow> corpus \<Rightarrow> (nat + document_record) \<times> corpus" where
  "get_endpoint env u d c =
     (let (existing, c1) = get_document (de_process env) d c
      in (case existing of
            None \<Rightarrow> Inl 404
          | Some r \<Rightarrow> if user_can_access r u (de_settings env) then Inr r else Inl 404, c1))"

definition list_endpoint :: "document_env \<Rightarrow> (ident \<Rightarrow> bool) \<Rightarrow> user_public \<Rightarrow> corpus \<Rightarrow> document_record list \<times> corpus" where
  "list_endpoint env readable u c =
     (let (rs, c1) = list_documents (de_process env) readable c in (list_documents_for rs u (de_settings env), c1))"

definition versions_endpoint :: "document_env \<Rightarrow> (ident \<Rightarrow> string list) \<Rightarrow> (string \<Rightarrow> int) \<Rightarrow> user_public \<Rightarrow> ident \<Rightarrow> corpus
    \<Rightarrow> (nat + document_history) \<times> corpus" where
  "versions_endpoint env keys rank u d c =
     (let restricted = as_enabled (de_settings env) \<and> \<not> resolve_is_operator u (de_settings env);
          (record, c1) = (if restricted then get_document (de_process env) d c else (None, c))
      in if restricted \<and> (case record of None \<Rightarrow> True | Some r \<Rightarrow> \<not> user_can_access r u (de_settings env)) then (Inl 404, c1)
         else (case get_document_history (de_process env) keys rank d c1 of
                 (None, c2) \<Rightarrow> (Inl 404, c2) | (Some h, c2) \<Rightarrow> (Inr h, c2)))"

definition restore_endpoint :: "document_env \<Rightarrow> ing_env \<Rightarrow> user_public \<Rightarrow> ident \<Rightarrow> string \<Rightarrow> corpus \<Rightarrow> (nat + document_record) \<times> corpus" where
  "restore_endpoint env ie u d v c =
     (case require_operator (de_settings env) u of
        Inl (HttpError code _) \<Rightarrow> (Inl code, c)
      | Inr _ \<Rightarrow>
          (case restore_version (de_process env) ie d v c of
             (Inl (VersionNotFoundError _ _), c1) \<Rightarrow> (Inl 404, c1)
           | (out, c1) \<Rightarrow> (found out, c1)))"

section \<open>Properties\<close>

lemma read_bounded_eq:
  "length buffer \<le> limit \<Longrightarrow> read_bounded limit cs buffer = (out, held) \<Longrightarrow> list_all (\<lambda>c. length c \<le> n) cs \<Longrightarrow>
   (case out of
      Inr b \<Rightarrow> b = buffer @ concat (takeWhile (\<lambda>c. c \<noteq> []) cs) \<and> length b \<le> limit
    | Inl code \<Rightarrow> code = 413 \<and> limit < length buffer + length (concat (takeWhile (\<lambda>c. c \<noteq> []) cs))) \<and>
   held \<le> limit + n"
proof (induction limit cs buffer rule: read_bounded.induct)
  case (2 limit c cs buffer)
  show ?case
  proof (cases "c = [] \<or> limit < length (buffer @ c)")
    case True
    then show ?thesis using 2(2,3,4) by (auto simp: Let_def split: if_splits)
  next
    case False
    then show ?thesis using 2(1)[OF _ refl] 2(2,3,4) by (fastforce simp: Let_def add.assoc split: sum.splits)
  qed
qed auto

text \<open>C33. An upload is taken exactly when it should be, and no more of it is held than the limit and one read: the name
  must have a supported extension, neither the announced nor the actual size may exceed the limit, the
  body may not be empty, and what is taken is the body.\<close>

theorem upload_bounded:
  assumes "read_document_upload limit filename content_length reads = (out, held)" "list_all (\<lambda>c. length c \<le> read_size) reads"
  shows "held \<le> limit + read_size \<and>
    (let ext = upload_extension (case filename of Some f \<Rightarrow> f | None \<Rightarrow> []); body = concat (takeWhile (\<lambda>c. c \<noteq> []) reads);
         announced = (case content_length of None \<Rightarrow> 0 | Some t \<Rightarrow> (case int_of_string t of Some n \<Rightarrow> n | None \<Rightarrow> 0))
     in out = (if ext \<notin> set supported_extensions then Inl 400 else if int limit < announced \<or> limit < length body then Inl 413
               else if body = [] then Inl 400 else Inr body))"
proof -
  obtain o2 h2 where r: "read_bounded limit reads [] = (o2, h2)" by fastforce
  note b = read_bounded_eq[OF _ r assms(2)]
  have "[] \<notin> set supported_extensions"
    by (simp add: supported_extensions_def llamaparse_extensions_def spreadsheet_extensions_def html_extensions_def text_extensions_def)
  then have ext: "(ext = [] \<or> ext \<notin> set supported_extensions) = (ext \<notin> set supported_extensions)" for ext by blast
  have big: "(case content_length of None \<Rightarrow> False | Some t \<Rightarrow> (case int_of_string t of Some n \<Rightarrow> int limit < n | None \<Rightarrow> False)) =
    (int limit < (case content_length of None \<Rightarrow> 0 | Some t \<Rightarrow> (case int_of_string t of Some n \<Rightarrow> n | None \<Rightarrow> 0)))"
    by (simp split: option.split)
  have "(case o2 of Inl code \<Rightarrow> (Inl code, h2) | Inr content \<Rightarrow> (if content = [] then Inl 400 else Inr content, h2)) =
    (let body = concat (takeWhile (\<lambda>c. c \<noteq> []) reads)
     in if limit < length body then Inl 413 else if body = [] then Inl 400 else Inr body, h2)"
    using b by (cases o2) (auto simp: Let_def)
  note main = this
  show ?thesis
    using assms(1) b unfolding read_document_upload_def Let_def ext big r prod.case main
    by (simp only: split: if_split_asm) (simp_all add: Let_def)
qed

definition same_but_cache :: "corpus \<Rightarrow> corpus \<Rightarrow> bool" where
  "same_but_cache c c' \<longleftrightarrow> c\<lparr>kb_cache := (\<lambda>_. Map.empty)\<rparr> = c'\<lparr>kb_cache := (\<lambda>_. Map.empty)\<rparr>"

lemma get_document_same: "same_but_cache c (snd (get_document p d c))"
  by (auto simp: same_but_cache_def get_document_def split: option.split)

datatype document_call = UpdateCall upload | DeleteCall | ReadCall | VersionsCall | RestoreCall string

text \<open>One request on a document: the status of its refusal, if it was refused, and the corpus it leaves.\<close>

definition refusal :: "(nat + 'a) \<times> corpus \<Rightarrow> nat option \<times> corpus" where
  "refusal out = ((case fst out of Inl code \<Rightarrow> Some code | Inr _ \<Rightarrow> None), snd out)"

fun document_request :: "document_env \<Rightarrow> ing_env \<Rightarrow> (ident \<Rightarrow> string list) \<Rightarrow> (string \<Rightarrow> int) \<Rightarrow> user_public \<Rightarrow> ident \<Rightarrow> document_call \<Rightarrow> corpus
    \<Rightarrow> nat option \<times> corpus" where
  "document_request env ie keys rank u d (UpdateCall up) c = refusal (update_endpoint env u d up c)"
| "document_request env ie keys rank u d DeleteCall c = refusal (delete_endpoint env u d c)"
| "document_request env ie keys rank u d ReadCall c = refusal (get_endpoint env u d c)"
| "document_request env ie keys rank u d VersionsCall c = refusal (versions_endpoint env keys rank u d c)"
| "document_request env ie keys rank u d (RestoreCall v) c = refusal (restore_endpoint env ie u d v c)"

lemma read_upload_codes: "read_upload env up = Inl code \<Longrightarrow> code \<in> {400, 413}"
proof -
  have "read_bounded limit cs b = (Inl e, h) \<Longrightarrow> e = 413" for limit cs b e h
    by (induction limit cs b rule: read_bounded.induct) (auto simp: Let_def split: if_splits)
  then show "read_upload env up = Inl code \<Longrightarrow> code \<in> {400, 413}"
    by (auto simp: read_upload_def read_document_upload_def Let_def split: if_splits prod.splits sum.splits option.splits)
qed

text \<open>C34. A caller who is not an operator has no hold on the documents of others: every request on a document whose
  record does not name the caller as owner is refused, with the same statuses whether the document exists
  or not, and leaves records, versions, vectors, stored files and the queue as they were.\<close>

theorem strangers_refused:
  assumes "as_enabled (de_settings env)" "\<not> resolve_is_operator u (de_settings env)"
    "case believed_record (de_process env) d c of Some r \<Rightarrow> d_owner r \<noteq> Some (up_email u) | None \<Rightarrow> True"
  shows "\<exists>code c'. document_request env ie keys rank u d call c = (Some code, c') \<and> code \<in> {400, 403, 404, 413} \<and> same_but_cache c c'"
proof -
  obtain rec c1 where g: "get_document (de_process env) d c = (rec, c1)" by fastforce
  have same: "same_but_cache c c1" "same_but_cache c c" using get_document_same[of c "de_process env" d] g by (simp_all add: same_but_cache_def)
  have no: "\<not> user_can_access r u (de_settings env)" if "rec = Some r" for r
    using assms g that by (auto simp: user_can_access_def believed_record_def)
  show ?thesis
  proof (cases call)
    case (UpdateCall up)
    show ?thesis
    proof (cases "read_upload env up")
      case (Inl code)
      then show ?thesis using UpdateCall read_upload_codes[OF Inl] same by (auto simp: update_endpoint_def refusal_def)
    next
      case (Inr content)
      then show ?thesis using UpdateCall g same no by (cases rec) (simp_all add: update_endpoint_def refusal_def)
    qed
  next
    case DeleteCall
    then show ?thesis using g same no by (cases rec) (simp_all add: delete_endpoint_def refusal_def)
  next
    case ReadCall
    then show ?thesis using g same no by (cases rec) (simp_all add: get_endpoint_def refusal_def)
  next
    case VersionsCall
    then show ?thesis using g same no assms(1,2) by (cases rec) (simp_all add: versions_endpoint_def refusal_def)
  next
    case (RestoreCall v)
    then show ?thesis using same assms(1,2) by (simp add: restore_endpoint_def refusal_def require_operator_def)
  qed
qed

lemma prepare_upload_owner:
  "prepare_upload p sha d filename content owner c = (r, c1) \<Longrightarrow>
   d_owner r = (case believed_record p d c of Some x \<Rightarrow> (case d_owner x of Some e \<Rightarrow> Some e | None \<Rightarrow> owner) | None \<Rightarrow> owner)"
  by (auto simp: prepare_upload_def Let_def believed_record_def get_document_def stored_record_def split: prod.splits option.splits if_splits)

lemma queue_document_owner:
  assumes "queue_document p sha err d filename content owner c = (Inr r, c1)"
  shows "d_owner r = (case believed_record p d c of Some x \<Rightarrow> (case d_owner x of Some e \<Rightarrow> Some e | None \<Rightarrow> owner) | None \<Rightarrow> owner)"
proof -
  obtain r0 c0 where p: "prepare_upload p sha d filename content owner c = (r0, c0)"
    by (cases "prepare_upload p sha d filename content owner c")
  have "r = r0" using assms p by (auto simp: queue_document_def commit_upload_def split: prod.splits sum.splits option.splits)
  then show ?thesis using prepare_upload_owner[OF p] by simp
qed

text \<open>Ownership never moves: an upload under a new identifier belongs to its uploader, and replacing a document,
  also by an operator, keeps the owner its record has; only a document without one gets the one who
  replaces it.\<close>

theorem owner_stable:
  "(case fst (upload_endpoint env u d up c) of
      Inr r \<Rightarrow> (case believed_record (de_process env) d c of None \<Rightarrow> d_owner r = Some (up_email u) | Some _ \<Rightarrow> True) | Inl _ \<Rightarrow> True) \<and>
   (case fst (update_endpoint env u d up c) of
      Inr r \<Rightarrow> (case believed_record (de_process env) d c of
         Some x \<Rightarrow> d_owner r = (case d_owner x of Some e \<Rightarrow> Some e | None \<Rightarrow> Some (up_email u)) | None \<Rightarrow> False)
    | Inl _ \<Rightarrow> True)"
proof
  let ?p = "de_process env"
  show "case fst (upload_endpoint env u d up c) of
      Inr r \<Rightarrow> (case believed_record ?p d c of None \<Rightarrow> d_owner r = Some (up_email u) | Some _ \<Rightarrow> True) | Inl _ \<Rightarrow> True"
    using queue_document_owner[of ?p "de_sha env" "de_enqueue_error env" d "stored_name up" _ "Some (up_email u)" c]
    by (auto simp: upload_endpoint_def split: sum.splits prod.splits option.splits)
  obtain rec c1 where g: "get_document ?p d c = (rec, c1)" by fastforce
  obtain rec2 c2 where g2: "get_document ?p d c1 = (rec2, c2)" by fastforce
  have b: "believed_record ?p d c = rec" "believed_record ?p d c2 = rec" "rec2 = rec"
    using g g2 believed_record_stable[of ?p d d c] believed_record_stable[of ?p d d c1] by (simp_all add: believed_record_def)
  show "case fst (update_endpoint env u d up c) of
      Inr r \<Rightarrow> (case believed_record ?p d c of
         Some x \<Rightarrow> d_owner r = (case d_owner x of Some e \<Rightarrow> Some e | None \<Rightarrow> Some (up_email u)) | None \<Rightarrow> False)
    | Inl _ \<Rightarrow> True"
  proof (cases "read_upload env up")
    case (Inr content)
    show ?thesis
    proof (cases rec)
      case (Some x)
      then show ?thesis using Inr g g2 b queue_document_owner[of ?p "de_sha env" "de_enqueue_error env" d "stored_name up" content "Some (up_email u)" c2]
        by (auto simp: update_endpoint_def update_document_def found_def split: sum.splits prod.splits)
    qed (use Inr g in \<open>simp add: update_endpoint_def\<close>)
  qed (simp add: update_endpoint_def)
qed

definition demo_documents :: document_env where
  "demo_documents = \<lparr>de_process = 0, de_sha = (\<lambda>s. s), de_enqueue_error = None, de_index_error = None, de_limit = 4,
     de_settings = demo_settings\<rparr>"

theorem strangers_refused_witness:
  "\<exists>code c'. document_request demo_documents demo_env (\<lambda>_. []) (\<lambda>_. 0) plain_demo ''d'' DeleteCall demo_corpus = (Some code, c') \<and>
     same_but_cache demo_corpus c'"
proof -
  have "as_enabled (de_settings demo_documents)" by (simp add: demo_documents_def)
  moreover have "\<not> resolve_is_operator plain_demo (de_settings demo_documents)" using plain_demo_not_operator by (simp add: demo_documents_def)
  moreover have "case believed_record (de_process demo_documents) ''d'' demo_corpus of Some r \<Rightarrow> d_owner r \<noteq> Some (up_email plain_demo) | None \<Rightarrow> True"
    using demo_ready by (simp add: ready_def demo_record_def believed_record_def get_document_def demo_documents_def plain_demo_def)
      (simp add: demo_corpus_def empty_corpus_def)
  ultimately show ?thesis using strangers_refused[of demo_documents plain_demo "''d''" demo_corpus demo_env "\<lambda>_. []" "\<lambda>_. 0" DeleteCall] by blast
qed

theorem upload_bounded_witness:
  "\<exists>held. read_document_upload 4 (Some ''a.md'') (Some ''3'') [''abc'', []] = (Inr ''abc'', held) \<and> held \<le> 4 + read_size"
proof -
  obtain out held where r: "read_document_upload 4 (Some ''a.md'') (Some ''3'') [''abc'', []] = (out, held)" by fastforce
  have "upload_extension ''a.md'' = ''.md''" "int_of_string ''3'' = Some 3" "''.md'' \<in> set supported_extensions" by code_simp+
  moreover have "list_all (\<lambda>c. length c \<le> read_size) [''abc'', []]" by (simp add: read_size_def)
  ultimately show ?thesis using upload_bounded[OF r] r by simp
qed
end
