(* ===== verification/Investigator.thy ===== *)
theory Investigator
  imports RagQuery
begin

text \<open>
  The trace investigator (\<open>trace_investigator.py\<close>): the prompt made of a recorded trace, the shaping of the
  model's answer into a diagnosis, and the diagnosis of a trace. The model and the texts of Python values
  are arguments.
\<close>

section \<open>The prompt\<close>

record investigator_env =
  iv_loads :: json_loads
  iv_str :: "json \<Rightarrow> string"
  iv_float :: "pyfloat \<Rightarrow> string"
  iv_status :: "evidence_status \<Rightarrow> string"
  iv_source :: "trace_hit \<Rightarrow> string"
  iv_mode :: "query_trace \<Rightarrow> string option"
  iv_model :: "string \<Rightarrow> string option"

text \<open>\<open>iv_mode\<close> and \<open>iv_source\<close> are the retrieval mode of a stored trace and the source of a stored hit;
  \<open>iv_model\<close> is \<open>None\<close> when the call raises.\<close>

definition or_None :: "string option \<Rightarrow> string" where
  "or_None v = (case v of Some s \<Rightarrow> s | None \<Rightarrow> ''None'')"

definition no_hits_line :: string where "no_hits_line = ''  (no hits retrieved)''"
definition no_claims_line :: string where "no_claims_line = ''  (no claims decomposed)''"

definition retrieval_lines :: "investigator_env \<Rightarrow> trace_hit list \<Rightarrow> string list" where
  "retrieval_lines env hits = map (\<lambda>(n, h). ''  '' @ show_nat n @ ''. document='' @ th_document_id h @ '' chunk='' @ th_chunk_id h @
     '' score='' @ fixed4 (th_score h) @ '' source='' @ iv_source env h) (zip [1..<Suc (length hits)] hits)"

definition claim_lines :: "investigator_env \<Rightarrow> claim list \<Rightarrow> string list" where
  "claim_lines env cs = map (\<lambda>c. ''  - ['' @ iv_status env (cm_status c) @ ''] '' @ cm_text c) cs"

text \<open>The dash of the prompt is outside the characters of the model; it stands as its encoding.\<close>

definition em_dash :: string where "em_dash = [CHR 0xE2, CHR 0x80, CHR 0x94]"

definition build_diagnosis_prompt :: "investigator_env \<Rightarrow> query_trace \<Rightarrow> string" where
  "build_diagnosis_prompt env t =
     (let nl = [CHR 0x0A];
          hits = (case retrieval_lines env (qt_hits t) of [] \<Rightarrow> no_hits_line | l # ls \<Rightarrow> join_with nl (l # ls));
          claims = (case claim_lines env (qt_claims t) of [] \<Rightarrow> no_claims_line | l # ls \<Rightarrow> join_with nl (l # ls))
      in join_with nl
        [''You are an AI trace investigator for an enterprise RAG system. An operator has asked you to diagnose why a recorded query was unsuccessful. Analyze ONLY the recorded trace below and reason over its route, retrieval scores, retrieval order, and generation outcome.'',
         [],
         ''Question: '' @ qt_question t,
         ''Route: '' @ qt_route t,
         ''Retrieval mode: '' @ or_None (iv_mode env t),
         ''Confidence: '' @ or_None (qt_confidence t) @ '' (score='' @ or_None (map_option (iv_float env) (qt_score t)) @ '')'',
         ''Evidence status: '' @ qt_evidence_status t,
         ''Abstention reason code: '' @ or_None (qt_abstention t),
         ''SQL: '' @ or_None (qt_sql t),
         [],
         ''Retrieval hits (in retrieval order, best first):'',
         hits,
         [],
         ''Generation outcome (decomposed claims and evidence status):'',
         claims,
         [],
         ''Answer text:'',
         qt_answer t,
         [],
         ''Diagnose the most likely cause of the unsuccessful outcome. Your cause description MUST reference at least one analyzed element: the route, the retrieval scores, the retrieval order, or the generation outcome. If you identify a cause, recommend between 1 and 10 concrete changes; each recommendation must target either the AI configuration (\"ai_configuration\") or the corpus (\"corpus\"). If you cannot determine a cause, say so explicitly and recommend nothing. Recommend only '' @ em_dash @ '' never assume any change will be applied automatically.'',
         [],
         ''Return ONLY valid JSON with no markdown formatting:'',
         ''{\"cause_description\": \"one or two sentences\", \"analyzed_elements\": [\"route\" | \"retrieval_scores\" | \"retrieval_order\" | \"generation_outcome\"], \"recommendations\": [{\"target\": \"ai_configuration\" | \"corpus\", \"description\": \"one sentence\"}]}''])"

section \<open>Shaping the diagnosis\<close>

record recommendation =
  rc_target :: string
  rc_description :: string

record trace_diagnosis =
  dg_trace_id :: ident
  dg_cause :: string
  dg_elements :: "string list"
  dg_recommendations :: "recommendation list"

definition analyzed_elements :: "string list" where
  "analyzed_elements = [''route'', ''retrieval_scores'', ''retrieval_order'', ''generation_outcome'']"

definition recommendation_targets :: "string list" where "recommendation_targets = [''ai_configuration'', ''corpus'']"

definition max_recommendations :: nat where "max_recommendations = 10"

definition no_cause_description :: string where
  "no_cause_description = ''No cause was determined for this query outcome from the recorded trace.''"

text \<open>\<open>str(d.get(k, ""))\<close>, stripped.\<close>

definition text_field :: "(json \<Rightarrow> string) \<Rightarrow> (string \<times> json) list \<Rightarrow> string \<Rightarrow> string" where
  "text_field str kvs k = py_strip (case j_get k kvs of Some v \<Rightarrow> str v | None \<Rightarrow> [])"

fun recommendation_of :: "(json \<Rightarrow> string) \<Rightarrow> json \<Rightarrow> recommendation option" where
  "recommendation_of str (JObj kvs) =
     (let target = text_field str kvs ''target''; description = text_field str kvs ''description''
      in if target \<notin> set recommendation_targets \<or> description = [] then None
         else Some \<lparr>rc_target = target, rc_description = description\<rparr>)"
| "recommendation_of str _ = None"

definition parse_recommendations :: "(json \<Rightarrow> string) \<Rightarrow> json option \<Rightarrow> recommendation list" where
  "parse_recommendations str v = (case j_list v of None \<Rightarrow> [] | Some vs \<Rightarrow> List.map_filter (recommendation_of str) vs)"

text \<open>The known elements among the entries, the first occurrence of each.\<close>

fun keep_elements :: "string list \<Rightarrow> string list \<Rightarrow> string list" where
  "keep_elements seen [] = []"
| "keep_elements seen (e # es) =
     (if e \<in> set analyzed_elements \<and> e \<notin> set seen then e # keep_elements (e # seen) es else keep_elements seen es)"

definition parse_analyzed_elements :: "(json \<Rightarrow> string) \<Rightarrow> json option \<Rightarrow> string list" where
  "parse_analyzed_elements str v = (case j_list v of None \<Rightarrow> [] | Some vs \<Rightarrow> keep_elements [] (map (\<lambda>x. py_strip (str x)) vs))"

definition available_elements :: "query_trace \<Rightarrow> string list" where
  "available_elements t =
     [''route''] @ (if qt_hits t = [] then [] else [''retrieval_scores''] @ (if 1 < length (qt_hits t) then [''retrieval_order''] else [])) @
     (if qt_claims t \<noteq> [] \<or> qt_abstention t \<noteq> None \<or> qt_answer t \<noteq> [] then [''generation_outcome''] else [])"

definition no_cause_diagnosis :: "ident \<Rightarrow> string \<Rightarrow> trace_diagnosis" where
  "no_cause_diagnosis i description =
     \<lparr>dg_trace_id = i, dg_cause = (if description = [] then no_cause_description else description), dg_elements = [], dg_recommendations = []\<rparr>"

text \<open>The object in a model's answer; nothing is read of a blank one.\<close>

definition extract_json_object :: "json_loads \<Rightarrow> string \<Rightarrow> (string \<times> json) list option" where
  "extract_json_object loads raw =
     (if py_strip raw = [] then None else (case loads (extract_json raw) of Some (JObj kvs) \<Rightarrow> Some kvs | _ \<Rightarrow> None))"

definition parse_diagnosis :: "investigator_env \<Rightarrow> string \<Rightarrow> query_trace \<Rightarrow> trace_diagnosis" where
  "parse_diagnosis env raw t =
     (case extract_json_object (iv_loads env) raw of
        None \<Rightarrow> no_cause_diagnosis (qt_trace_id t) []
      | Some payload \<Rightarrow>
          (let recommendations = parse_recommendations (iv_str env) (j_get ''recommendations'' payload);
               cause = text_field (iv_str env) payload ''cause_description'';
               elements = parse_analyzed_elements (iv_str env) (j_get ''analyzed_elements'' payload)
           in if recommendations = [] then no_cause_diagnosis (qt_trace_id t) cause
              else \<lparr>dg_trace_id = qt_trace_id t,
                    dg_cause = (if cause = [] then ''A cause was identified from the recorded trace.'' else cause),
                    dg_elements = (if elements = [] then available_elements t else elements),
                    dg_recommendations = take max_recommendations recommendations\<rparr>))"

text \<open>\<open>None\<close> is \<open>TraceNotFoundError\<close>, which the endpoint answers with status 404.\<close>

definition diagnose :: "investigator_env \<Rightarrow> query_trace obj_store \<Rightarrow> ident \<Rightarrow> trace_diagnosis option" where
  "diagnose env traces i =
     (case get_query_trace i traces of
        None \<Rightarrow> None
      | Some t \<Rightarrow> Some (case iv_model env (build_diagnosis_prompt env t) of
          None \<Rightarrow> no_cause_diagnosis (qt_trace_id t) []
        | Some raw \<Rightarrow> parse_diagnosis env raw t))"

definition diagnose_endpoint :: "investigator_env \<Rightarrow> query_trace obj_store \<Rightarrow> ident \<Rightarrow> nat + trace_diagnosis" where
  "diagnose_endpoint env traces i = (case diagnose env traces i of None \<Rightarrow> Inl 404 | Some d \<Rightarrow> Inr d)"

section \<open>Properties\<close>

lemma keep_elements_props: "distinct (keep_elements seen es)" "set (keep_elements seen es) \<subseteq> set analyzed_elements - set seen"
  by (induction seen es rule: keep_elements.induct) auto

lemma available_props: "distinct (available_elements t)" "set (available_elements t) \<subseteq> set analyzed_elements" "available_elements t \<noteq> []"
  by (auto simp: available_elements_def analyzed_elements_def)

lemma recommendation_props:
  "recommendation_of str v = Some r \<Longrightarrow> rc_target r \<in> set recommendation_targets \<and> rc_description r \<noteq> []"
  by (cases v) (auto simp: Let_def split: if_splits)

definition diagnosis_ok :: "trace_diagnosis \<Rightarrow> bool" where
  "diagnosis_ok d \<longleftrightarrow>
     dg_cause d \<noteq> [] \<and> distinct (dg_elements d) \<and> set (dg_elements d) \<subseteq> set analyzed_elements \<and> length (dg_recommendations d) \<le> 10 \<and>
     list_all (\<lambda>r. rc_target r \<in> {''ai_configuration'', ''corpus''} \<and> rc_description r \<noteq> []) (dg_recommendations d) \<and>
     (dg_recommendations d = [] \<longleftrightarrow> dg_elements d = [])"

lemma no_cause_ok: "diagnosis_ok (no_cause_diagnosis i s)"
  by (simp add: diagnosis_ok_def no_cause_diagnosis_def no_cause_description_def)

lemma parse_diagnosis_ok: "diagnosis_ok (parse_diagnosis env raw t)"
proof (cases "extract_json_object (iv_loads env) raw")
  case (Some payload)
  let ?rs = "parse_recommendations (iv_str env) (j_get ''recommendations'' payload)"
  have rs: "list_all (\<lambda>r. rc_target r \<in> {''ai_configuration'', ''corpus''} \<and> rc_description r \<noteq> []) ?rs"
    using recommendation_props[of "iv_str env"]
    by (auto simp: list_all_iff parse_recommendations_def set_map_filter_iff recommendation_targets_def split: option.splits)
  moreover have "list_all p (take n xs)" if "list_all p xs" for p n and xs :: "recommendation list"
    using that by (auto simp: list_all_iff dest: in_set_takeD)
  moreover have "distinct (parse_analyzed_elements str v)" "set (parse_analyzed_elements str v) \<subseteq> set analyzed_elements" for str v
    using keep_elements_props[of "[]"] by (auto simp: parse_analyzed_elements_def split: option.split)
  ultimately show ?thesis
    using available_props[of t] no_cause_ok
    by (auto simp: parse_diagnosis_def Some Let_def diagnosis_ok_def max_recommendations_def)
qed (simp add: parse_diagnosis_def no_cause_ok)

text \<open>A diagnosis keeps its contract whatever the model answers, or when it does not answer: it has a cause text, at
  most ten recommendations, each for the configuration or the corpus and with a text, known elements
  without repetition, and elements exactly when it has recommendations; only a trace that is not recorded
  has none, with status 404.\<close>

theorem diagnosis_well_formed:
  "case diagnose_endpoint env traces i of
     Inl code \<Rightarrow> code = 404 \<and> get_query_trace i traces = None
   | Inr d \<Rightarrow> diagnosis_ok d \<and> map_option qt_trace_id (get_query_trace i traces) = Some (dg_trace_id d)"
proof -
  have "dg_trace_id (parse_diagnosis env raw t) = qt_trace_id t" for raw t
    by (simp add: parse_diagnosis_def no_cause_diagnosis_def Let_def split: option.split)
  moreover have "dg_trace_id (no_cause_diagnosis j s) = j" for j s by (simp add: no_cause_diagnosis_def)
  ultimately show ?thesis
    by (simp add: diagnose_endpoint_def diagnose_def parse_diagnosis_ok no_cause_ok split: option.split)
qed

text \<open>A model that recommends nothing but names a cause is reported as having found it: the diagnosis without
  recommendations carries the model's text, not the text that says that no cause was determined.\<close>

theorem empty_recommendations_keep_cause:
  assumes "get_query_trace i traces = Some t" "iv_model env (build_diagnosis_prompt env t) = Some raw"
    "extract_json_object (iv_loads env) raw = Some payload" "parse_recommendations (iv_str env) (j_get ''recommendations'' payload) = []"
    "text_field (iv_str env) payload ''cause_description'' \<notin> {[], no_cause_description}"
  shows "\<exists>d. diagnose env traces i = Some d \<and> dg_recommendations d = [] \<and> dg_cause d = text_field (iv_str env) payload ''cause_description'' \<and>
    dg_cause d \<noteq> no_cause_description"
  using assms by (simp add: diagnose_def parse_diagnosis_def no_cause_diagnosis_def Let_def)

text \<open>The claims of a RAG answer never reach the investigator: the prompt made of the trace that was saved for it
  says that no claims were decomposed, and is the same whatever claims the answer had.\<close>

theorem claims_never_diagnosed:
  "contains_text no_claims_line (build_diagnosis_prompt env (save_query_trace question documents r hits)) \<and>
   build_diagnosis_prompt env (save_query_trace question documents (r\<lparr>rr_claims := cs\<rparr>) hits) =
     build_diagnosis_prompt env (save_query_trace question documents r hits)"
proof
  have join: "\<exists>u v. join_with sep (xs @ x # ys) = u @ x @ v" for sep x xs ys
  proof (induction xs)
    case Nil
    show ?case by (cases ys) (auto intro: exI[of _ "[]"])
  next
    case (Cons y xs)
    then obtain u v where uv: "join_with sep (xs @ x # ys) = u @ x @ v" by blast
    have "join_with sep ((y # xs) @ x # ys) = (y @ sep @ u) @ x @ v" by (cases xs) (use uv in auto)
    then show ?case by blast
  qed
  have split: "[a1, a2, a3, a4, a5, a6, a7, a8, a9, b1, b2, b3, b4, b5, x, c1, c2, c3, c4, c5, c6, c7, c8] =
    [a1, a2, a3, a4, a5, a6, a7, a8, a9, b1, b2, b3, b4, b5] @ x # [c1, c2, c3, c4, c5, c6, c7, c8]" for a1 a2 a3 a4 a5 a6 a7 a8 a9 b1 b2 b3 b4 b5 c1 c2 c3 c4 c5 c6 c7 c8 x :: string
    by simp
  have "qt_claims (save_query_trace question documents r hits) = []" by (simp add: save_query_trace_def)
  then have "\<exists>xs ys. build_diagnosis_prompt env (save_query_trace question documents r hits) = join_with [CHR 0x0A] (xs @ no_claims_line # ys)"
    unfolding build_diagnosis_prompt_def Let_def claim_lines_def split by (simp only: list.map list.case) (rule exI, rule exI, rule refl)
  then show "contains_text no_claims_line (build_diagnosis_prompt env (save_query_trace question documents r hits))"
    unfolding contains_text_iff using join by metis
qed (simp add: save_query_trace_def)

definition demo_investigator :: investigator_env where
  "demo_investigator = \<lparr>iv_loads = (\<lambda>_. Some (JObj [(''cause_description'', JStr ''stale index''), (''recommendations'', JArr [])])),
     iv_str = (\<lambda>v. case v of JStr s \<Rightarrow> s | _ \<Rightarrow> []), iv_float = (\<lambda>_. ''0.5''), iv_status = (\<lambda>_. ''supported''), iv_source = (\<lambda>_. ''pinecone''),
     iv_mode = (\<lambda>_. None), iv_model = (\<lambda>_. Some ''{}'')\<rparr>"

definition demo_saved :: query_trace where
  "demo_saved = \<lparr>qt_trace_id = ''t'', qt_question = ''q'', qt_route = ''rag'', qt_document_ids = None, qt_answer = ''a'',
     qt_evidence_status = ''grounded'', qt_confidence = None, qt_score = None, qt_reason = None, qt_citations = [], qt_hits = [], qt_sql = None,
     qt_claims = [], qt_abstention = None\<rparr>"

theorem empty_recommendations_keep_cause_witness:
  "\<exists>d. diagnose demo_investigator (write_query_trace demo_saved empty_store) ''t'' = Some d \<and> dg_cause d = ''stale index''"
proof -
  have s: "py_strip ''stale index'' = ''stale index''" "py_strip ''{}'' = ''{}''" by code_simp+
  let ?p = "[(''cause_description'', JStr ''stale index''), (''recommendations'', JArr [])]"
  have g: "get_query_trace ''t'' (write_query_trace demo_saved empty_store) = Some demo_saved" by (simp add: demo_saved_def)
  have "iv_model demo_investigator (build_diagnosis_prompt demo_investigator demo_saved) = Some ''{}''" by (simp add: demo_investigator_def)
  moreover have "extract_json_object (iv_loads demo_investigator) ''{}'' = Some ?p" by (simp add: extract_json_object_def demo_investigator_def s)
  moreover have "parse_recommendations (iv_str demo_investigator) (j_get ''recommendations'' ?p) = []" by (simp add: parse_recommendations_def j_get_def)
  moreover have t: "text_field (iv_str demo_investigator) ?p ''cause_description'' = ''stale index''" by (simp add: text_field_def j_get_def demo_investigator_def s)
  ultimately show ?thesis using empty_recommendations_keep_cause[OF g, of demo_investigator "''{}''" ?p]
    by (simp add: no_cause_description_def) blast
qed
end
