(* ===== verification/Judge.thy ===== *)
theory Judge
  imports Investigator Evaluation
begin

text \<open>
  The model as judge of evaluation results (\<open>llm_judge.py\<close>): when a report is due, the time limit around a
  call, the prompt, the reading of scores and their attachment to deterministic results. The model is an
  argument that gives its text and the time it takes.
\<close>

section \<open>Schedule\<close>

text \<open>Instants in microseconds, intervals in hours.\<close>

definition hour :: int where "hour = 3600000000"

definition judge_run_due :: "int option \<Rightarrow> int \<Rightarrow> int \<Rightarrow> bool" where
  "judge_run_due last_run now hours = (case last_run of None \<Rightarrow> True | Some l \<Rightarrow> hours * hour \<le> now - l)"

definition next_judge_run_at :: "int option \<Rightarrow> int \<Rightarrow> int \<Rightarrow> int" where
  "next_judge_run_at last_run now hours = (case last_run of None \<Rightarrow> now | Some l \<Rightarrow> l + hours * hour)"

section \<open>The time limit\<close>

text \<open>A call takes a time, or never ends, and then returns or raises. The runner gives up after the limit, but
  it leaves the block of its executor, which joins the worker: the caller gets the result when the
  call is over.\<close>

datatype 'a call_end = Returned 'a | Raised string

datatype 'a limited = Limited 'a | TimedOut | CallRaised string

record 'a timed_call =
  tl_takes :: "pyfloat option"
  tl_end :: "'a call_end"

definition default_timeout_runner :: "pyfloat \<Rightarrow> 'a timed_call \<Rightarrow> 'a limited \<times> pyfloat option" where
  "default_timeout_runner limit c =
     ((case tl_takes c of
         Some d \<Rightarrow> if d \<le> limit then (case tl_end c of Returned x \<Rightarrow> Limited x | Raised e \<Rightarrow> CallRaised e) else TimedOut
       | None \<Rightarrow> TimedOut), tl_takes c)"

section \<open>Prompt\<close>

record judged_hit =
  jh_document :: ident
  jh_chunk :: ident
  jh_score :: pyfloat
  jh_text :: string

text \<open>An observed answer: a response has citations and no hits, a stored trace has both.\<close>

record judged_answer =
  ja_answer :: string
  ja_hits :: "judged_hit list"
  ja_citations :: "(ident \<times> ident \<times> string option) list"

definition evidence_block :: "judged_answer \<Rightarrow> string" where
  "evidence_block a =
     (let nl = [CHR 0x0A]
      in if ja_hits a \<noteq> [] then
           join_with nl (map (\<lambda>(n, h). ''  '' @ show_nat n @ ''. document='' @ jh_document h @ '' chunk='' @ jh_chunk h @ '' score='' @
             fixed4 (jh_score h) @ nl @ ''     '' @ jh_text h) (zip [1..<Suc (length (ja_hits a))] (ja_hits a)))
         else if ja_citations a \<noteq> [] then
           join_with nl (map (\<lambda>(d, c, t). ''  - document='' @ d @ '' chunk='' @ c @ (case or_none t of Some s \<Rightarrow> '' title='' @ s | None \<Rightarrow> []))
             (ja_citations a))
         else ''  (no evidence cited)'')"

definition build_judge_prompt :: "benchmark_case \<Rightarrow> judged_answer \<Rightarrow> string" where
  "build_judge_prompt c a = join_with [CHR 0x0A]
     [''You are an impartial LLM judge evaluating the answer produced by a retrieval-augmented generation (RAG) system. Score the answer on two independent dimensions, each a number from 0.0 to 1.0 inclusive:'',
      ''- faithfulness: how well the answer is grounded in and supported by the cited evidence below (1.0 = fully grounded, 0.0 = unsupported / hallucinated).'',
      ''- relevance: how well the answer addresses the question (1.0 = fully responsive, 0.0 = off-topic).'',
      [],
      ''Question: '' @ gc_question c,
      [],
      ''Expected answer (reference, may be partial): '' @ (case or_none (bc_expected_answer c) of Some e \<Rightarrow> e | None \<Rightarrow> ''(no expected answer provided)''),
      [],
      ''Produced answer:'',
      ja_answer a,
      [],
      ''Cited evidence:'',
      evidence_block a,
      [],
      ''Return ONLY valid JSON with no markdown formatting:'',
      ''{\"faithfulness\": <float 0.0-1.0>, \"relevance\": <float 0.0-1.0>}'']"

section \<open>Scores\<close>

record judge_scores =
  js_faithfulness :: "pyfloat option"
  js_relevance :: "pyfloat option"
  js_error :: "string option"

definition judge_error :: "string \<Rightarrow> judge_scores" where
  "judge_error e = \<lparr>js_faithfulness = None, js_relevance = None, js_error = Some e\<rparr>"

text \<open>The integers that \<open>float\<close> refuses: those that round to \<open>2 ^ 1024\<close> or beyond.\<close>

definition beyond_float :: "int \<Rightarrow> bool" where "beyond_float n \<longleftrightarrow> 2 ^ 1024 - 2 ^ 970 \<le> \<bar>n\<bar>"

text \<open>\<open>max(0.0, min(1.0, x))\<close>: with a NaN the inner minimum keeps its first argument. \<open>Inl\<close> is the
  \<open>OverflowError\<close> of \<open>float\<close>.\<close>

definition coerce_score :: "json option \<Rightarrow> unit + pyfloat option" where
  "coerce_score v =
     (case v of
        Some (JInt n) \<Rightarrow> if beyond_float n then Inl () else Inr (Some (max 0 (min 1 (of_int n))))
      | Some (JFloat x) \<Rightarrow> Inr (Some (max 0 (min 1 x)))
      | Some JNan \<Rightarrow> Inr (Some 1)
      | Some (JInfinite negative) \<Rightarrow> Inr (Some (if negative then 0 else 1))
      | _ \<Rightarrow> Inr None)"

definition parse_scores :: "json_loads \<Rightarrow> string \<Rightarrow> unit + judge_scores" where
  "parse_scores loads raw =
     (case extract_json_object loads raw of
        None \<Rightarrow> Inr (judge_error ''llm_judge_unparseable_output'')
      | Some p \<Rightarrow>
          bind_result (coerce_score (j_get ''faithfulness'' p)) (\<lambda>f.
          bind_result (coerce_score (j_get ''relevance'' p)) (\<lambda>r.
            Inr (if f = None \<and> r = None then judge_error ''llm_judge_no_scores''
                 else \<lparr>js_faithfulness = f, js_relevance = r, js_error = None\<rparr>))))"

record judge_env =
  ju_loads :: json_loads
  ju_model :: "string \<Rightarrow> string timed_call"
  ju_timeout :: pyfloat

text \<open>The scores of a case, or an exception that escapes, and the time until then.\<close>

definition score_case :: "judge_env \<Rightarrow> benchmark_case \<Rightarrow> judged_answer \<Rightarrow> (unit + judge_scores) \<times> pyfloat option" where
  "score_case env c a =
     (let (out, waited) = default_timeout_runner (ju_timeout env) (ju_model env (build_judge_prompt c a))
      in (case out of
            TimedOut \<Rightarrow> Inr (judge_error ''llm_judge_timeout'')
          | CallRaised e \<Rightarrow> Inr (judge_error (''llm_judge_error: '' @ e))
          | Limited raw \<Rightarrow> parse_scores (ju_loads env) raw, waited))"

record judged_result = eval_result +
  er_judge :: "judge_scores option"

text \<open>The dict of the cases keeps the last of those that share an identifier.\<close>

fun score_results :: "judge_env \<Rightarrow> benchmark_case list \<Rightarrow> (ident \<rightharpoonup> judged_answer) \<Rightarrow> judged_result list \<Rightarrow> unit + judged_result list" where
  "score_results env cases answers [] = Inr []"
| "score_results env cases answers (r # rs) =
     bind_result
       (case (map_of (rev (map (\<lambda>c. (gc_id c, c)) cases)) (er_case_id r), answers (er_case_id r)) of
          (Some c, Some a) \<Rightarrow> fst (score_case env c a)
        | _ \<Rightarrow> Inr (judge_error ''llm_judge_missing_observation''))
       (\<lambda>s. bind_result (score_results env cases answers rs) (\<lambda>xs. Inr (r\<lparr>er_judge := Some s\<rparr> # xs)))"

definition score_results_if :: "bool \<Rightarrow> judge_env \<Rightarrow> benchmark_case list \<Rightarrow> (ident \<rightharpoonup> judged_answer) \<Rightarrow> judged_result list
    \<Rightarrow> unit + judged_result list" where
  "score_results_if enabled env cases answers results = (if enabled then score_results env cases answers results else Inr results)"

section \<open>Properties\<close>

definition scores_ok :: "judge_scores \<Rightarrow> bool" where
  "scores_ok s \<longleftrightarrow> list_all (\<lambda>v. case v of Some x \<Rightarrow> 0 \<le> x \<and> x \<le> 1 | None \<Rightarrow> True) [js_faithfulness s, js_relevance s] \<and>
     (js_error s = None \<longleftrightarrow> js_faithfulness s \<noteq> None \<or> js_relevance s \<noteq> None)"

lemma coerce_score_range: "coerce_score v = Inr (Some x) \<Longrightarrow> 0 \<le> x \<and> x \<le> 1"
  by (auto simp: coerce_score_def split: option.splits json.splits if_splits)

lemma judge_error_ok [simp]: "scores_ok (judge_error e)"
  by (simp add: scores_ok_def judge_error_def)

lemma parse_scores_ok: "parse_scores loads raw = Inr s \<Longrightarrow> scores_ok s"
  by (auto simp: parse_scores_def bind_result_Inr_iff scores_ok_def judge_error_def dest: coerce_score_range
      split: option.splits if_splits)

lemma score_case_ok: "fst (score_case env c a) = Inr s \<Longrightarrow> scores_ok s"
  by (auto simp: score_case_def case_prod_beta dest: parse_scores_ok split: limited.splits)

lemma score_case_fails:
  assumes "fst (score_case env c a) = Inl u"
  shows "\<exists>raw p. tl_end (ju_model env (build_judge_prompt c a)) = Returned raw \<and> extract_json_object (ju_loads env) raw = Some p \<and>
    (coerce_score (j_get ''faithfulness'' p) = Inl () \<or> coerce_score (j_get ''relevance'' p) = Inl ())"
proof -
  obtain raw where raw: "fst (default_timeout_runner (ju_timeout env) (ju_model env (build_judge_prompt c a))) = Limited raw"
    "parse_scores (ju_loads env) raw = Inl u" using assms by (auto simp: score_case_def case_prod_beta split: limited.splits)
  have "tl_end (ju_model env (build_judge_prompt c a)) = Returned raw"
    using raw(1) by (auto simp: default_timeout_runner_def split: option.splits if_splits call_end.splits)
  moreover obtain p where "extract_json_object (ju_loads env) raw = Some p"
    "coerce_score (j_get ''faithfulness'' p) = Inl () \<or> coerce_score (j_get ''relevance'' p) = Inl ()"
    using raw(2) by (auto simp: parse_scores_def bind_result_def split: option.splits sum.splits)
  ultimately show ?thesis by blast
qed

text \<open>Judging adds scores and changes nothing else: when it returns, the results are the given ones in order with
  scores between zero and one or an error in their place; it fails only when the model answered with an
  integer beyond the floats.\<close>

theorem judging_preserves_results:
  "case score_results_if enabled env cases answers results of
     Inr xs \<Rightarrow> map eval_result.truncate xs = map eval_result.truncate results \<and>
       (if enabled then list_all (\<lambda>x. case er_judge x of Some s \<Rightarrow> scores_ok s | None \<Rightarrow> False) xs else xs = results)
   | Inl _ \<Rightarrow> enabled \<and> list_ex (\<lambda>r. \<exists>c a raw p. answers (er_case_id r) = Some a \<and>
       tl_end (ju_model env (build_judge_prompt c a)) = Returned raw \<and> extract_json_object (ju_loads env) raw = Some p \<and>
       (coerce_score (j_get ''faithfulness'' p) = Inl () \<or> coerce_score (j_get ''relevance'' p) = Inl ())) results"
proof (cases enabled)
  case True
  show ?thesis
  proof (induction results)
    case (Cons r rs)
    let ?one = "case (map_of (rev (map (\<lambda>c. (gc_id c, c)) cases)) (er_case_id r), answers (er_case_id r)) of
          (Some c, Some a) \<Rightarrow> fst (score_case env c a) | _ \<Rightarrow> Inr (judge_error ''llm_judge_missing_observation'')"
    show ?case
    proof (cases ?one)
      case (Inl u)
      then obtain c a where "answers (er_case_id r) = Some a" "fst (score_case env c a) = Inl u" by (auto split: option.splits)
      then show ?thesis using Inl True score_case_fails[of env c a u] by (simp add: score_results_if_def) blast
    next
      case (Inr s)
      then have "scores_ok s" by (auto split: option.splits dest: score_case_ok)
      then show ?thesis using Inr True Cons by (auto simp: score_results_if_def eval_result.truncate_def split: sum.splits)
    qed
  qed (simp add: score_results_if_def True)
qed (simp add: score_results_if_def)
end
