(* ===== verification/SqlLabInsight.thy ===== *)
theory SqlLabInsight
  imports SqlLabService Json "HOL-Library.Product_Lexorder"
begin

text \<open>
  The rest of the SQL Lab: the declarative chart specification and its strict validation
  (\<open>sql_lab/chart_spec.py\<close>), the analysis of a result set with its bounded payload (\<open>sql_lab/analyzer.py\<close>), the
  listing of the schema visible to the viewer role (\<open>sql_lab/schema_lister.py\<close>), and the routes in front of them.
  The model, \<open>json.loads\<close>, \<open>json.dumps\<close> and the lenient number readings of the request library are parameters.
\<close>

section \<open>Unsafe text\<close>

text \<open>
  \<open>_UNSAFE_TEXT_PATTERN.search\<close>, which ignores case: at some position an HTML tag opens, a script address or an
  event handler begins, or a character entity stands.
\<close>

definition is_letter :: "char \<Rightarrow> bool" where
  "is_letter c \<longleftrightarrow> (let n = (of_char (lower_char c) :: nat) in 97 \<le> n \<and> n \<le> 122)"

definition is_name_char :: "char \<Rightarrow> bool" where
  "is_name_char c \<longleftrightarrow> is_letter c \<or> is_digit c \<or> c = CHR ''_''"

definition is_hex_digit :: "char \<Rightarrow> bool" where
  "is_hex_digit c \<longleftrightarrow> is_digit c \<or> (let n = (of_char (lower_char c) :: nat) in 97 \<le> n \<and> n \<le> 102)"

definition starts_nocase :: "string \<Rightarrow> string \<Rightarrow> bool" where
  "starts_nocase p s \<longleftrightarrow> py_startswith (py_lower s) p"

fun opens_tag :: "string \<Rightarrow> bool" where
  "opens_tag (a # b # s) =
     (a = CHR ''<'' \<and>
      (is_letter b \<or> b = CHR ''!'' \<or>
       b = CHR ''/'' \<and> (case s of [] \<Rightarrow> False | c # _ \<Rightarrow> is_letter c \<or> c = CHR ''!'')))"
| "opens_tag _ = False"

text \<open>A run of characters of one kind, at least one, and then a given character.\<close>

definition run_then :: "(char \<Rightarrow> bool) \<Rightarrow> char \<Rightarrow> string \<Rightarrow> bool" where
  "run_then p c s \<longleftrightarrow> takeWhile p s \<noteq> [] \<and> take 1 (dropWhile p s) = [c]"

definition sets_handler :: "string \<Rightarrow> bool" where
  "sets_handler s \<longleftrightarrow> starts_nocase ''on'' s \<and> takeWhile is_name_char (drop 2 s) \<noteq> [] \<and>
     take 1 (dropWhile is_space (dropWhile is_name_char (drop 2 s))) = ''=''"

definition is_entity :: "string \<Rightarrow> bool" where
  "is_entity s \<longleftrightarrow>
     starts_nocase ''&lt;'' s \<or> starts_nocase ''&gt;'' s \<or>
     starts_nocase ''&#'' s \<and> run_then is_digit (CHR '';'') (drop 2 s) \<or>
     starts_nocase ''&#x'' s \<and> run_then is_hex_digit (CHR '';'') (drop 3 s)"

definition unsafe_here :: "string \<Rightarrow> bool" where
  "unsafe_here s \<longleftrightarrow>
     opens_tag s \<or> starts_nocase ''javascript:'' s \<or> starts_nocase ''data:text/html'' s \<or>
     sets_handler s \<or> is_entity s"

fun unsafe_text :: "string \<Rightarrow> bool" where
  "unsafe_text [] = False"
| "unsafe_text (c # cs) = (unsafe_here (c # cs) \<or> unsafe_text cs)"

section \<open>The chart specification\<close>

datatype agg_op = OpSum | OpCount | OpAvg | OpMin | OpMax
datatype chart_type = ChartBar | ChartLine | ChartPie

fun op_name :: "agg_op \<Rightarrow> string" where
  "op_name OpSum = ''sum''"
| "op_name OpCount = ''count''"
| "op_name OpAvg = ''avg''"
| "op_name OpMin = ''min''"
| "op_name OpMax = ''max''"

fun chart_type_name :: "chart_type \<Rightarrow> string" where
  "chart_type_name ChartBar = ''bar''"
| "chart_type_name ChartLine = ''line''"
| "chart_type_name ChartPie = ''pie''"

record kpi_spec =
  kp_label :: string
  kp_op :: agg_op
  kp_column :: string

record series_spec =
  se_column :: string
  se_op :: agg_op

record chart_def =
  cd_type :: chart_type
  cd_title :: string
  cd_x :: string
  cd_series :: "series_spec list"

record chart_spec =
  sp_kpis :: "kpi_spec list"
  sp_charts :: "chart_def list"
  sp_insight :: "string option"

definition max_insight_length :: nat where "max_insight_length = 200"
definition min_charts :: nat where "min_charts = 1"
definition max_charts :: nat where "max_charts = 3"

text \<open>The readers of the fields: a value of another type, an empty or unsafe text and a name outside the
  bounded sets are refused, and so is a key the model class does not declare.\<close>

definition only_keys :: "string list \<Rightarrow> (string \<times> json) list \<Rightarrow> bool" where
  "only_keys ks kvs \<longleftrightarrow> list_all (\<lambda>kv. fst kv \<in> set ks) kvs"

fun read_text :: "json option \<Rightarrow> string option" where
  "read_text (Some (JStr s)) = (if s \<noteq> [] \<and> \<not> unsafe_text s then Some s else None)"
| "read_text _ = None"

fun read_name :: "('a \<Rightarrow> string) \<Rightarrow> 'a list \<Rightarrow> json option \<Rightarrow> 'a option" where
  "read_name name xs (Some (JStr s)) = List.find (\<lambda>x. name x = s) xs"
| "read_name name xs _ = None"

abbreviation read_op :: "json option \<Rightarrow> agg_op option" where
  "read_op \<equiv> read_name op_name [OpSum, OpCount, OpAvg, OpMin, OpMax]"

fun read_list :: "(json \<Rightarrow> 'a option) \<Rightarrow> json option \<Rightarrow> 'a list option" where
  "read_list f (Some (JArr xs)) = those (map f xs)"
| "read_list f _ = None"

fun read_kpi :: "json \<Rightarrow> kpi_spec option" where
  "read_kpi (JObj kvs) =
     (case (only_keys [''label'', ''op'', ''column''] kvs, read_text (j_get ''label'' kvs), read_op (j_get ''op'' kvs),
            read_text (j_get ''column'' kvs)) of
        (True, Some l, Some oper, Some c) \<Rightarrow> Some \<lparr>kp_label = l, kp_op = oper, kp_column = c\<rparr>
      | _ \<Rightarrow> None)"
| "read_kpi _ = None"

fun read_series :: "json \<Rightarrow> series_spec option" where
  "read_series (JObj kvs) =
     (case (only_keys [''column'', ''op''] kvs, read_text (j_get ''column'' kvs), read_op (j_get ''op'' kvs)) of
        (True, Some c, Some oper) \<Rightarrow> Some \<lparr>se_column = c, se_op = oper\<rparr>
      | _ \<Rightarrow> None)"
| "read_series _ = None"

fun read_chart :: "json \<Rightarrow> chart_def option" where
  "read_chart (JObj kvs) =
     (case (only_keys [''type'', ''title'', ''xColumn'', ''series''] kvs,
            read_name chart_type_name [ChartBar, ChartLine, ChartPie] (j_get ''type'' kvs),
            read_text (j_get ''title'' kvs), read_text (j_get ''xColumn'' kvs),
            read_list read_series (j_get ''series'' kvs)) of
        (True, Some t, Some title, Some x, Some ss) \<Rightarrow>
          if ss = [] then None else Some \<lparr>cd_type = t, cd_title = title, cd_x = x, cd_series = ss\<rparr>
      | _ \<Rightarrow> None)"
| "read_chart _ = None"

fun read_insight :: "json option \<Rightarrow> string option option" where
  "read_insight None = Some None"
| "read_insight (Some JNull) = Some None"
| "read_insight (Some (JStr s)) =
     (if length s \<le> max_insight_length \<and> \<not> unsafe_text s then Some (Some s) else None)"
| "read_insight _ = None"

definition read_chart_spec :: "(string \<times> json) list \<Rightarrow> chart_spec option" where
  "read_chart_spec kvs =
     (case (only_keys [''kpis'', ''charts'', ''insight''] kvs,
            case j_get ''kpis'' kvs of None \<Rightarrow> Some [] | v \<Rightarrow> read_list read_kpi v,
            read_list read_chart (j_get ''charts'' kvs), read_insight (j_get ''insight'' kvs)) of
        (True, Some ks, Some cs, Some i) \<Rightarrow>
          if min_charts \<le> length cs \<and> length cs \<le> max_charts
          then Some \<lparr>sp_kpis = ks, sp_charts = cs, sp_insight = i\<rparr> else None
      | _ \<Rightarrow> None)"

text \<open>What a model returns: a text, a decoded object, or a value of another type (\<open>None\<close> for an answer without text).\<close>

datatype raw_output = RawText string | RawDict "(string \<times> json) list" | RawOther

datatype analysis_error = ChartSpecInvalid | AnalysisFailed

definition validate_chart_spec :: "json_loads \<Rightarrow> raw_output \<Rightarrow> analysis_error + chart_spec" where
  "validate_chart_spec loads raw =
     (let data = (case raw of RawText s \<Rightarrow> loads s | RawDict kvs \<Rightarrow> Some (JObj kvs) | RawOther \<Rightarrow> None)
      in case data of
           Some (JObj kvs) \<Rightarrow> (case read_chart_spec kvs of Some spec \<Rightarrow> Inr spec | None \<Rightarrow> Inl ChartSpecInvalid)
         | _ \<Rightarrow> Inl ChartSpecInvalid)"

text \<open>The object the response carries.\<close>

definition kpi_json :: "kpi_spec \<Rightarrow> json" where
  "kpi_json k = JObj [(''label'', JStr (kp_label k)), (''op'', JStr (op_name (kp_op k))), (''column'', JStr (kp_column k))]"

definition series_json :: "series_spec \<Rightarrow> json" where
  "series_json s = JObj [(''column'', JStr (se_column s)), (''op'', JStr (op_name (se_op s)))]"

definition chart_json :: "chart_def \<Rightarrow> json" where
  "chart_json c =
     JObj [(''type'', JStr (chart_type_name (cd_type c))), (''title'', JStr (cd_title c)), (''xColumn'', JStr (cd_x c)),
           (''series'', JArr (map series_json (cd_series c)))]"

definition chart_spec_json :: "chart_spec \<Rightarrow> (string \<times> json) list" where
  "chart_spec_json s =
     [(''kpis'', JArr (map kpi_json (sp_kpis s))), (''charts'', JArr (map chart_json (sp_charts s))),
      (''insight'', case sp_insight s of None \<Rightarrow> JNull | Some t \<Rightarrow> JStr t)]"
section \<open>The pattern as a language\<close>

text \<open>The words the pattern matches, alternative by alternative.\<close>

definition tag_words :: "string set" where
  "tag_words = {''<'' @ sl @ [c] | sl c. sl \<in> {'''', ''/''} \<and> (is_letter c \<or> c = CHR ''!'')}"

definition handler_words :: "string set" where
  "handler_words = {on0 @ w @ sp @ ''='' | on0 w sp. py_lower on0 = ''on'' \<and> w \<noteq> [] \<and> list_all is_name_char w \<and> list_all is_space sp}"

definition entity_words :: "string set" where
  "entity_words =
     {w. py_lower w \<in> {''&lt;'', ''&gt;''}} \<union>
     {''&#'' @ ds @ '';'' | ds. ds \<noteq> [] \<and> list_all is_digit ds} \<union>
     {''&#'' @ x @ ds @ '';'' | x ds. py_lower x = ''x'' \<and> ds \<noteq> [] \<and> list_all is_hex_digit ds}"

definition unsafe_words :: "string set" where
  "unsafe_words = tag_words \<union> {w. py_lower w \<in> {''javascript:'', ''data:text/html''}} \<union> handler_words \<union> entity_words"

definition markup_free :: "string \<Rightarrow> bool" where
  "markup_free t \<longleftrightarrow> (\<forall>w \<in> unsafe_words. \<not> sublist w t)"

lemma lower_char_fixed: "lower_char c = c \<longleftrightarrow> \<not> (65 \<le> (of_char c :: nat) \<and> of_char c \<le> (90 :: nat))"
proof
  assume a: "lower_char c = c"
  show "\<not> (65 \<le> (of_char c :: nat) \<and> of_char c \<le> (90 :: nat))"
  proof
    assume b: "65 \<le> (of_char c :: nat) \<and> of_char c \<le> (90 :: nat)"
    then have "(of_char c :: nat) = of_char (char_of (of_char c + 32 :: nat) :: char)"
      using a by (simp add: lower_char_def Let_def)
    then show False using b by simp
  qed
qed (auto simp: lower_char_def Let_def)

lemma lower_char_plain:
  assumes "lower_char c = d" "\<not> 97 \<le> (of_char d :: nat) \<or> (122 :: nat) < of_char d"
  shows "c = d"
proof -
  have "of_char d = (of_char c + 32 :: nat)" if "65 \<le> (of_char c :: nat)" "of_char c \<le> (90 :: nat)"
    using assms(1) that by (auto simp: lower_char_def Let_def)
  then show ?thesis using assms lower_char_fixed[of c] by force
qed

lemma starts_nocase_prefix: "starts_nocase p s \<longleftrightarrow> (\<exists>w. py_lower w = p \<and> prefix w s)"
proof
  assume a: "starts_nocase p s"
  then have "py_lower (take (length p) s) = p" by (simp add: starts_nocase_def py_startswith_def py_lower_def take_map)
  then show "\<exists>w. py_lower w = p \<and> prefix w s" using take_is_prefix by blast
next
  assume "\<exists>w. py_lower w = p \<and> prefix w s"
  then obtain w r where "py_lower w = p" "s = w @ r" by (auto simp: prefix_def)
  then show "starts_nocase p s" by (auto simp: starts_nocase_def py_startswith_def py_lower_def)
qed

lemma takeWhile_run:
  assumes "list_all p w" "\<not> p c"
  shows "takeWhile p (w @ c # r) = w" "dropWhile p (w @ c # r) = c # r"
  using assms by (simp_all add: list_all_iff takeWhile_append dropWhile_append)

lemma take_one_iff: "take (Suc 0) s = [c] \<longleftrightarrow> (\<exists>r. s = c # r)"
  by (cases s) auto

lemma run_then_iff:
  assumes "\<not> p c"
  shows "run_then p c s \<longleftrightarrow> (\<exists>w r. w \<noteq> [] \<and> list_all p w \<and> s = w @ c # r)"
proof
  assume a: "run_then p c s"
  then obtain r where "dropWhile p s = c # r" by (auto simp: run_then_def take_one_iff)
  then have "s = takeWhile p s @ c # r" by (metis takeWhile_dropWhile_id)
  moreover have "list_all p (takeWhile p s)" by (auto simp: list_all_iff dest: set_takeWhileD)
  ultimately show "\<exists>w r. w \<noteq> [] \<and> list_all p w \<and> s = w @ c # r" using a unfolding run_then_def by blast
next
  assume "\<exists>w r. w \<noteq> [] \<and> list_all p w \<and> s = w @ c # r"
  then obtain w r where "w \<noteq> []" "list_all p w" "s = w @ c # r" by blast
  then show "run_then p c s" by (simp add: run_then_def takeWhile_run[where p = p and c = c, OF _ assms])
qed

lemma opens_tag_iff: "opens_tag s \<longleftrightarrow> (\<exists>w \<in> tag_words. prefix w s)"
proof
  assume "opens_tag s"
  then obtain a b t where s: "s = a # b # t" "a = CHR ''<''"
    and c: "is_letter b \<or> b = CHR ''!'' \<or> b = CHR ''/'' \<and> (case t of [] \<Rightarrow> False | d # _ \<Rightarrow> is_letter d \<or> d = CHR ''!'')"
    by (cases s rule: opens_tag.cases) auto
  show "\<exists>w \<in> tag_words. prefix w s"
  proof (cases "is_letter b \<or> b = CHR ''!''")
    case True
    then have "''<'' @ '''' @ [b] \<in> tag_words" unfolding tag_words_def by blast
    then show ?thesis using s by (intro bexI[of _ "''<'' @ '''' @ [b]"]) auto
  next
    case False
    then obtain d t' where t: "b = CHR ''/''" "t = d # t'" "is_letter d \<or> d = CHR ''!''" using c by (cases t) auto
    then have "''<'' @ ''/'' @ [d] \<in> tag_words" unfolding tag_words_def by blast
    then show ?thesis using s t by (intro bexI[of _ "''<'' @ ''/'' @ [d]"]) auto
  qed
next
  assume "\<exists>w \<in> tag_words. prefix w s"
  then obtain sl c r where "sl \<in> {'''', ''/''}" "is_letter c \<or> c = CHR ''!''" "s = ''<'' @ sl @ [c] @ r"
    unfolding tag_words_def prefix_def by (elim bexE CollectE exE conjE) (erule that, assumption, simp)
  then show "opens_tag s" by auto
qed

lemma name_char_space: "is_name_char c \<Longrightarrow> \<not> is_space c"
proof
  assume n: "is_name_char c" and s: "is_space c"
  have "lower_char c = c" using s by (auto simp: lower_char_fixed is_space_def Let_def)
  then show False using n s by (auto simp: is_name_char_def is_letter_def is_digit_def is_space_def Let_def)
qed

lemma eq_sign_plain: "\<not> is_name_char CHR ''=''" "\<not> is_space CHR ''=''"
  by code_simp+

lemma sets_handler_iff: "sets_handler s \<longleftrightarrow> (\<exists>w \<in> handler_words. prefix w s)"
proof
  assume a: "sets_handler s"
  let ?r = "drop 2 s"
  obtain on0 where o: "py_lower on0 = ''on''" "prefix on0 s" using a by (auto simp: sets_handler_def starts_nocase_prefix)
  then have len: "length on0 = 2" using length_py_lower[of on0] by simp
  have s: "s = on0 @ ?r" using o(2) len by (metis prefix_def append_eq_conv_conj)
  obtain r where "dropWhile is_space (dropWhile is_name_char ?r) = CHR ''='' # r"
    using a by (auto simp: sets_handler_def take_one_iff)
  then have "?r = takeWhile is_name_char ?r @ takeWhile is_space (dropWhile is_name_char ?r) @ CHR ''='' # r"
    by (metis takeWhile_dropWhile_id)
  then have "s = (on0 @ takeWhile is_name_char ?r @ takeWhile is_space (dropWhile is_name_char ?r) @ ''='') @ r"
    using s by simp
  moreover have "list_all is_name_char (takeWhile is_name_char ?r)" "list_all is_space (takeWhile is_space (dropWhile is_name_char ?r))"
    by (auto simp: list_all_iff dest: set_takeWhileD)
  moreover have "takeWhile is_name_char ?r \<noteq> []" using a by (simp add: sets_handler_def)
  ultimately show "\<exists>w \<in> handler_words. prefix w s" using o(1) unfolding handler_words_def prefix_def by blast
next
  assume "\<exists>w \<in> handler_words. prefix w s"
  then obtain on0 w sp r where o: "py_lower on0 = ''on''" and w: "w \<noteq> []" "list_all is_name_char w"
    and sp: "list_all is_space sp" and s: "s = on0 @ w @ sp @ CHR ''='' # r"
    unfolding handler_words_def prefix_def by auto
  have len: "length on0 = 2" using o length_py_lower[of on0] by simp
  have d: "drop 2 s = w @ sp @ CHR ''='' # r" using s len by simp
  have "takeWhile is_name_char (drop 2 s) = w \<and> dropWhile is_name_char (drop 2 s) = sp @ CHR ''='' # r"
  proof (cases sp)
    case Nil
    then show ?thesis using d takeWhile_run[OF w(2) eq_sign_plain(1)] by simp
  next
    case (Cons x xs)
    then have "\<not> is_name_char x" using sp name_char_space by auto
    then show ?thesis using d Cons takeWhile_run[OF w(2)] by simp
  qed
  moreover have "dropWhile is_space (sp @ CHR ''='' # r) = CHR ''='' # r"
    by (rule takeWhile_run(2)[OF sp eq_sign_plain(2)])
  moreover have "starts_nocase ''on'' s" using o s by (auto simp: starts_nocase_prefix)
  ultimately show "sets_handler s" using w(1) by (simp add: sets_handler_def)
qed
lemma starts_hash: "starts_nocase ''&#'' s \<longleftrightarrow> (\<exists>r. s = ''&#'' @ r)"
proof
  assume "starts_nocase ''&#'' s"
  then obtain a b r where s: "s = a # b # r" "lower_char a = CHR ''&''" "lower_char b = CHR ''#''"
    by (auto simp: starts_nocase_def py_startswith_def py_lower_def map_eq_Cons_conv take_map[symmetric] take_Suc_conv_app_nth
        split: list.splits) (cases s; cases "tl s"; auto)+
  have "a = CHR ''&''" "b = CHR ''#''" by (rule lower_char_plain[OF s(2)], simp, rule lower_char_plain[OF s(3)], simp)
  then show "\<exists>r. s = ''&#'' @ r" using s(1) by simp
qed (auto simp: starts_nocase_def py_startswith_def py_lower_def lower_char_def)

lemma starts_hash_x: "starts_nocase ''&#x'' s \<longleftrightarrow> (\<exists>x r. py_lower x = ''x'' \<and> s = ''&#'' @ x @ r)"
proof
  assume a: "starts_nocase ''&#x'' s"
  then have "starts_nocase ''&#'' s"
    by (auto simp: starts_nocase_def py_startswith_def py_lower_def) (cases s; cases "tl s"; auto)
  then obtain r where r: "s = ''&#'' @ r" using starts_hash by blast
  then have "py_lower (take 1 r) = ''x''"
    using a by (auto simp: starts_nocase_def py_startswith_def py_lower_def lower_char_def take_map)
  then show "\<exists>x r. py_lower x = ''x'' \<and> s = ''&#'' @ x @ r" using r by (metis append_take_drop_id)
next
  assume "\<exists>x r. py_lower x = ''x'' \<and> s = ''&#'' @ x @ r"
  then show "starts_nocase ''&#x'' s" by (auto simp: starts_nocase_def py_startswith_def py_lower_def lower_char_def)
qed

lemma semicolon_plain: "\<not> is_digit CHR '';''" "\<not> is_hex_digit CHR '';''"
  by code_simp+

lemma is_entity_iff: "is_entity s \<longleftrightarrow> (\<exists>w \<in> entity_words. prefix w s)"
proof -
  have d: "starts_nocase ''&#'' s \<and> run_then is_digit (CHR '';'') (drop 2 s) \<longleftrightarrow>
      (\<exists>ds r. ds \<noteq> [] \<and> list_all is_digit ds \<and> s = ''&#'' @ ds @ '';'' @ r)"
    by (auto simp: starts_hash run_then_iff[where p = is_digit, OF semicolon_plain(1)])
  have x: "starts_nocase ''&#x'' s \<and> run_then is_hex_digit (CHR '';'') (drop 3 s) \<longleftrightarrow>
      (\<exists>x ds r. py_lower x = ''x'' \<and> ds \<noteq> [] \<and> list_all is_hex_digit ds \<and> s = ''&#'' @ x @ ds @ '';'' @ r)" (is "?L \<longleftrightarrow> ?R")
  proof
    assume a: ?L
    then obtain x r where r: "py_lower x = ''x''" "s = ''&#'' @ x @ r" using starts_hash_x by blast
    then have "drop 3 s = r" using length_py_lower[of x] by (cases x) auto
    then obtain ds t where "ds \<noteq> []" "list_all is_hex_digit ds" "r = ds @ CHR '';'' # t"
      using a run_then_iff[where p = is_hex_digit and s = r, OF semicolon_plain(2)] by auto
    then show ?R using r by (intro exI[of _ x] exI[of _ ds] exI[of _ t]) simp
  next
    assume ?R
    then obtain x ds r where r: "py_lower x = ''x''" "ds \<noteq> []" "list_all is_hex_digit ds" "s = ''&#'' @ x @ ds @ '';'' @ r" by blast
    then have d: "drop 3 s = ds @ CHR '';'' # r" using length_py_lower[of x] by (cases x) auto
    have "starts_nocase ''&#x'' s" unfolding starts_hash_x using r(1,4) by blast
    moreover have "run_then is_hex_digit (CHR '';'') (drop 3 s)"
      unfolding d run_then_iff[where p = is_hex_digit, OF semicolon_plain(2)] using r(2,3) by blast
    ultimately show ?L by simp
  qed
  have e1: "(\<exists>w \<in> {w. py_lower w \<in> {''&lt;'', ''&gt;''}}. prefix w s) \<longleftrightarrow>
      (\<exists>w. py_lower w = ''&lt;'' \<and> prefix w s) \<or> (\<exists>w. py_lower w = ''&gt;'' \<and> prefix w s)" by blast
  have e2: "(\<exists>w \<in> {''&#'' @ ds @ '';'' | ds. ds \<noteq> [] \<and> list_all is_digit ds}. prefix w s) \<longleftrightarrow>
      (\<exists>ds r. ds \<noteq> [] \<and> list_all is_digit ds \<and> s = ''&#'' @ ds @ '';'' @ r)"
    by (simp add: prefix_def Bex_def ex_simps(1)[symmetric] del: ex_simps) blast
  have e3: "(\<exists>w \<in> {''&#'' @ x @ ds @ '';'' | x ds. py_lower x = ''x'' \<and> ds \<noteq> [] \<and> list_all is_hex_digit ds}. prefix w s) \<longleftrightarrow>
      (\<exists>x ds r. py_lower x = ''x'' \<and> ds \<noteq> [] \<and> list_all is_hex_digit ds \<and> s = ''&#'' @ x @ ds @ '';'' @ r)"
    by (simp add: prefix_def Bex_def ex_simps(1)[symmetric] del: ex_simps) blast
  have e: "(\<exists>w \<in> entity_words. prefix w s) \<longleftrightarrow>
      (\<exists>w. py_lower w = ''&lt;'' \<and> prefix w s) \<or> (\<exists>w. py_lower w = ''&gt;'' \<and> prefix w s) \<or>
      (\<exists>ds r. ds \<noteq> [] \<and> list_all is_digit ds \<and> s = ''&#'' @ ds @ '';'' @ r) \<or>
      (\<exists>x ds r. py_lower x = ''x'' \<and> ds \<noteq> [] \<and> list_all is_hex_digit ds \<and> s = ''&#'' @ x @ ds @ '';'' @ r)"
    unfolding entity_words_def bex_Un e1 e2 e3 by blast
  show ?thesis unfolding e is_entity_def starts_nocase_prefix[of "''&lt;''"] starts_nocase_prefix[of "''&gt;''"] d x ..
qed

lemma unsafe_here_iff: "unsafe_here s \<longleftrightarrow> (\<exists>w \<in> unsafe_words. prefix w s)"
  by (auto simp: unsafe_here_def unsafe_words_def opens_tag_iff sets_handler_iff is_entity_iff starts_nocase_prefix)

lemma unsafe_words_not_Nil: "[] \<notin> unsafe_words"
  by (auto simp: unsafe_words_def tag_words_def handler_words_def entity_words_def py_lower_def)

lemma unsafe_text_iff: "unsafe_text t \<longleftrightarrow> \<not> markup_free t"
proof (induction t)
  case Nil
  then show ?case using unsafe_words_not_Nil by (auto simp: markup_free_def)
next
  case (Cons c cs)
  then show ?case by (auto simp: markup_free_def unsafe_here_iff sublist_Cons_right)
qed
section \<open>Well-formed specifications\<close>

text \<open>What the documentation of the specification promises: bounded numbers of charts and series, a short insight,
  and texts that are not empty and hold no markup, script address, handler or entity.\<close>

definition plain_label :: "string \<Rightarrow> bool" where
  "plain_label t \<longleftrightarrow> t \<noteq> [] \<and> markup_free t"

definition chart_wf :: "chart_def \<Rightarrow> bool" where
  "chart_wf c \<longleftrightarrow> plain_label (cd_title c) \<and> plain_label (cd_x c) \<and> cd_series c \<noteq> [] \<and>
     (\<forall>s \<in> set (cd_series c). plain_label (se_column s))"

definition chart_spec_wf :: "chart_spec \<Rightarrow> bool" where
  "chart_spec_wf s \<longleftrightarrow>
     (\<forall>k \<in> set (sp_kpis s). plain_label (kp_label k) \<and> plain_label (kp_column k)) \<and>
     1 \<le> length (sp_charts s) \<and> length (sp_charts s) \<le> 3 \<and> (\<forall>c \<in> set (sp_charts s). chart_wf c) \<and>
     (case sp_insight s of None \<Rightarrow> True | Some t \<Rightarrow> length t \<le> 200 \<and> markup_free t)"

lemma read_text_iff: "read_text v = Some t \<longleftrightarrow> v = Some (JStr t) \<and> plain_label t"
  by (cases v rule: read_text.cases) (auto simp: plain_label_def unsafe_text_iff)

lemma those_Some: "those (map f xs) = Some ys \<longleftrightarrow> list_all2 (\<lambda>x y. f x = Some y) xs ys"
proof (induction xs arbitrary: ys)
  case (Cons x xs)
  then show ?case by (cases ys) (auto split: option.splits)
qed auto

lemma those_mapped:
  "those (map f (map g ys)) = Some ys \<longleftrightarrow> (\<forall>y \<in> set ys. f (g y) = Some y)"
  by (induction ys) (auto split: option.splits)

lemma read_list_props:
  assumes "read_list f v = Some ys" "\<And>x y. f x = Some y \<Longrightarrow> P y"
  shows "\<forall>y \<in> set ys. P y"
proof -
  obtain xs where xs: "list_all2 (\<lambda>x y. f x = Some y) xs ys"
    using assms(1) by (cases "(f, v)" rule: read_list.cases) (auto simp: those_Some)
  then show ?thesis using assms(2) by induction auto
qed

lemma read_kpi_wf: "read_kpi j = Some k \<Longrightarrow> plain_label (kp_label k) \<and> plain_label (kp_column k)"
  by (cases j rule: read_kpi.cases) (auto simp: read_text_iff split: option.splits bool.splits)

lemma read_series_wf: "read_series j = Some s \<Longrightarrow> plain_label (se_column s)"
  by (cases j rule: read_series.cases) (auto simp: read_text_iff split: option.splits bool.splits)

lemma read_chart_wf: "read_chart j = Some c \<Longrightarrow> chart_wf c"
  by (cases j rule: read_chart.cases)
    (auto simp: read_text_iff chart_wf_def dest!: read_list_props[where P = "\<lambda>s. plain_label (se_column s)", OF _ read_series_wf]
      split: option.splits bool.splits if_splits)

lemma read_insight_wf: "read_insight v = Some i \<Longrightarrow> (case i of None \<Rightarrow> True | Some t \<Rightarrow> length t \<le> 200 \<and> markup_free t)"
  by (cases v rule: read_insight.cases) (auto simp: unsafe_text_iff max_insight_length_def split: if_splits)

lemma read_chart_spec_wf:
  assumes "read_chart_spec kvs = Some s" shows "chart_spec_wf s"
proof -
  obtain ks cs i where k: "(case j_get ''kpis'' kvs of None \<Rightarrow> Some [] | v \<Rightarrow> read_list read_kpi v) = Some ks"
    and c: "read_list read_chart (j_get ''charts'' kvs) = Some cs" "1 \<le> length cs" "length cs \<le> 3"
    and i: "read_insight (j_get ''insight'' kvs) = Some i" and s: "s = \<lparr>sp_kpis = ks, sp_charts = cs, sp_insight = i\<rparr>"
    using assms by (auto simp: read_chart_spec_def min_charts_def max_charts_def split: option.splits bool.splits if_splits)
  have "\<forall>k \<in> set ks. plain_label (kp_label k) \<and> plain_label (kp_column k)"
  proof (cases "j_get ''kpis'' kvs")
    case (Some v)
    then show ?thesis using k
      by (intro read_list_props[where f = read_kpi and v = "Some v" and P = "\<lambda>k. plain_label (kp_label k) \<and> plain_label (kp_column k)"])
        (auto dest: read_kpi_wf)
  qed (use k in simp)
  moreover have "\<forall>c \<in> set cs. chart_wf c" by (rule read_list_props[OF c(1) read_chart_wf])
  ultimately show ?thesis using c(2,3) read_insight_wf[OF i] s by (simp add: chart_spec_wf_def)
qed

declare read_name.simps [simp del]

lemma read_op_name [simp]: "read_op (Some (JStr (op_name oper))) = Some oper"
  by (cases oper) (simp_all add: read_name.simps)

lemma read_chart_type_name [simp]:
  "read_name chart_type_name [ChartBar, ChartLine, ChartPie] (Some (JStr (chart_type_name t))) = Some t"
  by (cases t) (simp_all add: read_name.simps)

lemma read_kpi_json: "read_kpi (kpi_json k) = Some k \<longleftrightarrow> plain_label (kp_label k) \<and> plain_label (kp_column k)"
  by (auto simp: kpi_json_def j_get_def only_keys_def plain_label_def unsafe_text_iff split: if_splits)

lemma read_series_json: "read_series (series_json s) = Some s \<longleftrightarrow> plain_label (se_column s)"
  by (auto simp: series_json_def j_get_def only_keys_def plain_label_def unsafe_text_iff split: if_splits)

lemma read_chart_json: "read_chart (chart_json c) = Some c \<longleftrightarrow> chart_wf c"
proof
  assume "chart_wf c"
  then have "those (map read_series (map series_json (cd_series c))) = Some (cd_series c)"
    by (simp only: those_mapped) (simp add: chart_wf_def read_series_json)
  then show "read_chart (chart_json c) = Some c" using \<open>chart_wf c\<close>
    by (simp add: chart_json_def j_get_def only_keys_def chart_wf_def plain_label_def unsafe_text_iff del: map_map)
qed (rule read_chart_wf)

lemma read_chart_spec_json: "read_chart_spec (chart_spec_json s) = Some s \<longleftrightarrow> chart_spec_wf s"
proof
  assume a: "chart_spec_wf s"
  have "those (map read_kpi (map kpi_json (sp_kpis s))) = Some (sp_kpis s)"
    "those (map read_chart (map chart_json (sp_charts s))) = Some (sp_charts s)"
    using a by (simp_all only: those_mapped) (simp_all add: chart_spec_wf_def read_kpi_json read_chart_json)
  moreover have "read_insight (Some (case sp_insight s of None \<Rightarrow> JNull | Some t \<Rightarrow> JStr t)) = Some (sp_insight s)"
    using a by (auto simp: chart_spec_wf_def max_insight_length_def unsafe_text_iff split: option.splits)
  ultimately show "read_chart_spec (chart_spec_json s) = Some s" using a
    by (simp add: chart_spec_json_def read_chart_spec_def j_get_def only_keys_def chart_spec_wf_def
        min_charts_def max_charts_def del: map_map read_insight.simps)
qed (rule read_chart_spec_wf)
section \<open>The analyzer\<close>

definition max_sample_rows :: nat where "max_sample_rows = 20"

record result_set =
  rs_columns :: "string list option"
  rs_rows :: "(string \<times> json) list list option"
  rs_row_count :: "int option"

definition extract_result_set :: "result_set \<Rightarrow> string list \<times> (string \<times> json) list list \<times> int" where
  "extract_result_set r =
     (let rows = (case rs_rows r of None \<Rightarrow> [] | Some xs \<Rightarrow> xs)
      in (case rs_columns r of None \<Rightarrow> [] | Some cs \<Rightarrow> cs, rows,
          case rs_row_count r of Some n \<Rightarrow> n | None \<Rightarrow> int (length rows)))"

fun value_kind :: "json \<Rightarrow> string option" where
  "value_kind JNull = None"
| "value_kind (JBool _) = Some ''boolean''"
| "value_kind (JInt _) = Some ''integer''"
| "value_kind (JFloat _) = Some ''number''"
| "value_kind JNan = Some ''number''"
| "value_kind (JInfinite _) = Some ''number''"
| "value_kind _ = Some ''string''"

definition infer_column_type :: "json list \<Rightarrow> string" where
  "infer_column_type vs =
     (let seen = set (List.map_filter value_kind vs)
      in if seen = {} then ''unknown''
         else if seen = {''integer''} then ''integer''
         else if seen = {''number''} \<or> seen = {''integer'', ''number''} then ''number''
         else if seen = {''boolean''} then ''boolean''
         else ''string'')"

text \<open>A dictionary built by a comprehension keeps the first position of a repeated key.\<close>

definition dict_of :: "string list \<Rightarrow> (string \<Rightarrow> json) \<Rightarrow> (string \<times> json) list" where
  "dict_of ks f = map (\<lambda>k. (k, f k)) (rev (remdups (rev ks)))"

definition row_get :: "(string \<times> json) list \<Rightarrow> string \<Rightarrow> json" where
  "row_get r c = (case j_get c r of None \<Rightarrow> JNull | Some v \<Rightarrow> v)"

text \<open>The instructions, with the dash of the original in ASCII.\<close>

definition analysis_instructions :: string where
  "analysis_instructions =
     ''You are given a compact summary of a read-only SQL query result set: the column names, an inferred type per column, the total row count, and a small sample of rows (at most 20). Produce a declarative auto-dashboard specification that names columns and chooses aggregation operations from the allowed set (sum, count, avg, min, max, plus group-by via a chart's xColumn). Reference only column names that appear in `columns`. Do NOT emit any precomputed numeric values, HTML, JavaScript, or executable content --- only column names and operations. The dashboard computes every displayed number locally from the actual rows.''"

definition analysis_summary :: "result_set \<Rightarrow> json" where
  "analysis_summary r =
     (case extract_result_set r of (columns, rows, n) \<Rightarrow>
        let sample = take max_sample_rows rows;
            column_types = dict_of columns (\<lambda>c. JStr (infer_column_type (map (\<lambda>row. row_get row c) sample)));
            sample_rows = map (\<lambda>row. JObj (dict_of columns (row_get row))) sample
        in JObj [(''columns'', JArr (map JStr columns)), (''columnTypes'', JObj column_types), (''rowCount'', JInt n),
                 (''sampleRowCount'', JInt (int (length sample_rows))), (''sampleRows'', JArr sample_rows)])"

definition build_payload :: "(json \<Rightarrow> string) \<Rightarrow> result_set \<Rightarrow> string" where
  "build_payload dumps r =
     analysis_instructions @ [CHR 0x0A, CHR 0x0A] @ ''RESULT_SET_SUMMARY:'' @ [CHR 0x0A] @ dumps (analysis_summary r)"

datatype analysis_mode = ModeDefault | ModeDeep

text \<open>The dedicated client: whether it can be built, the two model identifiers, and the model itself, which raises
  (\<open>None\<close>) or returns the text of its answer.\<close>

record analyzer_env =
  an_client :: bool
  an_flash :: string
  an_pro :: string
  an_model :: "string \<Rightarrow> string \<Rightarrow> raw_output option"
  an_loads :: json_loads
  an_dumps :: "json \<Rightarrow> string"

definition model_for_mode :: "analyzer_env \<Rightarrow> analysis_mode \<Rightarrow> string" where
  "model_for_mode env mode = (if mode = ModeDeep then an_pro env else an_flash env)"

definition generate_chart_spec_json :: "analyzer_env \<Rightarrow> string \<Rightarrow> analysis_mode \<Rightarrow> raw_output option" where
  "generate_chart_spec_json env contents mode = an_model env (model_for_mode env mode) contents"

text \<open>The result, and the prompts that reached a model.\<close>

definition analyze :: "analyzer_env \<Rightarrow> result_set \<Rightarrow> analysis_mode \<Rightarrow> (analysis_error + chart_spec) \<times> (string \<times> string) list" where
  "analyze env r mode =
     (let payload = build_payload (an_dumps env) r
      in if \<not> an_client env then (Inl AnalysisFailed, [])
         else (case generate_chart_spec_json env payload mode of
                 None \<Rightarrow> Inl AnalysisFailed
               | Some raw \<Rightarrow> validate_chart_spec (an_loads env) raw,
               [(model_for_mode env mode, payload)]))"

section \<open>The analysis route\<close>

definition max_analyze_rows :: nat where "max_analyze_rows = 10000"

record analyze_request =
  aq_columns :: "string list"
  aq_rows :: "(string \<times> json) list list"
  aq_row_count :: int
  aq_duration_ms :: int
  aq_sql :: string
  aq_truncated :: bool
  aq_mode :: analysis_mode

text \<open>The lenient readings of integers and flags by the request library.\<close>

record body_reader =
  br_int :: "json \<Rightarrow> int option"
  br_bool :: "json \<Rightarrow> bool option"

fun json_text :: "json \<Rightarrow> string option" where
  "json_text (JStr s) = Some s"
| "json_text _ = None"

fun json_row :: "json \<Rightarrow> (string \<times> json) list option" where
  "json_row (JObj kvs) = Some kvs"
| "json_row _ = None"

definition read_or :: "(json \<Rightarrow> 'a option) \<Rightarrow> 'a \<Rightarrow> json option \<Rightarrow> 'a option" where
  "read_or f d v = (case v of None \<Rightarrow> Some d | Some j \<Rightarrow> f j)"

definition read_mode :: "json \<Rightarrow> analysis_mode option" where
  "read_mode j = (if j = JStr ''default'' then Some ModeDefault else if j = JStr ''deep'' then Some ModeDeep else None)"

definition read_analyze_request :: "body_reader \<Rightarrow> json \<Rightarrow> analyze_request option" where
  "read_analyze_request br body =
     (case json_row body of
        None \<Rightarrow> None
      | Some kvs \<Rightarrow>
          (case (read_list json_text (j_get ''columns'' kvs), read_list json_row (j_get ''rows'' kvs),
                 Option.bind (j_get ''rowCount'' kvs) (br_int br), read_or (br_int br) 0 (j_get ''durationMs'' kvs),
                 read_or json_text [] (j_get ''sql'' kvs), read_or (br_bool br) False (j_get ''truncated'' kvs),
                 read_or read_mode ModeDefault (j_get ''mode'' kvs)) of
             (Some cs, Some rs, Some n, Some ms, Some sql, Some tr, Some mode) \<Rightarrow>
               if length rs \<le> max_analyze_rows
               then Some \<lparr>aq_columns = cs, aq_rows = rs, aq_row_count = n, aq_duration_ms = ms, aq_sql = sql,
                          aq_truncated = tr, aq_mode = mode\<rparr>
               else None
           | _ \<Rightarrow> None))"

definition analyze_result_set :: "analyzer_env \<Rightarrow> analyze_request \<Rightarrow> (nat + chart_spec) \<times> (string \<times> string) list" where
  "analyze_result_set env q =
     (case analyze env \<lparr>rs_columns = Some (aq_columns q), rs_rows = Some (aq_rows q), rs_row_count = Some (aq_row_count q)\<rparr>
             (aq_mode q) of
        (Inr spec, sent) \<Rightarrow> (Inr spec, sent)
      | (Inl ChartSpecInvalid, sent) \<Rightarrow> (Inl 400, sent)
      | (Inl AnalysisFailed, sent) \<Rightarrow> (Inl 503, sent))"

definition get_sql_lab_limiter :: "int \<Rightarrow> limiters \<Rightarrow> pyfloat \<Rightarrow> limiter option \<times> limiters" where
  "get_sql_lab_limiter rpm ls now =
     (case ls rpm of
        Some l \<Rightarrow> (l, ls)
      | None \<Rightarrow>
          (let l = (if 0 < rpm then (case limiter_init rpm 60 now of Inr s \<Rightarrow> Some s | Inl _ \<Rightarrow> None) else None)
           in (l, ls(rpm \<mapsto> l))))"

definition sql_lab_rate_limit :: "int \<Rightarrow> string \<Rightarrow> request \<Rightarrow> pyfloat \<Rightarrow> limiters \<Rightarrow> rl_outcome \<times> limiters" where
  "sql_lab_rate_limit rpm scope r now ls =
     (case get_sql_lab_limiter rpm ls now of
        (None, ls') \<Rightarrow> (Admitted, ls')
      | (Some l, ls') \<Rightarrow> (case rate_limit_dep l scope r now of (out, l') \<Rightarrow> (out, ls'(rpm \<mapsto> Some l'))))"

text \<open>Throttling, the operator dependency, the body, and the handler; the prompts that reached a model are returned.\<close>

definition analyze_route :: "crypto \<Rightarrow> auth_settings \<Rightarrow> auth_db \<Rightarrow> string option \<Rightarrow> int \<Rightarrow> request \<Rightarrow> pyfloat
    \<Rightarrow> body_reader \<Rightarrow> analyzer_env \<Rightarrow> json \<Rightarrow> limiters \<Rightarrow> (nat + chart_spec) \<times> (string \<times> string) list \<times> limiters" where
  "analyze_route c ast adb credentials rpm rq now br env body ls =
     (case sql_lab_rate_limit rpm ''sql_analyze'' rq now ls of
        (Throttled (HttpError code _) _, ls') \<Rightarrow> (Inl code, [], ls')
      | (Admitted, ls') \<Rightarrow>
          (case get_current_user c ast adb credentials of
             Inl (HttpError code _) \<Rightarrow> (Inl code, [], ls')
           | Inr u \<Rightarrow>
               (case require_operator ast u of
                  Inl (HttpError code _) \<Rightarrow> (Inl code, [], ls')
                | Inr _ \<Rightarrow>
                    (case read_analyze_request br body of
                       None \<Rightarrow> (Inl 422, [], ls')
                     | Some q \<Rightarrow> (case analyze_result_set env q of (res, sent) \<Rightarrow> (res, sent, ls'))))))"
section \<open>The schema lister\<close>

text \<open>The views of the information schema that \<open>_SCHEMA_QUERY\<close> reads, and the query on them.\<close>

record column_row =
  co_schema :: string
  co_table :: string
  co_name :: string
  co_type :: string
  co_position :: nat

record grant_row =
  gr_schema :: string
  gr_table :: string
  gr_privilege :: string
  gr_grantee :: string

record schema_db =
  sd_reachable :: bool
  sd_setup_error :: "string option"
  sd_query_error :: "string option"
  sd_columns :: "column_row list"
  sd_grants :: "grant_row list"

definition granted :: "string \<Rightarrow> grant_row list \<Rightarrow> string \<Rightarrow> bool" where
  "granted role gs t \<longleftrightarrow>
     (\<exists>g \<in> set gs. gr_schema g = ''public'' \<and> gr_privilege g = ''SELECT'' \<and> gr_grantee g = role \<and> gr_table g = t)"

definition schema_query :: "string \<Rightarrow> schema_db \<Rightarrow> (string \<times> string \<times> string) list" where
  "schema_query role db =
     map (\<lambda>c. (co_table c, co_name c, co_type c))
       (sort_key (\<lambda>c. (co_table c, co_position c))
         (filter (\<lambda>c. co_schema c = ''public'' \<and> granted role (sd_grants db) (co_table c)) (sd_columns db)))"

type_synonym schema_table = "string \<times> (string \<times> string) list"

definition add_column :: "string \<times> string \<times> string \<Rightarrow> schema_table list \<Rightarrow> schema_table list" where
  "add_column row ts =
     (case row of (t, col) \<Rightarrow>
        if t \<in> fst ` set ts then map (\<lambda>(n, cs). (n, if n = t then cs @ [col] else cs)) ts else ts @ [(t, [col])])"

definition group_rows :: "(string \<times> string \<times> string) list \<Rightarrow> schema_table list" where
  "group_rows rows = fold add_column rows []"

definition list_schema :: "lab_settings \<Rightarrow> schema_db \<Rightarrow> lab_error + schema_table list" where
  "list_schema st db =
     (case require_sql_viewer_credentials st of
        Inl e \<Rightarrow> Inl e
      | Inr (user, _) \<Rightarrow>
          if \<not> sd_reachable db then Inl LabConnectionError
          else (case sd_setup_error db of
             Some msg \<Rightarrow> Inl (LabUncaught msg)
           | None \<Rightarrow>
               (case sd_query_error db of
                  Some msg \<Rightarrow> Inl (LabExecutionError msg)
                | None \<Rightarrow> Inr (group_rows (schema_query user db)))))"

definition list_schema_route :: "crypto \<Rightarrow> auth_settings \<Rightarrow> auth_db \<Rightarrow> string option \<Rightarrow> lab_settings \<Rightarrow> schema_db
    \<Rightarrow> nat + schema_table list" where
  "list_schema_route c ast adb credentials st db =
     (case get_current_user c ast adb credentials of
        Inl (HttpError code _) \<Rightarrow> Inl code
      | Inr u \<Rightarrow>
          (case require_operator ast u of
             Inl (HttpError code _) \<Rightarrow> Inl code
           | Inr _ \<Rightarrow>
               (case list_schema st db of
                  Inr ts \<Rightarrow> Inr ts
                | Inl (LabConfigError _) \<Rightarrow> Inl 400
                | Inl LabConnectionError \<Rightarrow> Inl 400
                | Inl (LabExecutionError _) \<Rightarrow> Inl 400
                | Inl _ \<Rightarrow> Inl 500)))"

text \<open>Grouping keeps the order of first occurrence of the tables and of the columns within a table.\<close>

lemma group_rows_snoc: "group_rows (rows @ [r]) = add_column r (group_rows rows)"
  by (simp add: group_rows_def)

lemma group_rows_eq:
  "group_rows rows = map (\<lambda>t. (t, map snd (filter (\<lambda>r. fst r = t) rows))) (rev (remdups (rev (map fst rows))))"
proof (induction rows rule: rev_induct)
  case Nil
  then show ?case by (simp add: group_rows_def)
next
  case (snoc r rows)
  obtain t col where r: "r = (t, col)" by (cases r)
  let ?ts = "rev (remdups (rev (map fst rows)))"
  have names: "fst ` set (group_rows rows) = fst ` set rows" by (simp add: snoc image_image)
  show ?case
  proof (cases "t \<in> fst ` set rows")
    case True
    then show ?thesis using names
      by (auto simp: group_rows_snoc r add_column_def snoc image_iff)
  next
    case False
    then have "filter (\<lambda>r. fst r = t) rows = []" by (auto simp: filter_empty_conv image_iff)
    moreover have "\<And>s. s \<in> set ?ts \<Longrightarrow> s \<noteq> t" using False by auto
    ultimately show ?thesis using False names
      by (auto simp: group_rows_snoc r add_column_def snoc image_iff)
  qed
qed

lemma sorted_first_seen: "sorted xs \<Longrightarrow> sorted (rev (remdups (rev xs)))"
proof -
  have r: "sorted_wrt R (remdups ys)" if "sorted_wrt R ys" for R and ys :: "'a list"
    using that by (induction ys) auto
  assume "sorted xs"
  then have "sorted_wrt (\<lambda>x y. y \<le> x) (rev xs)" by (simp add: sorted_wrt_rev)
  from r[OF this] show ?thesis by (simp add: sorted_wrt_rev)
qed

lemma schema_query_tables:
  "sorted (map fst (schema_query role db))"
  "set (map fst (schema_query role db)) =
     {t. granted role (sd_grants db) t \<and> (\<exists>c \<in> set (sd_columns db). co_schema c = ''public'' \<and> co_table c = t)}"
proof -
  let ?cs = "filter (\<lambda>c. co_schema c = ''public'' \<and> granted role (sd_grants db) (co_table c)) (sd_columns db)"
  have "sorted (map (\<lambda>c. (co_table c, co_position c)) (sort_key (\<lambda>c. (co_table c, co_position c)) ?cs))" by simp
  then have "sorted_wrt (\<lambda>a b. co_table a \<le> co_table b) (sort_key (\<lambda>c. (co_table c, co_position c)) ?cs)"
    by (auto simp: sorted_map less_eq_prod_def intro: sorted_wrt_mono_rel[rotated])
  then show "sorted (map fst (schema_query role db))"
    by (simp add: schema_query_def comp_def sorted_map)
  show "set (map fst (schema_query role db)) =
     {t. granted role (sd_grants db) t \<and> (\<exists>c \<in> set (sd_columns db). co_schema c = ''public'' \<and> co_table c = t)}"
    by (auto simp: schema_query_def)
qed
section \<open>Properties\<close>


text \<open>The part of a result set that can reach a model: the first rows, at the listed columns.\<close>

definition sampled :: "result_set \<Rightarrow> result_set" where
  "sampled r =
     (case extract_result_set r of (columns, rows, n) \<Rightarrow>
        \<lparr>rs_columns = Some columns, rs_rows = Some (map (\<lambda>row. dict_of columns (row_get row)) (take max_sample_rows rows)),
         rs_row_count = Some n\<rparr>)"

lemma set_dict_keys [simp]: "set (rev (remdups (rev ks))) = set ks"
  by simp

lemma row_get_dict: "c \<in> set ks \<Longrightarrow> row_get (dict_of ks f) c = f c"
  by (auto simp: row_get_def j_get_def dict_of_def rev_map map_of_map_restrict restrict_map_def)

lemma dict_of_cong: "(\<And>k. k \<in> set ks \<Longrightarrow> f k = g k) \<Longrightarrow> dict_of ks f = dict_of ks g"
  by (simp add: dict_of_def)

lemma summary_sampled: "analysis_summary (sampled r) = analysis_summary r"
proof -
  obtain cs rows n where e: "extract_result_set r = (cs, rows, n)" by (cases "extract_result_set r")
  let ?d = "\<lambda>row. dict_of cs (row_get row)"
  have x: "extract_result_set (sampled r) = (cs, map ?d (take max_sample_rows rows), n)"
    by (simp add: sampled_def e) (simp add: extract_result_set_def)
  have "dict_of cs (row_get (?d row)) = ?d row" for row by (rule dict_of_cong) (simp add: row_get_dict)
  moreover have "dict_of cs (\<lambda>c. JStr (infer_column_type (map ((\<lambda>row. row_get row c) \<circ> ?d) xs))) =
      dict_of cs (\<lambda>c. JStr (infer_column_type (map (\<lambda>row. row_get row c) xs)))" for xs
    by (rule dict_of_cong) (simp add: row_get_dict comp_def)
  ultimately show ?thesis
    by (simp add: analysis_summary_def e x Let_def comp_def take_map[symmetric]) (simp add: max_sample_rows_def take_map)
qed

lemma sql_rate_limit_code: "sql_lab_rate_limit rpm scope r now ls = (Throttled (HttpError code m) ra, ls') \<Longrightarrow> code = 429"
  by (auto simp: sql_lab_rate_limit_def rate_limit_dep_def split: prod.splits option.splits bool.splits)

text \<open>C36. What an analysis reveals and returns. Prompts reach a model only for a caller who is an operator and whose
  body is valid; then there is exactly one, for the model of the requested mode, and it is determined by the column
  names, the row count and the first twenty rows cut to those columns. An answered analysis is a well-formed specification.\<close>

theorem analysis_bounded:
  assumes "analyze_route c ast adb credentials rpm rq now br env body ls = (res, sent, ls')"
  shows "(sent = [] \<or>
          (\<exists>u. get_current_user c ast adb credentials = Inr u \<and> (\<exists>o'. require_operator ast u = Inr o') \<and>
            (\<exists>q. read_analyze_request br body = Some q \<and> length (aq_rows q) \<le> 10000 \<and>
              (let r = \<lparr>rs_columns = Some (aq_columns q), rs_rows = Some (aq_rows q), rs_row_count = Some (aq_row_count q)\<rparr>
               in sent = [(model_for_mode env (aq_mode q), build_payload (an_dumps env) (sampled r))])))) \<and>
         (case res of Inr spec \<Rightarrow> sent \<noteq> [] \<and> chart_spec_wf spec | Inl code \<Rightarrow> sent = [] \<or> code \<in> {400, 503})"
proof (cases "sent = []")
  case True
  have "\<nexists>spec. res = Inr spec"
    using assms True
    by (auto simp: analyze_route_def analyze_result_set_def analyze_def Let_def
        split: prod.splits rl_outcome.splits http_error.splits sum.splits option.splits analysis_error.splits if_splits)
  then show ?thesis using True by (cases res) auto
next
  case False
  obtain u o' q where u: "get_current_user c ast adb credentials = Inr u" "require_operator ast u = Inr o'"
    and q: "read_analyze_request br body = Some q" "analyze_result_set env q = (res, sent)"
    using assms False
    by (auto simp: analyze_route_def split: prod.splits rl_outcome.splits http_error.splits sum.splits option.splits)
  let ?r = "\<lparr>rs_columns = Some (aq_columns q), rs_rows = Some (aq_rows q), rs_row_count = Some (aq_row_count q)\<rparr>"
  have rows: "length (aq_rows q) \<le> 10000"
    using q(1) by (auto simp: read_analyze_request_def max_analyze_rows_def split: option.splits if_splits)
  have sent: "sent = [(model_for_mode env (aq_mode q), build_payload (an_dumps env) ?r)]"
    using q(2) False by (auto simp: analyze_result_set_def analyze_def Let_def
        split: prod.splits sum.splits analysis_error.splits if_splits)
  have res: "case res of Inr spec \<Rightarrow> chart_spec_wf spec | Inl code \<Rightarrow> code \<in> {400, 503}"
    using q(2) by (auto simp: analyze_result_set_def analyze_def Let_def validate_chart_spec_def dest: read_chart_spec_wf
        split: prod.splits sum.splits analysis_error.splits if_splits option.splits json.splits)
  have "build_payload (an_dumps env) ?r = build_payload (an_dumps env) (sampled ?r)"
    by (simp add: build_payload_def summary_sampled)
  then show ?thesis using u q(1) rows sent res by (auto simp: Let_def split: sum.splits)
qed
definition demo_chart_spec :: chart_spec where
  "demo_chart_spec =
     \<lparr>sp_kpis = [], sp_charts = [\<lparr>cd_type = ChartBar, cd_title = ''a < 5'', cd_x = ''n'', cd_series = [\<lparr>se_column = ''n'', se_op = OpSum\<rparr>]\<rparr>],
      sp_insight = None\<rparr>"

definition demo_analyzer :: analyzer_env where
  "demo_analyzer =
     \<lparr>an_client = True, an_flash = ''flash'', an_pro = ''pro'', an_model = (\<lambda>_ _. Some (RawDict (chart_spec_json demo_chart_spec))),
      an_loads = (\<lambda>_. None), an_dumps = (\<lambda>_. ''{}'')\<rparr>"

definition demo_body :: json where
  "demo_body = JObj [(''columns'', JArr [JStr ''n'']), (''rows'', JArr [JObj [(''n'', JInt 1)]]), (''rowCount'', JInt 1)]"

abbreviation demo_reader :: body_reader where
  "demo_reader \<equiv> \<lparr>br_int = (\<lambda>j. case j of JInt i \<Rightarrow> Some i | _ \<Rightarrow> None), br_bool = (\<lambda>j. case j of JBool b \<Rightarrow> Some b | _ \<Rightarrow> None)\<rparr>"

lemma demo_chart_spec_ok: "chart_spec_wf demo_chart_spec"
proof -
  have "\<not> unsafe_text ''a < 5''" "\<not> unsafe_text ''n''" by code_simp+
  then show ?thesis by (simp add: chart_spec_wf_def demo_chart_spec_def chart_wf_def plain_label_def unsafe_text_iff)
qed

lemma demo_body_read:
  "read_analyze_request demo_reader demo_body =
     Some \<lparr>aq_columns = [''n''], aq_rows = [[(''n'', JInt 1)]], aq_row_count = 1, aq_duration_ms = 0, aq_sql = [], aq_truncated = False,
           aq_mode = ModeDefault\<rparr>"
  by (simp add: read_analyze_request_def demo_body_def j_get_def read_or_def max_analyze_rows_def)

lemma demo_analysis:
  "\<exists>sent ls'. analyze_route demo_crypto (demo_settings\<lparr>as_enabled := False\<rparr>) demo_db None 0 \<lparr>req_forwarded = None, req_client = None\<rparr> 0
      demo_reader demo_analyzer demo_body Map.empty = (Inr demo_chart_spec, sent, ls') \<and> sent \<noteq> []"
proof -
  have "read_chart_spec (chart_spec_json demo_chart_spec) = Some demo_chart_spec"
    by (simp add: read_chart_spec_json demo_chart_spec_ok)
  then show ?thesis
    by (simp add: analyze_route_def sql_lab_rate_limit_def get_sql_lab_limiter_def get_current_user_def require_operator_def
        demo_body_read analyze_result_set_def analyze_def Let_def demo_analyzer_def generate_chart_spec_json_def validate_chart_spec_def)
qed

theorem analysis_bounded_witness:
  "\<exists>sent ls'. analyze_route demo_crypto (demo_settings\<lparr>as_enabled := False\<rparr>) demo_db None 0 \<lparr>req_forwarded = None, req_client = None\<rparr> 0
      demo_reader demo_analyzer demo_body Map.empty = (Inr demo_chart_spec, sent, ls') \<and> sent \<noteq> [] \<and> chart_spec_wf demo_chart_spec"
proof -
  obtain sent ls' where r: "analyze_route demo_crypto (demo_settings\<lparr>as_enabled := False\<rparr>) demo_db None 0
      \<lparr>req_forwarded = None, req_client = None\<rparr> 0 demo_reader demo_analyzer demo_body Map.empty = (Inr demo_chart_spec, sent, ls')"
    "sent \<noteq> []" using demo_analysis by blast
  show ?thesis using analysis_bounded[OF r(1)] r by auto
qed

text \<open>C37. The schema listing. It holds, sorted and once each, exactly the tables of the public schema on which the
  viewer role has the privilege to select, each with all of its columns in their order; a table without such a grant,
  like those of the accounts, never appears.\<close>

theorem schema_lists_granted:
  assumes "list_schema st db = Inr ts"
  shows "\<exists>user pw. require_sql_viewer_credentials st = Inr (user, pw) \<and> sorted (map fst ts) \<and> distinct (map fst ts) \<and>
     set (map fst ts) = {t. granted user (sd_grants db) t \<and> (\<exists>c \<in> set (sd_columns db). co_schema c = ''public'' \<and> co_table c = t)} \<and>
     (\<forall>t cs. (t, cs) \<in> set ts \<longrightarrow>
        cs = map (\<lambda>c. (co_name c, co_type c))
               (sort_key co_position (filter (\<lambda>c. co_schema c = ''public'' \<and> co_table c = t) (sd_columns db))))"
proof -
  obtain user pw where u: "require_sql_viewer_credentials st = Inr (user, pw)" and ts: "ts = group_rows (schema_query user db)"
    using assms by (auto simp: list_schema_def split: sum.splits option.splits if_splits)
  let ?rows = "schema_query user db" and ?key = "\<lambda>c. (co_table c, co_position c)"
  let ?cs = "filter (\<lambda>c. co_schema c = ''public'' \<and> granted user (sd_grants db) (co_table c)) (sd_columns db)"
  have names: "map fst ts = rev (remdups (rev (map fst ?rows)))" by (simp add: ts group_rows_eq comp_def)
  have "sorted (map fst ts)" unfolding names by (rule sorted_first_seen[OF schema_query_tables(1)])
  moreover have "distinct (map fst ts)" unfolding names by simp
  moreover have "set (map fst ts) = set (map fst ?rows)" unfolding names by simp
  moreover have "cs = map (\<lambda>c. (co_name c, co_type c))
      (sort_key co_position (filter (\<lambda>c. co_schema c = ''public'' \<and> co_table c = t) (sd_columns db)))" if "(t, cs) \<in> set ts" for t cs
  proof -
    have "t \<in> set (map fst ts)" using that by force
    then have g: "granted user (sd_grants db) t" using calculation(3) schema_query_tables(2) by blast
    have "cs = map snd (filter (\<lambda>r. fst r = t) ?rows)" using that by (auto simp: ts group_rows_eq)
    also have "\<dots> = map (\<lambda>c. (co_name c, co_type c)) (filter (\<lambda>c. co_table c = t) (sort_key ?key ?cs))"
      by (simp add: schema_query_def filter_map comp_def)
    also have "filter (\<lambda>c. co_table c = t) (sort_key ?key ?cs) = sort_key ?key (filter (\<lambda>c. co_table c = t) ?cs)"
      by (rule filter_sort)
    also have "filter (\<lambda>c. co_table c = t) ?cs = filter (\<lambda>c. co_schema c = ''public'' \<and> co_table c = t) (sd_columns db)"
      using g by (auto intro: filter_cong)
    also have "sort_key ?key (filter (\<lambda>c. co_schema c = ''public'' \<and> co_table c = t) (sd_columns db)) =
        sort_key co_position (filter (\<lambda>c. co_schema c = ''public'' \<and> co_table c = t) (sd_columns db))"
      by (rule sort_key_cong_on) (auto simp: less_eq_prod_def)
    finally show ?thesis .
  qed
  ultimately show ?thesis using u schema_query_tables(2)[of user db] by auto
qed

definition demo_schema :: schema_db where
  "demo_schema =
     \<lparr>sd_reachable = True, sd_setup_error = None, sd_query_error = None,
      sd_columns = [\<lparr>co_schema = ''public'', co_table = ''users'', co_name = ''id'', co_type = ''text'', co_position = 1\<rparr>,
                    \<lparr>co_schema = ''public'', co_table = ''sales'', co_name = ''day'', co_type = ''date'', co_position = 2\<rparr>,
                    \<lparr>co_schema = ''public'', co_table = ''sales'', co_name = ''n'', co_type = ''integer'', co_position = 1\<rparr>],
      sd_grants = [\<lparr>gr_schema = ''public'', gr_table = ''sales'', gr_privilege = ''SELECT'', gr_grantee = ''viewer''\<rparr>]\<rparr>"

theorem schema_lists_granted_witness:
  "\<exists>ts. list_schema demo_lab demo_schema = Inr ts \<and> set (map fst ts) = {''sales''}"
proof -
  have c: "require_sql_viewer_credentials demo_lab = Inr (''viewer'', ''pw'')"
    by (simp add: require_sql_viewer_credentials_def or_none_def)
  then obtain ts where ts: "list_schema demo_lab demo_schema = Inr ts" by (simp add: list_schema_def demo_schema_def)
  have "set (map fst ts) = {t. granted ''viewer'' (sd_grants demo_schema) t \<and>
      (\<exists>c \<in> set (sd_columns demo_schema). co_schema c = ''public'' \<and> co_table c = t)}"
    using schema_lists_granted[OF ts] c by auto
  then show ?thesis using ts by (auto simp: demo_schema_def granted_def)
qed

end
