(* ===== verification/Settings.thy ===== *)
theory Settings
  imports SqlLabService
begin

text \<open>
  The settings of \<open>config.py\<close>: every field with its environment variable and its default, the validators, and the
  loading of the class, which reports all refused fields at once. Converting the text of a variable to the type of its
  field is the work of the settings library: an environment gives a converted value, or says that there is none.
  A number may be the \<open>nan\<close> of a double, which a variable can spell.
\<close>

section \<open>Values\<close>

datatype env_float = Finite pyfloat | NotANumber | Infinite bool

text \<open>\<open>x < y\<close> on doubles; \<open>Infinite True\<close> is the negative infinity.\<close>

fun fl_less :: "env_float \<Rightarrow> env_float \<Rightarrow> bool" where
  "fl_less NotANumber _ = False"
| "fl_less _ NotANumber = False"
| "fl_less (Finite x) (Finite y) = (x < y)"
| "fl_less (Finite _) (Infinite neg) = (\<not> neg)"
| "fl_less (Infinite neg) (Finite _) = neg"
| "fl_less (Infinite a) (Infinite b) = (a \<and> \<not> b)"

datatype setting_value =
    IntV int | FloatV env_float | StrV string | BoolV bool | NoneV | PricingV "(string \<times> pyfloat \<times> pyfloat) list"

type_synonym setting_row = "string \<times> string \<times> setting_value option"

type_synonym validator = "setting_value \<Rightarrow> setting_value option"

section \<open>Validators\<close>

fun int_between :: "int \<Rightarrow> int \<Rightarrow> validator" where
  "int_between lo hi (IntV v) = (if v < lo \<or> hi < v then None else Some (IntV v))"
| "int_between lo hi _ = None"

fun unit_interval :: validator where
  "unit_interval (FloatV v) = (if fl_less v (Finite 0) \<or> fl_less (Finite 1) v then None else Some (FloatV v))"
| "unit_interval _ = None"

definition validate_sql_lab_row_limit :: validator where "validate_sql_lab_row_limit = int_between 1 10000"
definition validate_sql_lab_statement_timeout_ms :: validator where "validate_sql_lab_statement_timeout_ms = int_between 1 60000"
definition validate_conversation_bounds :: validator where "validate_conversation_bounds = int_between 1 100"
definition validate_overlap_threshold :: validator where "validate_overlap_threshold = unit_interval"
definition validate_positive_bounded_int :: validator where "validate_positive_bounded_int = int_between 1 1000"
definition validate_trace_sample_rate :: validator where "validate_trace_sample_rate = unit_interval"

fun validate_retention_hours :: validator where
  "validate_retention_hours NoneV = Some NoneV"
| "validate_retention_hours v = int_between 1 (3650 * 24) v"

definition validate_confidence_unit_interval :: validator where "validate_confidence_unit_interval = unit_interval"
definition validate_corpus_page_size :: validator where "validate_corpus_page_size = int_between 1 100"
definition validate_thinking_budget :: validator where "validate_thinking_budget = int_between 0 32768"
definition validate_positive_bounded_minutes_counts :: validator where
  "validate_positive_bounded_minutes_counts = int_between 1 100000"
definition validate_auth_rate_limit :: validator where "validate_auth_rate_limit = int_between 0 10000"
definition validate_access_token_ttl :: validator where "validate_access_token_ttl = int_between 1 (7 * 24 * 60)"
definition validate_refresh_token_ttl :: validator where "validate_refresh_token_ttl = int_between 1 365"

fun validate_cookie_samesite :: validator where
  "validate_cookie_samesite (StrV v) =
     (let normalized = py_lower (py_strip v)
      in if normalized \<in> {''lax'', ''strict'', ''none''} then Some (StrV normalized) else None)"
| "validate_cookie_samesite _ = None"

text \<open>The prices of \<open>ModelPricing\<close> are not negative.\<close>

fun pricing_nonnegative :: validator where
  "pricing_nonnegative (PricingV ps) = (if list_all (\<lambda>(_, p, c). 0 \<le> p \<and> 0 \<le> c) ps then Some (PricingV ps) else None)"
| "pricing_nonnegative _ = None"

text \<open>The fields each validator is declared for.\<close>

definition field_validators :: "(string list \<times> validator) list" where
  "field_validators =
     [([''sql_lab_row_limit''], validate_sql_lab_row_limit),
      ([''sql_lab_statement_timeout_ms''], validate_sql_lab_statement_timeout_ms),
      ([''conversation_max_turns'', ''conversation_rewrite_window''], validate_conversation_bounds),
      ([''hybrid_overlap_threshold''], validate_overlap_threshold),
      ([''embedding_max_workers'', ''pinecone_upsert_batch_size'', ''document_list_max_workers'', ''ingestion_max_concurrency'',
        ''ingestion_max_messages''], validate_positive_bounded_int),
      ([''trace_sample_rate''], validate_trace_sample_rate),
      ([''trace_retention_hours'', ''log_retention_hours''], validate_retention_hours),
      ([''route_min_confidence'', ''retrieval_score_threshold''], validate_confidence_unit_interval),
      ([''corpus_page_size''], validate_corpus_page_size),
      ([''llm_judge_thinking_budget'', ''trace_investigator_thinking_budget''], validate_thinking_budget),
      ([''clarification_expiry_minutes'', ''retrieval_metric_depth_k'', ''llm_judge_read_timeout_s'',
        ''llm_judge_per_case_timeout_s'', ''llm_judge_schedule_interval_hours'', ''trace_investigator_read_timeout_s'',
        ''knowledge_gap_max_topics'', ''knowledge_gap_min_eligible_outcomes'', ''replay_job_timeout_s''],
       validate_positive_bounded_minutes_counts),
      ([''auth_rate_limit_per_minute'', ''sql_lab_rate_limit_per_minute''], validate_auth_rate_limit),
      ([''access_token_ttl_minutes''], validate_access_token_ttl),
      ([''refresh_token_ttl_days''], validate_refresh_token_ttl),
      ([''auth_cookie_samesite''], validate_cookie_samesite),
      ([''model_pricing''], pricing_nonnegative)]"

definition run_validator :: "string \<Rightarrow> validator" where
  "run_validator f v =
     (case List.find (\<lambda>(fs, _). f \<in> set fs) field_validators of None \<Rightarrow> Some v | Some (_, g) \<Rightarrow> g v)"

section \<open>The fields\<close>

text \<open>Artifact store, queue and index.\<close>

definition storage_settings :: "setting_row list" where
  "storage_settings =
     [(''gcs_bucket'', ''RAG_GCS_BUCKET'', None),
      (''gcs_kms_key_name'', ''RAG_GCS_KMS_KEY_NAME'', Some NoneV),
      (''pubsub_topic_id'', ''RAG_PUBSUB_TOPIC_ID'', Some NoneV),
      (''pubsub_subscription_id'', ''RAG_PUBSUB_SUBSCRIPTION_ID'', Some NoneV),
      (''ingestion_poll_seconds'', ''RAG_INGESTION_POLL_SECONDS'', Some (IntV 20)),
      (''ingestion_max_messages'', ''RAG_INGESTION_MAX_MESSAGES'', Some (IntV 10)),
      (''ingestion_max_concurrency'', ''RAG_INGESTION_MAX_CONCURRENCY'', Some (IntV 4)),
      (''llama_cloud_api_key'', ''LLAMA_CLOUD_API_KEY'', None),
      (''pinecone_api_key'', ''PINECONE_API_KEY'', None),
      (''pinecone_index_name'', ''PINECONE_INDEX_NAME'', None),
      (''pinecone_cloud'', ''RAG_PINECONE_CLOUD'', Some (StrV ''aws'')),
      (''pinecone_region'', ''RAG_PINECONE_REGION'', Some (StrV ''us-east-1'')),
      (''pinecone_metric'', ''RAG_PINECONE_METRIC'', Some (StrV ''dotproduct''))]"

text \<open>Embeddings and text generation.\<close>

definition model_settings :: "setting_row list" where
  "model_settings =
     [(''embedding_model_id'', ''EMBEDDING_MODEL_ID'', Some (StrV ''gemini-embedding-001'')),
      (''embedding_dimension'', ''EMBEDDING_DIMENSION'', Some (IntV 3072)),
      (''embedding_max_workers'', ''RAG_EMBEDDING_MAX_WORKERS'', Some (IntV 8)),
      (''gemini_model_id'', ''GEMINI_MODEL_ID'', Some (StrV ''gemini-3.5-flash'')),
      (''gcp_project_id'', ''GCP_PROJECT_ID'', Some NoneV),
      (''gcp_location'', ''GCP_LOCATION'', Some (StrV ''us-central1'')),
      (''google_application_credentials'', ''GOOGLE_APPLICATION_CREDENTIALS'', Some NoneV),
      (''gemini_read_timeout_s'', ''GEMINI_READ_TIMEOUT_S'', Some (IntV 90)),
      (''gemini_thinking_budget'', ''GEMINI_THINKING_BUDGET'', Some NoneV)]"

text \<open>Chunking, uploads and retrieval.\<close>

definition ingest_settings :: "setting_row list" where
  "ingest_settings =
     [(''chunk_target_tokens'', ''RAG_CHUNK_TARGET_TOKENS'', Some (IntV 700)),
      (''max_upload_bytes'', ''RAG_MAX_UPLOAD_BYTES'', Some (IntV 10485760)),
      (''retrieval_dense_top_k'', ''RAG_DENSE_TOP_K'', Some (IntV 60)),
      (''retrieval_sparse_top_k'', ''RAG_SPARSE_TOP_K'', Some (IntV 60)),
      (''pinecone_upsert_batch_size'', ''RAG_PINECONE_UPSERT_BATCH_SIZE'', Some (IntV 100)),
      (''document_list_max_workers'', ''RAG_DOCUMENT_LIST_MAX_WORKERS'', Some (IntV 16)),
      (''context_top_k'', ''RAG_CONTEXT_TOP_K'', Some (IntV 12)),
      (''sparse_enabled'', ''RAG_SPARSE_ENABLED'', Some (BoolV True)),
      (''low_top_score_threshold'', ''RAG_LOW_TOP_SCORE_THRESHOLD'', Some NoneV)]"

text \<open>The copilot database.\<close>

definition database_settings :: "setting_row list" where
  "database_settings =
     [(''copilot_schema_catalog_path'', ''COPILOT_SCHEMA_CATALOG_PATH'', Some (StrV ''config/copilot_schema_catalog.json'')),
      (''copilot_db_host'', ''COPILOT_DB_HOST'', Some NoneV),
      (''copilot_db_port'', ''COPILOT_DB_PORT'', Some (IntV 5432)),
      (''copilot_db_name'', ''COPILOT_DB_NAME'', Some NoneV),
      (''copilot_db_user'', ''COPILOT_DB_USER'', Some NoneV),
      (''copilot_db_password'', ''COPILOT_DB_PASSWORD'', Some NoneV),
      (''copilot_db_sslmode'', ''COPILOT_DB_SSLMODE'', Some (StrV ''require'')),
      (''copilot_max_rows'', ''COPILOT_MAX_ROWS'', Some (IntV 100)),
      (''copilot_statement_timeout_ms'', ''COPILOT_STATEMENT_TIMEOUT_MS'', Some (IntV 10000))]"

text \<open>SQL Lab.\<close>

definition sql_lab_settings :: "setting_row list" where
  "sql_lab_settings =
     [(''sql_viewer_db_user'', ''SQL_VIEWER_DB_USER'', Some NoneV),
      (''sql_viewer_db_password'', ''SQL_VIEWER_DB_PASSWORD'', Some NoneV),
      (''sql_lab_row_limit'', ''SQL_LAB_ROW_LIMIT'', Some (IntV 100)),
      (''sql_lab_statement_timeout_ms'', ''SQL_LAB_STATEMENT_TIMEOUT_MS'', Some (IntV 10000)),
      (''sql_lab_sensitive_tables'', ''SQL_LAB_SENSITIVE_TABLES'', Some (StrV ''users,refresh_tokens'')),
      (''sql_lab_analysis_model_id'', ''SQL_LAB_ANALYSIS_MODEL_ID'', Some (StrV ''gemini-3.5-flash'')),
      (''sql_lab_deep_analysis_model_id'', ''SQL_LAB_DEEP_ANALYSIS_MODEL_ID'', Some (StrV ''gemini-3.1-pro'')),
      (''sql_lab_rate_limit_per_minute'', ''SQL_LAB_RATE_LIMIT_PER_MINUTE'', Some (IntV 30))]"

text \<open>Hybrid synthesis and conversations.\<close>

definition answer_settings :: "setting_row list" where
  "answer_settings =
     [(''hybrid_synthesis_mode'', ''RAG_HYBRID_SYNTHESIS_MODE'', Some (StrV ''auto'')),
      (''hybrid_overlap_threshold'', ''RAG_HYBRID_OVERLAP_THRESHOLD'', Some (FloatV (Finite (3 / 25)))),
      (''conversation_rewrite_enabled'', ''RAG_CONVERSATION_REWRITE_ENABLED'', Some (BoolV True)),
      (''conversation_max_turns'', ''RAG_CONVERSATION_MAX_TURNS'', Some (IntV 12)),
      (''conversation_rewrite_window'', ''RAG_CONVERSATION_REWRITE_WINDOW'', Some (IntV 6))]"

text \<open>Tracing.\<close>

definition tracing_settings :: "setting_row list" where
  "tracing_settings =
     [(''tracing_enabled'', ''RAG_TRACING_ENABLED'', Some (BoolV True)),
      (''trace_sample_rate'', ''RAG_TRACE_SAMPLE_RATE'', Some (FloatV (Finite 1))),
      (''trace_retention_hours'', ''RAG_TRACE_RETENTION_HOURS'', Some NoneV),
      (''log_retention_hours'', ''RAG_LOG_RETENTION_HOURS'', Some NoneV),
      (''retention_interval_hours'', ''RAG_RETENTION_INTERVAL_HOURS'', Some (IntV 24)),
      (''trace_buffer_capacity'', ''RAG_TRACE_BUFFER_CAPACITY'', Some (IntV 10000)),
      (''log_buffer_capacity'', ''RAG_LOG_BUFFER_CAPACITY'', Some (IntV 10000))]"

text \<open>Answer path, corpus and feedback.\<close>

definition gate_settings :: "setting_row list" where
  "gate_settings =
     [(''route_min_confidence'', ''RAG_ROUTE_MIN_CONFIDENCE'', Some (FloatV (Finite (1 / 2)))),
      (''retrieval_score_threshold'', ''RAG_RETRIEVAL_SCORE_THRESHOLD'', Some (FloatV (Finite (3 / 10)))),
      (''clarification_expiry_minutes'', ''RAG_CLARIFICATION_EXPIRY_MINUTES'', Some (IntV 30)),
      (''claim_verification_max_workers'', ''RAG_CLAIM_VERIFICATION_MAX_WORKERS'', Some (IntV 8)),
      (''corpus_page_size'', ''RAG_CORPUS_PAGE_SIZE'', Some (IntV 50)),
      (''pagination_signing_key'', ''RAG_PAGINATION_SIGNING_KEY'', Some NoneV),
      (''default_evaluation_set_id'', ''RAG_DEFAULT_EVALUATION_SET_ID'', Some (StrV ''default''))]"

text \<open>Evaluation, investigation, knowledge gaps and replay.\<close>

definition evaluation_settings :: "setting_row list" where
  "evaluation_settings =
     [(''retrieval_metric_depth_k'', ''RAG_RETRIEVAL_METRIC_DEPTH_K'', Some (IntV 10)),
      (''llm_judge_model_id'', ''RAG_LLM_JUDGE_MODEL_ID'', Some (StrV ''gemini-3.1-pro'')),
      (''llm_judge_thinking_budget'', ''RAG_LLM_JUDGE_THINKING_BUDGET'', Some (IntV 4096)),
      (''llm_judge_read_timeout_s'', ''RAG_LLM_JUDGE_READ_TIMEOUT_S'', Some (IntV 55)),
      (''llm_judge_per_case_timeout_s'', ''RAG_LLM_JUDGE_PER_CASE_TIMEOUT_S'', Some (IntV 60)),
      (''llm_judge_schedule_interval_hours'', ''RAG_LLM_JUDGE_SCHEDULE_INTERVAL_HOURS'', Some (IntV 24)),
      (''trace_investigator_model_id'', ''RAG_TRACE_INVESTIGATOR_MODEL_ID'', Some (StrV ''gemini-3.1-pro'')),
      (''trace_investigator_thinking_budget'', ''RAG_TRACE_INVESTIGATOR_THINKING_BUDGET'', Some (IntV 4096)),
      (''trace_investigator_read_timeout_s'', ''RAG_TRACE_INVESTIGATOR_READ_TIMEOUT_S'', Some (IntV 55)),
      (''knowledge_gap_max_topics'', ''RAG_KNOWLEDGE_GAP_MAX_TOPICS'', Some (IntV 25)),
      (''knowledge_gap_min_eligible_outcomes'', ''RAG_KNOWLEDGE_GAP_MIN_ELIGIBLE_OUTCOMES'', Some (IntV 20)),
      (''replay_job_timeout_s'', ''RAG_REPLAY_JOB_TIMEOUT_S'', Some (IntV 300)),
      (''model_pricing'', ''RAG_MODEL_PRICING'', Some (PricingV [(''gemini-3.5-flash'', 75 / 1000000, 3 / 10000), (''gemini-3.1-pro'', 125 / 100000, 5 / 1000)]))]"

text \<open>Authentication.\<close>

definition account_settings :: "setting_row list" where
  "account_settings =
     [(''auth_enabled'', ''RAG_AUTH_ENABLED'', Some (BoolV True)),
      (''metrics_token'', ''RAG_METRICS_TOKEN'', Some NoneV),
      (''auth_allow_registration'', ''RAG_AUTH_ALLOW_REGISTRATION'', Some (BoolV False)),
      (''operator_emails'', ''RAG_OPERATOR_EMAILS'', Some (StrV []))]"

text \<open>Throttling of the authentication endpoints.\<close>

definition throttle_settings :: "setting_row list" where
  "throttle_settings =
     [(''auth_rate_limit_per_minute'', ''RAG_AUTH_RATE_LIMIT_PER_MINUTE'', Some (IntV 10))]"

text \<open>Browser origins.\<close>

definition origin_settings :: "setting_row list" where
  "origin_settings =
     [(''cors_allow_origins'', ''RAG_CORS_ALLOW_ORIGINS'', Some (StrV ''http://localhost:3000''))]"

text \<open>Tokens.\<close>

definition token_settings :: "setting_row list" where
  "token_settings =
     [(''jwt_secret_key'', ''RAG_JWT_SECRET_KEY'', Some NoneV),
      (''jwt_algorithm'', ''RAG_JWT_ALGORITHM'', Some (StrV ''HS256'')),
      (''jwt_issuer'', ''RAG_JWT_ISSUER'', Some (StrV ''production-rag'')),
      (''access_token_ttl_minutes'', ''RAG_ACCESS_TOKEN_TTL_MINUTES'', Some (IntV 60)),
      (''refresh_token_ttl_days'', ''RAG_REFRESH_TOKEN_TTL_DAYS'', Some (IntV 30))]"

text \<open>The refresh cookie.\<close>

definition cookie_settings :: "setting_row list" where
  "cookie_settings =
     [(''auth_cookie_secure'', ''RAG_AUTH_COOKIE_SECURE'', Some (BoolV True)),
      (''auth_cookie_samesite'', ''RAG_AUTH_COOKIE_SAMESITE'', Some (StrV ''lax'')),
      (''auth_cookie_domain'', ''RAG_AUTH_COOKIE_DOMAIN'', Some NoneV)]"

definition settings_table :: "setting_row list" where
  "settings_table =
     storage_settings @ model_settings @ ingest_settings @ database_settings @ sql_lab_settings @ answer_settings @
     tracing_settings @ gate_settings @ evaluation_settings @ account_settings @ throttle_settings @ origin_settings @
     token_settings @ cookie_settings"

lemmas settings_table_defs =
  settings_table_def storage_settings_def model_settings_def ingest_settings_def database_settings_def sql_lab_settings_def
  answer_settings_def tracing_settings_def gate_settings_def evaluation_settings_def account_settings_def
  throttle_settings_def origin_settings_def token_settings_def cookie_settings_def

section \<open>Loading\<close>

text \<open>A variable that is set: its value, or \<open>None\<close> when the text has none of the type of the field. A default is not
  validated.\<close>

type_synonym environment = "string \<Rightarrow> setting_value option option"

definition field_value :: "environment \<Rightarrow> setting_row \<Rightarrow> setting_value option" where
  "field_value env r =
     (case r of (f, a, d) \<Rightarrow>
        (case env a of
           None \<Rightarrow> d
         | Some None \<Rightarrow> None
         | Some (Some v) \<Rightarrow> run_validator f v))"

definition load_settings :: "environment \<Rightarrow> string list + (string \<times> setting_value) list" where
  "load_settings env =
     (let refused = map fst (filter (\<lambda>r. field_value env r = None) settings_table)
      in if refused \<noteq> [] then Inl refused
         else Inr (map (\<lambda>r. (fst r, the (field_value env r))) settings_table))"

definition setting :: "(string \<times> setting_value) list \<Rightarrow> string \<Rightarrow> setting_value" where
  "setting st f = (case map_of st f of Some v \<Rightarrow> v | None \<Rightarrow> NoneV)"
section \<open>Lemmas\<close>

definition default_valid :: "setting_row \<Rightarrow> bool" where
  "default_valid r = (case r of (f, _, d) \<Rightarrow> d = None \<or> d = Option.bind d (run_validator f))"

lemmas validator_defs =
  run_validator_def field_validators_def validate_sql_lab_row_limit_def validate_sql_lab_statement_timeout_ms_def
  validate_conversation_bounds_def validate_overlap_threshold_def validate_positive_bounded_int_def
  validate_trace_sample_rate_def validate_confidence_unit_interval_def validate_corpus_page_size_def
  validate_thinking_budget_def validate_positive_bounded_minutes_counts_def validate_auth_rate_limit_def
  validate_access_token_ttl_def validate_refresh_token_ttl_def

lemma samesite_lax: "validate_cookie_samesite (StrV ''lax'') = Some (StrV ''lax'')"
  by code_simp

lemma storage_defaults: "list_all default_valid storage_settings"
  by (simp add: storage_settings_def default_valid_def validator_defs samesite_lax del: validate_cookie_samesite.simps)

lemma model_defaults: "list_all default_valid model_settings"
  by (simp add: model_settings_def default_valid_def validator_defs samesite_lax del: validate_cookie_samesite.simps)

lemma ingest_defaults: "list_all default_valid ingest_settings"
  by (simp add: ingest_settings_def default_valid_def validator_defs samesite_lax del: validate_cookie_samesite.simps)

lemma copilot_defaults: "list_all default_valid database_settings"
  by (simp add: database_settings_def default_valid_def validator_defs samesite_lax del: validate_cookie_samesite.simps)

lemma sql_lab_defaults: "list_all default_valid sql_lab_settings"
  by (simp add: sql_lab_settings_def default_valid_def validator_defs samesite_lax del: validate_cookie_samesite.simps)

lemma answer_defaults: "list_all default_valid answer_settings"
  by (simp add: answer_settings_def default_valid_def validator_defs samesite_lax del: validate_cookie_samesite.simps)

lemma tracing_defaults: "list_all default_valid tracing_settings"
  by (simp add: tracing_settings_def default_valid_def validator_defs samesite_lax del: validate_cookie_samesite.simps)

lemma gate_defaults: "list_all default_valid gate_settings"
  by (simp add: gate_settings_def default_valid_def validator_defs samesite_lax del: validate_cookie_samesite.simps)

lemma evaluation_defaults: "list_all default_valid evaluation_settings"
  by (simp add: evaluation_settings_def default_valid_def validator_defs samesite_lax del: validate_cookie_samesite.simps)

lemma account_defaults: "list_all default_valid account_settings"
  by (simp add: account_settings_def default_valid_def validator_defs samesite_lax del: validate_cookie_samesite.simps)

lemma throttle_defaults: "list_all default_valid throttle_settings"
  by (simp add: throttle_settings_def default_valid_def validator_defs samesite_lax del: validate_cookie_samesite.simps)

lemma origin_defaults: "list_all default_valid origin_settings"
  by (simp add: origin_settings_def default_valid_def validator_defs samesite_lax del: validate_cookie_samesite.simps)

lemma token_defaults: "list_all default_valid token_settings"
  by (simp add: token_settings_def default_valid_def validator_defs samesite_lax del: validate_cookie_samesite.simps)

lemma cookie_defaults: "list_all default_valid cookie_settings"
  by (simp add: cookie_settings_def default_valid_def validator_defs samesite_lax del: validate_cookie_samesite.simps)

lemma defaults_valid: "list_all default_valid settings_table"
  by (simp add: settings_table_def storage_defaults model_defaults ingest_defaults copilot_defaults sql_lab_defaults answer_defaults tracing_defaults gate_defaults evaluation_defaults account_defaults throttle_defaults origin_defaults token_defaults cookie_defaults)
lemma setting_validated:
  assumes "load_settings env = Inr st" "list_ex (\<lambda>r. fst r = f) settings_table"
  shows "\<exists>v. run_validator f v = Some (setting st f)"
proof -
  have st: "st = map (\<lambda>r. (fst r, the (field_value env r))) settings_table"
    and all: "\<And>r. r \<in> set settings_table \<Longrightarrow> field_value env r \<noteq> None"
    using assms(1) by (auto simp: load_settings_def Let_def filter_empty_conv split: if_splits)
  have "fst ` set st = fst ` set settings_table" by (simp add: st image_image)
  moreover have "f \<in> fst ` set settings_table" using assms(2) by (force simp: list_ex_iff)
  ultimately obtain w where w: "map_of st f = Some w" by (metis domIff dom_map_of_conv_image_fst not_None_eq)
  then obtain r where r: "r \<in> set settings_table" "fst r = f" "w = the (field_value env r)"
    using map_of_SomeD[OF w] by (auto simp: st)
  obtain a d where rd: "r = (f, a, d)" using r(2) by (cases r) auto
  have fv: "field_value env (f, a, d) = Some w" using all[OF r(1)] r(3) rd by auto
  have dv: "default_valid (f, a, d)" using defaults_valid r(1) rd by (auto simp: list_all_iff)
  have "\<exists>v. run_validator f v = Some w"
  proof (cases "env a")
    case None
    then have "d = Some w" using fv by (simp add: field_value_def)
    then show ?thesis using dv by (auto simp: default_valid_def)
  next
    case (Some x)
    then show ?thesis using fv by (auto simp: field_value_def split: option.splits)
  qed
  then show ?thesis using w by (simp add: setting_def)
qed

text \<open>The documented bounds.\<close>

definition int_limits :: "(string \<times> int \<times> int) list" where
  "int_limits =
     [(''sql_lab_row_limit'', 1, 10000), (''sql_lab_statement_timeout_ms'', 1, 60000), (''conversation_max_turns'', 1, 100),
      (''conversation_rewrite_window'', 1, 100), (''embedding_max_workers'', 1, 1000), (''pinecone_upsert_batch_size'', 1, 1000),
      (''document_list_max_workers'', 1, 1000), (''ingestion_max_concurrency'', 1, 1000), (''ingestion_max_messages'', 1, 1000),
      (''corpus_page_size'', 1, 100), (''llm_judge_thinking_budget'', 0, 32768), (''trace_investigator_thinking_budget'', 0, 32768),
      (''clarification_expiry_minutes'', 1, 100000), (''retrieval_metric_depth_k'', 1, 100000),
      (''llm_judge_read_timeout_s'', 1, 100000), (''llm_judge_per_case_timeout_s'', 1, 100000),
      (''llm_judge_schedule_interval_hours'', 1, 100000), (''trace_investigator_read_timeout_s'', 1, 100000),
      (''knowledge_gap_max_topics'', 1, 100000), (''knowledge_gap_min_eligible_outcomes'', 1, 100000),
      (''replay_job_timeout_s'', 1, 100000), (''auth_rate_limit_per_minute'', 0, 10000),
      (''sql_lab_rate_limit_per_minute'', 0, 10000), (''access_token_ttl_minutes'', 1, 10080), (''refresh_token_ttl_days'', 1, 365)]"

text \<open>The thresholds, with their variables.\<close>

definition unit_settings :: "(string \<times> string) list" where
  "unit_settings =
     [(''hybrid_overlap_threshold'', ''RAG_HYBRID_OVERLAP_THRESHOLD''), (''trace_sample_rate'', ''RAG_TRACE_SAMPLE_RATE''),
      (''route_min_confidence'', ''RAG_ROUTE_MIN_CONFIDENCE''), (''retrieval_score_threshold'', ''RAG_RETRIEVAL_SCORE_THRESHOLD'')]"

lemma limited_fields: "list_all (\<lambda>(f, lo, hi). run_validator f = int_between lo hi) int_limits"
  by (simp add: int_limits_def fun_eq_iff validator_defs)

lemma unit_fields: "list_all (\<lambda>(f, a). run_validator f = unit_interval) unit_settings"
  by (simp add: unit_settings_def fun_eq_iff validator_defs)

lemma limited_known: "list_all (\<lambda>(f, lo, hi). list_ex (\<lambda>r. fst r = f) settings_table) int_limits"
  by (simp add: int_limits_def settings_table_defs)

lemma unit_known: "list_all (\<lambda>(f, a). list_ex (\<lambda>r. fst r = f) settings_table) unit_settings"
  by (simp add: unit_settings_def settings_table_defs)

lemma int_between_Some: "int_between lo hi v = Some w \<Longrightarrow> \<exists>i. w = IntV i \<and> lo \<le> i \<and> i \<le> hi"
  by (cases v) (auto split: if_splits)

lemma unit_interval_Some:
  "unit_interval v = Some w \<Longrightarrow> w = FloatV NotANumber \<or> (\<exists>x. w = FloatV (Finite x) \<and> 0 \<le> x \<and> x \<le> 1)"
proof (cases v)
  case (FloatV y)
  then show "unit_interval v = Some w \<Longrightarrow> ?thesis" by (cases y) (auto split: if_splits)
qed auto
lemma unit_rows:
  "list_all (\<lambda>(f, a). list_all (\<lambda>r. (fst (snd r) = a) = (fst r = f)) settings_table) unit_settings"
  by (simp add: unit_settings_def settings_table_defs)

text \<open>The settings as the SQL Lab and the authentication service read them.\<close>

fun int_of_setting :: "setting_value \<Rightarrow> int" where
  "int_of_setting (IntV i) = i"
| "int_of_setting _ = 0"

fun text_of_setting :: "setting_value \<Rightarrow> string option" where
  "text_of_setting (StrV s) = Some s"
| "text_of_setting _ = None"

definition lab_settings_of :: "(string \<times> setting_value) list \<Rightarrow> lab_settings" where
  "lab_settings_of st =
     \<lparr>ls_viewer_user = text_of_setting (setting st ''sql_viewer_db_user''),
      ls_viewer_password = text_of_setting (setting st ''sql_viewer_db_password''),
      ls_row_limit = nat (int_of_setting (setting st ''sql_lab_row_limit'')),
      ls_timeout_ms = int_of_setting (setting st ''sql_lab_statement_timeout_ms'')\<rparr>"

definition token_settings_of :: "(string \<times> setting_value) list \<Rightarrow> auth_settings \<Rightarrow> auth_settings" where
  "token_settings_of st base =
     base\<lparr>as_access_ttl_minutes := int_of_setting (setting st ''access_token_ttl_minutes''),
          as_refresh_ttl_days := int_of_setting (setting st ''refresh_token_ttl_days''),
          as_rate_limit_per_minute := int_of_setting (setting st ''auth_rate_limit_per_minute'')\<rparr>"

lemma limited_setting:
  assumes "load_settings env = Inr st" "(f, lo, hi) \<in> set int_limits"
  shows "\<exists>i. setting st f = IntV i \<and> lo \<le> i \<and> i \<le> hi"
proof -
  have "list_ex (\<lambda>r. fst r = f) settings_table" "run_validator f = int_between lo hi"
    using assms(2) limited_known limited_fields by (auto simp: list_all_iff)
  then show ?thesis using setting_validated[OF assms(1)] int_between_Some by metis
qed

section \<open>Properties\<close>


text \<open>The range check of the thresholds lets \<open>nan\<close> through. A configuration that loads also loads with any of the
  four thresholds set to \<open>nan\<close>, which then compares with no number: a score is never below the minimum confidence or
  the retrieval threshold, and no draw is below the sampling rate.\<close>

theorem nan_threshold_loads:
  assumes "load_settings env = Inr st" "(f, a) \<in> set unit_settings"
  shows "(\<exists>st'. load_settings (env(a \<mapsto> Some (FloatV NotANumber))) = Inr st' \<and> setting st' f = FloatV NotANumber) \<and>
         (\<forall>x. \<not> fl_less x NotANumber \<and> \<not> fl_less NotANumber x)"
proof
  let ?env = "env(a \<mapsto> Some (FloatV NotANumber))"
  have rows: "fst (snd r) = a \<longleftrightarrow> fst r = f" if "r \<in> set settings_table" for r
    using that assms(2) unit_rows by (force simp: list_all_iff)
  have "run_validator f = unit_interval" "list_ex (\<lambda>r. fst r = f) settings_table"
    using assms(2) unit_fields unit_known by (auto simp: list_all_iff)
  then have nan: "field_value ?env r = Some (FloatV NotANumber)" if "r \<in> set settings_table" "fst r = f" for r
    using rows[OF that(1)] that(2) by (cases r) (auto simp: field_value_def)
  have other: "field_value ?env r = field_value env r" if "r \<in> set settings_table" "fst r \<noteq> f" for r
    using rows[OF that(1)] that(2) by (cases r) (auto simp: field_value_def)
  have all: "\<And>r. r \<in> set settings_table \<Longrightarrow> field_value env r \<noteq> None"
    using assms(1) by (auto simp: load_settings_def Let_def filter_empty_conv split: if_splits)
  have "\<And>r. r \<in> set settings_table \<Longrightarrow> field_value ?env r \<noteq> None" using all nan other by (metis option.distinct(1))
  then have load: "load_settings ?env = Inr (map (\<lambda>r. (fst r, the (field_value ?env r))) settings_table)"
    by (simp add: load_settings_def Let_def filter_empty_conv)
  have "f \<in> fst ` set (map (\<lambda>r. (fst r, the (field_value ?env r))) settings_table)"
    using \<open>list_ex (\<lambda>r. fst r = f) settings_table\<close> by (force simp: list_ex_iff image_image)
  then obtain w where w: "map_of (map (\<lambda>r. (fst r, the (field_value ?env r))) settings_table) f = Some w"
    by (metis domIff dom_map_of_conv_image_fst not_None_eq)
  then have "w = FloatV NotANumber" using map_of_SomeD[OF w] nan by force
  then show "\<exists>st'. load_settings ?env = Inr st' \<and> setting st' f = FloatV NotANumber" using load w by (simp add: setting_def)
  show "\<forall>x. \<not> fl_less x NotANumber \<and> \<not> fl_less NotANumber x"
  proof
    show "\<not> fl_less x NotANumber \<and> \<not> fl_less NotANumber x" for x by (cases x) simp_all
  qed
qed

text \<open>The bounds reach the components: under a loaded configuration an answer of the SQL Lab holds at most 10000
  rows, and an access token lives between one minute and seven days.\<close>

theorem loaded_limits_hold:
  assumes "load_settings env = Inr st"
  shows "(case fst (lab_run g parse (lab_settings_of st) lenv sql user w) of Inl _ \<Rightarrow> True | Inr r \<Rightarrow> length (rr_rows r) \<le> 10000) \<and>
         (case create_access_token c (token_settings_of st base) d subject email of
            Inl _ \<Rightarrow> True | Inr t \<Rightarrow> 60 \<le> at_expires_in t \<and> at_expires_in t \<le> 7 * 24 * 60 * 60)"
proof
  have mem: "(''sql_lab_row_limit'', 1, 10000) \<in> set int_limits" "(''access_token_ttl_minutes'', 1, 10080) \<in> set int_limits"
    by (simp_all add: int_limits_def)
  obtain i where i: "setting st ''sql_lab_row_limit'' = IntV i" "i \<le> 10000" using limited_setting[OF assms mem(1)] by blast
  obtain j where j: "setting st ''access_token_ttl_minutes'' = IntV j" "1 \<le> j" "j \<le> 10080"
    using limited_setting[OF assms mem(2)] by blast
  obtain res w' where r: "lab_run g parse (lab_settings_of st) lenv sql user w = (res, w')" by fastforce
  show "case fst (lab_run g parse (lab_settings_of st) lenv sql user w) of Inl _ \<Rightarrow> True | Inr r \<Rightarrow> length (rr_rows r) \<le> 10000"
  proof (cases res)
    case (Inr a)
    then show ?thesis using lab_run_bounded[OF r] r i by (auto simp: lab_settings_of_def)
  qed (simp add: r)
  show "case create_access_token c (token_settings_of st base) d subject email of
      Inl _ \<Rightarrow> True | Inr t \<Rightarrow> 60 \<le> at_expires_in t \<and> at_expires_in t \<le> 7 * 24 * 60 * 60"
    using j by (auto simp: create_access_token_def token_settings_of_def Let_def split: sum.splits option.splits)
qed
definition demo_environment :: environment where
  "demo_environment =
     [''RAG_GCS_BUCKET'' \<mapsto> Some (StrV ''b''), ''LLAMA_CLOUD_API_KEY'' \<mapsto> Some (StrV ''k''), ''PINECONE_API_KEY'' \<mapsto> Some (StrV ''k''),
      ''PINECONE_INDEX_NAME'' \<mapsto> Some (StrV ''i'')]"

lemma demo_environment_loads: "\<exists>st. load_settings demo_environment = Inr st"
proof -
  have v: "run_validator ''gcs_bucket'' v = Some v" "run_validator ''llama_cloud_api_key'' v = Some v"
    "run_validator ''pinecone_api_key'' v = Some v" "run_validator ''pinecone_index_name'' v = Some v" for v
    by (simp_all add: run_validator_def field_validators_def)
  have "list_all (\<lambda>r. field_value demo_environment r \<noteq> None) settings_table"
    by (simp add: settings_table_defs field_value_def demo_environment_def v)
  then show ?thesis by (auto simp: load_settings_def Let_def filter_empty_conv list_all_iff)
qed


theorem nan_threshold_loads_witness:
  "\<exists>st. load_settings (demo_environment(''RAG_ROUTE_MIN_CONFIDENCE'' \<mapsto> Some (FloatV NotANumber))) = Inr st \<and>
     setting st ''route_min_confidence'' = FloatV NotANumber \<and> \<not> fl_less (Finite 0) NotANumber"
proof -
  obtain st where st: "load_settings demo_environment = Inr st" using demo_environment_loads by blast
  have "(''route_min_confidence'', ''RAG_ROUTE_MIN_CONFIDENCE'') \<in> set unit_settings" by (simp add: unit_settings_def)
  from nan_threshold_loads[OF st this] show ?thesis by blast
qed

theorem loaded_limits_hold_witness:
  "\<exists>st. load_settings demo_environment = Inr st \<and>
     (case create_access_token demo_crypto (token_settings_of st demo_settings) demo_draw ''u'' ''e'' of
        Inl _ \<Rightarrow> True | Inr t \<Rightarrow> at_expires_in t \<le> 604800)"
proof -
  obtain st where st: "load_settings demo_environment = Inr st" using demo_environment_loads by blast
  note limit = conjunct2[OF loaded_limits_hold[OF st, where c = demo_crypto and base = demo_settings and d = demo_draw and
    subject = "''u''" and email = "''e''"]]
  have "case create_access_token demo_crypto (token_settings_of st demo_settings) demo_draw ''u'' ''e'' of
      Inl _ \<Rightarrow> True | Inr t \<Rightarrow> at_expires_in t \<le> 604800"
    using limit by (cases "create_access_token demo_crypto (token_settings_of st demo_settings) demo_draw ''u'' ''e''") simp_all
  then show ?thesis using st by blast
qed

end
