(* ===== verification/OperatorApi.thy ===== *)
theory OperatorApi
  imports AskApi RagQuery Evaluation Replay CopilotService
begin

text \<open>
  The remaining endpoints of \<open>api.py\<close>: \<open>/query\<close> and \<open>/copilot/query\<close>, stored query traces and their feedback,
  conversations, the replay lab, the feedback inbox, evaluation runs and AI configurations. The state behind them is
  the record \<open>portal\<close>, one store for each kind of object; an endpoint is the model of the service behind it with
  the status codes of its handler. An exception that a handler does not map is status 500.
\<close>

section \<open>Questions to the documents and to the database\<close>

definition query_endpoint :: "rag_env \<Rightarrow> bool \<Rightarrow> bool \<Rightarrow> ident \<Rightarrow> user_public \<Rightarrow> auth_settings \<Rightarrow> string \<Rightarrow> ident list option
    \<Rightarrow> rag_world \<Rightarrow> (nat + rag_response) \<times> rag_world" where
  "query_endpoint env pool_open up t u st question documents w =
     (if \<not> valid_question question \<or> \<not> valid_scope documents then (Inl 422, w)
      else let (docs, w1) = (if \<not> as_enabled st \<or> resolve_is_operator u st then ([], w)
                             else (case list_documents (rq_process env) (rq_readable env) (rw_corpus w) of
                                     (ds, c) \<Rightarrow> (ds, w\<lparr>rw_corpus := c\<rparr>)))
           in (case rag_query env pool_open up t question (scoped_document_ids docs u st documents) w1 of
                 (None, w2) \<Rightarrow> (Inl 500, w2)
               | (Some r, w2) \<Rightarrow> (Inr r, w2)))"

record copilot_body =
  cb_answer :: string
  cb_evidence_status :: string
  cb_confidence :: pyfloat
  cb_sql :: "string option"
  cb_rows :: "db_row list"
  cb_sources :: "(string \<times> string list) list"

definition copilot_body_of :: "bool \<Rightarrow> copilot_response \<Rightarrow> copilot_body" where
  "copilot_body_of include_sql r =
     \<lparr>cb_answer = cr_answer r, cb_evidence_status = cr_evidence_status r, cb_confidence = cr_confidence r,
      cb_sql = (if include_sql then Some (cr_sql r) else None), cb_rows = (if include_sql then cr_rows r else []),
      cb_sources = cr_sources r\<rparr>"

text \<open>The copilot service may be unavailable (no catalog, no settings).\<close>

definition copilot_query_endpoint :: "(copilot_env \<times> copilot_settings \<times> catalog) option \<Rightarrow> string \<Rightarrow> bool \<Rightarrow> string list
    \<Rightarrow> (nat + copilot_body) \<times> string list" where
  "copilot_query_endpoint service question include_sql executed =
     (if \<not> valid_question question then (Inl 422, executed)
      else (case service of
              None \<Rightarrow> (Inl 503, executed)
            | Some (env, st, cat) \<Rightarrow>
                (case copilot_query env st cat question executed of
                   (Inr r, x) \<Rightarrow> (Inr (copilot_body_of include_sql r), x)
                 | (Inl (CopilotRejected _), x) \<Rightarrow> (Inl 400, x)
                 | (Inl (CopilotMissingSettings _), x) \<Rightarrow> (Inl 503, x)
                 | (Inl _, x) \<Rightarrow> (Inl 500, x))))"

section \<open>The stores behind the other endpoints\<close>

record portal =
  po_traces :: "query_trace obj_store"
  po_pending :: "query_trace list"
  po_feedback :: "feedback_record obj_store"
  po_cases :: "benchmark_case obj_store"
  po_runs :: "eval_run obj_store"
  po_ai :: ai_store
  po_replays :: run_store
  po_snapshots :: "corpus_snapshot obj_store"
  po_fixtures :: "sql_fixture obj_store"
  po_conversations :: "conversation obj_store"
  po_corpus :: corpus

record portal_env =
  pe_fresh :: ident
  pe_now :: string
  pe_process :: nat
  pe_readable :: "ident \<Rightarrow> bool"
  pe_intact :: "string \<Rightarrow> bool"
  pe_feedback_noise :: "feedback_record foreign_write list list"
  pe_run_noise :: run_noise
  pe_index_noise :: index_noise
  pe_version_noise :: "ai_version foreign_write list list"
  pe_conv :: conv_env
  pe_eval :: eval_env
  pe_set_id :: ident
  pe_digest :: "string \<Rightarrow> string"
  pe_casefold :: "string \<Rightarrow> string"
  pe_cursor :: cursor_env
  pe_signing_key :: "string option"
  pe_page_size :: int

datatype portal_answer =
    TraceAnswer query_trace | FeedbackAnswer feedback_record | ConversationAnswer conversation | ReplayAnswer replay_run
  | SnapshotAnswer ident | SnapshotList "(ident \<times> string \<times> nat) list" | InboxAnswer inbox_page | CaseAnswer benchmark_case
  | RunAnswer eval_run | RunList "eval_summary list" | VersionAnswer ai_version | VersionList "ai_version list"
  | EventAnswer activation_event

type_synonym portal_result = "(nat + portal_answer) \<times> portal"

definition found_or_404 :: "('a \<Rightarrow> portal_answer) \<Rightarrow> 'a option \<Rightarrow> nat + portal_answer" where
  "found_or_404 f x = (case x of None \<Rightarrow> Inl 404 | Some y \<Rightarrow> Inr (f y))"

definition feedback_world_of :: "portal \<Rightarrow> feedback_world" where
  "feedback_world_of w = \<lparr>fw_traces = po_traces w, fw_feedback = po_feedback w, fw_cases = po_cases w\<rparr>"

section \<open>Traces and conversations\<close>

definition get_query_trace_endpoint :: "ident \<Rightarrow> portal \<Rightarrow> portal_result" where
  "get_query_trace_endpoint t w = (found_or_404 TraceAnswer (get_query_trace t (po_traces w)), w)"

definition record_feedback_endpoint :: "portal_env \<Rightarrow> ident \<Rightarrow> int \<Rightarrow> string option \<Rightarrow> string option \<Rightarrow> portal \<Rightarrow> portal_result" where
  "record_feedback_endpoint env t rating comment expected w =
     (case record_query_feedback (pe_fresh env) (pe_now env) t rating comment expected (feedback_world_of w) of
        (x, fw) \<Rightarrow> (found_or_404 FeedbackAnswer x, w\<lparr>po_feedback := fw_feedback fw\<rparr>))"

definition get_conversation_endpoint :: "portal_env \<Rightarrow> ident \<Rightarrow> portal \<Rightarrow> portal_result" where
  "get_conversation_endpoint env i w = (found_or_404 ConversationAnswer (load_conversation (pe_conv env) i (po_conversations w)), w)"

definition forget_conversation_endpoint :: "portal_env \<Rightarrow> ident \<Rightarrow> portal \<Rightarrow> portal_result" where
  "forget_conversation_endpoint env i w =
     (case forget_conversation (pe_conv env) i (po_conversations w) of
        (Inl _, s) \<Rightarrow> (Inl 500, w\<lparr>po_conversations := s\<rparr>)
      | (Inr x, s) \<Rightarrow> (found_or_404 ConversationAnswer x, w\<lparr>po_conversations := s\<rparr>))"

section \<open>The replay lab\<close>

definition create_replay_endpoint :: "portal_env \<Rightarrow> replay_request \<Rightarrow> portal \<Rightarrow> portal_result" where
  "create_replay_endpoint env r w =
     (case create_replay_run (pe_run_noise env) (pe_fresh env) (po_ai w) (po_snapshots w) r (po_replays w) of
        (Inr run, s) \<Rightarrow> (Inr (ReplayAnswer run), w\<lparr>po_replays := s\<rparr>)
      | (Inl ReplayConflict, s) \<Rightarrow> (Inl 500, w\<lparr>po_replays := s\<rparr>)
      | (Inl _, s) \<Rightarrow> (Inl 400, w\<lparr>po_replays := s\<rparr>))"

definition get_replay_endpoint :: "ident \<Rightarrow> portal \<Rightarrow> portal_result" where
  "get_replay_endpoint i w = (found_or_404 ReplayAnswer (key_cell (replay_run_key i) (po_replays w)), w)"

definition cancel_replay_endpoint :: "portal_env \<Rightarrow> ident \<Rightarrow> portal \<Rightarrow> portal_result" where
  "cancel_replay_endpoint env i w =
     (case cancel_replay_run (pe_run_noise env) i (po_replays w) of
        (Inr run, s) \<Rightarrow> (Inr (ReplayAnswer run), w\<lparr>po_replays := s\<rparr>)
      | (Inl ReplayNotFound, s) \<Rightarrow> (Inl 404, w\<lparr>po_replays := s\<rparr>)
      | (Inl ReplayConflict, s) \<Rightarrow> (Inl 500, w\<lparr>po_replays := s\<rparr>)
      | (Inl _, s) \<Rightarrow> (Inl 400, w\<lparr>po_replays := s\<rparr>))"

text \<open>The snapshot is stored before its fixture.\<close>

definition create_snapshot_endpoint :: "portal_env \<Rightarrow> ident list option \<Rightarrow> (string \<times> (string \<times> json) list list) option \<Rightarrow> portal
    \<Rightarrow> portal_result" where
  "create_snapshot_endpoint env scope fixture w =
     (case list_documents (pe_process env) (pe_readable env) (po_corpus w) of
        (docs, c) \<Rightarrow>
          (let w1 = w\<lparr>po_corpus := c\<rparr>
           in case create_snapshot (pe_fresh env) (pe_now env) (snapshot_manifest scope docs) (po_snapshots w1) of
                (None, _) \<Rightarrow> (Inl 500, w1)
              | (Some snap, s) \<Rightarrow>
                  (let w2 = w1\<lparr>po_snapshots := s\<rparr>
                   in case fixture of
                        None \<Rightarrow> (Inr (SnapshotAnswer (sn_id snap)), w2)
                      | Some (sql, rows) \<Rightarrow>
                          (case create_sql_fixture (pe_digest env) (pe_casefold env) (sn_id snap) sql rows (po_fixtures w2) of
                             (None, _) \<Rightarrow> (Inl 500, w2)
                           | (Some _, fs) \<Rightarrow> (Inr (SnapshotAnswer (sn_id snap)), w2\<lparr>po_fixtures := fs\<rparr>)))))"

definition list_snapshots_endpoint :: "portal_env \<Rightarrow> portal \<Rightarrow> portal_result" where
  "list_snapshots_endpoint env w =
     (let snaps = list_snapshots (pe_intact env) (list_corpus_snapshot_keys (po_snapshots w)) (po_snapshots w)
      in (Inr (SnapshotList (py_sorted (\<lambda>x. fst (snd x)) True
                (map (\<lambda>s. (sn_id s, sn_created_at s, length (sn_manifest s))) snaps))), w))"

section \<open>The feedback inbox\<close>

definition list_feedback_endpoint :: "portal_env \<Rightarrow> review_status option \<Rightarrow> string option \<Rightarrow> int option \<Rightarrow> portal \<Rightarrow> portal_result" where
  "list_feedback_endpoint env status cursor page_size w =
     (case list_feedback_inbox (pe_cursor env) (pe_signing_key env) (pe_page_size env)
             (\<lambda>i. get_query_trace (fb_trace_id i) (po_traces w)) status page_size cursor
             (list_feedback_reviews (pe_intact env) (po_feedback w)) of
        Inl _ \<Rightarrow> (Inl 400, w) | Inr page \<Rightarrow> (Inr (InboxAnswer page), w))"

definition classify_feedback_endpoint :: "portal_env \<Rightarrow> user_public \<Rightarrow> ident \<Rightarrow> string \<Rightarrow> portal \<Rightarrow> portal_result" where
  "classify_feedback_endpoint env operator i category w =
     (case classify_feedback (pe_feedback_noise env) (pe_now env) i category (up_email operator) (po_feedback w) of
        (Inl InvalidFailureCategory, s) \<Rightarrow> (Inl 400, w\<lparr>po_feedback := s\<rparr>)
      | (Inl _, s) \<Rightarrow> (Inl 500, w\<lparr>po_feedback := s\<rparr>)
      | (Inr x, s) \<Rightarrow> (found_or_404 FeedbackAnswer x, w\<lparr>po_feedback := s\<rparr>))"

definition promote_feedback_endpoint :: "portal_env \<Rightarrow> ident \<Rightarrow> portal \<Rightarrow> portal_result" where
  "promote_feedback_endpoint env i w =
     (case promote_feedback (pe_feedback_noise env) (pe_set_id env) i (feedback_world_of w) of
        (x, fw) \<Rightarrow>
          (case x of
             Inl ExpectedAnswerRequired \<Rightarrow> Inl 400
           | Inl AlreadyInEvaluationSet \<Rightarrow> Inl 409
           | Inl _ \<Rightarrow> Inl 500
           | Inr c \<Rightarrow> found_or_404 CaseAnswer c,
           w\<lparr>po_feedback := fw_feedback fw, po_cases := fw_cases fw\<rparr>))"

definition resolve_feedback_endpoint :: "portal_env \<Rightarrow> ident \<Rightarrow> portal \<Rightarrow> portal_result" where
  "resolve_feedback_endpoint env i w =
     (case resolve_feedback (pe_feedback_noise env) i (po_feedback w) of
        (Inl _, s) \<Rightarrow> (Inl 500, w\<lparr>po_feedback := s\<rparr>)
      | (Inr x, s) \<Rightarrow> (found_or_404 FeedbackAnswer x, w\<lparr>po_feedback := s\<rparr>))"

section \<open>Evaluation runs\<close>

definition run_evaluation_endpoint :: "portal_env \<Rightarrow> portal \<Rightarrow> portal_result" where
  "run_evaluation_endpoint env w =
     (case run_evaluation (pe_eval env) (pe_intact env) (pe_set_id env)
             \<lparr>vw_traces = po_traces w, vw_pending = po_pending w, vw_cases = po_cases w, vw_runs = po_runs w\<rparr> of
        (x, vw) \<Rightarrow>
          (case x of Inl InvalidEvaluationSet \<Rightarrow> Inl 400 | Inl _ \<Rightarrow> Inl 500 | Inr r \<Rightarrow> Inr (RunAnswer r),
           w\<lparr>po_traces := vw_traces vw, po_pending := vw_pending vw, po_runs := vw_runs vw\<rparr>))"

definition list_runs_endpoint :: "portal_env \<Rightarrow> portal \<Rightarrow> portal_result" where
  "list_runs_endpoint env w = (Inr (RunList (list_evaluation_runs (pe_intact env) (po_runs w))), w)"

definition get_run_endpoint :: "ident \<Rightarrow> portal \<Rightarrow> portal_result" where
  "get_run_endpoint i w = (found_or_404 RunAnswer (get_evaluation_run i (po_runs w)), w)"

section \<open>AI configurations\<close>

definition ai_result :: "('a \<Rightarrow> portal_answer) \<Rightarrow> (ai_error + 'a) \<times> ai_store \<Rightarrow> portal \<Rightarrow> portal_result" where
  "ai_result f x w =
     (case x of
        (Inr y, s) \<Rightarrow> (Inr (f y), w\<lparr>po_ai := s\<rparr>)
      | (Inl ChangeDescriptionRequired, s) \<Rightarrow> (Inl 400, w\<lparr>po_ai := s\<rparr>)
      | (Inl ConfigurationVersionNotFound, s) \<Rightarrow> (Inl 404, w\<lparr>po_ai := s\<rparr>)
      | (Inl ConfigConflict, s) \<Rightarrow> (Inl 500, w\<lparr>po_ai := s\<rparr>))"

definition create_config_endpoint :: "portal_env \<Rightarrow> ident \<Rightarrow> version_request \<Rightarrow> portal \<Rightarrow> portal_result" where
  "create_config_endpoint env c r w =
     ai_result VersionAnswer (create_version (pe_index_noise env) (pe_fresh env) (pe_now env) c r (po_ai w)) w"

definition config_history_endpoint :: "ident \<Rightarrow> portal \<Rightarrow> portal_result" where
  "config_history_endpoint c w = (Inr (VersionList (get_history c (po_ai w))), w)"

definition rollback_endpoint :: "portal_env \<Rightarrow> user_public \<Rightarrow> ident \<Rightarrow> ident \<Rightarrow> string \<Rightarrow> portal \<Rightarrow> portal_result" where
  "rollback_endpoint env operator c v reason w =
     ai_result EventAnswer (rollback_version (pe_index_noise env) (pe_now env) (up_email operator) reason c v (po_ai w)) w"

definition approve_endpoint :: "portal_env \<Rightarrow> user_public \<Rightarrow> ident \<Rightarrow> ident \<Rightarrow> portal \<Rightarrow> portal_result" where
  "approve_endpoint env operator c v w =
     ai_result VersionAnswer (approve_version (pe_version_noise env) (pe_now env) (up_email operator) c v (po_ai w)) w"

section \<open>Requests\<close>

datatype portal_call =
    GetQueryTrace ident | RecordFeedback ident int "string option" "string option"
  | GetConversation ident | ForgetConversation ident
  | CreateReplay replay_request | GetReplay ident | CancelReplay ident
  | CreateSnapshot "ident list option" "(string \<times> (string \<times> json) list list) option" | ListSnapshots
  | ListFeedback "review_status option" "string option" "int option" | ClassifyFeedback ident string
  | PromoteFeedback ident | ResolveFeedback ident
  | RunEvaluation | ListRuns | GetRun ident
  | CreateConfig ident version_request | ConfigHistory ident | RollbackConfig ident ident string | ApproveConfig ident ident

text \<open>The endpoints without \<open>Depends(require_operator)\<close>.\<close>

fun for_every_user :: "portal_call \<Rightarrow> bool" where
  "for_every_user (GetQueryTrace _) = True"
| "for_every_user (RecordFeedback _ _ _ _) = True"
| "for_every_user (GetConversation _) = True"
| "for_every_user (ForgetConversation _) = True"
| "for_every_user _ = False"

text \<open>The request models: bounds that the library checks before the handler runs.\<close>

fun valid_body :: "portal_call \<Rightarrow> bool" where
  "valid_body (RecordFeedback _ rating comment expected) =
     (1 \<le> rating \<and> rating \<le> 5 \<and> (case comment of None \<Rightarrow> True | Some c \<Rightarrow> length c \<le> 2000) \<and>
      (case expected of None \<Rightarrow> True | Some x \<Rightarrow> length x \<le> 5000))"
| "valid_body (CreateReplay r) =
     (valid_question (rq_question r) \<and> 1 \<le> rq_max_passages r \<and> rq_max_passages r \<le> 100 \<and>
      0 \<le> rq_min_score r \<and> rq_min_score r \<le> 1)"
| "valid_body (CreateConfig _ r) =
     (case vr_description r of None \<Rightarrow> False | Some d \<Rightarrow> 1 \<le> length d \<and> length d \<le> 500)"
| "valid_body (CreateSnapshot _ fixture) = (case fixture of None \<Rightarrow> True | Some (sql, _) \<Rightarrow> sql \<noteq> [])"
| "valid_body _ = True"

fun portal_handler :: "portal_env \<Rightarrow> user_public \<Rightarrow> portal_call \<Rightarrow> portal \<Rightarrow> portal_result" where
  "portal_handler env u (GetQueryTrace t) = get_query_trace_endpoint t"
| "portal_handler env u (RecordFeedback t rating comment expected) = record_feedback_endpoint env t rating comment expected"
| "portal_handler env u (GetConversation i) = get_conversation_endpoint env i"
| "portal_handler env u (ForgetConversation i) = forget_conversation_endpoint env i"
| "portal_handler env u (CreateReplay r) = create_replay_endpoint env r"
| "portal_handler env u (GetReplay i) = get_replay_endpoint i"
| "portal_handler env u (CancelReplay i) = cancel_replay_endpoint env i"
| "portal_handler env u (CreateSnapshot scope fixture) = create_snapshot_endpoint env scope fixture"
| "portal_handler env u ListSnapshots = list_snapshots_endpoint env"
| "portal_handler env u (ListFeedback status cursor n) = list_feedback_endpoint env status cursor n"
| "portal_handler env u (ClassifyFeedback i category) = classify_feedback_endpoint env u i category"
| "portal_handler env u (PromoteFeedback i) = promote_feedback_endpoint env i"
| "portal_handler env u (ResolveFeedback i) = resolve_feedback_endpoint env i"
| "portal_handler env u RunEvaluation = run_evaluation_endpoint env"
| "portal_handler env u ListRuns = list_runs_endpoint env"
| "portal_handler env u (GetRun i) = get_run_endpoint i"
| "portal_handler env u (CreateConfig c r) = create_config_endpoint env c r"
| "portal_handler env u (ConfigHistory c) = config_history_endpoint c"
| "portal_handler env u (RollbackConfig c v reason) = rollback_endpoint env u c v reason"
| "portal_handler env u (ApproveConfig c v) = approve_endpoint env u c v"

definition portal_request :: "crypto \<Rightarrow> auth_settings \<Rightarrow> auth_db \<Rightarrow> string option \<Rightarrow> portal_env \<Rightarrow> portal_call \<Rightarrow> portal
    \<Rightarrow> portal_result" where
  "portal_request c st db credentials env call w =
     (case get_current_user c st db credentials of
        Inl (HttpError code _) \<Rightarrow> (Inl code, w)
      | Inr u \<Rightarrow>
          (case (if for_every_user call then Inr u else require_operator st u) of
             Inl (HttpError code _) \<Rightarrow> (Inl code, w)
           | Inr operator \<Rightarrow> if \<not> valid_body call then (Inl 422, w) else portal_handler env operator call w))"
section \<open>Lemmas\<close>

definition quiet :: "portal_env \<Rightarrow> bool" where
  "quiet env \<longleftrightarrow> pe_feedback_noise env = [] \<and> pe_run_noise env = [] \<and> pe_index_noise env = [] \<and> pe_version_noise env = []"

definition fails_clean :: "(portal \<Rightarrow> portal_result) \<Rightarrow> bool" where
  "fails_clean h \<longleftrightarrow> (\<forall>w code w'. h w = (Inl code, w') \<and> code \<noteq> 500 \<longrightarrow> w' = w)"

lemma fails_cleanI: "(\<And>w code w'. h w = (Inl code, w') \<Longrightarrow> code \<noteq> 500 \<Longrightarrow> w' = w) \<Longrightarrow> fails_clean h"
  by (auto simp: fails_clean_def)

named_theorems clean \<open>handlers whose refusals change nothing\<close>

lemma reads_clean [clean]:
  "fails_clean (get_query_trace_endpoint t)" "fails_clean (get_conversation_endpoint env i)" "fails_clean (get_replay_endpoint i)"
  "fails_clean (list_snapshots_endpoint env)" "fails_clean (list_feedback_endpoint env status cursor n)"
  "fails_clean (list_runs_endpoint env)" "fails_clean (get_run_endpoint i)" "fails_clean (config_history_endpoint c)"
  by (auto simp: fails_clean_def get_query_trace_endpoint_def get_conversation_endpoint_def get_replay_endpoint_def
      list_snapshots_endpoint_def list_feedback_endpoint_def list_runs_endpoint_def get_run_endpoint_def config_history_endpoint_def
      Let_def split: sum.splits)

lemma found_Inl: "found_or_404 f x = Inl code \<longleftrightarrow> x = None \<and> code = 404"
  by (auto simp: found_or_404_def split: option.splits)

lemma record_feedback_clean [clean]: "fails_clean (record_feedback_endpoint env t rating comment expected)"
  by (rule fails_cleanI)
    (auto simp: record_feedback_endpoint_def record_query_feedback_def found_Inl feedback_world_of_def Let_def split: option.splits prod.splits)

lemma forget_clean [clean]: "fails_clean (forget_conversation_endpoint env i)"
  by (rule fails_cleanI)
    (auto simp: forget_conversation_endpoint_def forget_conversation_def found_Inl Let_def split: option.splits prod.splits sum.splits if_splits)

lemma create_replay_clean [clean]:
  assumes "quiet env" shows "fails_clean (create_replay_endpoint env r)"
  using assms
  by (intro fails_cleanI)
    (auto simp: create_replay_endpoint_def create_replay_run_def quiet_def cas_run_alone split: option.splits prod.splits sum.splits replay_error.splits)

lemma cancel_replay_clean [clean]:
  assumes "quiet env" shows "fails_clean (cancel_replay_endpoint env i)"
  using assms
  by (intro fails_cleanI)
    (auto simp: cancel_replay_endpoint_def cancel_replay_run_def quiet_def cas_run_alone split: option.splits prod.splits sum.splits replay_error.splits if_splits)

lemma create_snapshot_clean [clean]: "fails_clean (create_snapshot_endpoint env scope fixture)"
  by (rule fails_cleanI) (auto simp: create_snapshot_endpoint_def Let_def split: option.splits prod.splits)

lemma cas_update_feedback_alone:
  "cas_update_feedback [] key f s =
     (case key_cell key s of
        None \<Rightarrow> (Inl FeedbackOther, s)
      | Some r \<Rightarrow> (case f r of Inl e \<Rightarrow> (Inl e, s) | Inr x \<Rightarrow> (Inr x, put_json s key x)))"
  by (auto simp: cas_update_feedback_def feedback_cas_attempts_def update_json_cas_alone on_record_def split: option.splits sum.splits)

lemma classify_clean [clean]:
  assumes "quiet env" shows "fails_clean (classify_feedback_endpoint env u i category)"
  using assms
  by (intro fails_cleanI)
    (auto simp: classify_feedback_endpoint_def classify_feedback_def quiet_def cas_update_feedback_alone found_Inl
      split: option.splits prod.splits sum.splits feedback_error.splits)

lemma resolve_clean [clean]:
  assumes "quiet env" shows "fails_clean (resolve_feedback_endpoint env i)"
  using assms
  by (intro fails_cleanI)
    (auto simp: resolve_feedback_endpoint_def resolve_feedback_def quiet_def cas_update_feedback_alone found_Inl
      split: option.splits prod.splits sum.splits)

lemma promote_clean [clean]:
  assumes "quiet env" shows "fails_clean (promote_feedback_endpoint env i)"
proof (rule fails_cleanI)
  fix w code w'
  assume a: "promote_feedback_endpoint env i w = (Inl code, w')" "code \<noteq> 500"
  let ?fw = "feedback_world_of w"
  have "fst (promote_feedback [] (pe_set_id env) i ?fw) = Inr None \<or> (\<exists>e. fst (promote_feedback [] (pe_set_id env) i ?fw) = Inl e)"
    using a assms by (auto simp: promote_feedback_endpoint_def quiet_def found_Inl split: prod.splits sum.splits)
  moreover have "snd (promote_feedback [] (pe_set_id env) i ?fw) = ?fw \<or>
      (\<exists>c. fst (promote_feedback [] (pe_set_id env) i ?fw) = Inr (Some c))"
    by (auto simp: promote_feedback_def get_feedback_review_record_def cas_update_feedback_alone Let_def
        split: option.splits sum.splits prod.splits)
  ultimately have "snd (promote_feedback [] (pe_set_id env) i ?fw) = ?fw" by auto
  then show "w' = w" using a assms
    by (auto simp: promote_feedback_endpoint_def quiet_def feedback_world_of_def split: prod.splits)
qed

lemma run_evaluation_clean [clean]: "fails_clean (run_evaluation_endpoint env)"
  by (rule fails_cleanI)
    (auto simp: run_evaluation_endpoint_def run_evaluation_def Let_def split: prod.splits sum.splits eval_error.splits option.splits if_splits)
lemma create_config_clean [clean]:
  assumes "quiet env" shows "fails_clean (create_config_endpoint env c r)"
  using assms
  by (intro fails_cleanI)
    (auto simp: create_config_endpoint_def ai_result_def create_version_def quiet_def cas_index_alone append_version_def Let_def
      split: prod.splits sum.splits ai_error.splits option.splits)

lemma rollback_clean [clean]:
  assumes "quiet env" shows "fails_clean (rollback_endpoint env u c v reason)"
  using assms
  by (intro fails_cleanI)
    (auto simp: rollback_endpoint_def ai_result_def rollback_version_def quiet_def cas_index_alone
      split: prod.splits sum.splits ai_error.splits if_splits)

lemma approve_clean [clean]:
  assumes "quiet env" shows "fails_clean (approve_endpoint env u c v)"
  using assms
  by (intro fails_cleanI)
    (auto simp: approve_endpoint_def ai_result_def approve_version_def quiet_def update_json_cas_alone
      split: prod.splits sum.splits ai_error.splits option.splits)

lemma handlers_clean: "quiet env \<Longrightarrow> fails_clean (portal_handler env u call)"
  by (cases call) (simp_all add: clean)

section \<open>Properties\<close>


text \<open>Stored traces and conversations are not confined. The four endpoints on them never ask who the caller is:
  two authenticated callers with the same request get the same answer and leave the same stores, so that every caller
  reads, with its question, evidence and answer, every query trace, although \<open>/query\<close> and \<open>/ask\<close> are confined to the
  documents of the caller.\<close>

theorem traces_not_confined:
  assumes "get_current_user c st db cred1 = Inr u1" "get_current_user c st db cred2 = Inr u2" "for_every_user call"
  shows "portal_request c st db cred1 env call w = portal_request c st db cred2 env call w \<and>
    (case get_query_trace t (po_traces w) of
       None \<Rightarrow> True | Some tr \<Rightarrow> portal_request c st db cred1 env (GetQueryTrace t) w = (Inr (TraceAnswer tr), w))"
proof
  have "portal_handler env u1 call = portal_handler env u2 call" using assms(3) by (cases call) auto
  then show "portal_request c st db cred1 env call w = portal_request c st db cred2 env call w"
    using assms by (simp add: portal_request_def)
  show "case get_query_trace t (po_traces w) of
       None \<Rightarrow> True | Some tr \<Rightarrow> portal_request c st db cred1 env (GetQueryTrace t) w = (Inr (TraceAnswer tr), w)"
    using assms(1) by (auto simp: portal_request_def get_query_trace_endpoint_def found_or_404_def split: option.splits)
qed

text \<open>The documented error of a missing change description cannot occur: an absent, empty or overlong description
  is refused by the request model with status 422 before the handler runs, and no creation of a configuration version
  is ever answered with 400.\<close>

theorem description_error_unreachable:
  "fst (portal_request c st db credentials env (CreateConfig i r) w) \<noteq> Inl 400"
proof
  assume a: "fst (portal_request c st db credentials env (CreateConfig i r) w) = Inl 400"
  have auth: "get_current_user c st db credentials \<noteq> Inl (HttpError 400 m)" for m
    by (auto simp: get_current_user_def unauthorized_def split: option.splits sum.splits auth_error.splits if_splits)
  obtain u where u: "get_current_user c st db credentials = Inr u"
    using a auth by (auto simp: portal_request_def split: sum.splits http_error.splits)
  have gate: "require_operator st u \<noteq> Inl (HttpError 400 m)" for m by (simp add: require_operator_def)
  then obtain op where op: "require_operator st u = Inr op" "valid_body (CreateConfig i r)"
    "fst (create_config_endpoint env i r w) = Inl 400"
    using a u by (auto simp: portal_request_def split: sum.splits http_error.splits if_splits)
  obtain d where d: "vr_description r = Some d" "1 \<le> length d" "length d \<le> 500" using op(2) by (auto split: option.splits)
  have cas: "cas_index (pe_index_noise env) i (append_version i (pe_fresh env)) s \<noteq> (Inl ChangeDescriptionRequired, s')" for s s'
    by (auto simp: cas_index_def append_version_def Let_def split: prod.splits sum.splits cas_error.splits
        dest!: update_json_cas_aborted)
  have "create_version (pe_index_noise env) (pe_fresh env) (pe_now env) i r (po_ai w) \<noteq> (Inl ChangeDescriptionRequired, s')" for s'
    using d cas by (auto simp: create_version_def validate_change_description_def Let_def split: prod.splits sum.splits option.splits)
  then show False using op(3)
    by (auto simp: create_config_endpoint_def ai_result_def split: prod.splits sum.splits ai_error.splits)
qed
lemma fetch_documents_frame:
  "kb_vectors (snd (fetch_documents p readable ds c)) = kb_vectors c"
  "believed_record p d (snd (fetch_documents p readable ds c)) = believed_record p d c"
proof (induction ds arbitrary: c)
  case (Cons x ds)
  have v: "kb_vectors (snd (get_document p x c)) = kb_vectors c" for c by (auto simp: get_document_def split: option.splits)
  {
    case 1
    then show ?case using Cons(1) v by (simp add: Let_def case_prod_beta)
  next
    case 2
    then show ?case using Cons(2) by (simp add: Let_def case_prod_beta believed_record_stable)
  }
qed simp_all

lemma list_documents_frame:
  "kb_vectors (snd (list_documents p readable c)) = kb_vectors c"
  "believed_record p d (snd (list_documents p readable c)) = believed_record p d c"
  by (simp_all add: list_documents_def case_prod_beta fetch_documents_frame)

section \<open>Concrete instances\<close>

abbreviation demo_two_users :: auth_db where
  "demo_two_users \<equiv> \<lparr>db_users = [new_user ''u'' ''a@b.c'' ''pw'' 0, new_user ''v'' ''d@e.f'' ''pw'' 0], db_tokens = []\<rparr>"

lemma demo_two_users_authenticate:
  "get_current_user demo_crypto demo_settings demo_two_users (Some ''ku'') = Inr (to_public (new_user ''u'' ''a@b.c'' ''pw'' 0))"
  "get_current_user demo_crypto demo_settings demo_two_users (Some ''kv'') = Inr (to_public (new_user ''v'' ''d@e.f'' ''pw'' 0))"
  by (simp_all add: get_current_user_def or_none_def decode_token_def require_jwt_secret_def get_user_def get_by_id_def new_user_def)

text \<open>The trace of a question of the first user, read by the second.\<close>

theorem traces_not_confined_witness:
  "\<forall>env w. let w1 = w\<lparr>po_traces := put_json empty_store (query_trace_key ''t'') (demo_trace ''q'')\<rparr> in
     portal_request demo_crypto demo_settings demo_two_users (Some ''ku'') env (GetQueryTrace ''t'') w1 =
       portal_request demo_crypto demo_settings demo_two_users (Some ''kv'') env (GetQueryTrace ''t'') w1 \<and>
     portal_request demo_crypto demo_settings demo_two_users (Some ''kv'') env (GetQueryTrace ''t'') w1 =
       (Inr (TraceAnswer (demo_trace ''q'')), w1)"
proof (intro allI)
  fix env w
  have "get_query_trace ''t'' (put_json empty_store (query_trace_key ''t'') (demo_trace ''q'')) = Some (demo_trace ''q'')"
    by (simp add: get_query_trace_def key_cell_def put_json_def)
  then show "let w1 = w\<lparr>po_traces := put_json empty_store (query_trace_key ''t'') (demo_trace ''q'')\<rparr> in
     portal_request demo_crypto demo_settings demo_two_users (Some ''ku'') env (GetQueryTrace ''t'') w1 =
       portal_request demo_crypto demo_settings demo_two_users (Some ''kv'') env (GetQueryTrace ''t'') w1 \<and>
     portal_request demo_crypto demo_settings demo_two_users (Some ''kv'') env (GetQueryTrace ''t'') w1 =
       (Inr (TraceAnswer (demo_trace ''q'')), w1)"
    using traces_not_confined[OF demo_two_users_authenticate(2) demo_two_users_authenticate(1), where env = env and call = "GetQueryTrace ''t''"
        and t = "''t''" and w = "w\<lparr>po_traces := put_json empty_store (query_trace_key ''t'') (demo_trace ''q'')\<rparr>"]
    by (auto simp: Let_def)
qed


definition owned_corpus :: corpus where
  "owned_corpus = demo_corpus\<lparr>kb_records := put_json empty_store (document_record_key ''d'') (demo_record\<lparr>d_owner := Some ''a@b.c''\<rparr>)\<rparr>"

lemma owned_believed: "believed_record 0 ''d'' owned_corpus = Some (demo_record\<lparr>d_owner := Some ''a@b.c''\<rparr>)"
  by (simp add: believed_record_def get_document_def owned_corpus_def demo_corpus_def empty_corpus_def stored_record_def key_cell_def
      put_json_def demo_record_def)

lemma owned_hits:
  assumes "kb_vectors c = kb_vectors owned_corpus" "believed_record 0 ''d'' c = believed_record 0 ''d'' owned_corpus"
  shows "\<exists>w'. retrieve_hits demo_service question (Some [''d'']) (note_metrics ops (w\<lparr>rw_corpus := c\<rparr>)) = (Some [demo_gate_hit], w')"
proof -
  have v: "kb_vectors c = kb_vectors demo_corpus" using assms(1) by (simp add: owned_corpus_def)
  have "gate_open 0 (\<lambda>_. True) c demo_gate_hit"
    using assms(2) by (simp add: owned_believed demo_gate_hit_def demo_chunk_def demo_record_def published_version_of_def or_none_def)
  moreover have "index_search demo_engine 8 (Some [''d'']) (kb_vectors c) = [demo_gate_hit]"
    by (simp add: v index_search_def demo_engine_def demo_corpus_def demo_chunk_def)
  ultimately have "fst (filter_to_active 0 (\<lambda>_. True) [demo_gate_hit] Map.empty c) = [demo_gate_hit]"
    by (subst filter_to_active_eq) simp_all
  then show ?thesis
    by (simp add: retrieve_hits_def embed_query_def vector_search_def \<open>index_search _ _ _ _ = _\<close> demo_service_def Let_def case_prod_beta)
qed

lemma owned_list: "fst (list_documents 0 (\<lambda>_. True) owned_corpus) = [demo_record\<lparr>d_owner := Some ''a@b.c''\<rparr>]"
proof -
  have "list_document_record_keys (kb_records owned_corpus) = [''documents/d/record.json'']"
    by (simp add: list_document_record_keys_def list_keys_def owned_corpus_def put_json_def empty_store_def document_record_key_def
        py_startswith_iff py_endswith_iff suffix_def)
  moreover have "record_key_document ''documents/d/record.json'' = ''d''" by code_simp
  ultimately show ?thesis using owned_believed
    by (simp add: list_documents_def case_prod_beta Let_def believed_record_def demo_record_def split: option.splits)
qed


end
